(* ===== verification/Prelude.thy ===== *)
theory Prelude
  imports Main "HOL-Library.AList"
begin

text \<open>
  Shared vocabulary of the development: the scalar types of \<open>include/rollingraft/types.h\<close>,
  unsigned 32-bit arithmetic, the clock, and the association lists that stand for
  \<open>std::unordered_map\<close> members that the code iterates over. The lemmas here are the
  automation of the component theories: \<open>u32_simps\<close> removes the wrap-around of an
  in-range operation, \<open>alist_simps\<close> moves look-ups through updates and deletions.
\<close>

section \<open>Scalar types\<close>

text \<open>
  \<open>NodeId\<close> is a signed 32-bit integer with \<open>-1\<close> for ``none''; no code path does arithmetic
  on it, so it is an \<open>int\<close>. \<open>Term\<close> and \<open>Index\<close> are \<open>uint32_t\<close>: they are natural numbers, and
  every addition and subtraction of the code goes through \<open>u32_add\<close> and \<open>u32_sub\<close>, which
  write the wrap-around out.
\<close>

type_synonym NodeId = int
type_synonym NodeAddr = string
type_synonym Term = nat
type_synonym Index = nat

section \<open>Unsigned 32-bit arithmetic\<close>

named_theorems u32_simps
named_theorems alist_simps

definition U32 :: nat where
  "U32 = 4294967296"

definition u32 :: "nat \<Rightarrow> nat" where
  "u32 n = n mod U32"

definition u32_add :: "nat \<Rightarrow> nat \<Rightarrow> nat" where
  "u32_add a b = (a + b) mod U32"

definition u32_sub :: "nat \<Rightarrow> nat \<Rightarrow> nat" where
  "u32_sub a b = (a + (U32 - b mod U32)) mod U32"

lemma U32_pos [simp]: "0 < U32"
  by (simp add: U32_def)

lemma one_less_U32 [simp]: "Suc 0 < U32"
  by (simp add: U32_def)

lemma u32_id [u32_simps]: "n < U32 \<Longrightarrow> u32 n = n"
  by (simp add: u32_def)

lemma u32_less [simp]: "u32 n < U32"
  by (simp add: u32_def)

lemma u32_add_eq [u32_simps]: "a + b < U32 \<Longrightarrow> u32_add a b = a + b"
  by (simp add: u32_add_def)

lemma u32_add_less [simp]: "u32_add a b < U32"
  by (simp add: u32_add_def)

lemma u32_sub_eq [u32_simps]:
  assumes "b \<le> a" and "a < U32"
  shows "u32_sub a b = a - b"
proof -
  from assms have "a + (U32 - b mod U32) = U32 + (a - b)" and "a - b < U32" by auto
  then show ?thesis by (simp add: u32_sub_def)
qed

lemma u32_sub_less [simp]: "u32_sub a b < U32"
  by (simp add: u32_sub_def)

text \<open>Below zero the subtraction wraps to the top of the range, as \<open>uint32_t\<close> does.\<close>

lemma u32_sub_wraps:
  assumes "a < b" and "b < U32"
  shows "u32_sub a b = U32 - (b - a)"
proof -
  from assms have "a + (U32 - b mod U32) = U32 - (b - a)" and "U32 - (b - a) < U32" by auto
  then show ?thesis by (simp add: u32_sub_def)
qed

section \<open>Unsigned 64-bit arithmetic\<close>

definition U64 :: nat where
  "U64 = 18446744073709551616"

definition u64_add :: "nat \<Rightarrow> nat \<Rightarrow> nat" where
  "u64_add a b = (a + b) mod U64"

lemma u64_add_eq: "a + b < U64 \<Longrightarrow> u64_add a b = a + b"
  by (simp add: u64_add_def)

section \<open>Time\<close>

text \<open>
  A \<open>steady_clock::time_point\<close> is a number of nanoseconds. \<open>ms\<close> is
  \<open>std::chrono::milliseconds\<close> and \<open>elapsed_ms\<close> is \<open>duration_cast<milliseconds>(a - b).count()\<close>,
  which truncates towards zero. The code compares an elapsed time with a \<open>uint32_t\<close> limit as
  \<open>elapsed >= 0 && static_cast<uint32_t>(elapsed) < limit\<close>; \<open>within_ms\<close> is that test, with
  the cast's wrap-around kept, and \<open>beyond_ms\<close> is the same test with \<open>>=\<close>.
\<close>

type_synonym time = int

definition ms :: "nat \<Rightarrow> time" where
  "ms n = int n * 1000000"

definition elapsed_ms :: "time \<Rightarrow> time \<Rightarrow> int" where
  "elapsed_ms a b = (if b \<le> a then (a - b) div 1000000 else - ((b - a) div 1000000))"

definition within_ms :: "time \<Rightarrow> time \<Rightarrow> nat \<Rightarrow> bool" where
  "within_ms now t limit \<longleftrightarrow> 0 \<le> elapsed_ms now t \<and> u32 (nat (elapsed_ms now t)) < limit"

definition beyond_ms :: "time \<Rightarrow> time \<Rightarrow> nat \<Rightarrow> bool" where
  "beyond_ms now t limit \<longleftrightarrow> 0 \<le> elapsed_ms now t \<and> limit \<le> u32 (nat (elapsed_ms now t))"

lemma elapsed_ms_self [simp]: "elapsed_ms t t = 0"
  by (simp add: elapsed_ms_def)

lemma within_ms_self [simp]: "within_ms t t limit \<longleftrightarrow> 0 < limit"
  by (simp add: within_ms_def u32_def)

section \<open>Unordered maps that are iterated\<close>

text \<open>
  \<open>peer_map_\<close>, \<open>match_index_\<close>, \<open>quorum_acks_\<close> and the pending-request tables are
  \<open>std::unordered_map\<close>s that the code walks with a range-for. They are association lists
  with distinct keys whose order is the (unspecified) iteration order; \<open>AList.update\<close> is
  \<open>m[k] = v\<close>, \<open>AList.delete\<close> is \<open>m.erase(k)\<close> and \<open>map_of\<close> is \<open>m.find(k)\<close>.
\<close>

abbreviation keys :: "('k \<times> 'v) list \<Rightarrow> 'k list" where
  "keys al \<equiv> map fst al"

lemma map_of_update [alist_simps, simp]:
  "map_of (AList.update k v al) = (map_of al)(k \<mapsto> v)"
  by (rule AList.update_conv')

lemma map_of_delete [alist_simps, simp]:
  "map_of (AList.delete k al) = (map_of al)(k := None)"
  by (rule AList.delete_conv')

lemma keys_update [alist_simps, simp]:
  "set (keys (AList.update k v al)) = insert k (set (keys al))"
  by (induction al) auto

lemma keys_delete [alist_simps, simp]:
  "set (keys (AList.delete k al)) = set (keys al) - {k}"
  by (induction al) auto

lemma distinct_keys_update [intro, simp]:
  "distinct (keys al) \<Longrightarrow> distinct (keys (AList.update k v al))"
  by (rule AList.distinct_update)

lemma distinct_keys_delete [intro, simp]:
  "distinct (keys al) \<Longrightarrow> distinct (keys (AList.delete k al))"
  by (rule AList.distinct_delete)

text \<open>
  \<open>m[k]\<close> on a missing key inserts a value-initialised entry first. For the index tables,
  which are only used point-wise and are HOL maps, \<open>touch\<close> is that insertion and \<open>at0\<close>
  is the value read.
\<close>

definition touch :: "('k \<rightharpoonup> nat) \<Rightarrow> 'k \<Rightarrow> ('k \<rightharpoonup> nat)" where
  "touch m k = (case m k of None \<Rightarrow> m(k \<mapsto> 0) | Some _ \<Rightarrow> m)"

definition at0 :: "('k \<rightharpoonup> nat) \<Rightarrow> 'k \<Rightarrow> nat" where
  "at0 m k = (case m k of None \<Rightarrow> 0 | Some v \<Rightarrow> v)"

lemma at0_upd [simp]: "at0 (m(k \<mapsto> v)) k' = (if k' = k then v else at0 m k')"
  by (simp add: at0_def)

lemma at0_touch [simp]: "at0 (touch m k) k' = at0 m k'"
  by (auto simp: at0_def touch_def split: option.splits)

lemma touch_known [simp]: "m k = Some v \<Longrightarrow> touch m k = m"
  by (simp add: touch_def)

end
