(* ===== verification/Raft_Log.thy ===== *)
theory Raft_Log
  imports Prelude
begin

text \<open>
  The in-memory log of \<open>include/rollingraft/raft_log.h\<close> and \<open>src/raft_log.cpp\<close>: a deque of
  entries behind a start index, with a cached byte estimate. The first part is the class,
  one definition per method; the second part relates it to a finite map from indices to
  entries (\<open>log_map\<close>), proves that every method keeps the class invariant \<open>log_wf\<close> and
  refines the obvious map operation, and states the contract the replication code relies on
  as the locale \<open>log_store\<close>, interpreted on the class.
\<close>

section \<open>The class\<close>

record RaftLogEntry =
  e_index :: Index
  e_term :: Term
  e_data :: string
  e_command :: string
  e_checksum :: nat

record RaftLog =
  entries :: "RaftLogEntry list"
  start_index :: Index
  estimated_bytes :: nat

definition RaftLog_init :: RaftLog where
  "RaftLog_init = \<lparr>entries = [], start_index = 1, estimated_bytes = 0\<rparr>"

definition EstimateEntryBytes :: "RaftLogEntry \<Rightarrow> nat" where
  "EstimateEntryBytes e = 4 + 4 + length (e_data e)"

definition GetLastLogInfo :: "RaftLog \<Rightarrow> Index \<times> Term" where
  "GetLastLogInfo l =
     (if entries l = [] then (0, 0)
      else let e = last (entries l) in (e_index e, e_term e))"

definition LastLogIndex :: "RaftLog \<Rightarrow> Index" where
  "LastLogIndex l = fst (GetLastLogInfo l)"

definition LastLogTerm :: "RaftLog \<Rightarrow> Term" where
  "LastLogTerm l = snd (GetLastLogInfo l)"

definition GetFirstIndex :: "RaftLog \<Rightarrow> Index" where
  "GetFirstIndex l = start_index l"

text \<open>
  \<open>AppendLogEntry\<close> stores the entry as it is; \<open>Append\<close> assigns the index itself. Both return
  \<open>Status::OK()\<close> on every path, so the status is left out and the error branches of their
  callers, which are dead code, are not modelled.
\<close>

definition AppendLogEntry :: "RaftLogEntry \<Rightarrow> RaftLog \<Rightarrow> RaftLog" where
  "AppendLogEntry e l =
     l\<lparr>entries := entries l @ [e],
       estimated_bytes := estimated_bytes l + EstimateEntryBytes e\<rparr>"

definition Append :: "Term \<Rightarrow> string \<Rightarrow> RaftLog \<Rightarrow> Index \<times> RaftLog" where
  "Append t d l =
     (let last_index = fst (GetLastLogInfo l);
          new_index = (if last_index = 0 then start_index l else u32_add last_index 1);
          e = \<lparr>e_index = new_index, e_term = t, e_data = d, e_command = [], e_checksum = 0\<rparr>
      in (new_index,
          l\<lparr>entries := entries l @ [e],
            estimated_bytes := estimated_bytes l + EstimateEntryBytes e\<rparr>))"

definition ToPhysicalIndex :: "RaftLog \<Rightarrow> Index \<Rightarrow> nat" where
  "ToPhysicalIndex l i = u32_sub i (start_index l)"

definition IsInRange :: "RaftLog \<Rightarrow> Index \<Rightarrow> bool" where
  "IsInRange l i \<longleftrightarrow>
     start_index l \<le> i \<and> i < u32_add (start_index l) (u32 (length (entries l)))"

definition GetEntry :: "RaftLog \<Rightarrow> Index \<Rightarrow> RaftLogEntry option" where
  "GetEntry l i = (if IsInRange l i then Some (entries l ! ToPhysicalIndex l i) else None)"

text \<open>The copy loop \<open>for (i = phys_start; i < phys_end; ++i) result.push_back(entries_[i])\<close>.\<close>

definition GetEntries :: "RaftLog \<Rightarrow> Index \<Rightarrow> Index \<Rightarrow> RaftLogEntry list" where
  "GetEntries l s e =
     (if e \<le> s \<or> entries l = [] then []
      else
        let actual_start = max s (start_index l);
            actual_end = min e (u32_add (start_index l) (u32 (length (entries l))))
        in if actual_end \<le> actual_start then []
           else map (\<lambda>i. entries l ! i)
                  [ToPhysicalIndex l actual_start ..< ToPhysicalIndex l actual_end])"

definition GetLogTerm :: "RaftLog \<Rightarrow> Index \<Rightarrow> Term" where
  "GetLogTerm l i =
     (if i = 0 then 0
      else case GetEntry l i of None \<Rightarrow> 0 | Some e \<Rightarrow> e_term e)"

text \<open>The loop \<open>while (entries_.size() > new_size) ... entries_.pop_back()\<close>.\<close>

function pop_back_to :: "nat \<Rightarrow> RaftLog \<Rightarrow> RaftLog" where
  "pop_back_to n l =
     (if n < length (entries l)
      then pop_back_to n
             (l\<lparr>estimated_bytes := estimated_bytes l - EstimateEntryBytes (last (entries l)),
                entries := butlast (entries l)\<rparr>)
      else l)"
  by pat_completeness auto
termination
  by (relation "measure (\<lambda>(n, l). length (entries l))") auto

declare pop_back_to.simps [simp del]

text \<open>
  In \<open>from_index > start_index_ + entries_.size()\<close> the sum is computed in \<open>size_t\<close>, so this
  guard, unlike the one of \<open>IsInRange\<close>, does not wrap.
\<close>

definition TruncateSuffix :: "Index \<Rightarrow> RaftLog \<Rightarrow> RaftLog" where
  "TruncateSuffix from l =
     (if start_index l + length (entries l) < from then l
      else if from \<le> start_index l then l\<lparr>entries := [], estimated_bytes := 0\<rparr>
      else pop_back_to (ToPhysicalIndex l from) l)"

definition SetStartIndex :: "Index \<Rightarrow> RaftLog \<Rightarrow> RaftLog" where
  "SetStartIndex i l = l\<lparr>entries := [], estimated_bytes := 0, start_index := i\<rparr>"

definition GetLogStats :: "RaftLog \<Rightarrow> nat \<times> nat" where
  "GetLogStats l = (length (entries l), estimated_bytes l)"

section \<open>The invariant and the abstract log\<close>

text \<open>
  Between any two calls the entries carry consecutive indices from \<open>start_index\<close>, the byte
  counter is the sum of the entries' estimates, and the index after the last one is still a
  \<open>uint32_t\<close>.
\<close>

definition log_end :: "RaftLog \<Rightarrow> nat" where
  "log_end l = start_index l + length (entries l)"

definition log_wf :: "RaftLog \<Rightarrow> bool" where
  "log_wf l \<longleftrightarrow>
     1 \<le> start_index l \<and> log_end l < U32 \<and>
     map e_index (entries l) = [start_index l ..< log_end l] \<and>
     estimated_bytes l = sum_list (map EstimateEntryBytes (entries l))"

definition log_map :: "RaftLog \<Rightarrow> Index \<rightharpoonup> RaftLogEntry" where
  "log_map l i =
     (if start_index l \<le> i \<and> i < log_end l then Some (entries l ! (i - start_index l)) else None)"

lemma log_wfD [dest]:
  assumes "log_wf l"
  shows "1 \<le> start_index l" and "log_end l < U32"
    and "map e_index (entries l) = [start_index l ..< log_end l]"
    and "estimated_bytes l = sum_list (map EstimateEntryBytes (entries l))"
  using assms by (auto simp: log_wf_def)

lemma log_wf_init [simp, intro]: "log_wf RaftLog_init"
  by (simp add: log_wf_def RaftLog_init_def log_end_def U32_def)

lemma log_wf_start_less: "log_wf l \<Longrightarrow> start_index l < U32"
  by (auto simp: log_wf_def log_end_def)

lemma log_wf_nth_index:
  assumes "log_wf l" and "k < length (entries l)"
  shows "e_index (entries l ! k) = start_index l + k"
proof -
  have "map e_index (entries l) ! k = [start_index l ..< log_end l] ! k"
    by (simp only: log_wfD(3) [OF assms(1)])
  then show ?thesis using assms(2) by (simp add: log_end_def)
qed

lemma log_end_nonempty: "entries l \<noteq> [] \<Longrightarrow> start_index l < log_end l"
  by (simp add: log_end_def)

lemma log_wf_range [simp]:
  assumes "log_wf l"
  shows "u32_add (start_index l) (u32 (length (entries l))) = log_end l"
  using assms by (auto simp: log_wf_def log_end_def u32_simps)

lemma log_wf_phys [simp]:
  assumes "log_wf l" and "start_index l \<le> i" and "i \<le> log_end l"
  shows "ToPhysicalIndex l i = i - start_index l"
  using assms by (auto simp: ToPhysicalIndex_def log_wf_def u32_simps)

lemma GetEntry_log_map: "log_wf l \<Longrightarrow> GetEntry l = log_map l"
  by (rule ext) (simp add: GetEntry_def IsInRange_def log_map_def)

lemma log_map_index: "log_wf l \<Longrightarrow> log_map l i = Some e \<Longrightarrow> e_index e = i"
  by (auto simp: log_map_def log_end_def log_wf_nth_index split: if_splits)

lemma dom_log_map: "dom (log_map l) = {start_index l ..< log_end l}"
  by (auto simp: log_map_def split: if_splits)

lemma GetLastLogInfo_wf:
  assumes "log_wf l"
  shows "GetLastLogInfo l =
    (if entries l = [] then (0, 0)
     else (log_end l - 1, e_term (the (log_map l (log_end l - 1)))))"
proof (cases "entries l = []")
  case True
  then show ?thesis by (simp add: GetLastLogInfo_def)
next
  case False
  with assms have "e_index (last (entries l)) = log_end l - 1"
    by (cases "length (entries l)") (simp_all add: last_conv_nth log_wf_nth_index log_end_def)
  with False show ?thesis
    by (cases "length (entries l)")
      (simp_all add: GetLastLogInfo_def Let_def log_map_def log_end_def last_conv_nth)
qed

lemma LastLogIndex_wf:
  "log_wf l \<Longrightarrow> LastLogIndex l = (if entries l = [] then 0 else log_end l - 1)"
  by (simp add: LastLogIndex_def GetLastLogInfo_wf)

lemma log_wf_last_nonzero: "log_wf l \<Longrightarrow> LastLogIndex l = 0 \<longleftrightarrow> entries l = []"
  using log_end_nonempty [of l] by (auto simp: LastLogIndex_wf dest: log_wfD(1))

section \<open>Each method on the abstract log\<close>

definition new_entry :: "RaftLog \<Rightarrow> Term \<Rightarrow> string \<Rightarrow> RaftLogEntry" where
  "new_entry l t d =
     \<lparr>e_index = log_end l, e_term = t, e_data = d, e_command = [], e_checksum = 0\<rparr>"

lemma Append_wf_eq:
  assumes "log_wf l"
  shows "Append t d l = (log_end l, AppendLogEntry (new_entry l t d) l)"
proof -
  have "(if fst (GetLastLogInfo l) = 0 then start_index l
         else u32_add (fst (GetLastLogInfo l)) 1) = log_end l"
  proof (cases "entries l = []")
    case True
    then show ?thesis by (simp add: GetLastLogInfo_def log_end_def)
  next
    case False
    with assms log_end_nonempty [OF False] log_wfD(1,2) [OF assms] show ?thesis
      by (simp add: GetLastLogInfo_wf u32_simps)
  qed
  then show ?thesis
    by (simp add: Append_def Let_def AppendLogEntry_def new_entry_def)
qed

lemma AppendLogEntry_wf:
  assumes "log_wf l" and "e_index e = log_end l" and "log_end l + 1 < U32"
  shows "log_wf (AppendLogEntry e l)"
  using assms by (auto simp: log_wf_def AppendLogEntry_def log_end_def)

lemma AppendLogEntry_log_end [simp]: "log_end (AppendLogEntry e l) = Suc (log_end l)"
  by (simp add: log_end_def AppendLogEntry_def)

lemma AppendLogEntry_start [simp]: "start_index (AppendLogEntry e l) = start_index l"
  by (simp add: AppendLogEntry_def)

lemma AppendLogEntry_log_map:
  "log_map (AppendLogEntry e l) = (log_map l)(log_end l \<mapsto> e)"
  by (rule ext) (auto simp: log_map_def log_end_def AppendLogEntry_def nth_append)

lemma pop_back_to_eq:
  assumes "estimated_bytes l = sum_list (map EstimateEntryBytes (entries l))"
  shows "pop_back_to n l =
    l\<lparr>entries := take n (entries l),
      estimated_bytes := sum_list (map EstimateEntryBytes (take n (entries l)))\<rparr>"
  using assms
proof (induction n l rule: pop_back_to.induct)
  case (1 n l)
  show ?case
  proof (cases "n < length (entries l)")
    case True
    let ?l = "l\<lparr>estimated_bytes := estimated_bytes l - EstimateEntryBytes (last (entries l)),
                entries := butlast (entries l)\<rparr>"
    from True have "entries l \<noteq> []" by auto
    then have split: "entries l = butlast (entries l) @ [last (entries l)]" by simp
    have "sum_list (map EstimateEntryBytes (entries l)) =
        sum_list (map EstimateEntryBytes (butlast (entries l))) + EstimateEntryBytes (last (entries l))"
      by (subst split) simp
    then have "estimated_bytes ?l = sum_list (map EstimateEntryBytes (entries ?l))"
      using "1.prems" by simp
    from "1.IH" [OF True this] True show ?thesis
      by (simp add: pop_back_to.simps [of n l] take_butlast)
  next
    case False
    with "1.prems" show ?thesis by (simp add: pop_back_to.simps [of n l])
  qed
qed

lemma TruncateSuffix_wf_eq:
  assumes "log_wf l"
  shows "TruncateSuffix from l =
    l\<lparr>entries := take (from - start_index l) (entries l),
      estimated_bytes := sum_list (map EstimateEntryBytes (take (from - start_index l) (entries l)))\<rparr>"
proof (cases "start_index l < from \<and> from \<le> log_end l")
  case True
  with assms show ?thesis
    by (simp add: TruncateSuffix_def pop_back_to_eq [OF log_wfD(4) [OF assms]] log_end_def)
next
  case False
  with assms show ?thesis
    by (auto simp: TruncateSuffix_def log_end_def log_wf_def)
qed

lemma TruncateSuffix_start [simp]:
  "log_wf l \<Longrightarrow> start_index (TruncateSuffix from l) = start_index l"
  by (simp add: TruncateSuffix_wf_eq)

lemma TruncateSuffix_log_end:
  assumes "log_wf l"
  shows "log_end (TruncateSuffix from l) = max (start_index l) (min from (log_end l))"
  using assms by (auto simp: TruncateSuffix_wf_eq log_end_def)

lemma TruncateSuffix_wf:
  assumes "log_wf l"
  shows "log_wf (TruncateSuffix from l)"
proof -
  have "map e_index (take n (entries l)) = [start_index l ..< start_index l + min (length (entries l)) n]" for n
    using assms by (simp flip: take_map add: log_wf_def log_end_def min_def)
  with assms show ?thesis
    by (auto simp: TruncateSuffix_wf_eq log_wf_def log_end_def min_def)
qed

lemma TruncateSuffix_log_map:
  assumes "log_wf l"
  shows "log_map (TruncateSuffix from l) = log_map l |` {..<from}"
  using assms
  by (intro ext) (auto simp: TruncateSuffix_wf_eq log_map_def log_end_def restrict_map_def)

lemma SetStartIndex_wf: "1 \<le> i \<Longrightarrow> i < U32 \<Longrightarrow> log_wf (SetStartIndex i l)"
  by (simp add: SetStartIndex_def log_wf_def log_end_def)

lemma SetStartIndex_log_map [simp]: "log_map (SetStartIndex i l) = Map.empty"
  by (rule ext) (simp add: SetStartIndex_def log_map_def log_end_def)

lemma GetEntries_wf_eq:
  assumes "log_wf l"
  shows "GetEntries l s e = map (the \<circ> log_map l) [max s (start_index l) ..< min e (log_end l)]"
proof (cases "e \<le> s \<or> entries l = [] \<or> min e (log_end l) \<le> max s (start_index l)")
  case True
  with assms show ?thesis by (auto simp: GetEntries_def log_end_def)
next
  case False
  let ?a = "max s (start_index l)" and ?b = "min e (log_end l)"
  from False have "ToPhysicalIndex l ?a = ?a - start_index l" and
      "ToPhysicalIndex l ?b = ?b - start_index l"
    by (auto intro!: log_wf_phys [OF assms])
  with False assms have "GetEntries l s e =
      map (\<lambda>i. entries l ! i) [?a - start_index l ..< ?b - start_index l]"
    by (simp add: GetEntries_def)
  also have "\<dots> = map (the \<circ> log_map l) [?a ..< ?b]"
  proof (rule nth_equalityI)
    show "length (map (\<lambda>i. entries l ! i) [?a - start_index l ..< ?b - start_index l]) =
        length (map (the \<circ> log_map l) [?a ..< ?b])" by auto
  next
    fix k
    assume "k < length (map (\<lambda>i. entries l ! i) [?a - start_index l ..< ?b - start_index l])"
    then have k: "k < ?b - ?a" by auto
    then have "[?a ..< ?b] ! k = ?a + k" and "[?a - start_index l ..< ?b - start_index l] ! k =
        ?a + k - start_index l" by (simp_all add: less_diff_conv)
    with k show "map (\<lambda>i. entries l ! i) [?a - start_index l ..< ?b - start_index l] ! k =
        map (the \<circ> log_map l) [?a ..< ?b] ! k"
      by (simp add: log_map_def less_diff_conv)
  qed
  finally show ?thesis .
qed

lemma length_GetEntries:
  "log_wf l \<Longrightarrow> length (GetEntries l s e) = min e (log_end l) - max s (start_index l)"
  by (simp add: GetEntries_wf_eq)

section \<open>The log-store contract\<close>

text \<open>
  What replication relies on from a log: looking up after an append or a truncation, where
  the next entry goes, and the capacity left. \<open>payload\<close> is what a replica compares, the pair
  of term and data.
\<close>

locale log_store =
  fixes inv :: "'l \<Rightarrow> bool"
    and lookup :: "'l \<Rightarrow> nat \<Rightarrow> 'e option"
    and next_slot :: "'l \<Rightarrow> nat"
    and room :: "'l \<Rightarrow> nat"
    and app :: "'e \<Rightarrow> 'l \<Rightarrow> 'l"
    and trunc :: "nat \<Rightarrow> 'l \<Rightarrow> 'l"
  assumes lookup_beyond: "inv l \<Longrightarrow> next_slot l \<le> i \<Longrightarrow> lookup l i = None"
    and lookup_app: "inv l \<Longrightarrow> 0 < room l \<Longrightarrow> lookup (app e l) = (lookup l)(next_slot l \<mapsto> e)"
    and next_app: "inv l \<Longrightarrow> 0 < room l \<Longrightarrow> next_slot (app e l) = Suc (next_slot l)"
    and room_app: "inv l \<Longrightarrow> 0 < room l \<Longrightarrow> room (app e l) = room l - 1"
    and inv_app: "inv l \<Longrightarrow> 0 < room l \<Longrightarrow> inv (app e l)"
    and lookup_trunc: "inv l \<Longrightarrow> lookup (trunc i l) = lookup l |` {..<i}"
    and next_trunc: "inv l \<Longrightarrow> lookup l i \<noteq> None \<Longrightarrow> next_slot (trunc i l) = i"
    and inv_trunc: "inv l \<Longrightarrow> inv (trunc i l)"
    and room_trunc: "inv l \<Longrightarrow> room l \<le> room (trunc i l)"
begin

lemma app_all:
  assumes "inv l" and "length es \<le> room l"
  shows "inv (fold app es l) \<and> next_slot (fold app es l) = next_slot l + length es \<and>
    lookup (fold app es l) =
      (\<lambda>i. if next_slot l \<le> i \<and> i < next_slot l + length es
           then Some (es ! (i - next_slot l)) else lookup l i)"
  using assms
proof (induction es arbitrary: l)
  case Nil
  then show ?case by (auto simp: fun_eq_iff)
next
  case (Cons e es)
  then have pos: "inv l" "0 < room l" by auto
  with Cons.prems have "inv (app e l)" and "length es \<le> room (app e l)"
    by (auto simp: inv_app room_app)
  from Cons.IH [OF this] pos show ?case
    by (auto simp: lookup_app next_app fun_eq_iff nth_Cons')
qed

lemmas app_all_inv = app_all [THEN conjunct1]
lemmas app_all_next = app_all [THEN conjunct2, THEN conjunct1]
lemmas app_all_lookup = app_all [THEN conjunct2, THEN conjunct2]

text \<open>Appending never disturbs what is already stored.\<close>

lemma app_all_keeps:
  assumes "inv l" and "length es \<le> room l" and "lookup l i = Some e"
  shows "lookup (fold app es l) i = Some e"
  using assms lookup_beyond [of l i] by (force simp: app_all_lookup not_le)

text \<open>Cutting the log at a stored index and appending \<open>es\<close> replaces the tail by \<open>es\<close>.\<close>

lemma replace_tail:
  assumes "inv l" and "lookup l i \<noteq> None" and "length es \<le> room l"
  shows "lookup (fold app es (trunc i l)) =
    (\<lambda>j. if j < i then lookup l j
         else if j < i + length es then Some (es ! (j - i)) else None)"
proof -
  have "inv (trunc i l)" and "next_slot (trunc i l) = i"
    and "length es \<le> room (trunc i l)" and "lookup (trunc i l) = lookup l |` {..<i}"
    using assms room_trunc [of l i] by (auto simp: inv_trunc next_trunc lookup_trunc)
  then show ?thesis
    by (auto simp: app_all_lookup fun_eq_iff restrict_map_def)
qed

end

definition payload :: "RaftLogEntry \<Rightarrow> Term \<times> string" where
  "payload e = (e_term e, e_data e)"

definition log_room :: "RaftLog \<Rightarrow> nat" where
  "log_room l = U32 - 1 - log_end l"

interpretation rlog: log_store log_wf "\<lambda>l i. map_option payload (GetEntry l i)" log_end log_room
  "\<lambda>(t, d) l. snd (Append t d l)" TruncateSuffix
proof (unfold_locales, goal_cases)
  case (1 l i)
  then show ?case by (simp add: GetEntry_log_map log_map_def)
next
  case (2 l e)
  then have "log_wf (AppendLogEntry (new_entry l (fst e) (snd e)) l)"
    by (auto intro!: AppendLogEntry_wf simp: new_entry_def log_room_def)
  with 2 show ?case
    by (auto simp: Append_wf_eq GetEntry_log_map AppendLogEntry_log_map fun_eq_iff payload_def
        new_entry_def split: prod.splits)
next
  case (3 l e)
  then show ?case by (simp add: Append_wf_eq split: prod.splits)
next
  case (4 l e)
  then show ?case by (simp add: Append_wf_eq log_room_def split: prod.splits)
next
  case (5 l e)
  then show ?case
    by (auto simp: Append_wf_eq log_room_def new_entry_def intro!: AppendLogEntry_wf split: prod.splits)
next
  case (6 l i)
  then show ?case
    by (simp add: GetEntry_log_map TruncateSuffix_wf TruncateSuffix_log_map fun_eq_iff restrict_map_def)
next
  case (7 l i)
  then show ?case
    by (auto simp: TruncateSuffix_log_end GetEntry_log_map log_map_def split: if_splits)
next
  case (8 l i)
  then show ?case by (rule TruncateSuffix_wf)
next
  case (9 l i)
  then have "start_index l \<le> log_end l" by (simp add: log_end_def)
  with 9 show ?case by (auto simp: log_room_def TruncateSuffix_log_end)
qed

section \<open>Properties\<close>

text \<open>
  C13: The in-memory log implements a partial map from indices to entries. Append stores the new
  entry at the first free index and returns that index; TruncateSuffix keeps exactly the entries
  below its argument; both keep the log contiguous and its byte estimate exact; a range query
  returns exactly the stored entries of the range, in index order; a lookup agrees with the map.
\<close>

theorem log_refines_map:
  assumes "log_wf l" and "Suc (log_end l) < U32"
  shows "fst (Append t d l) = log_end l \<and>
    log_map (snd (Append t d l)) = (log_map l)(log_end l \<mapsto> new_entry l t d) \<and>
    log_wf (snd (Append t d l)) \<and>
    log_map (TruncateSuffix i l) = log_map l |` {..<i} \<and> log_wf (TruncateSuffix i l) \<and>
    GetEntry l = log_map l \<and>
    GetEntries l a b = map (the \<circ> log_map l) (filter (\<lambda>k. a \<le> k \<and> k < b) [start_index l ..< log_end l])"
proof -
  have wf: "log_wf (AppendLogEntry (new_entry l t d) l)"
    using assms by (intro AppendLogEntry_wf) (simp_all add: new_entry_def)
  have "[max a (start_index l) ..< min b (log_end l)] = filter (\<lambda>k. a \<le> k \<and> k < b) [start_index l ..< log_end l]"
    by (rule sorted_distinct_set_unique) (auto intro: sorted_wrt_filter)
  with assms wf show ?thesis
    by (simp add: Append_wf_eq AppendLogEntry_log_map TruncateSuffix_log_map TruncateSuffix_wf
        GetEntry_log_map GetEntries_wf_eq)
qed

theorem log_refines_map_witness:
  "fst (Append 3 ''x'' (RaftLog_init\<lparr>start_index := 7\<rparr>)) = 7 \<and>
   log_map (snd (Append 3 ''x'' (RaftLog_init\<lparr>start_index := 7\<rparr>))) 7 =
     Some \<lparr>e_index = 7, e_term = 3, e_data = ''x'', e_command = [], e_checksum = 0\<rparr>"
  using log_refines_map [of "RaftLog_init\<lparr>start_index := 7\<rparr>" 3 "''x''" 0 0 0]
  by (simp add: log_wf_def RaftLog_init_def log_end_def U32_def new_entry_def)

text \<open>
  Resolving a conflict works: cutting the log at a stored index and appending the leader's
  entries makes the log equal to the old one below that index, equal to the leader's entries
  from it on, and empty beyond them.
\<close>

theorem conflict_resolution_replaces_tail:
  assumes "log_wf l" and "GetEntry l i \<noteq> None" and "length es \<le> log_room l"
  shows "map_option payload (GetEntry (fold (\<lambda>(t, d) l. snd (Append t d l)) es (TruncateSuffix i l)) j) =
    (if j < i then map_option payload (GetEntry l j)
     else if j < i + length es then Some (es ! (j - i)) else None)"
  using rlog.replace_tail [OF assms(1) _ assms(3), of i] assms(2) by (simp add: fun_eq_iff)

theorem conflict_resolution_replaces_tail_witness:
  "map_option payload (GetEntry (fold (\<lambda>(t, d) l. snd (Append t d l)) [(2, ''b''), (2, ''c'')]
      (TruncateSuffix 1 (snd (Append 1 ''a'' RaftLog_init)))) 2) = Some (2, ''c'')"
proof -
  let ?l = "snd (Append 1 ''a'' RaftLog_init)"
  have l: "?l = \<lparr>entries = [\<lparr>e_index = 1, e_term = 1, e_data = ''a'', e_command = [], e_checksum = 0\<rparr>],
      start_index = 1, estimated_bytes = 9\<rparr>"
    unfolding Append_wf_eq [OF log_wf_init]
    by (simp add: AppendLogEntry_def new_entry_def RaftLog_init_def log_end_def EstimateEntryBytes_def)
  have "log_wf ?l" "length [(2 :: nat, ''b''), (2, ''c'')] \<le> log_room ?l"
    unfolding l by (simp_all add: log_wf_def log_end_def log_room_def U32_def EstimateEntryBytes_def)
  moreover from this(1) have "GetEntry ?l 1 \<noteq> None"
    unfolding l by (simp add: GetEntry_log_map log_map_def log_end_def)
  ultimately show ?thesis
    using conflict_resolution_replaces_tail [of ?l 1 "[(2, ''b''), (2, ''c'')]" 2] by simp
qed

end
