(* ===== verification/Rpc_Messages.thy ===== *)
theory Rpc_Messages
  imports Raft_Log
begin

text \<open>
  The messages of \<open>include/rollingraft/rpc.h\<close>. The \<open>type_\<close> tag of the base structs is the
  constructor of \<open>rpc_request\<close> and \<open>rpc_response\<close>; \<open>correlation_id_\<close> and \<open>group_id\<close> are fields of
  every message, as in the base structs.
\<close>

record RequestVoteRequest =
  rv_correlation_id :: nat
  rv_group_id :: nat
  rv_term :: Term
  rv_candidate_id :: NodeId
  rv_last_log_index :: Index
  rv_last_log_term :: Term

record RequestVoteResponse =
  rvr_term :: Term
  rvr_vote_granted :: bool

record AppendEntriesRequest =
  ae_correlation_id :: nat
  ae_group_id :: nat
  ae_term :: Term
  ae_leader_id :: NodeId
  ae_prev_log_index :: Index
  ae_prev_log_term :: Term
  ae_entries :: "RaftLogEntry list"
  ae_leader_commit :: Index

record AppendEntriesResponse =
  aer_term :: Term
  aer_success :: bool
  aer_conflict_index :: Index
  aer_entries_count :: Index

record InstallSnapshotRequest =
  is_correlation_id :: nat
  is_group_id :: nat
  is_term :: Term
  is_leader_id :: NodeId
  is_last_included_index :: Index
  is_last_included_term :: Term
  is_offset :: nat
  is_data :: string
  is_done :: bool

record InstallSnapshotResponse =
  isr_term :: Term

record PreVoteRequest =
  pv_correlation_id :: nat
  pv_group_id :: nat
  pv_term :: Term
  pv_candidate_id :: NodeId
  pv_last_log_index :: Index
  pv_last_log_term :: Term

record PreVoteResponse =
  pvr_term :: Term
  pvr_vote_granted :: bool

record ClientRequest =
  cr_group_id :: nat
  cr_command :: string
  cr_client_id :: nat
  cr_seq :: nat
  cr_read_only :: bool

record ClientResponse =
  crr_success :: bool
  crr_response :: string
  crr_error :: string
  crr_error_code :: string
  crr_last_applied_index :: Index
  crr_leader_id :: NodeId
  crr_leader_addr :: NodeAddr

definition ClientResponse_init :: ClientResponse where
  "ClientResponse_init =
     \<lparr>crr_success = False, crr_response = [], crr_error = [], crr_error_code = [],
      crr_last_applied_index = 0, crr_leader_id = -1, crr_leader_addr = []\<rparr>"

record ReadIndexResponse =
  rir_term :: Term
  rir_read_index :: Index
  rir_leader_valid :: bool

datatype rpc_request =
    RequestVote RequestVoteRequest
  | AppendEntries AppendEntriesRequest
  | InstallSnapshot InstallSnapshotRequest
  | PreVote PreVoteRequest

end
