(* ===== verification/Cluster_Config.thy ===== *)
theory Cluster_Config
  imports Prelude
begin

text \<open>
  \<open>struct ClusterConfig\<close> of \<open>include/rollingraft/raft_node.h\<close> and the quorum test
  \<open>RaftNodeImpl::QuorumSatisfied\<close> of \<open>src/election_manager.cpp\<close>. The \<open>quorum\<close> locale is the
  contract elections and commits rest on: two satisfied quorums share a voter. It is
  interpreted on a configuration, and a second locale states the overlap that a
  configuration change needs between the quorums before and after it.
\<close>

section \<open>The struct\<close>

record ClusterConfig =
  cc_nodes :: "NodeId list"
  cc_old_nodes :: "NodeId list"
  cc_learners :: "NodeId list"
  cc_version :: nat
  cc_is_joint :: bool

fun IsMember :: "NodeId \<Rightarrow> NodeId list \<Rightarrow> bool" where
  "IsMember i [] = False"
| "IsMember i (n # ns) = (if n = i then True else IsMember i ns)"

definition Contains :: "ClusterConfig \<Rightarrow> NodeId \<Rightarrow> bool" where
  "Contains c i =
     (if IsMember i (cc_nodes c) then True
      else if cc_is_joint c \<and> IsMember i (cc_old_nodes c) then True
      else if IsMember i (cc_learners c) then True
      else False)"

definition IsVoter :: "ClusterConfig \<Rightarrow> NodeId \<Rightarrow> bool" where
  "IsVoter c i =
     (if IsMember i (cc_nodes c) then True
      else if cc_is_joint c \<and> IsMember i (cc_old_nodes c) then True
      else False)"

definition IsLearner :: "ClusterConfig \<Rightarrow> NodeId \<Rightarrow> bool" where
  "IsLearner c i = IsMember i (cc_learners c)"

definition GetMajority :: "ClusterConfig \<Rightarrow> nat" where
  "GetMajority c = u32 (length (cc_nodes c)) div 2 + 1"

definition GetOldMajority :: "ClusterConfig \<Rightarrow> nat" where
  "GetOldMajority c = u32 (length (cc_old_nodes c)) div 2 + 1"

definition JointMajoritySatisfied :: "ClusterConfig \<Rightarrow> nat \<Rightarrow> nat \<Rightarrow> bool" where
  "JointMajoritySatisfied c old_count new_count =
     (if \<not> cc_is_joint c then GetMajority c \<le> new_count
      else GetOldMajority c \<le> old_count \<and> GetMajority c \<le> new_count)"

text \<open>
  The counting loop over the voter set. A \<open>std::set\<close> is iterated in ascending order
  without repetitions; \<open>count_in\<close> is the number of its elements that
  \<open>std::find\<close> locates in the node list.
\<close>

fun count_in :: "NodeId list \<Rightarrow> NodeId list \<Rightarrow> nat" where
  "count_in ns [] = 0"
| "count_in ns (v # vs) = (if IsMember v ns then Suc (count_in ns vs) else count_in ns vs)"

definition QuorumSatisfied :: "ClusterConfig \<Rightarrow> NodeId set \<Rightarrow> bool" where
  "QuorumSatisfied c voters =
     (let vs = sorted_list_of_set voters
      in JointMajoritySatisfied c (count_in (cc_old_nodes c) vs) (count_in (cc_nodes c) vs))"

section \<open>Counting\<close>

lemma IsMember_iff [simp]: "IsMember i ns \<longleftrightarrow> i \<in> set ns"
  by (induction ns) auto

lemma Contains_iff:
  "Contains c i \<longleftrightarrow> IsVoter c i \<or> IsLearner c i"
  by (simp add: Contains_def IsVoter_def IsLearner_def)

lemma IsVoter_iff:
  "IsVoter c i \<longleftrightarrow> i \<in> set (cc_nodes c) \<or> (cc_is_joint c \<and> i \<in> set (cc_old_nodes c))"
  by (simp add: IsVoter_def)

lemma count_in_card:
  assumes "distinct vs"
  shows "count_in ns vs = card (set vs \<inter> set ns)"
  using assms by (induction vs) (simp_all add: Int_insert_left)

lemma count_in_set:
  assumes "finite V"
  shows "count_in ns (sorted_list_of_set V) = card (V \<inter> set ns)"
  using assms by (simp add: count_in_card)

definition majority_of :: "NodeId list \<Rightarrow> NodeId set \<Rightarrow> bool" where
  "majority_of ns V \<longleftrightarrow> length ns < 2 * card (V \<inter> set ns)"

text \<open>The node lists are shorter than \<open>2^32\<close>, so the casts in \<open>GetMajority\<close> are exact.\<close>

definition config_ok :: "ClusterConfig \<Rightarrow> bool" where
  "config_ok c \<longleftrightarrow> length (cc_nodes c) < U32 \<and> length (cc_old_nodes c) < U32"

lemma QuorumSatisfied_iff:
  assumes "finite V" and "config_ok c"
  shows "QuorumSatisfied c V \<longleftrightarrow>
    majority_of (cc_nodes c) V \<and> (cc_is_joint c \<longrightarrow> majority_of (cc_old_nodes c) V)"
proof -
  have half: "n div 2 + 1 \<le> k \<longleftrightarrow> n < 2 * k" for n k :: nat by presburger
  from assms show ?thesis
    by (auto simp: QuorumSatisfied_def JointMajoritySatisfied_def GetMajority_def
        GetOldMajority_def count_in_set config_ok_def u32_simps majority_of_def half)
qed

text \<open>
  The overlap of two majorities, stated for node lists that may differ: it is enough that
  together they are larger than the list that holds both.
\<close>

lemma majority_overlap:
  assumes "finite V" and "finite W" and "set ks \<subseteq> set us" and "set ns \<subseteq> set us"
    and "card (set us) < card (V \<inter> set ks) + card (W \<inter> set ns)"
  shows "\<exists>x. x \<in> V \<inter> set ks \<and> x \<in> W \<inter> set ns"
proof (rule ccontr)
  assume "\<nexists>x. x \<in> V \<inter> set ks \<and> x \<in> W \<inter> set ns"
  then have disj: "(V \<inter> set ks) \<inter> (W \<inter> set ns) = {}" by blast
  have "card (V \<inter> set ks) + card (W \<inter> set ns) = card ((V \<inter> set ks) \<union> (W \<inter> set ns))"
    using disj by (simp add: card_Un_disjoint)
  also have "\<dots> \<le> card (set us)"
    using assms(3,4) by (intro card_mono) auto
  finally show False using assms(5) by simp
qed

lemma majority_of_overlap:
  assumes "finite V" and "finite W" and "majority_of ns V" and "majority_of ns W"
  shows "\<exists>x \<in> set ns. x \<in> V \<and> x \<in> W"
proof -
  have "card (set ns) < card (V \<inter> set ns) + card (W \<inter> set ns)"
    using assms(3,4) card_length [of ns] by (simp add: majority_of_def)
  from majority_overlap [OF assms(1,2) order_refl order_refl this] show ?thesis by blast
qed

section \<open>The quorum contract\<close>

text \<open>
  A quorum test with its voters: adding voters keeps a quorum, and two quorums meet in a
  member. \<open>meet_unique\<close> is what an election needs: if every voter supports at most one
  candidate, two candidates that both reach a quorum are the same.
\<close>

locale quorum =
  fixes quorate :: "'n set \<Rightarrow> bool"
    and member :: "'n \<Rightarrow> bool"
  assumes meet: "finite V \<Longrightarrow> finite W \<Longrightarrow> quorate V \<Longrightarrow> quorate W \<Longrightarrow> \<exists>x. member x \<and> x \<in> V \<and> x \<in> W"
    and mono: "finite W \<Longrightarrow> quorate V \<Longrightarrow> V \<subseteq> W \<Longrightarrow> quorate W"
begin

lemma nonempty: "finite V \<Longrightarrow> quorate V \<Longrightarrow> \<exists>x. member x \<and> x \<in> V"
  using meet [of V V] by blast

lemma meet_unique:
  assumes "finite V" and "finite W" and "quorate V" and "quorate W"
    and "\<And>x. x \<in> V \<Longrightarrow> supports x a" and "\<And>x. x \<in> W \<Longrightarrow> supports x b"
    and "\<And>x c d. supports x c \<Longrightarrow> supports x d \<Longrightarrow> c = d"
  shows "a = b"
  using meet [OF assms(1-4)] assms(5-7) by blast

end

interpretation cfg: quorum "\<lambda>V. config_ok c \<and> QuorumSatisfied c V" "\<lambda>x. x \<in> set (cc_nodes c)" for c
proof (unfold_locales, goal_cases)
  case (1 V W)
  then have "majority_of (cc_nodes c) V" and "majority_of (cc_nodes c) W"
    by (auto simp: QuorumSatisfied_iff)
  with 1 show ?case
    using majority_of_overlap [of V W "cc_nodes c"] by blast
next
  case (2 W V)
  then have "finite V" by (auto intro: finite_subset)
  have mono: "card (V \<inter> set ns) \<le> card (W \<inter> set ns)" for ns
    using 2 by (intro card_mono) auto
  from 2 mono [of "cc_nodes c"] mono [of "cc_old_nodes c"] \<open>finite V\<close> show ?case
    by (auto simp: QuorumSatisfied_iff majority_of_def)
qed

text \<open>Two configurations whose quorums always meet: the step from one to the other is safe.\<close>

definition quorums_meet :: "ClusterConfig \<Rightarrow> ClusterConfig \<Rightarrow> bool" where
  "quorums_meet c d \<longleftrightarrow>
     (\<forall>V W. finite V \<longrightarrow> finite W \<longrightarrow> QuorumSatisfied c V \<longrightarrow> QuorumSatisfied d W \<longrightarrow> V \<inter> W \<noteq> {})"

lemma quorums_meetI:
  assumes "config_ok c" and "config_ok d"
    and "\<And>V W. finite V \<Longrightarrow> finite W \<Longrightarrow> majority_of (cc_nodes c) V \<Longrightarrow>
        (cc_is_joint c \<longrightarrow> majority_of (cc_old_nodes c) V) \<Longrightarrow> majority_of (cc_nodes d) W \<Longrightarrow>
        (cc_is_joint d \<longrightarrow> majority_of (cc_old_nodes d) W) \<Longrightarrow> \<exists>x. x \<in> V \<and> x \<in> W"
  shows "quorums_meet c d"
  unfolding quorums_meet_def
proof (intro allI impI)
  fix V W
  assume fin: "finite V" "finite W" and V: "QuorumSatisfied c V" and W: "QuorumSatisfied d W"
  from V W have "\<exists>x. x \<in> V \<and> x \<in> W"
    using assms(1,2) by (intro assms(3) [OF fin]) (simp_all add: QuorumSatisfied_iff fin)
  then show "V \<inter> W \<noteq> {}" by blast
qed

lemma quorums_meet_sym: "quorums_meet c d \<Longrightarrow> quorums_meet d c"
  unfolding quorums_meet_def by (subst Int_commute) blast

lemma quorums_meet_refl: "config_ok c \<Longrightarrow> quorums_meet c c"
  by (rule quorums_meetI) (use majority_of_overlap [of _ _ "cc_nodes c"] in blast)+

text \<open>A joint configuration meets both the configuration it leaves and the one it enters.\<close>

lemma joint_meets_old:
  assumes "config_ok c" and "config_ok d" and "cc_is_joint d" and "cc_old_nodes d = cc_nodes c"
  shows "quorums_meet c d"
proof (rule quorums_meetI [OF assms(1,2)])
  fix V W :: "NodeId set"
  assume "finite V" "finite W" "majority_of (cc_nodes c) V"
    and "cc_is_joint d \<longrightarrow> majority_of (cc_old_nodes d) W"
  then show "\<exists>x. x \<in> V \<and> x \<in> W"
    using majority_of_overlap [of V W "cc_nodes c"] assms(3,4) by auto
qed

lemma joint_meets_new:
  assumes "config_ok d" and "config_ok c" and "cc_nodes d = cc_nodes c"
  shows "quorums_meet d c"
proof (rule quorums_meetI [OF assms(1,2)])
  fix V W :: "NodeId set"
  assume "finite V" "finite W" "majority_of (cc_nodes d) V" and "majority_of (cc_nodes c) W"
  then show "\<exists>x. x \<in> V \<and> x \<in> W"
    using majority_of_overlap [of V W "cc_nodes c"] assms(3) by auto
qed

text \<open>
  Adding one node keeps every old majority in touch with every new one, even without the
  joint phase; so a node that has not yet applied the change cannot elect a second leader
  together with nodes that have.
\<close>

lemma single_addition_meets:
  assumes "config_ok c" and "config_ok d" and "cc_nodes d = cc_nodes c @ [i]"
  shows "quorums_meet c d"
proof (rule quorums_meetI [OF assms(1,2)])
  fix V W :: "NodeId set"
  assume fin: "finite V" "finite W" and V: "majority_of (cc_nodes c) V" and W: "majority_of (cc_nodes d) W"
  have len: "card (set (cc_nodes d)) \<le> Suc (length (cc_nodes c))"
    using card_length [of "cc_nodes d"] assms(3) by simp
  have "length (cc_nodes c) < 2 * card (V \<inter> set (cc_nodes c))"
    and "Suc (length (cc_nodes c)) < 2 * card (W \<inter> set (cc_nodes d))"
    using V W assms(3) by (auto simp: majority_of_def)
  then have "Suc (length (cc_nodes c)) < card (V \<inter> set (cc_nodes c)) + card (W \<inter> set (cc_nodes d))"
    by presburger
  then have "card (set (cc_nodes d)) < card (V \<inter> set (cc_nodes c)) + card (W \<inter> set (cc_nodes d))"
    using len by simp
  from majority_overlap [OF fin _ _ this] assms(3) show "\<exists>x. x \<in> V \<and> x \<in> W" by auto
qed

section \<open>Properties\<close>

text \<open>
  C35: A membership change through the joint configuration never lets two disjoint groups both
  win: every election quorum of the old configuration meets every quorum of the joint one, every
  quorum of the joint one meets every quorum of the new one, and within each configuration any
  two quorums meet, even when the old and the new node lists have no node in common.
\<close>

theorem joint_change_safe:
  assumes "config_ok c" and "config_ok j" and "config_ok d"
    and "\<not> cc_is_joint c" and "cc_is_joint j" and "\<not> cc_is_joint d"
    and "cc_old_nodes j = cc_nodes c" and "cc_nodes j = cc_nodes d"
  shows "quorums_meet c c \<and> quorums_meet c j \<and> quorums_meet j j \<and> quorums_meet j d \<and> quorums_meet d d"
  using assms by (simp add: quorums_meet_refl joint_meets_old joint_meets_new)

definition ex_cc :: "NodeId list \<Rightarrow> NodeId list \<Rightarrow> bool \<Rightarrow> ClusterConfig" where
  "ex_cc ns old joint =
     \<lparr>cc_nodes = ns, cc_old_nodes = old, cc_learners = [], cc_version = 1, cc_is_joint = joint\<rparr>"

theorem joint_change_safe_witness:
  "quorums_meet (ex_cc [1, 2, 3] [] False) (ex_cc [4, 5, 6] [1, 2, 3] True) \<and>
   quorums_meet (ex_cc [4, 5, 6] [1, 2, 3] True) (ex_cc [4, 5, 6] [] False)"
  using joint_change_safe [of "ex_cc [1, 2, 3] [] False" "ex_cc [4, 5, 6] [1, 2, 3] True" "ex_cc [4, 5, 6] [] False"]
  by (simp add: ex_cc_def config_ok_def U32_def)

text \<open>Without the joint phase the same change is unsafe.\<close>

lemma direct_change_unsafe: "\<not> quorums_meet (ex_cc [1, 2, 3] [] False) (ex_cc [4, 5, 6] [] False)"
proof
  assume m: "quorums_meet (ex_cc [1, 2, 3] [] False) (ex_cc [4, 5, 6] [] False)"
  have q: "QuorumSatisfied (ex_cc [1, 2, 3] [] False) {1, 2}" "QuorumSatisfied (ex_cc [4, 5, 6] [] False) {4, 5}"
    by (simp_all add: QuorumSatisfied_iff ex_cc_def config_ok_def U32_def majority_of_def)
  from m [unfolded quorums_meet_def, rule_format, OF _ _ q] show False by simp
qed

text \<open>
  If every node gives its vote to at most one candidate, two candidates that both reach an
  election quorum of the same configuration, joint or not, are the same candidate.
\<close>

theorem quorum_elects_at_most_one:
  assumes "config_ok c" and "finite V" and "finite W"
    and "QuorumSatisfied c V" and "QuorumSatisfied c W"
    and "\<And>x. x \<in> V \<Longrightarrow> vote x = a" and "\<And>x. x \<in> W \<Longrightarrow> vote x = b"
  shows "a = b"
proof (rule cfg.meet_unique [of V W c "\<lambda>x y. vote x = y"])
  show "config_ok c \<and> QuorumSatisfied c V" "config_ok c \<and> QuorumSatisfied c W"
    using assms(1,4,5) by blast+
qed (use assms(2,3,6,7) in auto)

theorem quorum_elects_at_most_one_witness:
  "QuorumSatisfied (ex_cc [1, 2, 3] [] False) {1, 2} \<and> QuorumSatisfied (ex_cc [1, 2, 3] [] False) {2, 3} \<and>
   (\<lambda>x :: NodeId. 2 :: NodeId) 1 = (\<lambda>x. 2) 3"
proof -
  let ?c = "ex_cc [1, 2, 3] [] False"
  have q: "QuorumSatisfied ?c {1, 2}" "QuorumSatisfied ?c {2, 3}" "config_ok ?c"
    by (simp_all add: QuorumSatisfied_iff config_ok_def U32_def majority_of_def ex_cc_def)
  have "(2 :: NodeId) = 2"
    by (rule quorum_elects_at_most_one [OF q(3) _ _ q(1,2), of "\<lambda>_. 2"]) simp_all
  with q show ?thesis by simp
qed

end
