(* ===== verification/Status_Model.thy ===== *)
theory Status_Model
  imports Prelude
begin

text \<open>
  \<open>class Status\<close> of \<open>include/rollingraft/status.h\<close> and \<open>src/status.cpp\<close>, at the level of its
  byte representation: a null pointer for success, otherwise four little-endian length bytes,
  the code byte and the message. Every other component returns values of this type.
\<close>

section \<open>Codes\<close>

datatype Code =
    kOk | kCorruption | kRequestVoteError | kAppendEntriesError | kInstallSnapshotError
  | kSerializeError | kDeSerializeError | kProtocolError | kRaftNodeStartError | kGenericError
  | kNotLeader | kUnauthenticated | kPermissionDenied

definition codes :: "Code list" where
  "codes = [kOk, kCorruption, kRequestVoteError, kAppendEntriesError, kInstallSnapshotError,
     kSerializeError, kDeSerializeError, kProtocolError, kRaftNodeStartError, kGenericError,
     kNotLeader, kUnauthenticated, kPermissionDenied]"

fun code_val :: "Code \<Rightarrow> nat" where
  "code_val kOk = 0"
| "code_val kCorruption = 1"
| "code_val kRequestVoteError = 2"
| "code_val kAppendEntriesError = 3"
| "code_val kInstallSnapshotError = 4"
| "code_val kSerializeError = 5"
| "code_val kDeSerializeError = 6"
| "code_val kProtocolError = 7"
| "code_val kRaftNodeStartError = 8"
| "code_val kGenericError = 9"
| "code_val kNotLeader = 10"
| "code_val kUnauthenticated = 11"
| "code_val kPermissionDenied = 12"

text \<open>\<open>static_cast<Code>(state_[4])\<close>: a byte that names no enumerator is \<open>None\<close>.\<close>

definition code_of :: "nat \<Rightarrow> Code option" where
  "code_of n = (if n < length codes then Some (codes ! n) else None)"

section \<open>The representation\<close>

type_synonym byte = nat
type_synonym Status = "byte list option"

definition le32 :: "nat \<Rightarrow> byte list" where
  "le32 n = [n mod 256, n div 256 mod 256, n div 65536 mod 256, n div 16777216 mod 256]"

definition rd32 :: "byte list \<Rightarrow> nat" where
  "rd32 bs = bs ! 0 + 256 * bs ! 1 + 65536 * bs ! 2 + 16777216 * bs ! 3"

definition to_bytes :: "string \<Rightarrow> byte list" where
  "to_bytes s = map of_char s"

definition of_bytes :: "byte list \<Rightarrow> string" where
  "of_bytes bs = map char_of bs"

definition mkStatus :: "Code \<Rightarrow> string \<Rightarrow> string \<Rightarrow> Status" where
  "mkStatus code msg msg2 =
     (let len1 = u32 (length msg);
          len2 = u32 (length msg2);
          size = u32_add len1 (if len2 \<noteq> 0 then u32_add 2 len2 else 0)
      in Some (le32 size @ [code_val code] @ take len1 (to_bytes msg) @
               (if len2 \<noteq> 0 then to_bytes '': '' @ take len2 (to_bytes msg2) else [])))"

definition CopyState :: "byte list \<Rightarrow> byte list" where
  "CopyState st = take (rd32 st + 5) st"

definition OK :: Status where
  "OK = None"

definition ok :: "Status \<Rightarrow> bool" where
  "ok s \<longleftrightarrow> s = None"

definition Error :: "string \<Rightarrow> string \<Rightarrow> Status" where
  "Error = mkStatus kGenericError"

definition Corruption :: "string \<Rightarrow> string \<Rightarrow> Status" where
  "Corruption = mkStatus kCorruption"

definition Unauthenticated :: "string \<Rightarrow> string \<Rightarrow> Status" where
  "Unauthenticated = mkStatus kUnauthenticated"

definition PermissionDenied :: "string \<Rightarrow> string \<Rightarrow> Status" where
  "PermissionDenied = mkStatus kPermissionDenied"

definition NotLeader :: "NodeId \<Rightarrow> string \<Rightarrow> Status" where
  "NotLeader leader_id leader_addr =
     mkStatus kNotLeader
       (''Not leader'' @ (if 0 \<le> leader_id then '', leader is '' @ leader_addr else [])) []"

definition GetCode :: "Status \<Rightarrow> nat" where
  "GetCode s = (case s of None \<Rightarrow> code_val kOk | Some st \<Rightarrow> st ! 4)"

definition IsCode :: "Code \<Rightarrow> Status \<Rightarrow> bool" where
  "IsCode c s \<longleftrightarrow> GetCode s = code_val c"

definition GetMessage :: "Status \<Rightarrow> string" where
  "GetMessage s = (case s of None \<Rightarrow> [] | Some st \<Rightarrow> of_bytes (take (rd32 st) (drop 5 st)))"

fun code_name :: "Code \<Rightarrow> string" where
  "code_name kOk = ''OK''"
| "code_name kCorruption = ''Corruption''"
| "code_name kRequestVoteError = ''RequestVoteError''"
| "code_name kAppendEntriesError = ''AppendEntriesError''"
| "code_name kInstallSnapshotError = ''InstallSnapshotError''"
| "code_name kSerializeError = ''SerializeError''"
| "code_name kDeSerializeError = ''DeSerializeError''"
| "code_name kProtocolError = ''ProtocolError''"
| "code_name kRaftNodeStartError = ''RaftNodeStartError''"
| "code_name kGenericError = ''Error''"
| "code_name kNotLeader = ''NotLeader''"
| "code_name kUnauthenticated = ''UNAUTHENTICATED''"
| "code_name kPermissionDenied = ''PERMISSION_DENIED''"

definition CodeName :: "Status \<Rightarrow> string" where
  "CodeName s = (case code_of (GetCode s) of Some c \<Rightarrow> code_name c | None \<Rightarrow> ''Unknown'')"

text \<open>
  \<open>ToString\<close> prefixes the code's name and a colon, except for \<open>kOk\<close>, whose prefix is the bare
  name. The \<open>default:\<close> branch prints the number; no constructor produces such a code, and the
  model leaves its text to the argument \<open>unknown\<close>.
\<close>

definition ToString :: "(nat \<Rightarrow> string) \<Rightarrow> Status \<Rightarrow> string" where
  "ToString unknown s =
     (case s of None \<Rightarrow> ''OK''
      | Some st \<Rightarrow>
          (case code_of (st ! 4) of
             Some c \<Rightarrow> (if c = kOk then ''OK'' else code_name c @ '': '')
           | None \<Rightarrow> unknown (st ! 4)) @ of_bytes (take (rd32 st) (drop 5 st)))"

section \<open>Reading back what was stored\<close>

lemma code_of_val [simp]: "code_of (code_val c) = Some c"
  by (cases c) (simp_all add: code_of_def codes_def)

lemma of_bytes_to_bytes [simp]: "of_bytes (to_bytes s) = s"
  by (simp add: of_bytes_def to_bytes_def comp_def)

lemma of_bytes_append [simp]: "of_bytes (a @ b) = of_bytes a @ of_bytes b"
  by (simp add: of_bytes_def)

lemma to_bytes_length [simp]: "length (to_bytes s) = length s"
  by (simp add: to_bytes_def)

lemma rd32_le32 [simp]:
  assumes "n < U32"
  shows "rd32 (le32 n @ bs) = n"
proof -
  let ?a = "n div 256" and ?b = "n div 65536" and ?c = "n div 16777216"
  have ab: "?a div 256 = ?b" and bc: "?b div 256 = ?c"
    by (simp_all flip: div_mult2_eq)
  have "256 * ?a + n mod 256 = n" by simp
  moreover have "256 * ?b + ?a mod 256 = ?a" using mult_div_mod_eq [of 256 ?a] by (simp only: ab)
  moreover have "256 * ?c + ?b mod 256 = ?b" using mult_div_mod_eq [of 256 ?b] by (simp only: bc)
  moreover have "?c mod 256 = ?c" using assms by (simp add: U32_def)
  ultimately have "n mod 256 + 256 * (?a mod 256) + 65536 * (?b mod 256) + 16777216 * (?c mod 256) = n"
    by linarith
  with assms show ?thesis by (simp add: rd32_def le32_def U32_def)
qed

text \<open>The bytes of an error status, when the lengths fit the 32-bit length field.\<close>

definition joined :: "string \<Rightarrow> string \<Rightarrow> string" where
  "joined msg msg2 = msg @ (if msg2 = [] then [] else '': '' @ msg2)"

lemma mkStatus_bytes:
  assumes "length (joined msg msg2) < U32"
  shows "mkStatus code msg msg2 =
    Some (le32 (length (joined msg msg2)) @ [code_val code] @ to_bytes (joined msg msg2))"
proof -
  have "length msg < U32" and "length msg2 < U32"
    using assms by (auto simp: joined_def split: if_splits)
  with assms show ?thesis
    by (auto simp: mkStatus_def Let_def u32_simps joined_def to_bytes_def)
qed

lemma length_le32 [simp]: "length (le32 n) = 4"
  by (simp add: le32_def)

lemma drop5_le32 [simp]: "drop 5 (le32 n @ c # bs) = bs"
  by (simp add: le32_def)

lemma nth4_le32 [simp]: "(le32 n @ c # bs) ! 4 = c"
  by (simp add: le32_def)

lemma mkStatus_not_ok [simp]: "\<not> ok (mkStatus c m m2)"
  by (simp add: ok_def mkStatus_def Let_def)

lemma ok_OK [simp]: "ok OK"
  by (simp add: ok_def OK_def)

lemma status_not_ok [simp]:
  "\<not> ok (Error m m2)" "\<not> ok (NotLeader i a)" "\<not> ok (Unauthenticated m m2)"
  "\<not> ok (PermissionDenied m m2)" "\<not> ok (Corruption m m2)"
  by (simp_all add: Corruption_def Error_def NotLeader_def Unauthenticated_def PermissionDenied_def)

lemma ok_eq_OK: "ok s \<longleftrightarrow> s = OK"
  by (simp add: ok_def OK_def)

lemma status_neq_OK [simp]:
  "mkStatus c m m2 \<noteq> OK" "Error m m2 \<noteq> OK" "NotLeader i a \<noteq> OK" "Unauthenticated m m2 \<noteq> OK"
  "PermissionDenied m m2 \<noteq> OK" "Corruption m m2 \<noteq> OK"
  by (simp_all flip: ok_eq_OK)

lemma GetCode_mkStatus [simp]: "GetCode (mkStatus c m m2) = code_val c"
  by (simp add: GetCode_def mkStatus_def Let_def)

lemma code_val_inj [simp]: "code_val c = code_val d \<longleftrightarrow> c = d"
  by (cases c; cases d) simp_all

lemma CopyState_bytes [simp]:
  "n < U32 \<Longrightarrow> length bs = n \<Longrightarrow> CopyState (le32 n @ c # bs) = le32 n @ c # bs"
  by (simp add: CopyState_def)

text \<open>
  An error status gives back exactly the code and message it was built from, copying it
  changes nothing, and its printed form is the code's name, a colon and the message.
\<close>

theorem status_roundtrip:
  assumes "length (joined msg msg2) < U32" and "code \<noteq> kOk"
  shows "GetCode (mkStatus code msg msg2) = code_val code \<and>
    GetMessage (mkStatus code msg msg2) = joined msg msg2 \<and>
    map_option CopyState (mkStatus code msg msg2) = mkStatus code msg msg2 \<and>
    CodeName (mkStatus code msg msg2) = code_name code \<and>
    ToString unknown (mkStatus code msg msg2) = code_name code @ '': '' @ joined msg msg2"
  using assms by (simp add: CodeName_def GetCode_def GetMessage_def ToString_def mkStatus_bytes)

theorem status_roundtrip_witness:
  "GetMessage (mkStatus kNotLeader ''Not leader'' ''n2'') = ''Not leader: n2'' \<and>
   ToString (\<lambda>_. []) (mkStatus kNotLeader ''Not leader'' ''n2'') = ''NotLeader: Not leader: n2''"
proof -
  have "length (joined ''Not leader'' ''n2'') < U32" by (simp add: joined_def U32_def)
  from status_roundtrip [OF this, of kNotLeader "\<lambda>_. []"] show ?thesis
    by (simp add: joined_def)
qed

end
