(* ===== verification/Runtime_Config.thy ===== *)
theory Runtime_Config
  imports Status_Model
begin

text \<open>
  The hot-reloadable parameters: \<open>struct RuntimeConfigValues\<close> of
  \<open>include/rollingraft/runtime_config.h\<close> and \<open>RuntimeConfig\<close> of \<open>src/runtime_config.cpp\<close>. The
  JSON library is a parameter: \<open>parse\<close> gives the object (or the text of the exception, which
  the code turns into \<open>INVALID_JSON\<close>), \<open>as_u32\<close> and \<open>as_bool\<close> are the implicit conversions,
  with \<open>None\<close> for the exception they throw, which \<open>UpdateFromJson\<close> lets escape.
\<close>

section \<open>Values\<close>

record RuntimeConfigValues =
  election_timeout_ms :: nat
  heartbeat_interval_ms :: nat
  max_entries_per_append :: nat
  rpc_timeout_ms :: nat
  snapshot_threshold_entries :: nat
  snapshot_threshold_bytes :: nat
  snapshot_check_interval_ms :: nat
  max_retry_attempts :: nat
  base_retry_delay_ms :: nat
  max_retry_delay_ms :: nat
  log_retention_entries :: nat
  max_snapshot_size_bytes :: nat
  propose_timeout_ms :: nat
  leader_lease_enabled :: bool
  max_pipeline_window :: nat
  transport_batching_enabled :: bool

definition default_values :: RuntimeConfigValues where
  "default_values =
     \<lparr>election_timeout_ms = 300, heartbeat_interval_ms = 50, max_entries_per_append = 100,
      rpc_timeout_ms = 500, snapshot_threshold_entries = 10000,
      snapshot_threshold_bytes = 10 * 1024 * 1024, snapshot_check_interval_ms = 5000,
      max_retry_attempts = 5, base_retry_delay_ms = 10, max_retry_delay_ms = 500,
      log_retention_entries = 0, max_snapshot_size_bytes = 100 * 1024 * 1024,
      propose_timeout_ms = 5000, leader_lease_enabled = True, max_pipeline_window = 128,
      transport_batching_enabled = True\<rparr>"

record RuntimeConfig =
  rc_values :: RuntimeConfigValues
  rc_defaults :: RuntimeConfigValues

definition mkRuntimeConfig :: "RuntimeConfigValues \<Rightarrow> RuntimeConfig" where
  "mkRuntimeConfig d = \<lparr>rc_values = d, rc_defaults = d\<rparr>"

section \<open>Validation\<close>

definition invalid :: "string \<Rightarrow> Status" where
  "invalid msg = Error ''INVALID_CONFIG'' msg"

definition Validate :: "RuntimeConfigValues \<Rightarrow> Status" where
  "Validate v =
    (if election_timeout_ms v < 50 \<or> 5000 < election_timeout_ms v
     then invalid ''election_timeout_ms must be in [50, 5000]''
     else if heartbeat_interval_ms v < 10 \<or> 1000 < heartbeat_interval_ms v
     then invalid ''heartbeat_interval_ms must be in [10, 1000]''
     else if max_entries_per_append v < 1 \<or> 10000 < max_entries_per_append v
     then invalid ''max_entries_per_append must be in [1, 10000]''
     else if rpc_timeout_ms v < 100 \<or> 10000 < rpc_timeout_ms v
     then invalid ''rpc_timeout_ms must be in [100, 10000]''
     else if snapshot_threshold_entries v < 100 \<or> 1000000 < snapshot_threshold_entries v
     then invalid ''snapshot_threshold_entries must be in [100, 1000000]''
     else if snapshot_threshold_bytes v < 1 * 1024 * 1024 \<or>
             1 * 1024 * 1024 * 1024 < snapshot_threshold_bytes v
     then invalid ''snapshot_threshold_bytes must be in [1MB, 1GB]''
     else if snapshot_check_interval_ms v < 1000 \<or> 60000 < snapshot_check_interval_ms v
     then invalid ''snapshot_check_interval_ms must be in [1000, 60000]''
     else if max_retry_attempts v < 1 \<or> 100 < max_retry_attempts v
     then invalid ''max_retry_attempts must be in [1, 100]''
     else if base_retry_delay_ms v < 1 \<or> 1000 < base_retry_delay_ms v
     then invalid ''base_retry_delay_ms must be in [1, 1000]''
     else if max_retry_delay_ms v < 10 \<or> 10000 < max_retry_delay_ms v
     then invalid ''max_retry_delay_ms must be in [10, 10000]''
     else if 100000 < log_retention_entries v
     then invalid ''log_retention_entries must be <= 100000''
     else if 0 < max_snapshot_size_bytes v \<and> max_snapshot_size_bytes v < 1 * 1024 * 1024
     then invalid ''max_snapshot_size_bytes must be 0 (unlimited) or >= 1MB''
     else if propose_timeout_ms v < 100 \<or> 60000 < propose_timeout_ms v
     then invalid ''propose_timeout_ms must be in [100, 60000]''
     else if max_pipeline_window v < 1 \<or> 10000 < max_pipeline_window v
     then invalid ''max_pipeline_window must be in [1, 10000]''
     else if election_timeout_ms v \<le> heartbeat_interval_ms v
     then invalid ''heartbeat_interval_ms must be < election_timeout_ms''
     else if max_retry_delay_ms v < base_retry_delay_ms v
     then invalid ''base_retry_delay_ms must be <= max_retry_delay_ms''
     else if rpc_timeout_ms v < heartbeat_interval_ms v
     then invalid ''rpc_timeout_ms must be >= heartbeat_interval_ms''
     else OK)"

section \<open>Updates\<close>

definition set_field ::
  "('j \<Rightarrow> 'a option) \<Rightarrow> (string \<rightharpoonup> 'j) \<Rightarrow> string \<Rightarrow> ('a \<Rightarrow> RuntimeConfigValues \<Rightarrow> RuntimeConfigValues)
    \<Rightarrow> RuntimeConfigValues \<Rightarrow> RuntimeConfigValues option" where
  "set_field conv j key upd v =
     (case j key of None \<Rightarrow> Some v
      | Some x \<Rightarrow> (case conv x of None \<Rightarrow> None | Some a \<Rightarrow> Some (upd a v)))"

text \<open>The chain of \<open>if (j.contains(...)) proposed.f = j[...]\<close> statements.\<close>

definition propose_values ::
  "('j \<Rightarrow> nat option) \<Rightarrow> ('j \<Rightarrow> bool option) \<Rightarrow> (string \<rightharpoonup> 'j) \<Rightarrow> RuntimeConfigValues
    \<Rightarrow> RuntimeConfigValues option" where
  "propose_values as_u32 as_bool j v0 =
    Option.bind (set_field as_u32 j ''election_timeout_ms'' (\<lambda>x. election_timeout_ms_update (\<lambda>_. x)) v0) (\<lambda>v.
    Option.bind (set_field as_u32 j ''heartbeat_interval_ms'' (\<lambda>x. heartbeat_interval_ms_update (\<lambda>_. x)) v) (\<lambda>v.
    Option.bind (set_field as_u32 j ''max_entries_per_append'' (\<lambda>x. max_entries_per_append_update (\<lambda>_. x)) v) (\<lambda>v.
    Option.bind (set_field as_u32 j ''rpc_timeout_ms'' (\<lambda>x. rpc_timeout_ms_update (\<lambda>_. x)) v) (\<lambda>v.
    Option.bind (set_field as_u32 j ''snapshot_threshold_entries'' (\<lambda>x. snapshot_threshold_entries_update (\<lambda>_. x)) v) (\<lambda>v.
    Option.bind (set_field as_u32 j ''snapshot_threshold_bytes'' (\<lambda>x. snapshot_threshold_bytes_update (\<lambda>_. x)) v) (\<lambda>v.
    Option.bind (set_field as_u32 j ''snapshot_check_interval_ms'' (\<lambda>x. snapshot_check_interval_ms_update (\<lambda>_. x)) v) (\<lambda>v.
    Option.bind (set_field as_u32 j ''max_retry_attempts'' (\<lambda>x. max_retry_attempts_update (\<lambda>_. x)) v) (\<lambda>v.
    Option.bind (set_field as_u32 j ''base_retry_delay_ms'' (\<lambda>x. base_retry_delay_ms_update (\<lambda>_. x)) v) (\<lambda>v.
    Option.bind (set_field as_u32 j ''max_retry_delay_ms'' (\<lambda>x. max_retry_delay_ms_update (\<lambda>_. x)) v) (\<lambda>v.
    Option.bind (set_field as_u32 j ''log_retention_entries'' (\<lambda>x. log_retention_entries_update (\<lambda>_. x)) v) (\<lambda>v.
    Option.bind (set_field as_u32 j ''max_snapshot_size_bytes'' (\<lambda>x. max_snapshot_size_bytes_update (\<lambda>_. x)) v) (\<lambda>v.
    Option.bind (set_field as_u32 j ''propose_timeout_ms'' (\<lambda>x. propose_timeout_ms_update (\<lambda>_. x)) v) (\<lambda>v.
    Option.bind (set_field as_bool j ''leader_lease_enabled'' (\<lambda>x. leader_lease_enabled_update (\<lambda>_. x)) v) (\<lambda>v.
    Option.bind (set_field as_u32 j ''max_pipeline_window'' (\<lambda>x. max_pipeline_window_update (\<lambda>_. x)) v) (\<lambda>v.
    set_field as_bool j ''transport_batching_enabled'' (\<lambda>x. transport_batching_enabled_update (\<lambda>_. x)) v)))))))))))))))"

datatype update_result = Returned Status | Thrown

definition UpdateFromJson ::
  "(string \<Rightarrow> string + (string \<rightharpoonup> 'j)) \<Rightarrow> ('j \<Rightarrow> nat option) \<Rightarrow> ('j \<Rightarrow> bool option) \<Rightarrow> string
    \<Rightarrow> RuntimeConfig \<Rightarrow> update_result \<times> RuntimeConfig" where
  "UpdateFromJson parse as_u32 as_bool json_str rc =
     (case parse json_str of
        Inl what \<Rightarrow> (Returned (Error ''INVALID_JSON'' what), rc)
      | Inr j \<Rightarrow>
          (case propose_values as_u32 as_bool j (rc_values rc) of
             None \<Rightarrow> (Thrown, rc)
           | Some proposed \<Rightarrow>
               (let status = Validate proposed
                in if \<not> ok status then (Returned status, rc)
                   else (Returned OK, rc\<lparr>rc_values := proposed\<rparr>))))"

definition Reset :: "RuntimeConfig \<Rightarrow> RuntimeConfig" where
  "Reset rc = rc\<lparr>rc_values := rc_defaults rc\<rparr>"

section \<open>What a validated configuration guarantees\<close>

definition values_valid :: "RuntimeConfigValues \<Rightarrow> bool" where
  "values_valid v \<longleftrightarrow>
     election_timeout_ms v \<in> {50..5000} \<and> heartbeat_interval_ms v \<in> {10..1000} \<and>
     max_entries_per_append v \<in> {1..10000} \<and> rpc_timeout_ms v \<in> {100..10000} \<and>
     snapshot_threshold_entries v \<in> {100..1000000} \<and>
     snapshot_threshold_bytes v \<in> {1048576..1073741824} \<and>
     snapshot_check_interval_ms v \<in> {1000..60000} \<and> max_retry_attempts v \<in> {1..100} \<and>
     base_retry_delay_ms v \<in> {1..1000} \<and> max_retry_delay_ms v \<in> {10..10000} \<and>
     log_retention_entries v \<le> 100000 \<and>
     (max_snapshot_size_bytes v = 0 \<or> 1048576 \<le> max_snapshot_size_bytes v) \<and>
     propose_timeout_ms v \<in> {100..60000} \<and> max_pipeline_window v \<in> {1..10000} \<and>
     heartbeat_interval_ms v < election_timeout_ms v \<and>
     base_retry_delay_ms v \<le> max_retry_delay_ms v \<and> heartbeat_interval_ms v \<le> rpc_timeout_ms v"

lemma invalid_not_ok [simp]: "\<not> ok (invalid m)"
  by (simp add: invalid_def)

lemma Validate_iff: "ok (Validate v) \<longleftrightarrow> values_valid v"
  by (simp add: Validate_def values_valid_def not_less)

lemma Validate_eq_OK [simp]: "Validate v = OK \<longleftrightarrow> values_valid v"
  by (simp flip: ok_eq_OK add: Validate_iff)

lemma default_values_valid [simp]: "values_valid default_values"
  by (simp add: values_valid_def default_values_def)

text \<open>
  C39: A configuration update is all or nothing. It stores new values only when every range
  and cross-parameter constraint holds of them; a parse error, a value of the wrong type or a
  violated constraint leaves the stored values as they were; and a valid configuration stays
  valid whatever the request was.
\<close>

theorem update_all_or_nothing:
  assumes "values_valid (rc_values rc)"
    and "UpdateFromJson parse as_u32 as_bool js rc = (r, rc')"
  shows "values_valid (rc_values rc') \<and> rc_defaults rc' = rc_defaults rc \<and>
    (r \<noteq> Returned OK \<longrightarrow> rc' = rc) \<and>
    (r = Returned OK \<longrightarrow>
       (\<exists>j v. parse js = Inr j \<and> propose_values as_u32 as_bool j (rc_values rc) = Some v \<and>
          values_valid v \<and> rc' = rc\<lparr>rc_values := v\<rparr>))"
  using assms
  by (auto simp: UpdateFromJson_def Let_def ok_eq_OK split: option.splits sum.splits if_splits)

text \<open>
  The witness raises one timeout through a small concrete JSON reader and then asks for a
  heartbeat interval above the election timeout, which is refused.
\<close>

theorem update_all_or_nothing_witness:
  "values_valid (rc_values (snd (UpdateFromJson (\<lambda>s. Inr [''election_timeout_ms'' \<mapsto> (400::nat)]) Some
      (\<lambda>_. None) [] (mkRuntimeConfig default_values)))) \<and>
   snd (UpdateFromJson (\<lambda>s. Inr [''heartbeat_interval_ms'' \<mapsto> (900::nat)]) Some
      (\<lambda>_. None) [] (mkRuntimeConfig default_values)) = mkRuntimeConfig default_values"
proof -
  let ?rc = "mkRuntimeConfig default_values"
  have valid: "values_valid (rc_values ?rc)" by (simp add: mkRuntimeConfig_def)
  let ?u1 = "UpdateFromJson (\<lambda>s. Inr [''election_timeout_ms'' \<mapsto> (400::nat)]) Some (\<lambda>_. None) [] ?rc"
  let ?u2 = "UpdateFromJson (\<lambda>s. Inr [''heartbeat_interval_ms'' \<mapsto> (900::nat)]) Some (\<lambda>_. None) [] ?rc"
  have "fst ?u2 \<noteq> Returned OK"
    by (simp add: UpdateFromJson_def propose_values_def set_field_def Validate_iff values_valid_def
        default_values_def mkRuntimeConfig_def Let_def)
  then show ?thesis
    using update_all_or_nothing [OF valid surjective_pairing [of ?u1]]
      update_all_or_nothing [OF valid surjective_pairing [of ?u2]] by blast
qed

end
