(* ===== verification/Client_Sessions.thy ===== *)
theory Client_Sessions
  imports Prelude
begin

text \<open>
  The session cache behind idempotent proposals: \<open>ClientSessionManager\<close> of
  \<open>include/rollingraft/client_session_manager.h\<close> and \<open>src/client_session_manager.cpp\<close>. The
  session table is an \<open>unordered_map\<close> whose nodes hold an iterator into the LRU list; as the
  list holds every session id once, the iterator is the id itself and \<open>lru_list_.erase(lru_it)\<close>
  is \<open>remove1\<close>. \<open>now\<close> arguments are the values \<open>steady_clock::now()\<close> returns during the call.
\<close>

section \<open>The class\<close>

record SessionResult =
  sr_success :: bool
  sr_response :: string
  sr_applied_index :: Index
  sr_applied_term :: Term
  sr_error_message :: string

record ClientSessionEntry =
  last_seq :: nat
  last_result :: SessionResult
  last_active :: time

record ClientSessionManager =
  max_sessions :: nat
  ttl_ms :: nat
  lru_list :: "nat list"
  sessions :: "(nat \<times> ClientSessionEntry) list"

definition mkSessionManager :: "nat \<Rightarrow> nat \<Rightarrow> ClientSessionManager" where
  "mkSessionManager max_s ttl =
     \<lparr>max_sessions = max_s, ttl_ms = ttl, lru_list = [], sessions = []\<rparr>"

definition TouchSession :: "time \<Rightarrow> nat \<Rightarrow> ClientSessionEntry \<Rightarrow> ClientSessionManager \<Rightarrow> ClientSessionManager" where
  "TouchSession now sid e m =
     m\<lparr>lru_list := sid # remove1 sid (lru_list m),
       sessions := AList.update sid (e\<lparr>last_active := now\<rparr>) (sessions m)\<rparr>"

definition EvictLRU :: "ClientSessionManager \<Rightarrow> ClientSessionManager" where
  "EvictLRU m =
     (if lru_list m = [] then m
      else m\<lparr>sessions := AList.delete (last (lru_list m)) (sessions m),
             lru_list := butlast (lru_list m)\<rparr>)"

text \<open>The result is \<open>Some r\<close> where the method returns true with \<open>r\<close> in its out parameter.\<close>

definition IsDuplicate :: "time \<Rightarrow> nat \<Rightarrow> nat \<Rightarrow> ClientSessionManager \<Rightarrow> SessionResult option \<times> ClientSessionManager" where
  "IsDuplicate now sid seq m =
     (case map_of (sessions m) sid of
        None \<Rightarrow> (None, m)
      | Some e \<Rightarrow>
          let m' = TouchSession now sid e m in
          if seq < last_seq e then (Some (last_result e), m')
          else if seq = last_seq e then (Some (last_result e), m')
          else (None, m'))"

definition RecordResult :: "time \<Rightarrow> nat \<Rightarrow> nat \<Rightarrow> SessionResult \<Rightarrow> ClientSessionManager \<Rightarrow> ClientSessionManager" where
  "RecordResult now sid seq r m =
     (case map_of (sessions m) sid of
        Some e \<Rightarrow> TouchSession now sid (e\<lparr>last_seq := seq, last_result := r, last_active := now\<rparr>) m
      | None \<Rightarrow>
          let m1 = (if max_sessions m \<le> length (sessions m) \<and> 0 < max_sessions m then EvictLRU m else m)
          in m1\<lparr>lru_list := sid # lru_list m1,
                sessions := AList.update sid
                  \<lparr>last_seq = seq, last_result = r, last_active = now\<rparr> (sessions m1)\<rparr>)"

definition expired :: "time \<Rightarrow> nat \<Rightarrow> ClientSessionEntry \<Rightarrow> bool" where
  "expired now ttl e \<longleftrightarrow> 0 \<le> elapsed_ms now (last_active e) \<and> ttl \<le> nat (elapsed_ms now (last_active e))"

text \<open>The reverse-iterator loop, over the ids still to visit (from the back of the list).\<close>

fun evict_loop :: "time \<Rightarrow> nat list \<Rightarrow> nat \<Rightarrow> ClientSessionManager \<Rightarrow> nat \<times> ClientSessionManager" where
  "evict_loop now [] removed m = (removed, m)"
| "evict_loop now (sid # sids) removed m =
     (case map_of (sessions m) sid of
        None \<Rightarrow> evict_loop now sids removed m
      | Some e \<Rightarrow>
          if expired now (ttl_ms m) e
          then evict_loop now sids (Suc removed)
                 (m\<lparr>sessions := AList.delete sid (sessions m), lru_list := remove1 sid (lru_list m)\<rparr>)
          else evict_loop now sids removed m)"

definition EvictExpired :: "time \<Rightarrow> ClientSessionManager \<Rightarrow> nat \<times> ClientSessionManager" where
  "EvictExpired now m =
     (if ttl_ms m = 0 then (0, m) else evict_loop now (rev (lru_list m)) 0 m)"

definition Size :: "ClientSessionManager \<Rightarrow> nat" where
  "Size m = length (sessions m)"

definition Clear :: "ClientSessionManager \<Rightarrow> ClientSessionManager" where
  "Clear m = m\<lparr>sessions := [], lru_list := []\<rparr>"

section \<open>The invariant\<close>

definition sm_wf :: "ClientSessionManager \<Rightarrow> bool" where
  "sm_wf m \<longleftrightarrow>
     distinct (keys (sessions m)) \<and> distinct (lru_list m) \<and>
     set (lru_list m) = set (keys (sessions m)) \<and>
     (0 < max_sessions m \<longrightarrow> Size m \<le> max_sessions m)"

lemma sm_wf_length: "sm_wf m \<Longrightarrow> length (lru_list m) = Size m"
  unfolding sm_wf_def Size_def by (metis distinct_card length_map)

lemma sm_wf_mem: "sm_wf m \<Longrightarrow> sid \<in> set (lru_list m) \<longleftrightarrow> map_of (sessions m) sid \<noteq> None"
  by (simp add: sm_wf_def map_of_eq_None_iff)

lemma sm_wf_init [simp]: "sm_wf (mkSessionManager n t)"
  by (simp add: sm_wf_def mkSessionManager_def Size_def)

lemma length_update_known:
  "map_of al k \<noteq> None \<Longrightarrow> length (AList.update k v al) = length al"
  by (induction al) auto

lemma length_update_new:
  "map_of al k = None \<Longrightarrow> length (AList.update k v al) = Suc (length al)"
  by (induction al) (auto split: if_splits)

lemma length_delete_known:
  "distinct (keys al) \<Longrightarrow> map_of al k \<noteq> None \<Longrightarrow> Suc (length (AList.delete k al)) = length al"
proof (induction al)
  case Nil
  then show ?case by simp
next
  case (Cons p al)
  obtain a v where p: "p = (a, v)" by (cases p)
  show ?case
  proof (cases "a = k")
    case True
    with Cons.prems(1) p have "AList.delete k al = al"
      by (simp add: delete_idem)
    with True p show ?thesis by simp
  next
    case False
    with Cons p show ?thesis by simp
  qed
qed

lemma TouchSession_wf:
  assumes "sm_wf m" and "map_of (sessions m) sid \<noteq> None"
  shows "sm_wf (TouchSession now sid e m)"
  using assms sm_wf_mem [OF assms(1), of sid]
  by (auto simp: sm_wf_def TouchSession_def Size_def length_update_known simp del: set_map)

lemma IsDuplicate_wf: "sm_wf m \<Longrightarrow> sm_wf (snd (IsDuplicate now sid seq m))"
  by (auto simp: IsDuplicate_def Let_def TouchSession_wf split: option.splits)

lemma EvictLRU_wf:
  assumes "sm_wf m"
  shows "sm_wf (EvictLRU m)"
proof (cases "lru_list m" rule: rev_cases)
  case Nil
  with assms show ?thesis by (simp add: EvictLRU_def)
next
  case (snoc xs x)
  with assms have "map_of (sessions m) x \<noteq> None" using sm_wf_mem [OF assms, of x] by simp
  then have "Suc (length (AList.delete x (sessions m))) = length (sessions m)"
    using assms by (intro length_delete_known) (auto simp: sm_wf_def)
  with assms snoc show ?thesis
    by (auto simp: sm_wf_def EvictLRU_def Size_def simp del: set_map)
qed

lemma EvictLRU_size:
  assumes "sm_wf m" and "Size m \<noteq> 0"
  shows "Suc (Size (EvictLRU m)) = Size m"
  using sm_wf_length [OF assms(1)] sm_wf_length [OF EvictLRU_wf [OF assms(1)]] assms(2)
  by (cases "lru_list m" rule: rev_cases) (auto simp: EvictLRU_def)

lemma EvictLRU_mem: "map_of (sessions (EvictLRU m)) sid \<noteq> None \<Longrightarrow> map_of (sessions m) sid \<noteq> None"
  by (auto simp: EvictLRU_def split: if_splits)

lemma EvictLRU_max [simp]: "max_sessions (EvictLRU m) = max_sessions m"
  by (simp add: EvictLRU_def)

lemma insert_wf:
  assumes "sm_wf m" and "map_of (sessions m) sid = None"
    and "0 < max_sessions m \<longrightarrow> Size m < max_sessions m"
  shows "sm_wf (m\<lparr>lru_list := sid # lru_list m, sessions := AList.update sid e (sessions m)\<rparr>)"
  using assms sm_wf_mem [OF assms(1), of sid]
  by (auto simp: sm_wf_def Size_def length_update_new simp del: set_map)

lemma RecordResult_wf:
  assumes "sm_wf m"
  shows "sm_wf (RecordResult now sid seq r m)"
proof (cases "map_of (sessions m) sid")
  case None
  let ?m1 = "if max_sessions m \<le> length (sessions m) \<and> 0 < max_sessions m then EvictLRU m else m"
  have "sm_wf ?m1" using assms by (simp add: EvictLRU_wf)
  moreover have "map_of (sessions ?m1) sid = None" using None EvictLRU_mem [of m sid] by (cases "map_of (sessions (EvictLRU m)) sid") auto
  moreover have "0 < max_sessions ?m1 \<longrightarrow> Size ?m1 < max_sessions ?m1"
  proof (cases "max_sessions m \<le> length (sessions m) \<and> 0 < max_sessions m")
    case True
    with assms EvictLRU_size [OF assms] show ?thesis by (auto simp: sm_wf_def Size_def)
  next
    case False
    then show ?thesis by (auto simp: Size_def)
  qed
  ultimately have "sm_wf (?m1\<lparr>lru_list := sid # lru_list ?m1, sessions := AList.update sid
      \<lparr>last_seq = seq, last_result = r, last_active = now\<rparr> (sessions ?m1)\<rparr>)"
    by (rule insert_wf)
  with None show ?thesis by (simp add: RecordResult_def Let_def)
next
  case (Some e)
  with assms show ?thesis by (simp add: RecordResult_def TouchSession_wf)
qed

lemma remove_wf:
  assumes "sm_wf m" and "map_of (sessions m) sid \<noteq> None"
  shows "sm_wf (m\<lparr>sessions := AList.delete sid (sessions m), lru_list := remove1 sid (lru_list m)\<rparr>)"
  using assms length_delete_known [of "sessions m" sid]
  by (auto simp: sm_wf_def Size_def simp del: set_map)

lemma evict_loop_wf: "sm_wf m \<Longrightarrow> sm_wf (snd (evict_loop now sids k m))"
  by (induction now sids k m rule: evict_loop.induct) (auto simp: remove_wf split: option.splits)

lemma EvictExpired_wf: "sm_wf m \<Longrightarrow> sm_wf (snd (EvictExpired now m))"
  by (simp add: EvictExpired_def evict_loop_wf)

section \<open>Expiry\<close>

lemma evict_loop_sessions:
  assumes "sm_wf m" and "distinct sids"
  shows "map_of (sessions (snd (evict_loop now sids k m))) sid =
    (case map_of (sessions m) sid of
       None \<Rightarrow> None
     | Some e \<Rightarrow> if sid \<in> set sids \<and> expired now (ttl_ms m) e then None else Some e)"
  using assms
proof (induction now sids k m rule: evict_loop.induct)
  case (1 now k m)
  then show ?case by (simp split: option.splits)
next
  case (2 now s sids k m)
  show ?case
  proof (cases "map_of (sessions m) s")
    case None
    with 2 show ?thesis by (auto split: option.splits)
  next
    case (Some e)
    show ?thesis
    proof (cases "expired now (ttl_ms m) e")
      case True
      with 2(2) [OF Some True] 2(4,5) Some show ?thesis
        by (auto simp: remove_wf split: option.splits)
    next
      case False
      with 2(3) [OF Some False] 2(4,5) Some show ?thesis
        by (auto split: option.splits)
    qed
  qed
qed

section \<open>Least recently used\<close>

text \<open>
  The calls a session sees while it is idle: look-ups and recordings for other sessions.
\<close>

datatype session_op =
    OpIsDuplicate time nat nat
  | OpRecordResult time nat nat SessionResult

fun op_sid :: "session_op \<Rightarrow> nat" where
  "op_sid (OpIsDuplicate _ sid _) = sid"
| "op_sid (OpRecordResult _ sid _ _) = sid"

fun run_op :: "session_op \<Rightarrow> ClientSessionManager \<Rightarrow> ClientSessionManager" where
  "run_op (OpIsDuplicate now sid seq) m = snd (IsDuplicate now sid seq m)"
| "run_op (OpRecordResult now sid seq r) m = RecordResult now sid seq r m"

lemma run_op_wf: "sm_wf m \<Longrightarrow> sm_wf (run_op op m)"
  by (cases op) (simp_all add: IsDuplicate_wf RecordResult_wf)

text \<open>
  \<open>sid\<close> is in the cache with entry \<open>e\<close>, and everything used more recently than it is in \<open>T\<close>.
\<close>

definition recent :: "nat set \<Rightarrow> nat \<Rightarrow> ClientSessionEntry \<Rightarrow> ClientSessionManager \<Rightarrow> bool" where
  "recent T sid e m \<longleftrightarrow>
     map_of (sessions m) sid = Some e \<and>
     (\<exists>xs ys. lru_list m = xs @ sid # ys \<and> set xs \<subseteq> T)"

lemma recent_mono: "recent T sid e m \<Longrightarrow> T \<subseteq> T' \<Longrightarrow> recent T' sid e m"
  by (fastforce simp: recent_def)

lemma recent_touch:
  assumes "recent T sid e m" and "x \<noteq> sid" and "distinct (lru_list m)"
  shows "recent (insert x T) sid e (TouchSession now x e' m)"
proof -
  from assms obtain xs ys where l: "lru_list m = xs @ sid # ys" "set xs \<subseteq> T"
    and e: "map_of (sessions m) sid = Some e" by (auto simp: recent_def)
  have "\<exists>xs' ys'. x # remove1 x (xs @ sid # ys) = xs' @ sid # ys' \<and> set xs' \<subseteq> insert x T"
  proof (cases "x \<in> set xs")
    case True
    then have "x # remove1 x (xs @ sid # ys) = (x # remove1 x xs) @ sid # ys"
      by (simp add: remove1_append)
    moreover have "set (x # remove1 x xs) \<subseteq> insert x T"
      using l(2) set_remove1_subset [of x xs] by auto
    ultimately show ?thesis by blast
  next
    case False
    then have "x # remove1 x (xs @ sid # ys) = (x # xs) @ sid # remove1 x ys"
      using assms(2) by (simp add: remove1_append)
    moreover have "set (x # xs) \<subseteq> insert x T" using l(2) by auto
    ultimately show ?thesis by blast
  qed
  with l(1) e assms(2) show ?thesis by (simp add: recent_def TouchSession_def)
qed

lemma recent_evict:
  assumes "recent T sid e m" and "sm_wf m" and "finite T" and "Suc (card T) < length (lru_list m)"
  shows "recent T sid e (EvictLRU m)"
proof -
  from assms obtain xs ys where l: "lru_list m = xs @ sid # ys" "set xs \<subseteq> T"
    and e: "map_of (sessions m) sid = Some e" by (auto simp: recent_def)
  have "distinct xs" using assms(2) l(1) by (simp add: sm_wf_def)
  then have "length xs \<le> card T" using l(2) assms(3) by (metis card_mono distinct_card)
  with assms(4) l(1) have "ys \<noteq> []" by auto
  then obtain zs y where ys: "ys = zs @ [y]" by (metis rev_exhaust)
  have "y \<noteq> sid" using assms(2) l(1) ys by (auto simp: sm_wf_def)
  with l e ys show ?thesis by (auto simp: recent_def EvictLRU_def butlast_append)
qed

lemma recent_run_op:
  assumes "recent T sid e m" and "sm_wf m" and "op_sid op \<noteq> sid" and "finite T"
    and "0 < max_sessions m \<longrightarrow> card (insert (op_sid op) T) < max_sessions m"
  shows "recent (insert (op_sid op) T) sid e (run_op op m)"
proof (cases op)
  case (OpIsDuplicate now x seq)
  with assms show ?thesis
    by (auto simp: IsDuplicate_def Let_def sm_wf_def intro: recent_touch recent_mono split: option.splits)
next
  case (OpRecordResult now x seq r)
  show ?thesis
  proof (cases "map_of (sessions m) x")
    case (Some e')
    with assms OpRecordResult show ?thesis
      by (auto simp: RecordResult_def sm_wf_def intro: recent_touch)
  next
    case None
    let ?m1 = "if max_sessions m \<le> length (sessions m) \<and> 0 < max_sessions m then EvictLRU m else m"
    have "recent T sid e ?m1"
    proof (cases "max_sessions m \<le> length (sessions m) \<and> 0 < max_sessions m \<and> x \<notin> T")
      case True
      then have "Suc (card T) < length (lru_list m)"
        using assms OpRecordResult sm_wf_length [OF assms(2)] by (simp add: Size_def)
      with True assms show ?thesis by (simp add: recent_evict)
    next
      case False
      show ?thesis
      proof (cases "max_sessions m \<le> length (sessions m) \<and> 0 < max_sessions m")
        case full: True
        with False have "x \<in> T" by simp
        from assms(1) obtain xs ys where l: "lru_list m = xs @ sid # ys" "set xs \<subseteq> T"
          and e: "map_of (sessions m) sid = Some e"
          by (auto simp: recent_def)
        have "x \<notin> set xs" using None sm_wf_mem [OF assms(2), of x] l(1) by auto
        then have "recent (T - {x}) sid e m"
          unfolding recent_def using l e by blast
        moreover have "Suc (card (T - {x})) = card T"
          using assms(4) \<open>x \<in> T\<close> by (rule card_Suc_Diff1)
        then have "Suc (card (T - {x})) < length (lru_list m)"
          using assms(5) OpRecordResult full \<open>x \<in> T\<close> sm_wf_length [OF assms(2)]
          by (auto simp: Size_def insert_absorb)
        ultimately have "recent (T - {x}) sid e (EvictLRU m)"
          using assms(2,4) by (simp add: recent_evict)
        with full show ?thesis by (auto elim: recent_mono)
      qed (use assms(1) in auto)
    qed
    then obtain xs ys where l: "map_of (sessions ?m1) sid = Some e" "lru_list ?m1 = xs @ sid # ys" "set xs \<subseteq> T"
      unfolding recent_def by blast
    have "map_of (sessions (run_op op m)) sid = Some e"
      and "lru_list (run_op op m) = (x # xs) @ sid # ys"
      using None OpRecordResult assms(3) l(1,2) by (simp_all add: RecordResult_def Let_def)
    moreover have "set (x # xs) \<subseteq> insert (op_sid op) T" using l(3) OpRecordResult by auto
    ultimately show ?thesis unfolding recent_def by blast
  qed
qed

lemma run_op_max [simp]: "max_sessions (run_op op m) = max_sessions m"
  by (cases op) (auto simp: IsDuplicate_def RecordResult_def TouchSession_def EvictLRU_def Let_def split: option.splits)

lemma recent_run:
  assumes "recent T sid e m" and "sm_wf m" and "sid \<notin> op_sid ` set ops" and "finite T"
    and "0 < max_sessions m \<longrightarrow> card (T \<union> op_sid ` set ops) < max_sessions m"
  shows "recent (T \<union> op_sid ` set ops) sid e (fold run_op ops m)"
  using assms
proof (induction ops arbitrary: m T)
  case Nil
  then show ?case by simp
next
  case (Cons op ops)
  have sub: "card (insert (op_sid op) T) \<le> card (T \<union> op_sid ` set (op # ops))"
    using Cons.prems(4) by (intro card_mono) auto
  from Cons.prems sub have "recent (insert (op_sid op) T) sid e (run_op op m)"
    by (intro recent_run_op) auto
  with Cons.prems have "recent (insert (op_sid op) T \<union> op_sid ` set ops) sid e (fold run_op ops (run_op op m))"
    by (intro Cons.IH) (auto simp: run_op_wf)
  then show ?case by simp
qed

lemma recent_IsDuplicate:
  assumes "recent T sid e m" and "seq \<le> last_seq e"
  shows "fst (IsDuplicate now sid seq m) = Some (last_result e)"
  using assms by (auto simp: recent_def IsDuplicate_def Let_def)

lemma recent_after_record:
  assumes "sm_wf m"
  shows "\<exists>e. recent {} sid e (RecordResult now sid seq r m) \<and> last_seq e = seq \<and> last_result e = r"
proof (cases "map_of (sessions m) sid")
  case None
  then show ?thesis by (auto simp: recent_def RecordResult_def Let_def intro: exI [of _ "[]"])
next
  case (Some e)
  then show ?thesis
    by (auto simp: recent_def RecordResult_def TouchSession_def intro: exI [of _ "[]"])
qed

section \<open>Properties\<close>

text \<open>
  Once the result of a session's command is recorded, every retry of that command (or of
  an earlier one) is answered from the cache and not executed again, as long as fewer than
  \<open>max_sessions\<close> distinct other sessions were served in between: LRU eviction never drops a
  session before that many newer ones exist.
\<close>

theorem recorded_result_answers_retries:
  assumes "sm_wf m" and "sid \<notin> op_sid ` set ops"
    and "0 < max_sessions m \<longrightarrow> card (op_sid ` set ops) < max_sessions m"
    and "k \<le> seq"
  shows "fst (IsDuplicate later sid k (fold run_op ops (RecordResult now sid seq r m))) = Some r"
proof -
  let ?m = "RecordResult now sid seq r m"
  obtain e where e: "recent {} sid e ?m" "last_seq e = seq" "last_result e = r"
    using recent_after_record [OF assms(1)] by blast
  have max: "max_sessions ?m = max_sessions m"
    using run_op_max [of "OpRecordResult now sid seq r" m] by simp
  have "recent ({} \<union> op_sid ` set ops) sid e (fold run_op ops ?m)"
    using e(1) assms max by (intro recent_run) (auto simp: RecordResult_wf)
  from recent_IsDuplicate [OF this, of k] e assms(4) show ?thesis by simp
qed

theorem recorded_result_answers_retries_witness:
  "fst (IsDuplicate 9 1 5 (fold run_op [OpRecordResult 8 2 1 \<lparr>sr_success = True, sr_response = ''b'',
      sr_applied_index = 2, sr_applied_term = 1, sr_error_message = []\<rparr>]
     (RecordResult 7 1 5 \<lparr>sr_success = True, sr_response = ''a'', sr_applied_index = 1,
        sr_applied_term = 1, sr_error_message = []\<rparr> (mkSessionManager 2 0)))) =
   Some \<lparr>sr_success = True, sr_response = ''a'', sr_applied_index = 1, sr_applied_term = 1,
     sr_error_message = []\<rparr>"
  by (rule recorded_result_answers_retries) (simp_all add: mkSessionManager_def sm_wf_def Size_def)

text \<open>
  C38: The cache never exceeds its capacity and its LRU list always names exactly the cached
  sessions, once each, whatever mix of look-ups, recordings, expiry sweeps and clears runs;
  and an expiry sweep removes exactly the sessions idle for at least the TTL.
\<close>

theorem session_cache_invariant:
  assumes "sm_wf m"
  shows "sm_wf (snd (IsDuplicate now sid seq m)) \<and> sm_wf (RecordResult now sid seq r m) \<and>
    sm_wf (snd (EvictExpired now m)) \<and> sm_wf (Clear m) \<and>
    map_of (sessions (snd (EvictExpired now m))) sid =
      (case map_of (sessions m) sid of
         None \<Rightarrow> None
       | Some e \<Rightarrow> if 0 < ttl_ms m \<and> expired now (ttl_ms m) e then None else Some e)"
proof -
  have "sid \<in> set (lru_list m)" if "map_of (sessions m) sid = Some e" for e
    using sm_wf_mem [OF assms, of sid] that by simp
  then have "map_of (sessions (snd (EvictExpired now m))) sid =
      (case map_of (sessions m) sid of
         None \<Rightarrow> None
       | Some e \<Rightarrow> if 0 < ttl_ms m \<and> expired now (ttl_ms m) e then None else Some e)"
    using assms evict_loop_sessions [OF assms, of "rev (lru_list m)" now 0 sid]
    by (auto simp: EvictExpired_def sm_wf_def split: option.splits)
  with assms show ?thesis
    by (simp add: IsDuplicate_wf RecordResult_wf EvictExpired_wf) (simp add: sm_wf_def Clear_def Size_def)
qed

theorem session_cache_invariant_witness:
  "sm_wf (RecordResult 7 1 5 \<lparr>sr_success = True, sr_response = ''a'', sr_applied_index = 1,
     sr_applied_term = 1, sr_error_message = []\<rparr> (mkSessionManager 2 0))"
  using session_cache_invariant [OF sm_wf_init] by blast

end
