(* ===== verification/Text_Model.thy ===== *)
theory Text_Model
  imports Prelude
begin

text \<open>
  The pieces of the C++ standard library the program parses and prints its own text formats
  with: \<open>std::to_string\<close>, \<open>std::stoll\<close>/\<open>std::stoi\<close>, \<open>std::string::find\<close>, \<open>rfind\<close> and \<open>starts_with\<close>.
  The number readers follow \<open>strtol\<close> in base ten: leading white space, an optional sign, a
  maximal run of digits; \<open>None\<close> is the exception for no digits or a value out of range.
\<close>

section \<open>Signed 32 and 64 bit integers\<close>

definition i32 :: "int \<Rightarrow> int" where
  "i32 i = (i + 2147483648) mod 4294967296 - 2147483648"

definition is_i32 :: "int \<Rightarrow> bool" where
  "is_i32 i \<longleftrightarrow> - 2147483648 \<le> i \<and> i < 2147483648"

definition is_i64 :: "int \<Rightarrow> bool" where
  "is_i64 i \<longleftrightarrow> - 9223372036854775808 \<le> i \<and> i < 9223372036854775808"

lemma i32_id [simp]: "is_i32 i \<Longrightarrow> i32 i = i"
  by (simp add: i32_def is_i32_def)

lemma is_i32_i64: "is_i32 i \<Longrightarrow> is_i64 i"
  by (simp add: is_i32_def is_i64_def)

section \<open>Printing numbers\<close>

definition digit_char :: "nat \<Rightarrow> char" where
  "digit_char d = char_of (48 + d)"

fun nat_to_string :: "nat \<Rightarrow> string" where
  "nat_to_string n =
     (if n < 10 then [digit_char n] else nat_to_string (n div 10) @ [digit_char (n mod 10)])"

declare nat_to_string.simps [simp del]

definition to_string :: "int \<Rightarrow> string" where
  "to_string i = (if i < 0 then CHR ''-'' # nat_to_string (nat (- i)) else nat_to_string (nat i))"

section \<open>Reading numbers\<close>

definition is_digit :: "char \<Rightarrow> bool" where
  "is_digit c \<longleftrightarrow> 48 \<le> (of_char c :: nat) \<and> (of_char c :: nat) \<le> 57"

definition digit_val :: "char \<Rightarrow> nat" where
  "digit_val c = of_char c - 48"

definition is_space :: "char \<Rightarrow> bool" where
  "is_space c \<longleftrightarrow> (of_char c :: nat) = 32 \<or> (9 \<le> (of_char c :: nat) \<and> (of_char c :: nat) \<le> 13)"

definition digits_val :: "string \<Rightarrow> nat" where
  "digits_val ds = foldl (\<lambda>a c. 10 * a + digit_val c) 0 ds"

text \<open>The value read and the number of characters consumed.\<close>

definition strtol :: "string \<Rightarrow> (int \<times> nat) option" where
  "strtol s =
     (let ws = takeWhile is_space s; r = dropWhile is_space s;
          neg = (case r of c # _ \<Rightarrow> c = CHR ''-'' | [] \<Rightarrow> False);
          signed = (case r of c # _ \<Rightarrow> c = CHR ''-'' \<or> c = CHR ''+'' | [] \<Rightarrow> False);
          body = (if signed then tl r else r);
          ds = takeWhile is_digit body
      in if ds = [] then None
         else Some (if neg then - int (digits_val ds) else int (digits_val ds),
                    length ws + (if signed then 1 else 0) + length ds))"

definition stoll :: "string \<Rightarrow> int option" where
  "stoll s = (case strtol s of None \<Rightarrow> None | Some (v, _) \<Rightarrow> if is_i64 v then Some v else None)"

text \<open>\<open>strtoull\<close> negates a number with a minus sign in \<open>uint64_t\<close>.\<close>

definition stoull :: "string \<Rightarrow> nat option" where
  "stoull s =
     (case strtol s of
        None \<Rightarrow> None
      | Some (v, _) \<Rightarrow> if \<bar>v\<bar> < int U64 then Some (nat (v mod int U64)) else None)"

definition stoi :: "string \<Rightarrow> (int \<times> nat) option" where
  "stoi s = (case strtol s of None \<Rightarrow> None | Some (v, k) \<Rightarrow> if is_i32 v then Some (v, k) else None)"

section \<open>Searching\<close>

text \<open>\<open>s.find(c, pos)\<close>; \<open>None\<close> is \<open>npos\<close>.\<close>

fun find_char :: "char \<Rightarrow> string \<Rightarrow> nat option" where
  "find_char c [] = None"
| "find_char c (x # xs) = (if x = c then Some 0 else map_option Suc (find_char c xs))"

definition find_from :: "char \<Rightarrow> nat \<Rightarrow> string \<Rightarrow> nat option" where
  "find_from c pos s = map_option (\<lambda>k. pos + k) (find_char c (drop pos s))"

definition rfind_char :: "char \<Rightarrow> string \<Rightarrow> nat option" where
  "rfind_char c s = map_option (\<lambda>k. length s - 1 - k) (find_char c (rev s))"

definition starts_with :: "string \<Rightarrow> string \<Rightarrow> bool" where
  "starts_with p s \<longleftrightarrow> take (length p) s = p"

definition substr :: "string \<Rightarrow> nat \<Rightarrow> nat \<Rightarrow> string" where
  "substr s pos n = take n (drop pos s)"

section \<open>Printing then reading gives the number back\<close>

lemma digit_char_val: "d < 10 \<Longrightarrow> digit_val (digit_char d) = d"
  by (simp add: digit_val_def digit_char_def)

lemma digit_char_digit: "d < 10 \<Longrightarrow> is_digit (digit_char d)"
  by (simp add: is_digit_def digit_char_def)

lemma digits_val_snoc [simp]: "digits_val (xs @ [c]) = 10 * digits_val xs + digit_val c"
  by (simp add: digits_val_def)

lemma nat_to_string_digits: "list_all is_digit (nat_to_string n)"
  by (induction n rule: nat_to_string.induct)
     (subst nat_to_string.simps, simp add: digit_char_digit)

lemma nat_to_string_val [simp]: "digits_val (nat_to_string n) = n"
proof (induction n rule: nat_to_string.induct)
  case (1 n)
  then show ?case
    by (subst nat_to_string.simps) (simp add: digits_val_def [of "[_]"] digit_char_val)
qed

lemma nat_to_string_nonempty [simp]: "nat_to_string n \<noteq> []"
  by (subst nat_to_string.simps) simp

lemma is_digit_not_space: "is_digit c \<Longrightarrow> \<not> is_space c"
  by (auto simp: is_digit_def is_space_def)

lemma is_digit_not_sign: "is_digit c \<Longrightarrow> c \<noteq> CHR ''-'' \<and> c \<noteq> CHR ''+''"
  by (auto simp: is_digit_def)

lemma takeWhile_digits:
  assumes "list_all is_digit ds" and "rest = [] \<or> \<not> is_digit (hd rest)"
  shows "takeWhile is_digit (ds @ rest) = ds"
  using assms by (induction ds) (cases rest; auto)+

lemma strtol_unsigned:
  assumes "list_all is_digit ds" and "ds \<noteq> []" and "rest = [] \<or> \<not> is_digit (hd rest)"
  shows "strtol (ds @ rest) = Some (int (digits_val ds), length ds)"
proof -
  obtain d ds' where ds: "ds = d # ds'" using assms(2) by (cases ds) auto
  then have d: "is_digit d" using assms(1) by simp
  have "takeWhile is_digit (d # ds' @ rest) = d # ds'"
    using takeWhile_digits [OF assms(1,3)] ds by simp
  then show ?thesis
    using ds d is_digit_not_space [OF d] is_digit_not_sign [OF d]
    by (simp add: strtol_def Let_def)
qed

lemma strtol_signed:
  assumes "list_all is_digit ds" and "ds \<noteq> []" and "rest = [] \<or> \<not> is_digit (hd rest)"
  shows "strtol (CHR ''-'' # ds @ rest) = Some (- int (digits_val ds), Suc (length ds))"
  using takeWhile_digits [OF assms(1,3)] assms(2) by (simp add: strtol_def is_space_def Let_def)

lemma strtol_to_string:
  assumes "rest = [] \<or> \<not> is_digit (hd rest)"
  shows "strtol (to_string i @ rest) = Some (i, length (to_string i))"
  using strtol_unsigned [OF nat_to_string_digits nat_to_string_nonempty assms, of "nat i"]
    strtol_signed [OF nat_to_string_digits nat_to_string_nonempty assms, of "nat (- i)"]
  by (simp add: to_string_def)

lemma stoll_to_string:
  assumes "is_i64 i" and "rest = [] \<or> \<not> is_digit (hd rest)"
  shows "stoll (to_string i @ rest) = Some i"
  using strtol_to_string [OF assms(2), of i] assms(1) by (simp add: stoll_def)

lemma stoull_to_string:
  assumes "n < U64" and "rest = [] \<or> \<not> is_digit (hd rest)"
  shows "stoull (nat_to_string n @ rest) = Some n"
  using strtol_unsigned [OF nat_to_string_digits nat_to_string_nonempty assms(2), of n] assms(1)
  by (simp add: stoull_def)

lemma nat_to_string_inj [simp]: "nat_to_string m = nat_to_string n \<longleftrightarrow> m = n"
  by (metis nat_to_string_val)

lemma stoi_to_string:
  assumes "is_i32 i"
  shows "stoi (to_string i) = Some (i, length (to_string i))"
  using strtol_to_string [of "[]" i] assms by (simp add: stoi_def)

lemma colon_not_digit: "\<not> is_digit (CHR '':'')"
  by (simp add: is_digit_def)

lemma colon_notin_to_string: "CHR '':'' \<notin> set (to_string i)"
  using nat_to_string_digits colon_not_digit
  by (auto simp: to_string_def list_all_iff)

lemma find_char_notin: "c \<notin> set xs \<Longrightarrow> find_char c (xs @ c # ys) = Some (length xs)"
  by (induction xs) auto

lemma find_char_None: "find_char c xs = None \<longleftrightarrow> c \<notin> set xs"
  by (induction xs) auto

lemma find_from_prefix:
  assumes "c \<notin> set xs"
  shows "find_from c (length p) (p @ xs @ c # ys) = Some (length p + length xs)"
  using find_char_notin [OF assms] by (simp add: find_from_def)

lemma starts_with_append [simp]: "starts_with p (p @ s)"
  by (simp add: starts_with_def)

end
