(* ===== verification/Raft_Group.thy ===== *)
theory Raft_Group
  imports Rpc_Messages Cluster_Config Runtime_Config Client_Sessions Text_Model
begin

text \<open>
  The state of one Raft group on one node: \<open>RaftGroup\<close> of \<open>src/raft_group.h\<close> with its constructor in
  \<open>src/raft_group.cpp\<close>, and the fields \<open>RaftNodeImpl\<close> of \<open>src/raft_node_impl.h\<close> adds.

  Code outside the node is seen through \<open>Env\<close>, the values it returns during one call: the two
  clocks, the random generator, the persister, the serializer, the JSON library and the user's
  state machine. What the node asks of it is appended to \<open>out\<close>: messages sent, timers armed,
  log writes handed to the persister, callbacks run. A C++ callback is a natural number, and a
  possibly empty \<open>std::function\<close> an option. \<open>durable\<close> is what \<open>SaveState\<close> last wrote.

  Functions that can fail to return are \<open>option\<close>-valued: \<open>None\<close> is \<open>std::abort\<close> or a thread that
  locks a \<open>std::mutex\<close> it already holds.
\<close>

section \<open>Values\<close>

datatype RaftNodeRole = FOLLOWER | CANDIDATE | LEADER

datatype NodeState = kInitialized | kRunning | kStopping | kStopped

record PersistentState =
  ps_current_term :: Term
  ps_voted_for :: NodeId
  ps_cluster_nodes :: "NodeId list"
  ps_cluster_old_nodes :: "NodeId list"
  ps_cluster_learners :: "NodeId list"
  ps_cluster_version :: nat
  ps_cluster_is_joint :: bool

text \<open>
  The \<open>Snapshot\<close> interface of \<open>state_machine.h\<close>, implemented by the user: its metadata and its
  \<open>Read(offset, dest, length)\<close>, as the bytes it puts into \<open>dest\<close>.
\<close>

record Snapshot =
  snap_index :: nat
  snap_term :: nat
  snap_read :: "nat \<Rightarrow> nat \<Rightarrow> string"

record ApplyResult =
  ar_success :: bool
  ar_response :: string
  ar_applied_index :: nat
  ar_error_message :: string

definition ApplyResult_init :: ApplyResult where
  "ApplyResult_init = \<lparr>ar_success = False, ar_response = [], ar_applied_index = 0, ar_error_message = []\<rparr>"

type_synonym callback = "nat option"

record PendingProposal =
  pp_index :: Index
  pp_callback :: callback
  pp_propose_time :: time

record ClientSession =
  cs_last_seq :: nat
  cs_last_response :: string
  cs_last_index :: Index
  cs_last_term :: Term
  cs_last_active :: time

record SnapshotSendState =
  ss_snapshot :: "Snapshot option"
  ss_offset :: nat
  ss_last_included_index :: Index
  ss_last_included_term :: Term
  ss_in_progress :: bool
  ss_last_chunk_size :: nat

definition SnapshotSendState_init :: SnapshotSendState where
  "SnapshotSendState_init =
     \<lparr>ss_snapshot = None, ss_offset = 0, ss_last_included_index = 0, ss_last_included_term = 0,
      ss_in_progress = False, ss_last_chunk_size = 0\<rparr>"

record PendingReadIndex =
  pr_read_index :: Index
  pr_callback :: nat
  pr_start_time :: time
  pr_acks :: "NodeId set"
  pr_heartbeats_sent :: bool

record InflightEntry =
  if_start_index :: Index
  if_count :: nat

record ApplyTask =
  at_index :: Index
  at_data :: string
  at_callback :: callback
  at_is_config_change :: bool
  at_propose_time :: "time option"
  at_session_id :: nat
  at_seq_num :: nat

record RaftNodeConfig =
  nc_node_id :: NodeId
  nc_listen_addr :: NodeAddr
  nc_peers :: "NodeAddr list"
  nc_peer_node_ids :: "NodeId list"
  nc_data_dir :: string
  nc_values :: RuntimeConfigValues
  nc_client_auth_enabled :: bool
  nc_check_quorum_enabled :: bool
  nc_pre_vote_enabled :: bool
  nc_auto_remove_dead_nodes :: bool
  nc_dead_node_timeout_ms :: nat
  nc_quiesced_mode_enabled :: bool
  nc_quiesced_idle_threshold_ms :: nat
  nc_quiesced_heartbeat_interval_ms :: nat
  nc_quiesced_election_timeout_ms :: nat
  nc_quiesced_max_consecutive_timeouts :: nat

section \<open>What the node asks of its surroundings\<close>

text \<open>The continuation a sent message captures, and the work a timer runs.\<close>

datatype rpc_continuation =
    OnRequestVoteResponse Term
  | OnPreVoteResponse Term
  | OnAppendEntriesResponse bool
  | OnReadIndexHeartbeat nat
  | OnInstallSnapshotResponse

datatype timer_task =
    PreVoteTimeout
  | RetryAppendEntries NodeId
  | RemoveDeadNode NodeId
  | AutoPromoteLearner NodeId
  | PrepareSnapshotTask NodeId
  | RetrySnapshotChunk NodeId
  | StopNode
  | RunProposalCallback nat ApplyResult

datatype effect =
    SendRpc NodeId NodeAddr rpc_request nat rpc_continuation
  | SetTimeout nat timer_task
  | RoleChangedEvent RaftNodeRole RaftNodeRole Term
  | LeaderChangedEvent NodeId NodeAddr Term
  | LifecycleEvent bool
  | RoleChangeCallback RaftNodeRole Term
  | LeaderChangeCallback NodeId NodeAddr
  | LogAppend RaftLogEntry "Index option"
  | LogAppendSync RaftLogEntry
  | LogTruncateSuffix Index
  | LogTruncatePrefix nat
  | SaveSnapshot Index Term string
  | RestoreStateMachine string
  | ApplyCommand Index string
  | ProposalCallback nat ApplyResult
  | ReadCallback nat

record Env =
  env_now :: time
  env_steady :: time
  env_rand :: "nat \<Rightarrow> nat \<Rightarrow> nat"
  env_save_ok :: "PersistentState \<Rightarrow> bool"
  env_append_sync :: "RaftLogEntry \<Rightarrow> Status"
  env_serialize_ok :: "rpc_request \<Rightarrow> bool"
  env_dump_nodes :: "NodeId list \<Rightarrow> string"
  env_parse_nodes :: "string \<Rightarrow> NodeId list option"
  env_create_snapshot :: "Snapshot option"
  env_restore_ok :: "string \<Rightarrow> bool"
  env_save_snapshot :: "Index \<Rightarrow> Term \<Rightarrow> string \<Rightarrow> Status"
  env_apply :: "string \<Rightarrow> Index \<Rightarrow> string + ApplyResult"
  env_file_ok :: bool

section \<open>The group and the node\<close>

record RaftGroup =
  group_id :: nat
  config :: RaftNodeConfig
  runtime_config :: RuntimeConfig
  server_id :: NodeId
  peer_addrs :: "NodeAddr list"
  peer_map :: "(NodeId \<times> NodeAddr) list"
  current_term :: Term
  voted_for :: NodeId
  raft_log :: RaftLog
  commit_index :: Index
  last_applied :: Index
  flushed_index :: Index
  leader_id :: NodeId
  leader_addr :: NodeAddr
  role :: RaftNodeRole
  vote_count :: nat
  votes_received :: "NodeId set"
  pre_votes_received :: "NodeId set"
  next_index :: "NodeId \<rightharpoonup> Index"
  match_index :: "(NodeId \<times> Index) list"
  client_sessions :: "nat \<rightharpoonup> ClientSession"
  session_manager :: ClientSessionManager
  proposal_sessions :: "Index \<rightharpoonup> nat \<times> nat"
  retry_state :: "NodeId \<rightharpoonup> nat"
  inflight :: "NodeId \<rightharpoonup> InflightEntry list"
  last_heartbeat_sent :: "NodeId \<rightharpoonup> time"
  leader_lease_expiry :: time
  pre_vote_count :: nat
  pre_vote_running :: bool
  pre_vote_term :: Term
  check_quorum_enabled :: bool
  pre_vote_enabled :: bool
  has_leader_contact :: bool
  last_leader_contact :: time
  quorum_acks :: "(NodeId \<times> time) list"
  quiesced :: bool
  last_activity_time :: time
  consecutive_quiesced_timeouts :: nat
  last_contact_time :: "NodeId \<rightharpoonup> time"
  pending_config_change :: bool
  cluster_config :: ClusterConfig
  election_timer_enabled :: bool
  election_deadline :: time
  heartbeat_timer_enabled :: bool
  heartbeat_deadline :: time
  snapshot_check_timer_enabled :: bool
  snapshot_check_deadline :: time
  last_snapshot_index :: Index
  last_snapshot_term :: Term
  snapshot_sends :: "NodeId \<rightharpoonup> SnapshotSendState"
  snapshot_temp_path :: string
  snapshot_recv_index :: Index
  snapshot_recv_term :: Term
  snapshot_recv_expected_offset :: nat
  snapshot_restore_in_progress :: bool
  pending_proposals :: "(Index \<times> PendingProposal) list"
  apply_queue :: "ApplyTask list"
  apply_running :: bool
  last_enqueued :: Index
  pending_reads :: "(nat \<times> PendingReadIndex) list"
  next_read_id :: nat
  has_role_change_callback :: bool
  has_leader_change_callback :: bool

record RaftNode = RaftGroup +
  has_persister :: bool
  has_log_persister :: bool
  durable :: "PersistentState option"
  state :: NodeState
  next_correlation_id :: nat
  snapshot_in_progress :: bool
  temp_files :: "string \<rightharpoonup> string"
  out :: "effect list"

end
