(* ===== verification/Node_State.thy ===== *)
theory Node_State
  imports Raft_Group
begin

text \<open>
  Construction of a node, the helpers every component uses, and the tick-driven timers: the
  constructor of \<open>src/raft_group.cpp\<close>, \<open>CurrentPersistentStateLocked\<close>, \<open>PersistClusterConfigLocked\<close> and
  \<open>GetLogTermLocked\<close> of \<open>src/raft_node_core.cpp\<close>, the timer functions of \<open>election_manager.cpp\<close>,
  \<open>log_replicator.cpp\<close> and \<open>snapshot_manager.cpp\<close>, and \<open>src/quiesced_mode.cpp\<close>.
\<close>

section \<open>Helpers\<close>

definition emit :: "effect \<Rightarrow> RaftNode \<Rightarrow> RaftNode" where
  "emit e s = s\<lparr>out := out s @ [e]\<rparr>"

definition cfg :: "RaftNode \<Rightarrow> RuntimeConfigValues" where
  "cfg s = rc_values (runtime_config s)"

definition IsRunning :: "RaftNode \<Rightarrow> bool" where
  "IsRunning s \<longleftrightarrow> state s = kRunning"

text \<open>\<open>m[k]\<close> on the \<open>unordered_map\<close> \<open>match_index_\<close>: the value, and the table with the key present.\<close>

definition al_at0 :: "('k \<times> nat) list \<Rightarrow> 'k \<Rightarrow> nat" where
  "al_at0 m k = (case map_of m k of None \<Rightarrow> 0 | Some v \<Rightarrow> v)"

lemma al_at0_update [simp]: "al_at0 (AList.update k v m) k' = (if k' = k then v else al_at0 m k')"
  by (simp add: al_at0_def)

definition take_correlation_id :: "RaftNode \<Rightarrow> RaftNode" where
  "take_correlation_id s = s\<lparr>next_correlation_id := u64_add (next_correlation_id s) 1\<rparr>"

definition CurrentPersistentStateLocked :: "RaftNode \<Rightarrow> PersistentState" where
  "CurrentPersistentStateLocked s =
     \<lparr>ps_current_term = current_term s, ps_voted_for = voted_for s,
      ps_cluster_nodes = cc_nodes (cluster_config s),
      ps_cluster_old_nodes = cc_old_nodes (cluster_config s),
      ps_cluster_learners = cc_learners (cluster_config s),
      ps_cluster_version = cc_version (cluster_config s),
      ps_cluster_is_joint = cc_is_joint (cluster_config s)\<rparr>"

text \<open>\<open>persister_->SaveState\<close>: durable when it reports success, and not written otherwise.\<close>

definition SaveState :: "Env \<Rightarrow> RaftNode \<Rightarrow> bool \<times> RaftNode" where
  "SaveState env s =
     (let ps = CurrentPersistentStateLocked s in
      if env_save_ok env ps then (True, s\<lparr>durable := Some ps\<rparr>) else (False, s))"

definition PersistClusterConfigLocked :: "Env \<Rightarrow> RaftNode \<Rightarrow> RaftNode" where
  "PersistClusterConfigLocked env s =
     (if \<not> has_persister s then s else snd (SaveState env s))"

definition GetLogTermLocked :: "RaftNode \<Rightarrow> nat \<Rightarrow> Term" where
  "GetLogTermLocked s index =
     (if index = 0 then 0
      else if index = last_snapshot_index s then last_snapshot_term s
      else GetLogTerm (raft_log s) index)"

section \<open>Construction\<close>

definition MakeRuntimeConfigValues :: "RaftNodeConfig \<Rightarrow> RuntimeConfigValues" where
  "MakeRuntimeConfigValues c =
     (nc_values c)\<lparr>max_pipeline_window := max_pipeline_window default_values\<rparr>"

definition ExtractNodeIdFromAddr :: "NodeAddr \<Rightarrow> NodeId" where
  "ExtractNodeIdFromAddr addr =
     (case rfind_char (CHR '':'') addr of
        None \<Rightarrow> -1
      | Some colon_pos \<Rightarrow>
          if colon_pos = length addr - 1 then -1
          else let port_str = drop (colon_pos + 1) addr in
               case stoi port_str of
                 None \<Rightarrow> -1
               | Some (port, idx) \<Rightarrow> if idx \<noteq> length port_str \<or> port < 0 then -1 else port)"

definition peer_ids :: "RaftNodeConfig \<Rightarrow> NodeId list" where
  "peer_ids c =
     (if nc_peer_node_ids c \<noteq> [] then nc_peer_node_ids c else map ExtractNodeIdFromAddr (nc_peers c))"

definition blank_node :: "RaftNodeConfig \<Rightarrow> nat \<Rightarrow> RaftNode" where
  "blank_node c gid =
    \<lparr>group_id = gid, config = c, runtime_config = mkRuntimeConfig (MakeRuntimeConfigValues c),
     server_id = nc_node_id c, peer_addrs = nc_peers c, peer_map = [],
     current_term = 0, voted_for = -1, raft_log = RaftLog_init,
     commit_index = 0, last_applied = 0, flushed_index = 0, leader_id = -1, leader_addr = [],
     role = FOLLOWER, vote_count = 0, votes_received = {}, pre_votes_received = {},
     next_index = Map.empty, match_index = [], client_sessions = Map.empty,
     session_manager = mkSessionManager 10000 300000, proposal_sessions = Map.empty,
     retry_state = Map.empty, inflight = Map.empty, last_heartbeat_sent = Map.empty,
     leader_lease_expiry = 0, pre_vote_count = 0, pre_vote_running = False, pre_vote_term = 0,
     check_quorum_enabled = nc_check_quorum_enabled c, pre_vote_enabled = nc_pre_vote_enabled c,
     has_leader_contact = False, last_leader_contact = 0, quorum_acks = [],
     quiesced = False, last_activity_time = 0, consecutive_quiesced_timeouts = 0,
     last_contact_time = Map.empty, pending_config_change = False,
     cluster_config = \<lparr>cc_nodes = [], cc_old_nodes = [], cc_learners = [], cc_version = 0,
                       cc_is_joint = False\<rparr>,
     election_timer_enabled = False, election_deadline = 0,
     heartbeat_timer_enabled = False, heartbeat_deadline = 0,
     snapshot_check_timer_enabled = False, snapshot_check_deadline = 0,
     last_snapshot_index = 0, last_snapshot_term = 0, snapshot_sends = Map.empty,
     snapshot_temp_path = [], snapshot_recv_index = 0, snapshot_recv_term = 0,
     snapshot_recv_expected_offset = 0, snapshot_restore_in_progress = False,
     pending_proposals = [], apply_queue = [], apply_running = False, last_enqueued = 0,
     pending_reads = [], next_read_id = 1,
     has_role_change_callback = False, has_leader_change_callback = False,
     has_persister = False, has_log_persister = False, durable = None, state = kInitialized,
     next_correlation_id = 1, snapshot_in_progress = False, temp_files = Map.empty, out = []\<rparr>"

text \<open>The constructor; \<open>Inl\<close> is the message of the \<open>invalid_argument\<close> it throws.\<close>

definition mkRaftNode :: "RaftNodeConfig \<Rightarrow> nat \<Rightarrow> bool \<Rightarrow> string + RaftNode" where
  "mkRaftNode c gid with_persister =
     (if nc_peer_node_ids c \<noteq> [] \<and> length (nc_peer_node_ids c) \<noteq> length (nc_peers c)
      then Inl ''peer_node_ids size must match peers size''
      else let ps = zip (peer_ids c) (nc_peers c) in
        case find (\<lambda>(i, _). i < 0) ps of
          Some (_, a) \<Rightarrow> Inl (''Cannot determine peer_id for address: '' @ a)
        | None \<Rightarrow> Inr ((blank_node c gid)
            \<lparr>peer_map := fold (\<lambda>(i, a) m. AList.update i a m) ps [],
             cluster_config := \<lparr>cc_nodes = nc_node_id c # peer_ids c, cc_old_nodes = [],
               cc_learners = [], cc_version = 1, cc_is_joint = False\<rparr>,
             has_persister := with_persister\<rparr>))"

section \<open>Timers\<close>

definition CancelElectionTimerLocked :: "RaftNode \<Rightarrow> RaftNode" where
  "CancelElectionTimerLocked s = s\<lparr>election_timer_enabled := False\<rparr>"

definition ResetElectionTimerLocked :: "Env \<Rightarrow> RaftNode \<Rightarrow> RaftNode" where
  "ResetElectionTimerLocked env s =
     (let base_timeout = (if quiesced s then nc_quiesced_election_timeout_ms (config s)
                          else election_timeout_ms (cfg s));
          timeout = env_rand env base_timeout (u32 (2 * base_timeout))
      in (CancelElectionTimerLocked s)\<lparr>election_deadline := env_now env + ms timeout,
                                       election_timer_enabled := True\<rparr>)"

definition StartHeartbeatTimerLocked :: "Env \<Rightarrow> nat \<Rightarrow> RaftNode \<Rightarrow> RaftNode" where
  "StartHeartbeatTimerLocked env interval_ms s =
     (let interval = (if interval_ms = 0 then heartbeat_interval_ms (cfg s) else interval_ms)
      in s\<lparr>heartbeat_deadline := env_now env + ms interval, heartbeat_timer_enabled := True\<rparr>)"

definition StopHeartbeatTimerLocked :: "RaftNode \<Rightarrow> RaftNode" where
  "StopHeartbeatTimerLocked s = s\<lparr>heartbeat_timer_enabled := False\<rparr>"

definition StartSnapshotCheckTimerLocked :: "Env \<Rightarrow> RaftNode \<Rightarrow> RaftNode" where
  "StartSnapshotCheckTimerLocked env s =
     (if snapshot_check_timer_enabled s then s
      else s\<lparr>snapshot_check_deadline := env_now env + ms (snapshot_check_interval_ms (cfg s)),
             snapshot_check_timer_enabled := True\<rparr>)"

definition StopSnapshotCheckTimerLocked :: "RaftNode \<Rightarrow> RaftNode" where
  "StopSnapshotCheckTimerLocked s = s\<lparr>snapshot_check_timer_enabled := False\<rparr>"

section \<open>Quiesced mode\<close>

text \<open>
  \<open>held\<close> says whether the calling thread holds \<open>replication_mtx_\<close>; a leader that enters or leaves
  quiesced mode locks it.
\<close>

definition ExitQuiescedLocked :: "Env \<Rightarrow> bool \<Rightarrow> RaftNode \<Rightarrow> RaftNode option" where
  "ExitQuiescedLocked env held s =
     (if \<not> quiesced s then Some s
      else let s1 = s\<lparr>quiesced := False, consecutive_quiesced_timeouts := 0\<rparr> in
           if role s1 = LEADER
           then (if held then None
                 else Some (StartHeartbeatTimerLocked env 0 (StopHeartbeatTimerLocked s1)))
           else Some s1)"

definition EnterQuiescedLocked :: "Env \<Rightarrow> bool \<Rightarrow> RaftNode \<Rightarrow> RaftNode option" where
  "EnterQuiescedLocked env held s =
     (if quiesced s then Some s
      else let s1 = s\<lparr>quiesced := True, consecutive_quiesced_timeouts := 0\<rparr> in
           if role s1 = LEADER
           then (if held then None
                 else Some (StartHeartbeatTimerLocked env (nc_quiesced_heartbeat_interval_ms (config s1))
                              (StopHeartbeatTimerLocked s1)))
           else Some s1)"

definition ShouldEnterQuiescedLocked :: "Env \<Rightarrow> RaftNode \<Rightarrow> bool" where
  "ShouldEnterQuiescedLocked env s \<longleftrightarrow>
     nc_quiesced_mode_enabled (config s) \<and> \<not> quiesced s \<and>
     beyond_ms (env_steady env) (last_activity_time s) (nc_quiesced_idle_threshold_ms (config s))"

definition RecordActivityLocked :: "Env \<Rightarrow> bool \<Rightarrow> RaftNode \<Rightarrow> RaftNode option" where
  "RecordActivityLocked env held s =
     (let s1 = s\<lparr>last_activity_time := env_steady env\<rparr> in
      if quiesced s1 then ExitQuiescedLocked env held s1 else Some s1)"

section \<open>Identity, role and configuration\<close>

text \<open>
  The part of the state replication, snapshots and the applier never touch.
\<close>

definition core :: "RaftNode \<Rightarrow> (NodeId \<times> RaftNodeRole \<times> Term \<times> NodeId \<times> NodeId set \<times> NodeId set) \<times>
    (bool \<times> Term \<times> NodeId \<times> NodeAddr \<times> bool \<times> bool \<times> NodeState) \<times>
    (RaftNodeConfig \<times> RuntimeConfig \<times> bool \<times> bool \<times> bool \<times> nat)" where
  "core s = ((server_id s, role s, current_term s, voted_for s, votes_received s, pre_votes_received s),
     (pre_vote_running s, pre_vote_term s, leader_id s, leader_addr s, has_persister s, has_log_persister s, state s),
     (config s, runtime_config s, quiesced s, check_quorum_enabled s, pre_vote_enabled s, group_id s))"

lemma core_upd [simp]:
  "core (s\<lparr>peer_addrs := x0\<rparr>) = core s"
  "core (s\<lparr>peer_map := x1\<rparr>) = core s"
  "core (s\<lparr>raft_log := x2\<rparr>) = core s"
  "core (s\<lparr>commit_index := x3\<rparr>) = core s"
  "core (s\<lparr>last_applied := x4\<rparr>) = core s"
  "core (s\<lparr>flushed_index := x5\<rparr>) = core s"
  "core (s\<lparr>vote_count := x6\<rparr>) = core s"
  "core (s\<lparr>next_index := x7\<rparr>) = core s"
  "core (s\<lparr>match_index := x8\<rparr>) = core s"
  "core (s\<lparr>client_sessions := x9\<rparr>) = core s"
  "core (s\<lparr>session_manager := x10\<rparr>) = core s"
  "core (s\<lparr>proposal_sessions := x11\<rparr>) = core s"
  "core (s\<lparr>retry_state := x12\<rparr>) = core s"
  "core (s\<lparr>inflight := x13\<rparr>) = core s"
  "core (s\<lparr>last_heartbeat_sent := x14\<rparr>) = core s"
  "core (s\<lparr>leader_lease_expiry := x15\<rparr>) = core s"
  "core (s\<lparr>pre_vote_count := x16\<rparr>) = core s"
  "core (s\<lparr>has_leader_contact := x17\<rparr>) = core s"
  "core (s\<lparr>last_leader_contact := x18\<rparr>) = core s"
  "core (s\<lparr>quorum_acks := x19\<rparr>) = core s"
  "core (s\<lparr>last_activity_time := x20\<rparr>) = core s"
  "core (s\<lparr>consecutive_quiesced_timeouts := x21\<rparr>) = core s"
  "core (s\<lparr>last_contact_time := x22\<rparr>) = core s"
  "core (s\<lparr>pending_config_change := x23\<rparr>) = core s"
  "core (s\<lparr>cluster_config := x24\<rparr>) = core s"
  "core (s\<lparr>election_timer_enabled := x25\<rparr>) = core s"
  "core (s\<lparr>election_deadline := x26\<rparr>) = core s"
  "core (s\<lparr>heartbeat_timer_enabled := x27\<rparr>) = core s"
  "core (s\<lparr>heartbeat_deadline := x28\<rparr>) = core s"
  "core (s\<lparr>snapshot_check_timer_enabled := x29\<rparr>) = core s"
  "core (s\<lparr>snapshot_check_deadline := x30\<rparr>) = core s"
  "core (s\<lparr>last_snapshot_index := x31\<rparr>) = core s"
  "core (s\<lparr>last_snapshot_term := x32\<rparr>) = core s"
  "core (s\<lparr>snapshot_sends := x33\<rparr>) = core s"
  "core (s\<lparr>snapshot_temp_path := x34\<rparr>) = core s"
  "core (s\<lparr>snapshot_recv_index := x35\<rparr>) = core s"
  "core (s\<lparr>snapshot_recv_term := x36\<rparr>) = core s"
  "core (s\<lparr>snapshot_recv_expected_offset := x37\<rparr>) = core s"
  "core (s\<lparr>snapshot_restore_in_progress := x38\<rparr>) = core s"
  "core (s\<lparr>pending_proposals := x39\<rparr>) = core s"
  "core (s\<lparr>apply_queue := x40\<rparr>) = core s"
  "core (s\<lparr>apply_running := x41\<rparr>) = core s"
  "core (s\<lparr>last_enqueued := x42\<rparr>) = core s"
  "core (s\<lparr>pending_reads := x43\<rparr>) = core s"
  "core (s\<lparr>next_read_id := x44\<rparr>) = core s"
  "core (s\<lparr>has_role_change_callback := x45\<rparr>) = core s"
  "core (s\<lparr>has_leader_change_callback := x46\<rparr>) = core s"
  "core (s\<lparr>durable := x47\<rparr>) = core s"
  "core (s\<lparr>next_correlation_id := x48\<rparr>) = core s"
  "core (s\<lparr>snapshot_in_progress := x49\<rparr>) = core s"
  "core (s\<lparr>temp_files := x50\<rparr>) = core s"
  "core (s\<lparr>out := x51\<rparr>) = core s"
  by (simp_all add: core_def)

lemma core_eqD:
  assumes "core s' = core s"
  shows "server_id s' = server_id s" "role s' = role s" "current_term s' = current_term s" "voted_for s' = voted_for s" "votes_received s' = votes_received s" "pre_votes_received s' = pre_votes_received s" "pre_vote_running s' = pre_vote_running s" "pre_vote_term s' = pre_vote_term s" "leader_id s' = leader_id s" "leader_addr s' = leader_addr s" "has_persister s' = has_persister s" "has_log_persister s' = has_log_persister s" "state s' = state s" "config s' = config s" "runtime_config s' = runtime_config s" "quiesced s' = quiesced s" "check_quorum_enabled s' = check_quorum_enabled s" "pre_vote_enabled s' = pre_vote_enabled s" "group_id s' = group_id s"
    "cfg s' = cfg s" "IsRunning s' = IsRunning s"
  using assms by (simp_all add: core_def cfg_def IsRunning_def)

lemma core_emit [simp]: "core (emit e s) = core s"
  by (simp add: emit_def)

lemma core_take_correlation_id [simp]: "core (take_correlation_id s) = core s"
  by (simp add: take_correlation_id_def)

lemma core_SaveState [simp]: "core (snd (SaveState env s)) = core s"
  by (simp add: SaveState_def Let_def)

lemma core_PersistClusterConfig [simp]: "core (PersistClusterConfigLocked env s) = core s"
  by (simp add: PersistClusterConfigLocked_def)

end
