(* ===== verification/Example_Node.thy ===== *)
theory Example_Node
  imports Node_State
begin

text \<open>
  Concrete nodes and a concrete environment: node 1 of a three-node cluster and what surrounds
  it. Theorems with hypotheses are applied to them.
\<close>

definition ex_config :: "NodeId \<Rightarrow> NodeAddr list \<Rightarrow> NodeId list \<Rightarrow> RaftNodeConfig" where
  "ex_config i addrs ids =
     \<lparr>nc_node_id = i, nc_listen_addr = ''h:7'', nc_peers = addrs, nc_peer_node_ids = ids,
      nc_data_dir = ''d'', nc_values = default_values, nc_client_auth_enabled = False,
      nc_check_quorum_enabled = True, nc_pre_vote_enabled = True,
      nc_auto_remove_dead_nodes = False, nc_dead_node_timeout_ms = 600,
      nc_quiesced_mode_enabled = False, nc_quiesced_idle_threshold_ms = 2000,
      nc_quiesced_heartbeat_interval_ms = 5000, nc_quiesced_election_timeout_ms = 10000,
      nc_quiesced_max_consecutive_timeouts = 3\<rparr>"

definition ex_env :: "time \<Rightarrow> Env" where
  "ex_env t =
     \<lparr>env_now = t, env_steady = t, env_rand = (\<lambda>lo hi. lo), env_save_ok = (\<lambda>_. True),
      env_append_sync = (\<lambda>_. OK), env_serialize_ok = (\<lambda>_. True),
      env_dump_nodes = (\<lambda>ns. concat (map (\<lambda>i. to_string i @ '','') ns)),
      env_parse_nodes = (\<lambda>s. None), env_create_snapshot = None, env_restore_ok = (\<lambda>_. True),
      env_save_snapshot = (\<lambda>_ _ _. OK), env_apply = (\<lambda>_ _. Inr ApplyResult_init),
      env_file_ok = True\<rparr>"

definition ex_group :: "NodeId list \<Rightarrow> RaftNode" where
  "ex_group ids =
     (blank_node (ex_config 1 (map (\<lambda>_. ''h:1'') ids) ids) 0)
       \<lparr>peer_map := map (\<lambda>i. (i, ''h:1'')) ids,
        cluster_config := \<lparr>cc_nodes = 1 # ids, cc_old_nodes = [], cc_learners = [], cc_version = 1,
          cc_is_joint = False\<rparr>,
        has_persister := True, state := kRunning\<rparr>"

definition ex_entry :: "Index \<Rightarrow> Term \<Rightarrow> string \<Rightarrow> RaftLogEntry" where
  "ex_entry i t d = \<lparr>e_index = i, e_term = t, e_data = d, e_command = [], e_checksum = 0\<rparr>"

definition ex_log :: "RaftLogEntry list \<Rightarrow> RaftLog" where
  "ex_log es = \<lparr>entries = es, start_index = 1, estimated_bytes = sum_list (map EstimateEntryBytes es)\<rparr>"

text \<open>A log of two entries, of terms 1 and 2.\<close>

definition ex_log2 :: RaftLog where
  "ex_log2 = ex_log [ex_entry 1 1 ''a'', ex_entry 2 2 ''b'']"

lemma ex_log2_wf [simp]: "log_wf ex_log2"
  by (simp add: ex_log2_def ex_log_def ex_entry_def log_wf_def log_end_def U32_def)

lemma ex_log2_simps [simp]:
  "log_end ex_log2 = 3" "start_index ex_log2 = Suc 0" "entries ex_log2 = [ex_entry 1 1 ''a'', ex_entry 2 2 ''b'']"
  "LastLogIndex ex_log2 = 2" "GetLastLogInfo ex_log2 = (2, 2)" "GetEntry ex_log2 = log_map ex_log2"
  "log_map ex_log2 (Suc 0) = Some (ex_entry 1 1 ''a'')" "log_map ex_log2 2 = Some (ex_entry 2 2 ''b'')"
  using GetEntry_log_map [OF ex_log2_wf]
  by (simp_all add: ex_log2_def ex_log_def ex_entry_def log_end_def LastLogIndex_def GetLastLogInfo_def log_map_def)

lemma ex_entry_simps [simp]:
  "e_index (ex_entry i t d) = i" "e_term (ex_entry i t d) = t" "e_data (ex_entry i t d) = d"
  by (simp_all add: ex_entry_def)

lemmas ex_defs = ex_config_def ex_env_def ex_group_def ex_entry_def ex_log_def blank_node_def
  default_values_def mkRuntimeConfig_def MakeRuntimeConfigValues_def cfg_def

lemma ex_group_mk:
  "mkRaftNode (ex_config 1 [''h:1'', ''h:1''] [2, 3]) 0 True = Inr ((ex_group [2, 3])\<lparr>state := kInitialized\<rparr>)"
  by (simp add: mkRaftNode_def peer_ids_def ex_group_def ex_config_def blank_node_def)

end
