(* ===== verification/Replication_Send.thy ===== *)
theory Replication_Send
  imports Example_Node
begin

text \<open>
  The sending half of replication: \<open>SendNextSnapshotChunkLocked\<close> and
  \<open>SendInstallSnapshotToPeerLocked\<close> of \<open>src/snapshot_manager.cpp\<close>, \<open>SendAppendEntriesToPeerLocked\<close> and
  \<open>BroadcastAppendEntriesLocked\<close> of \<open>src/log_replicator.cpp\<close>, with the pipeline window.
\<close>

section \<open>Snapshot chunks\<close>

definition kSnapshotChunkSize :: nat where
  "kSnapshotChunkSize = 64 * 1024"

definition set_send :: "NodeId \<Rightarrow> SnapshotSendState \<Rightarrow> RaftNode \<Rightarrow> RaftNode" where
  "set_send p st s = s\<lparr>snapshot_sends := (snapshot_sends s)(p \<mapsto> st)\<rparr>"

definition chunk_request :: "RaftNode \<Rightarrow> SnapshotSendState \<Rightarrow> string \<Rightarrow> InstallSnapshotRequest" where
  "chunk_request s st buffer =
     \<lparr>is_correlation_id = next_correlation_id s, is_group_id = group_id s,
      is_term = current_term s, is_leader_id = server_id s,
      is_last_included_index = ss_last_included_index st,
      is_last_included_term = ss_last_included_term st,
      is_offset = u32 (ss_offset st), is_data = buffer,
      is_done = (length buffer < kSnapshotChunkSize)\<rparr>"

definition SendNextSnapshotChunkLocked :: "Env \<Rightarrow> NodeId \<Rightarrow> RaftNode \<Rightarrow> RaftNode" where
  "SendNextSnapshotChunkLocked env peer s =
     (case snapshot_sends s peer of
        None \<Rightarrow> s
      | Some st \<Rightarrow>
        (case ss_snapshot st of
           None \<Rightarrow> s
         | Some snap \<Rightarrow>
           if \<not> ss_in_progress st then s
           else
             let buffer = snap_read snap (ss_offset st) kSnapshotChunkSize;
                 st1 = st\<lparr>ss_last_chunk_size := length buffer\<rparr>;
                 req = chunk_request s st1 buffer;
                 s1 = take_correlation_id (set_send peer st1 s)
             in if \<not> env_serialize_ok env (InstallSnapshot req)
                then set_send peer (st1\<lparr>ss_in_progress := False\<rparr>) s1
                else (case map_of (peer_map s1) peer of
                        None \<Rightarrow> set_send peer (st1\<lparr>ss_in_progress := False\<rparr>) s1
                      | Some addr \<Rightarrow>
                          emit (SendRpc peer addr (InstallSnapshot req) (rpc_timeout_ms (cfg s1))
                                  OnInstallSnapshotResponse) s1)))"

definition SendInstallSnapshotToPeerLocked :: "Env \<Rightarrow> NodeId \<Rightarrow> RaftNode \<Rightarrow> RaftNode" where
  "SendInstallSnapshotToPeerLocked env peer s =
     (let st = (case snapshot_sends s peer of None \<Rightarrow> SnapshotSendState_init | Some st \<Rightarrow> st);
          s0 = set_send peer st s
      in if ss_in_progress st then s0
         else if ss_snapshot st \<noteq> None
         then SendNextSnapshotChunkLocked env peer (set_send peer (st\<lparr>ss_in_progress := True\<rparr>) s0)
         else if snapshot_in_progress s0 then s0
         else emit (SetTimeout 0 (PrepareSnapshotTask peer))
                (set_send peer (st\<lparr>ss_in_progress := True\<rparr>) (s0\<lparr>snapshot_in_progress := True\<rparr>)))"

section \<open>AppendEntries\<close>

definition inflight_count :: "RaftNode \<Rightarrow> NodeId \<Rightarrow> nat" where
  "inflight_count s peer =
     (case inflight s peer of None \<Rightarrow> 0 | Some q \<Rightarrow> sum_list (map if_count q))"

definition inflight_at :: "RaftNode \<Rightarrow> NodeId \<Rightarrow> InflightEntry list" where
  "inflight_at s peer = (case inflight s peer of None \<Rightarrow> [] | Some q \<Rightarrow> q)"

definition entries_to_send :: "RaftNode \<Rightarrow> Index \<Rightarrow> RaftLogEntry list" where
  "entries_to_send s next_idx =
     (let last_index = LastLogIndex (raft_log s) in
      if next_idx \<le> last_index
      then GetEntries (raft_log s) next_idx
             (min (u32_add next_idx (max_entries_per_append (cfg s))) (u32_add last_index 1))
      else [])"

definition append_request :: "RaftNode \<Rightarrow> Index \<Rightarrow> AppendEntriesRequest" where
  "append_request s next_idx =
     \<lparr>ae_correlation_id = next_correlation_id s, ae_group_id = group_id s,
      ae_term = current_term s, ae_leader_id = server_id s,
      ae_prev_log_index = u32_sub next_idx 1,
      ae_prev_log_term = GetLogTermLocked s (u32_sub next_idx 1),
      ae_entries = entries_to_send s next_idx,
      ae_leader_commit = commit_index s\<rparr>"

definition SendAppendEntriesToPeerLocked :: "Env \<Rightarrow> NodeId \<Rightarrow> RaftNode \<Rightarrow> RaftNode" where
  "SendAppendEntriesToPeerLocked env peer s =
     (case next_index s peer of
        None \<Rightarrow> s
      | Some next_idx \<Rightarrow>
        if next_idx < GetFirstIndex (raft_log s) then SendInstallSnapshotToPeerLocked env peer s
        else
          let req = append_request s next_idx;
              s1 = take_correlation_id s;
              is_heartbeat = (ae_entries req = [])
          in if \<not> is_heartbeat \<and> max_pipeline_window (cfg s1) \<le> inflight_count s1 peer then s1
             else if \<not> env_serialize_ok env (AppendEntries req) then s1
             else (case map_of (peer_map s1) peer of
                     None \<Rightarrow> s1
                   | Some addr \<Rightarrow>
                     let s2 = (if \<not> is_heartbeat
                               then s1\<lparr>inflight := (inflight s1)(peer \<mapsto> inflight_at s1 peer @
                                        [\<lparr>if_start_index = next_idx, if_count = length (ae_entries req)\<rparr>]),
                                       next_index := (next_index s1)
                                         (peer \<mapsto> u32 (next_idx + length (ae_entries req)))\<rparr>
                               else s1\<lparr>last_heartbeat_sent :=
                                        (last_heartbeat_sent s1)(peer \<mapsto> env_now env)\<rparr>)
                     in emit (SendRpc peer addr (AppendEntries req) (rpc_timeout_ms (cfg s2))
                                (OnAppendEntriesResponse is_heartbeat)) s2))"

section \<open>What a send leaves alone\<close>

lemma emit_simps [simp]:
  "next_index (emit e s) = next_index s" "inflight (emit e s) = inflight s"
  "runtime_config (emit e s) = runtime_config s" "raft_log (emit e s) = raft_log s"
  "peer_map (emit e s) = peer_map s" "out (emit e s) = out s @ [e]"
  "current_term (emit e s) = current_term s" "role (emit e s) = role s"
  "cluster_config (emit e s) = cluster_config s" "commit_index (emit e s) = commit_index s"
  "match_index (emit e s) = match_index s" "cfg (emit e s) = cfg s"
  by (simp_all add: emit_def cfg_def)

lemma set_send_simps [simp]:
  "next_index (set_send p st s) = next_index s" "inflight (set_send p st s) = inflight s"
  "runtime_config (set_send p st s) = runtime_config s" "cfg (set_send p st s) = cfg s"
  "peer_map (set_send p st s) = peer_map s" "out (set_send p st s) = out s"
  "snapshot_sends (set_send p st s) = (snapshot_sends s)(p \<mapsto> st)"
  by (simp_all add: set_send_def cfg_def)

lemma take_correlation_id_simps [simp]:
  "next_index (take_correlation_id s) = next_index s" "inflight (take_correlation_id s) = inflight s"
  "cfg (take_correlation_id s) = cfg s" "peer_map (take_correlation_id s) = peer_map s"
  "out (take_correlation_id s) = out s"
  "snapshot_sends (take_correlation_id s) = snapshot_sends s"
  by (simp_all add: take_correlation_id_def cfg_def)

text \<open>
  Everything a snapshot send may change: the send states, the creation token, the correlation
  counter and the output. The other fields of the result are those of the argument.
\<close>

definition snap_frame :: "RaftNode \<Rightarrow> RaftNode \<Rightarrow> bool" where
  "snap_frame s s' \<longleftrightarrow>
     s' = s\<lparr>snapshot_sends := snapshot_sends s', snapshot_in_progress := snapshot_in_progress s',
            next_correlation_id := next_correlation_id s', out := out s'\<rparr>"

definition send_frame :: "RaftNode \<Rightarrow> RaftNode \<Rightarrow> bool" where
  "send_frame s s' \<longleftrightarrow>
     s' = s\<lparr>snapshot_sends := snapshot_sends s', snapshot_in_progress := snapshot_in_progress s',
            next_correlation_id := next_correlation_id s', out := out s',
            inflight := inflight s', next_index := next_index s',
            last_heartbeat_sent := last_heartbeat_sent s'\<rparr>"

lemma snap_frame_SendNextSnapshotChunk: "snap_frame s (SendNextSnapshotChunkLocked env p s)"
  by (simp add: snap_frame_def SendNextSnapshotChunkLocked_def set_send_def take_correlation_id_def
      emit_def Let_def split: option.split)

lemma snap_frame_iff:
  "snap_frame s s' \<longleftrightarrow>
     (\<exists>a b c d. s' = s\<lparr>snapshot_sends := a, snapshot_in_progress := b, next_correlation_id := c, out := d\<rparr>)"
proof
  assume "snap_frame s s'"
  then show "\<exists>a b c d. s' = s\<lparr>snapshot_sends := a, snapshot_in_progress := b, next_correlation_id := c, out := d\<rparr>"
    unfolding snap_frame_def by blast
next
  assume "\<exists>a b c d. s' = s\<lparr>snapshot_sends := a, snapshot_in_progress := b, next_correlation_id := c, out := d\<rparr>"
  then obtain a b c d where "s' = s\<lparr>snapshot_sends := a, snapshot_in_progress := b, next_correlation_id := c, out := d\<rparr>"
    by blast
  then show "snap_frame s s'" by (simp add: snap_frame_def)
qed

lemma snap_frame_trans:
  assumes "snap_frame s t" and "snap_frame t u"
  shows "snap_frame s u"
proof -
  from assms obtain a b c d a' b' c' d' where
    "t = s\<lparr>snapshot_sends := a, snapshot_in_progress := b, next_correlation_id := c, out := d\<rparr>"
    "u = t\<lparr>snapshot_sends := a', snapshot_in_progress := b', next_correlation_id := c', out := d'\<rparr>"
    unfolding snap_frame_iff by blast
  then show ?thesis by (simp add: snap_frame_def)
qed

lemma snap_frame_set_send [simp]: "snap_frame s (set_send p st s)"
  by (simp add: snap_frame_def set_send_def)

lemma snap_frame_SendInstallSnapshot: "snap_frame s (SendInstallSnapshotToPeerLocked env p s)"
proof -
  let ?st = "case snapshot_sends s p of None \<Rightarrow> SnapshotSendState_init | Some st \<Rightarrow> st"
  let ?s1 = "set_send p (?st\<lparr>ss_in_progress := True\<rparr>) (set_send p ?st s)"
  have 1: "snap_frame s (SendNextSnapshotChunkLocked env p ?s1)"
    by (rule snap_frame_trans [OF _ snap_frame_SendNextSnapshotChunk]) (simp add: snap_frame_def set_send_def)
  have 2: "snap_frame s (emit (SetTimeout 0 (PrepareSnapshotTask p))
      (set_send p (?st\<lparr>ss_in_progress := True\<rparr>) ((set_send p ?st s)\<lparr>snapshot_in_progress := True\<rparr>)))"
    by (simp add: snap_frame_def set_send_def emit_def)
  show ?thesis unfolding SendInstallSnapshotToPeerLocked_def Let_def using 1 2 by simp
qed

lemma send_frame_iff:
  "send_frame s s' \<longleftrightarrow>
     (\<exists>a b c d e f g. s' = s\<lparr>snapshot_sends := a, snapshot_in_progress := b, next_correlation_id := c,
        out := d, inflight := e, next_index := f, last_heartbeat_sent := g\<rparr>)"
proof
  assume "send_frame s s'"
  then show "\<exists>a b c d e f g. s' = s\<lparr>snapshot_sends := a, snapshot_in_progress := b, next_correlation_id := c,
        out := d, inflight := e, next_index := f, last_heartbeat_sent := g\<rparr>"
    unfolding send_frame_def by blast
next
  assume "\<exists>a b c d e f g. s' = s\<lparr>snapshot_sends := a, snapshot_in_progress := b, next_correlation_id := c,
        out := d, inflight := e, next_index := f, last_heartbeat_sent := g\<rparr>"
  then obtain a b c d e f g where "s' = s\<lparr>snapshot_sends := a, snapshot_in_progress := b,
        next_correlation_id := c, out := d, inflight := e, next_index := f, last_heartbeat_sent := g\<rparr>"
    by blast
  then show "send_frame s s'" by (simp add: send_frame_def)
qed

lemma send_frame_refl [simp]: "send_frame s s"
  by (simp add: send_frame_def)

lemma send_frame_trans:
  assumes "send_frame s t" and "send_frame t u"
  shows "send_frame s u"
proof -
  from assms obtain a b c d e f g a' b' c' d' e' f' g' where
    "t = s\<lparr>snapshot_sends := a, snapshot_in_progress := b, next_correlation_id := c,
        out := d, inflight := e, next_index := f, last_heartbeat_sent := g\<rparr>"
    "u = t\<lparr>snapshot_sends := a', snapshot_in_progress := b', next_correlation_id := c',
        out := d', inflight := e', next_index := f', last_heartbeat_sent := g'\<rparr>"
    unfolding send_frame_iff by blast
  then show ?thesis by (simp add: send_frame_def)
qed

lemma snap_send_frame: "snap_frame s s' \<Longrightarrow> send_frame s s'"
proof -
  assume "snap_frame s s'"
  then obtain a b c d where
    "s' = s\<lparr>snapshot_sends := a, snapshot_in_progress := b, next_correlation_id := c, out := d\<rparr>"
    unfolding snap_frame_iff by blast
  then show ?thesis by (simp add: send_frame_def)
qed

lemma send_frame_SendAppendEntries: "send_frame s (SendAppendEntriesToPeerLocked env p s)"
proof -
  have "send_frame s (SendInstallSnapshotToPeerLocked env p s)"
    by (rule snap_send_frame [OF snap_frame_SendInstallSnapshot])
  then show ?thesis
    by (simp add: SendAppendEntriesToPeerLocked_def send_frame_def take_correlation_id_def emit_def
        Let_def split: option.split)
qed

lemma send_frameD:
  assumes "send_frame s s'"
  shows "role s' = role s" "current_term s' = current_term s" "voted_for s' = voted_for s"
    "raft_log s' = raft_log s" "commit_index s' = commit_index s" "cluster_config s' = cluster_config s"
    "peer_map s' = peer_map s" "match_index s' = match_index s" "cfg s' = cfg s"
    "runtime_config s' = runtime_config s" "server_id s' = server_id s"
    "flushed_index s' = flushed_index s" "state s' = state s" "durable s' = durable s"
    "votes_received s' = votes_received s" "last_snapshot_index s' = last_snapshot_index s"
    "last_snapshot_term s' = last_snapshot_term s" "last_enqueued s' = last_enqueued s"
    "apply_queue s' = apply_queue s" "has_persister s' = has_persister s"
    "has_log_persister s' = has_log_persister s" "pending_reads s' = pending_reads s"
  using assms unfolding send_frame_iff by (auto simp: cfg_def)

lemma send_frame_core: "send_frame s s' \<Longrightarrow> core s' = core s"
  unfolding send_frame_iff by auto

section \<open>One send\<close>

lemma SendInstallSnapshot_fields [simp]:
  "next_index (SendInstallSnapshotToPeerLocked env p s) = next_index s"
  "inflight (SendInstallSnapshotToPeerLocked env p s) = inflight s"
  using snap_frame_SendInstallSnapshot [of s env p] by (auto simp: snap_frame_iff)

lemma send_progress:
  assumes "next_index s p = Some n" and "next_index (SendAppendEntriesToPeerLocked env p s) p \<noteq> Some n"
  shows "inflight_count s p < max_pipeline_window (cfg s)"
    and "entries_to_send s n \<noteq> []"
    and "inflight_count (SendAppendEntriesToPeerLocked env p s) p =
         inflight_count s p + length (entries_to_send s n)"
  using assms
  by (auto simp: SendAppendEntriesToPeerLocked_def Let_def append_request_def inflight_count_def inflight_at_def
      split: if_splits option.splits)

lemma send_no_index: "next_index s p = None \<Longrightarrow> SendAppendEntriesToPeerLocked env p s = s"
  by (simp add: SendAppendEntriesToPeerLocked_def)

section \<open>Broadcast\<close>

text \<open>
  The inner loop of \<open>BroadcastAppendEntriesLocked\<close>: send while \<open>next_index_[peer]\<close> moves. It ends
  because every batch that moves it fills the window. \<open>fill_step\<close> is one round, with the two reads
  through \<open>operator[]\<close>.
\<close>

definition touch_next :: "NodeId \<Rightarrow> RaftNode \<Rightarrow> RaftNode" where
  "touch_next p s = s\<lparr>next_index := touch (next_index s) p\<rparr>"

definition fill_step :: "Env \<Rightarrow> NodeId \<Rightarrow> RaftNode \<Rightarrow> RaftNode" where
  "fill_step env p s = touch_next p (SendAppendEntriesToPeerLocked env p (touch_next p s))"

lemma touch_at0: "touch m p p = Some (at0 m p)"
  by (simp add: touch_def at0_def split: option.split)

lemma touch_next_simps [simp]:
  "inflight (touch_next q s) = inflight s" "inflight_count (touch_next q s) p = inflight_count s p"
  "cfg (touch_next q s) = cfg s" "next_index (touch_next q s) = touch (next_index s) q"
  "raft_log (touch_next q s) = raft_log s"
  by (simp_all add: touch_next_def inflight_count_def cfg_def)

lemma send_frame_touch [simp]: "send_frame s (touch_next p s)"
  by (simp add: send_frame_def touch_next_def)

lemma send_frame_step: "send_frame s (fill_step env p s)"
  unfolding fill_step_def
  by (blast intro: send_frame_trans send_frame_touch send_frame_SendAppendEntries)

lemma entries_to_send_touch [simp]: "entries_to_send (touch_next q s) n = entries_to_send s n"
  by (simp add: entries_to_send_def Let_def)

lemma fill_step_progress:
  assumes "at0 (next_index (fill_step env p s)) p \<noteq> at0 (next_index s) p"
  shows "inflight_count s p < max_pipeline_window (cfg s)"
    and "inflight_count s p < inflight_count (fill_step env p s) p"
proof -
  let ?n = "at0 (next_index s) p" and ?s0 = "touch_next p s"
  have 0: "next_index ?s0 p = Some ?n" by (simp add: touch_at0)
  have 1: "next_index (SendAppendEntriesToPeerLocked env p ?s0) p \<noteq> Some ?n"
    using assms by (auto simp: fill_step_def at0_def touch_def split: option.splits)
  note sp = send_progress [OF 0 1]
  from sp show "inflight_count s p < max_pipeline_window (cfg s)" by simp
  from sp show "inflight_count s p < inflight_count (fill_step env p s) p" by (simp add: fill_step_def)
qed

function fill_pipeline :: "Env \<Rightarrow> NodeId \<Rightarrow> RaftNode \<Rightarrow> RaftNode" where
  "fill_pipeline env p s =
     (if at0 (next_index (fill_step env p s)) p = at0 (next_index s) p
      then fill_step env p s
      else fill_pipeline env p (fill_step env p s))"
  by pat_completeness auto

termination fill_pipeline
proof (relation "measure (\<lambda>(env, p, s). max_pipeline_window (cfg s) - inflight_count s p)")
  fix env p s
  assume "at0 (next_index (fill_step env p s)) p \<noteq> at0 (next_index s) p"
  from fill_step_progress [OF this] send_frameD(9) [OF send_frame_step [of s env p]]
  show "((env, p, fill_step env p s), env, p, s) \<in>
      measure (\<lambda>(env, p, s). max_pipeline_window (cfg s) - inflight_count s p)"
    by simp
qed simp

declare fill_pipeline.simps [simp del]

definition BroadcastAppendEntriesLocked :: "Env \<Rightarrow> RaftNode \<Rightarrow> RaftNode" where
  "BroadcastAppendEntriesLocked env s = fold (fill_pipeline env) (map fst (peer_map s)) s"

lemma send_frame_fill: "send_frame s (fill_pipeline env p s)"
proof (induction env p s rule: fill_pipeline.induct)
  case (1 env p s)
  then show ?case
    by (subst fill_pipeline.simps) (auto intro: send_frame_step send_frame_trans)
qed

lemma send_frame_fold: "send_frame s (fold (fill_pipeline env) ps s)"
  by (induction ps arbitrary: s) (auto intro: send_frame_trans send_frame_fill)

lemma send_frame_Broadcast: "send_frame s (BroadcastAppendEntriesLocked env s)"
  by (simp add: BroadcastAppendEntriesLocked_def send_frame_fold)

lemmas core_Broadcast [simp] = send_frame_core [OF send_frame_Broadcast]
lemmas core_SendAppendEntries [simp] = send_frame_core [OF send_frame_SendAppendEntries]
lemmas core_SendInstallSnapshot [simp] = send_frame_core [OF snap_send_frame [OF snap_frame_SendInstallSnapshot]]
lemmas core_SendNextSnapshotChunk [simp] = send_frame_core [OF snap_send_frame [OF snap_frame_SendNextSnapshotChunk]]

section \<open>The slice a request carries\<close>

lemma entries_to_send_wf:
  assumes "log_wf (raft_log s)" and "GetFirstIndex (raft_log s) \<le> n"
    and "n + max_entries_per_append (cfg s) < U32"
  shows "entries_to_send s n =
    map (the \<circ> log_map (raft_log s)) [n ..< min (n + max_entries_per_append (cfg s)) (log_end (raft_log s))]"
proof -
  let ?l = "raft_log s" and ?k = "max_entries_per_append (cfg s)"
  have up: "log_end ?l < U32" and first: "start_index ?l \<le> n"
    using assms(1,2) by (auto simp: GetFirstIndex_def)
  show ?thesis
  proof (cases "entries ?l = [] \<or> log_end ?l \<le> n")
    case True
    then have "\<not> n \<le> LastLogIndex ?l"
      using LastLogIndex_wf [OF assms(1)] log_wfD(1) [OF assms(1)] first log_end_nonempty [of ?l]
      by (auto split: if_splits)
    with True first show ?thesis by (auto simp: entries_to_send_def log_end_def)
  next
    case False
    then have last: "LastLogIndex ?l = log_end ?l - 1" "n < log_end ?l"
      using LastLogIndex_wf [OF assms(1)] by auto
    then have "n \<le> LastLogIndex ?l" "u32_add (LastLogIndex ?l) 1 = log_end ?l"
      using up by (simp_all add: u32_add_eq)
    then have "entries_to_send s n = GetEntries ?l n (min (n + ?k) (log_end ?l))"
      using assms(3) by (simp add: entries_to_send_def Let_def u32_add_eq)
    then show ?thesis
      using first by (simp add: GetEntries_wf_eq [OF assms(1)] max_absorb1 min.assoc)
  qed
qed

lemma entries_to_send_nil:
  assumes "log_wf (raft_log s)" and "GetFirstIndex (raft_log s) \<le> n"
    and "n + max_entries_per_append (cfg s) < U32" and "0 < max_entries_per_append (cfg s)"
  shows "entries_to_send s n = [] \<longleftrightarrow> log_end (raft_log s) \<le> n"
  using assms(4) by (auto simp: entries_to_send_wf [OF assms(1-3)])

section \<open>The pipeline window\<close>

text \<open>
  The batches in flight to a peer are non-empty, adjacent, and end where the next one starts.
\<close>

fun batches :: "Index \<Rightarrow> InflightEntry list \<Rightarrow> Index \<Rightarrow> bool" where
  "batches a [] b \<longleftrightarrow> a = b"
| "batches a (x # q) b \<longleftrightarrow> if_start_index x = a \<and> 0 < if_count x \<and> batches (a + if_count x) q b"

definition pipeline_ok :: "RaftNode \<Rightarrow> NodeId \<Rightarrow> bool" where
  "pipeline_ok s p \<longleftrightarrow> (\<exists>a. batches a (inflight_at s p) (at0 (next_index s) p))"

lemma batches_snoc:
  "batches a (q @ [x]) c \<longleftrightarrow> batches a q (if_start_index x) \<and> 0 < if_count x \<and> c = if_start_index x + if_count x"
  by (induction q arbitrary: a) auto

text \<open>The bounds under which index arithmetic does not wrap.\<close>

definition send_ok :: "RaftNode \<Rightarrow> bool" where
  "send_ok s \<longleftrightarrow> log_wf (raft_log s) \<and>
     log_end (raft_log s) + max_entries_per_append (cfg s) < U32 \<and> 0 < max_entries_per_append (cfg s)"

lemma send_ok_frame: "send_frame s s' \<Longrightarrow> send_ok s' = send_ok s"
  by (simp add: send_ok_def send_frameD)

lemma entries_send_ok:
  assumes "send_ok s" and "GetFirstIndex (raft_log s) \<le> n"
  shows "entries_to_send s n =
      map (the \<circ> log_map (raft_log s)) [n ..< min (n + max_entries_per_append (cfg s)) (log_end (raft_log s))]"
proof (cases "n < log_end (raft_log s)")
  case True
  with assms show ?thesis by (intro entries_to_send_wf) (auto simp: send_ok_def)
next
  case False
  then have "\<not> n \<le> LastLogIndex (raft_log s)"
    using LastLogIndex_wf [of "raft_log s"] log_end_nonempty [of "raft_log s"] assms
      log_wfD(1) [of "raft_log s"]
    by (auto simp: send_ok_def GetFirstIndex_def split: if_splits)
  with False show ?thesis by (simp add: entries_to_send_def)
qed

lemma send_moves:
  assumes "send_ok s" and "next_index s p = Some n"
  shows "(\<exists>k. next_index (SendAppendEntriesToPeerLocked env p s) p = Some (n + k) \<and>
           inflight_at (SendAppendEntriesToPeerLocked env p s) p =
             inflight_at s p @ (if k = 0 then [] else [\<lparr>if_start_index = n, if_count = k\<rparr>]) \<and>
           k \<le> max_entries_per_append (cfg s) \<and>
           (k \<noteq> 0 \<longrightarrow> n + k \<le> log_end (raft_log s) \<and> inflight_count s p < max_pipeline_window (cfg s)))"
proof (cases "next_index (SendAppendEntriesToPeerLocked env p s) p = Some n")
  case True
  then have "inflight_at (SendAppendEntriesToPeerLocked env p s) p = inflight_at s p"
    using assms
    by (auto simp: SendAppendEntriesToPeerLocked_def Let_def append_request_def inflight_at_def
        entries_send_ok u32_simps send_ok_def split: if_splits option.splits)
  with True show ?thesis by (intro exI [of _ 0]) simp
next
  case False
  then have first: "GetFirstIndex (raft_log s) \<le> n"
    using assms(2) by (auto simp: SendAppendEntriesToPeerLocked_def split: if_splits)
  note sp = send_progress [OF assms(2) False]
  let ?k = "length (entries_to_send s n)"
  have k: "?k \<le> max_entries_per_append (cfg s)" "n + ?k \<le> log_end (raft_log s)" "?k \<noteq> 0"
    using sp(2) entries_send_ok [OF assms(1) first] by auto
  then have "next_index (SendAppendEntriesToPeerLocked env p s) p = Some (n + ?k)"
    and "inflight_at (SendAppendEntriesToPeerLocked env p s) p =
          inflight_at s p @ [\<lparr>if_start_index = n, if_count = ?k\<rparr>]"
    using False assms k(2)
    by (auto simp: SendAppendEntriesToPeerLocked_def Let_def append_request_def inflight_at_def u32_simps
        send_ok_def split: if_splits option.splits)
  with k sp(1) show ?thesis by (intro exI [of _ ?k]) simp
qed

lemma inflight_count_take_correlation_id [simp]:
  "inflight_count (take_correlation_id s) p = inflight_count s p"
  by (simp add: inflight_count_def)

lemma inflight_count_at: "inflight_count s p = sum_list (map if_count (inflight_at s p))"
  by (simp add: inflight_count_def inflight_at_def split: option.split)

text \<open>The state of one peer's window: the batches are a chain, and at most one of them overshoots.\<close>

definition window_ok :: "RaftNode \<Rightarrow> NodeId \<Rightarrow> bool" where
  "window_ok s p \<longleftrightarrow> pipeline_ok s p \<and>
     inflight_count s p < max_pipeline_window (cfg s) + max_entries_per_append (cfg s)"

lemma window_ok_step:
  assumes "send_ok s" and "window_ok s p"
  shows "window_ok (fill_step env p s) p"
proof -
  let ?n = "at0 (next_index s) p" and ?s0 = "touch_next p s"
  let ?s1 = "SendAppendEntriesToPeerLocked env p ?s0"
  have ok0: "send_ok ?s0" using assms(1) by (simp add: send_ok_frame [OF send_frame_touch])
  have n0: "next_index ?s0 p = Some ?n" by (simp add: touch_at0)
  obtain k where k: "next_index ?s1 p = Some (?n + k)"
      "inflight_at ?s1 p = inflight_at s p @ (if k = 0 then [] else [\<lparr>if_start_index = ?n, if_count = k\<rparr>])"
      "k \<le> max_entries_per_append (cfg s)" "k \<noteq> 0 \<longrightarrow> inflight_count s p < max_pipeline_window (cfg s)"
    using send_moves [OF ok0 n0, of env] by (auto simp: inflight_at_def)
  have nxt: "at0 (next_index (fill_step env p s)) p = ?n + k"
    using k(1) by (simp add: fill_step_def at0_def)
  have inf: "inflight_at (fill_step env p s) p = inflight_at ?s1 p"
    by (simp add: fill_step_def inflight_at_def)
  have "pipeline_ok (fill_step env p s) p"
    using assms(2) k(2) unfolding window_ok_def pipeline_ok_def nxt inf
    by (auto simp: batches_snoc)
  moreover have "inflight_count (fill_step env p s) p < max_pipeline_window (cfg s) + max_entries_per_append (cfg s)"
    using assms(2) k(2,3,4) unfolding inflight_count_at inf window_ok_def by (auto simp: inflight_count_at)
  ultimately show ?thesis
    using send_frameD(9) [OF send_frame_step [of s env p]] by (simp add: window_ok_def)
qed

lemma window_ok_fill:
  assumes "send_ok s" and "window_ok s p"
  shows "window_ok (fill_pipeline env p s) p"
  using assms
proof (induction env p s rule: fill_pipeline.induct)
  case (1 env p s)
  have "send_ok (fill_step env p s)" using 1(2) by (simp add: send_ok_frame [OF send_frame_step])
  with 1 show ?case
    by (subst fill_pipeline.simps) (auto intro: window_ok_step)
qed

text \<open>Why a peer is left alone: it needs a snapshot, it has everything, or its window is full.\<close>

definition served :: "RaftNode \<Rightarrow> NodeId \<Rightarrow> bool" where
  "served s p \<longleftrightarrow> at0 (next_index s) p < GetFirstIndex (raft_log s) \<or>
     log_end (raft_log s) \<le> at0 (next_index s) p \<or> max_pipeline_window (cfg s) \<le> inflight_count s p"

lemma served_step:
  assumes "send_ok s" and "map_of (peer_map s) p \<noteq> None" and "\<And>r. env_serialize_ok env r"
    and "at0 (next_index (fill_step env p s)) p = at0 (next_index s) p"
  shows "served (fill_step env p s) p"
proof -
  let ?n = "at0 (next_index s) p" and ?s0 = "touch_next p s"
  let ?s1 = "SendAppendEntriesToPeerLocked env p ?s0"
  have ok0: "send_ok ?s0" using assms(1) by (simp add: send_ok_frame [OF send_frame_touch])
  have n0: "next_index ?s0 p = Some ?n" by (simp add: touch_at0)
  obtain k where k: "next_index ?s1 p = Some (?n + k)"
      "inflight_at ?s1 p = inflight_at s p @ (if k = 0 then [] else [\<lparr>if_start_index = ?n, if_count = k\<rparr>])"
    using send_moves [OF ok0 n0, of env] by (auto simp: inflight_at_def)
  have "k = 0" using k(1) assms(4) by (simp add: fill_step_def at0_def)
  then have cnt: "inflight_count (fill_step env p s) p = inflight_count s p"
    using k(2) by (simp add: inflight_count_at) (simp add: fill_step_def inflight_at_def)
  have "?n < GetFirstIndex (raft_log s) \<or> entries_to_send s ?n = [] \<or> max_pipeline_window (cfg s) \<le> inflight_count s p"
  proof (rule ccontr)
    assume c: "\<not> ?thesis"
    then have "length (entries_to_send s ?n) \<noteq> 0" "?n + length (entries_to_send s ?n) \<le> log_end (raft_log s)"
      using entries_send_ok [OF assms(1), of ?n] by auto
    then have "next_index ?s1 p = Some (?n + length (entries_to_send s ?n))"
      using c assms(1,2,3) n0 send_frameD(7) [OF send_frame_touch [of s p]]
      by (auto simp: SendAppendEntriesToPeerLocked_def Let_def append_request_def u32_simps send_ok_def
          split: option.splits)
    with k(1) \<open>k = 0\<close> \<open>length (entries_to_send s ?n) \<noteq> 0\<close> show False by simp
  qed
  moreover have "entries_to_send s ?n = [] \<Longrightarrow> ?n < GetFirstIndex (raft_log s) \<or> log_end (raft_log s) \<le> ?n"
    using entries_send_ok [OF assms(1), of ?n] assms(1) by (force simp: send_ok_def)
  ultimately show ?thesis
    using send_frameD(4,9) [OF send_frame_step [of s env p]] assms(4) cnt by (auto simp: served_def)
qed

lemma served_fill:
  assumes "send_ok s" and "map_of (peer_map s) p \<noteq> None" and "\<And>r. env_serialize_ok env r"
  shows "served (fill_pipeline env p s) p"
  using assms
proof (induction env p s rule: fill_pipeline.induct)
  case (1 env p s)
  have "send_ok (fill_step env p s)" "map_of (peer_map (fill_step env p s)) p \<noteq> None"
    using 1(2,3) by (simp_all add: send_ok_frame [OF send_frame_step] send_frameD(7) [OF send_frame_step])
  with 1 show ?case
    by (subst fill_pipeline.simps) (auto intro: served_step)
qed

section \<open>Other peers\<close>

definition peer_view :: "RaftNode \<Rightarrow> NodeId \<Rightarrow> nat \<times> InflightEntry list" where
  "peer_view s p = (at0 (next_index s) p, inflight_at s p)"

lemma peer_view_send: "q \<noteq> p \<Longrightarrow> peer_view (SendAppendEntriesToPeerLocked env p s) q = peer_view s q"
  by (auto simp: peer_view_def SendAppendEntriesToPeerLocked_def Let_def inflight_at_def at0_def split: option.split)

lemma peer_view_touch: "peer_view (touch_next p s) q = peer_view s q"
  by (simp add: peer_view_def inflight_at_def)

lemma peer_view_fill: "q \<noteq> p \<Longrightarrow> peer_view (fill_pipeline env p s) q = peer_view s q"
proof (induction env p s rule: fill_pipeline.induct)
  case (1 env p s)
  then show ?case
    by (subst fill_pipeline.simps) (auto simp: fill_step_def peer_view_touch peer_view_send)
qed

lemma view_transfer:
  assumes "send_frame s s'" and "peer_view s' p = peer_view s p"
  shows "window_ok s' p = window_ok s p" and "served s' p = served s p"
  using assms(2) send_frameD(4,9) [OF assms(1)]
  by (auto simp: window_ok_def pipeline_ok_def served_def peer_view_def inflight_count_at)

lemma broadcast_fold:
  assumes "send_ok s" and "window_ok s p" and "map_of (peer_map s) p \<noteq> None" and "\<And>r. env_serialize_ok env r"
    and "p \<in> set ps \<or> served s p"
  shows "window_ok (fold (fill_pipeline env) ps s) p \<and> served (fold (fill_pipeline env) ps s) p"
  using assms
proof (induction ps arbitrary: s)
  case Nil
  then show ?case by simp
next
  case (Cons q ps)
  let ?s = "fill_pipeline env q s"
  have f: "send_frame s ?s" by (rule send_frame_fill)
  have "window_ok ?s p \<and> (p \<in> set ps \<or> served ?s p)"
  proof (cases "q = p")
    case True
    with Cons.prems show ?thesis by (auto intro: window_ok_fill served_fill)
  next
    case False
    with Cons.prems view_transfer [OF f peer_view_fill, of p] show ?thesis by auto
  qed
  then have "window_ok ?s p" "p \<in> set ps \<or> served ?s p" by auto
  moreover have "send_ok ?s" "map_of (peer_map ?s) p \<noteq> None"
    using Cons.prems(1,3) by (simp_all add: send_ok_frame [OF f] send_frameD(7) [OF f])
  ultimately show ?case using Cons.IH [of ?s] Cons.prems(4) by simp
qed

section \<open>Properties\<close>


definition ex_leader :: RaftNode where
  "ex_leader = (ex_group [2, 3])
     \<lparr>role := LEADER, current_term := 2, raft_log := ex_log2,
      next_index := [2 \<mapsto> 1, 3 \<mapsto> 3], match_index := [(2, 0), (3, 2)]\<rparr>"

lemma ex_leader_send_ok: "send_ok ex_leader"
  by (simp add: ex_leader_def ex_defs send_ok_def U32_def)


text \<open>
  An AppendEntries request carries exactly the slice of the leader's log that starts at the
  peer's next index: it is stamped with the leader's term and commit index, its previous index
  and term are those of the entry before the slice, it holds at most \<open>max_entries_per_append\<close>
  entries, each at its own index, it is a heartbeat precisely when the peer has the whole log,
  and the peer's next index moves past what was sent.
\<close>

theorem append_request_slice:
  assumes "send_ok s" and "next_index s p = Some n" and "GetFirstIndex (raft_log s) \<le> n" and "n < U32"
    and "out (SendAppendEntriesToPeerLocked env p s) =
         out s @ [SendRpc p a (AppendEntries req) t (OnAppendEntriesResponse hb)]"
  shows "ae_term req = current_term s \<and> ae_leader_commit req = commit_index s \<and>
    ae_prev_log_index req = n - 1 \<and> ae_prev_log_term req = GetLogTermLocked s (n - 1) \<and>
    length (ae_entries req) \<le> max_entries_per_append (cfg s) \<and>
    (\<forall>k < length (ae_entries req). log_map (raft_log s) (n + k) = Some (ae_entries req ! k)) \<and>
    hb = (log_end (raft_log s) \<le> n) \<and>
    next_index (SendAppendEntriesToPeerLocked env p s) p = Some (n + length (ae_entries req))"
proof -
  let ?s' = "SendAppendEntriesToPeerLocked env p s"
  have req: "req = append_request s n" and hb: "hb = (ae_entries req = [])"
    and nxt: "next_index ?s' p = (if hb then Some n else Some (u32 (n + length (ae_entries req))))"
    using assms(2,3,5)
    by (auto simp: SendAppendEntriesToPeerLocked_def Let_def split: if_splits option.splits)
  have es: "ae_entries req = map (the \<circ> log_map (raft_log s))
      [n ..< min (n + max_entries_per_append (cfg s)) (log_end (raft_log s))]"
    using entries_send_ok [OF assms(1,3)] by (simp add: req append_request_def)
  have "1 \<le> n" using assms(1,3) by (auto simp: send_ok_def GetFirstIndex_def)
  then have prev: "u32_sub n 1 = n - 1" using assms(4) by (simp add: u32_sub_eq)
  have hb': "hb = (log_end (raft_log s) \<le> n)" using assms(1) by (auto simp: hb es send_ok_def)
  have nth: "log_map (raft_log s) (n + k) = Some (ae_entries req ! k)" if "k < length (ae_entries req)" for k
    using that assms(3) by (auto simp: es log_map_def GetFirstIndex_def)
  have "next_index ?s' p = Some (n + length (ae_entries req))"
    using nxt hb es assms(1) by (auto simp: send_ok_def u32_id)
  moreover have "length (ae_entries req) \<le> max_entries_per_append (cfg s)" by (simp add: es)
  moreover have "ae_term req = current_term s" "ae_leader_commit req = commit_index s"
    "ae_prev_log_index req = n - 1" "ae_prev_log_term req = GetLogTermLocked s (n - 1)"
    using prev by (simp_all add: req append_request_def)
  ultimately show ?thesis using hb' nth by blast
qed

lemma ex_leader_fields:
  "next_index ex_leader = [2 \<mapsto> 1, 3 \<mapsto> 3]" "raft_log ex_leader = ex_log2"
  "peer_map ex_leader = [(2, ''h:1''), (3, ''h:1'')]" "inflight ex_leader = Map.empty"
  "max_pipeline_window (cfg ex_leader) = 128" "max_entries_per_append (cfg ex_leader) = 100"
  "rpc_timeout_ms (cfg ex_leader) = 500"
  by (simp_all add: ex_leader_def ex_defs)

lemma ex_leader_entries: "entries_to_send ex_leader 1 = [ex_entry 1 1 ''a'', ex_entry 2 2 ''b'']"
  using entries_send_ok [OF ex_leader_send_ok, of 1]
  by (simp add: ex_leader_fields GetFirstIndex_def log_end_def log_map_def upt_rec)

lemma ex_leader_sends:
  "out (SendAppendEntriesToPeerLocked (ex_env 0) 2 ex_leader) =
   out ex_leader @ [SendRpc 2 ''h:1'' (AppendEntries (append_request ex_leader 1)) 500 (OnAppendEntriesResponse False)]"
  using ex_leader_entries
  by (simp add: SendAppendEntriesToPeerLocked_def Let_def ex_leader_fields append_request_def 
     inflight_count_def GetFirstIndex_def ex_env_def) (simp add: cfg_def take_correlation_id_def
     ex_leader_fields(7) [unfolded cfg_def])

theorem append_request_slice_witness:
  "ae_prev_log_index (append_request ex_leader 1) = 0 \<and>
   length (ae_entries (append_request ex_leader 1)) \<le> max_entries_per_append (cfg ex_leader)"
  using append_request_slice [OF ex_leader_send_ok _ _ _ ex_leader_sends]
  by (simp add: ex_leader_fields U32_def GetFirstIndex_def)

end
