(* ===== verification/Applier.thy ===== *)
theory Applier
  imports Replication_Send
begin

text \<open>
  Committing and applying: \<open>ApplyConfigChangeLocked\<close> of \<open>src/membership_manager.cpp\<close>,
  \<open>ApplyCommittedLocked\<close> of \<open>src/state_machine_applier.cpp\<close> and \<open>TryCommitLocked\<close> of
  \<open>src/log_replicator.cpp\<close>. An exception thrown while a configuration command is parsed is caught
  in \<open>ApplyConfigChangeLocked\<close> itself, after the assignments made before it.
\<close>

section \<open>Appending to the local log\<close>

text \<open>
  The pattern of every leader-side append: the log assigns the index, the entry goes to the log
  persister with \<open>OnLogEntryPersisted\<close> as its callback, or counts as flushed without one.
\<close>

definition append_local :: "string \<Rightarrow> RaftNode \<Rightarrow> Index \<times> RaftNode" where
  "append_local cmd s =
     (let (idx, l) = Append (current_term s) cmd (raft_log s);
          s1 = s\<lparr>raft_log := l\<rparr>
      in (idx,
          if has_log_persister s1
          then (case GetEntry l idx of
                  Some e \<Rightarrow> emit (LogAppend e (Some idx)) s1
                | None \<Rightarrow> s1)
          else s1\<lparr>flushed_index := max (flushed_index s1) idx\<rparr>))"

section \<open>Configuration changes\<close>

definition remove_id :: "NodeId \<Rightarrow> NodeId list \<Rightarrow> NodeId list" where
  "remove_id i = filter (\<lambda>x. x \<noteq> i)"

definition drop_learners :: "ClusterConfig \<Rightarrow> ClusterConfig" where
  "drop_learners c = c\<lparr>cc_learners := fold remove_id (cc_nodes c) (cc_learners c)\<rparr>"

definition bump_version :: "ClusterConfig \<Rightarrow> ClusterConfig" where
  "bump_version c = c\<lparr>cc_version := u64_add (cc_version c) 1\<rparr>"

definition CMD_JOINT :: string where "CMD_JOINT = ''CONFIG_CHANGE:JOINT:''"
definition CMD_FINALIZE :: string where "CMD_FINALIZE = ''CONFIG_CHANGE:FINALIZE:''"
definition CMD_ADD_LEARNER :: string where "CMD_ADD_LEARNER = ''CONFIG_CHANGE:ADD_LEARNER:''"
definition CMD_PROMOTE :: string where "CMD_PROMOTE = ''CONFIG_CHANGE:PROMOTE:''"
definition CMD_ADD :: string where "CMD_ADD = ''CONFIG_CHANGE:ADD:''"
definition CMD_REMOVE :: string where "CMD_REMOVE = ''CONFIG_CHANGE:REMOVE:''"

definition finalize_cmd :: "Env \<Rightarrow> NodeId list \<Rightarrow> string" where
  "finalize_cmd env ns = CMD_FINALIZE @ env_dump_nodes env ns"

definition apply_joint :: "Env \<Rightarrow> string \<Rightarrow> RaftNode \<Rightarrow> RaftNode" where
  "apply_joint env cmd s =
     (let pos1 = length CMD_JOINT in
      case find_from (CHR '':'') pos1 cmd of
        None \<Rightarrow> s
      | Some pos2 \<Rightarrow>
        (case env_parse_nodes env (substr cmd pos1 (pos2 - pos1)) of
           None \<Rightarrow> s
         | Some olds \<Rightarrow>
           let s1 = s\<lparr>cluster_config := (cluster_config s)\<lparr>cc_old_nodes := olds\<rparr>\<rparr> in
           (case env_parse_nodes env (drop (pos2 + 1) cmd) of
              None \<Rightarrow> s1
            | Some news \<Rightarrow>
              let s2 = PersistClusterConfigLocked env
                    (s1\<lparr>cluster_config := drop_learners (bump_version
                      ((cluster_config s1)\<lparr>cc_nodes := news, cc_is_joint := True\<rparr>))\<rparr>)
              in if role s2 = LEADER
                 then BroadcastAppendEntriesLocked env
                        (snd (append_local (finalize_cmd env (cc_nodes (cluster_config s2))) s2))
                 else s2)))"

definition apply_finalize :: "Env \<Rightarrow> string \<Rightarrow> RaftNode \<Rightarrow> RaftNode" where
  "apply_finalize env cmd s =
     (case env_parse_nodes env (drop (length CMD_FINALIZE) cmd) of
        None \<Rightarrow> s
      | Some news \<Rightarrow>
          PersistClusterConfigLocked env
            (s\<lparr>cluster_config := drop_learners (bump_version
               ((cluster_config s)\<lparr>cc_nodes := news, cc_old_nodes := [], cc_is_joint := False\<rparr>))\<rparr>))"

text \<open>The new peer's entry in the peer map, and its progress on the leader.\<close>

definition add_peer :: "NodeId \<Rightarrow> NodeAddr \<Rightarrow> RaftNode \<Rightarrow> RaftNode" where
  "add_peer i addr s =
     (if i \<noteq> server_id s \<and> map_of (peer_map s) i = None
      then let s1 = s\<lparr>peer_map := AList.update i addr (peer_map s), peer_addrs := peer_addrs s @ [addr]\<rparr>
           in if role s1 = LEADER
              then s1\<lparr>next_index := (next_index s1)(i \<mapsto> u32_add (LastLogIndex (raft_log s1)) 1),
                      match_index := AList.update i 0 (match_index s1)\<rparr>
              else s1
      else s)"

definition apply_add_learner :: "Env \<Rightarrow> string \<Rightarrow> RaftNode \<Rightarrow> RaftNode" where
  "apply_add_learner env cmd s =
     (let pos1 = length CMD_ADD_LEARNER in
      case find_from (CHR '':'') pos1 cmd of
        None \<Rightarrow> s
      | Some pos2 \<Rightarrow>
        (case stoll (substr cmd pos1 (pos2 - pos1)) of
           None \<Rightarrow> s
         | Some v \<Rightarrow>
           let i = i32 v; addr = drop (pos2 + 1) cmd in
           if Contains (cluster_config s) i then s
           else PersistClusterConfigLocked env
                  (add_peer i addr
                    (s\<lparr>cluster_config := bump_version
                      ((cluster_config s)\<lparr>cc_learners := cc_learners (cluster_config s) @ [i]\<rparr>)\<rparr>))))"

definition apply_promote :: "Env \<Rightarrow> string \<Rightarrow> RaftNode \<Rightarrow> RaftNode" where
  "apply_promote env cmd s =
     (case stoll (drop (length CMD_PROMOTE) cmd) of
        None \<Rightarrow> s
      | Some v \<Rightarrow>
        let i = i32 v;
            c1 = (cluster_config s)\<lparr>cc_learners := remove_id i (cc_learners (cluster_config s))\<rparr>
        in if \<not> IsVoter c1 i
           then PersistClusterConfigLocked env
                  (s\<lparr>cluster_config := bump_version (c1\<lparr>cc_nodes := cc_nodes c1 @ [i]\<rparr>)\<rparr>)
           else s\<lparr>cluster_config := c1\<rparr>)"

definition apply_add :: "Env \<Rightarrow> string \<Rightarrow> RaftNode \<Rightarrow> RaftNode" where
  "apply_add env cmd s =
     (let pos1 = length CMD_ADD in
      case find_from (CHR '':'') pos1 cmd of
        None \<Rightarrow> s
      | Some pos2 \<Rightarrow>
        (case stoll (substr cmd pos1 (pos2 - pos1)) of
           None \<Rightarrow> s
         | Some v \<Rightarrow>
           let i = i32 v; addr = drop (pos2 + 1) cmd in
           if Contains (cluster_config s) i then s
           else PersistClusterConfigLocked env
                  (add_peer i addr
                    (s\<lparr>cluster_config := (bump_version
                      ((cluster_config s)\<lparr>cc_nodes := cc_nodes (cluster_config s) @ [i]\<rparr>))
                        \<lparr>cc_learners := remove_id i (cc_learners (cluster_config s))\<rparr>\<rparr>))))"

definition apply_remove :: "Env \<Rightarrow> string \<Rightarrow> RaftNode \<Rightarrow> RaftNode" where
  "apply_remove env cmd s =
     (case stoll (drop (length CMD_REMOVE) cmd) of
        None \<Rightarrow> s
      | Some v \<Rightarrow>
        let i = i32 v;
            c = cluster_config s;
            s1 = PersistClusterConfigLocked env
                  (s\<lparr>cluster_config := bump_version (c\<lparr>cc_nodes := remove_id i (cc_nodes c),
                                                      cc_learners := remove_id i (cc_learners c)\<rparr>),
                     peer_map := AList.delete i (peer_map s),
                     next_index := (next_index s)(i := None),
                     match_index := AList.delete i (match_index s),
                     peer_addrs := filter (\<lambda>a. ExtractNodeIdFromAddr a \<noteq> i) (peer_addrs s)\<rparr>)
        in if i = server_id s1 then emit (SetTimeout 0 StopNode) s1 else s1)"

definition ApplyConfigChangeLocked :: "Env \<Rightarrow> string \<Rightarrow> RaftNode \<Rightarrow> RaftNode" where
  "ApplyConfigChangeLocked env cmd s =
     (let s1 = (if starts_with CMD_JOINT cmd then apply_joint env cmd s
                else if starts_with CMD_FINALIZE cmd then apply_finalize env cmd s
                else if starts_with CMD_ADD_LEARNER cmd then apply_add_learner env cmd s
                else if starts_with CMD_PROMOTE cmd then apply_promote env cmd s
                else if starts_with CMD_ADD cmd then apply_add env cmd s
                else if starts_with CMD_REMOVE cmd then apply_remove env cmd s
                else s)
      in s1\<lparr>pending_config_change := False\<rparr>)"

section \<open>Handing committed entries to the apply thread\<close>

definition is_config_entry :: "string \<Rightarrow> bool" where
  "is_config_entry d \<longleftrightarrow> starts_with ''CONFIG_CHANGE:'' d"

definition config_result :: "Index \<Rightarrow> ApplyResult" where
  "config_result i = ApplyResult_init\<lparr>ar_success := True, ar_applied_index := i\<rparr>"

definition config_task :: "Index \<Rightarrow> ApplyTask" where
  "config_task i =
     \<lparr>at_index = i, at_data = [], at_callback = None, at_is_config_change = True,
      at_propose_time = None, at_session_id = 0, at_seq_num = 0\<rparr>"

definition push_task :: "ApplyTask \<Rightarrow> RaftNode \<Rightarrow> RaftNode" where
  "push_task t s = s\<lparr>apply_queue := apply_queue s @ [t]\<rparr>"

definition enqueue_config :: "Env \<Rightarrow> RaftLogEntry \<Rightarrow> RaftNode \<Rightarrow> RaftNode" where
  "enqueue_config env e s =
     (let i = last_enqueued s;
          s1 = ApplyConfigChangeLocked env (e_data e) s;
          s2 = (case map_of (pending_proposals s1) i of
                  None \<Rightarrow> s1
                | Some pp \<Rightarrow>
                    let s1' = s1\<lparr>pending_proposals := AList.delete i (pending_proposals s1)\<rparr> in
                    (case pp_callback pp of
                       None \<Rightarrow> s1'
                     | Some cb \<Rightarrow> emit (SetTimeout 0 (RunProposalCallback cb (config_result i))) s1'))
      in push_task (config_task i) s2)"

definition enqueue_command :: "RaftLogEntry \<Rightarrow> RaftNode \<Rightarrow> RaftNode" where
  "enqueue_command e s =
     (let i = last_enqueued s;
          pp = map_of (pending_proposals s) i;
          ses = proposal_sessions s i
      in push_task
           \<lparr>at_index = i, at_data = e_data e,
            at_callback = (case pp of None \<Rightarrow> None | Some p \<Rightarrow> pp_callback p),
            at_is_config_change = False,
            at_propose_time = map_option pp_propose_time pp,
            at_session_id = (case ses of None \<Rightarrow> 0 | Some (a, _) \<Rightarrow> a),
            at_seq_num = (case ses of None \<Rightarrow> 0 | Some (_, b) \<Rightarrow> b)\<rparr>
           (s\<lparr>pending_proposals := AList.delete i (pending_proposals s),
              proposal_sessions := (proposal_sessions s)(i := None)\<rparr>))"

text \<open>One round of the loop; \<open>None\<close> is the abort on a missing entry.\<close>

definition apply_next :: "Env \<Rightarrow> RaftNode \<Rightarrow> RaftNode option" where
  "apply_next env s =
     (let s1 = s\<lparr>last_enqueued := u32_add (last_enqueued s) 1\<rparr> in
      case GetEntry (raft_log s1) (last_enqueued s1) of
        None \<Rightarrow> None
      | Some e \<Rightarrow> Some (if is_config_entry (e_data e) then enqueue_config env e s1
                         else enqueue_command e s1))"

fun apply_rounds :: "Env \<Rightarrow> nat \<Rightarrow> RaftNode \<Rightarrow> RaftNode option" where
  "apply_rounds env 0 s = Some s"
| "apply_rounds env (Suc n) s =
     (if last_enqueued s < commit_index s
      then (case apply_next env s of None \<Rightarrow> None | Some s' \<Rightarrow> apply_rounds env n s')
      else Some s)"

definition ApplyCommittedLocked :: "Env \<Rightarrow> RaftNode \<Rightarrow> RaftNode option" where
  "ApplyCommittedLocked env s = apply_rounds env (commit_index s - last_enqueued s) s"

section \<open>Commit\<close>

definition count_new :: "RaftNode \<Rightarrow> Index \<Rightarrow> nat" where
  "count_new s index =
     (if IsVoter (cluster_config s) (server_id s) then 1 else 0) +
     length (filter (\<lambda>(p, m). index \<le> m \<and> IsVoter (cluster_config s) p) (match_index s))"

definition in_old :: "ClusterConfig \<Rightarrow> NodeId \<Rightarrow> bool" where
  "in_old c i \<longleftrightarrow> cc_is_joint c \<and> i \<in> set (cc_old_nodes c)"

definition count_old :: "RaftNode \<Rightarrow> Index \<Rightarrow> nat" where
  "count_old s index =
     (if in_old (cluster_config s) (server_id s) then 1 else 0) +
     length (filter (\<lambda>(p, m). index \<le> m \<and> in_old (cluster_config s) p) (match_index s))"

text \<open>The downward scan over the candidates \<open>commit_index + n, \<dots>, commit_index + 1\<close>.\<close>

fun find_commit :: "RaftNode \<Rightarrow> nat \<Rightarrow> Index option" where
  "find_commit s 0 = None"
| "find_commit s (Suc n) =
     (let index = commit_index s + Suc n in
      if GetLogTermLocked s index \<noteq> current_term s then None
      else if JointMajoritySatisfied (cluster_config s) (count_old s index) (count_new s index)
      then Some index
      else find_commit s n)"

definition commit_ceiling :: "RaftNode \<Rightarrow> Index" where
  "commit_ceiling s = min (LastLogIndex (raft_log s)) (flushed_index s)"

definition TryCommitLocked :: "Env \<Rightarrow> RaftNode \<Rightarrow> RaftNode option" where
  "TryCommitLocked env s =
     (case find_commit s (commit_ceiling s - commit_index s) of
        None \<Rightarrow> Some s
      | Some index \<Rightarrow> ApplyCommittedLocked env (s\<lparr>commit_index := index\<rparr>))"

section \<open>What applying leaves alone\<close>

text \<open>The fields the applier itself works on, untouched by configuration changes and sends.\<close>

definition queue_view :: "RaftNode \<Rightarrow> Index \<times> Index \<times> Index \<times> (ApplyTask list) \<times> ((Index \<times> PendingProposal) list) \<times> (Index \<rightharpoonup> nat \<times> nat) \<times> Index \<times> Term" where
  "queue_view s = (commit_index s, last_enqueued s, last_applied s, apply_queue s, pending_proposals s, proposal_sessions s, last_snapshot_index s, last_snapshot_term s)"

lemma queue_view_upd [simp]:
  "queue_view (s\<lparr>group_id := x0\<rparr>) = queue_view s"
  "queue_view (s\<lparr>config := x1\<rparr>) = queue_view s"
  "queue_view (s\<lparr>runtime_config := x2\<rparr>) = queue_view s"
  "queue_view (s\<lparr>server_id := x3\<rparr>) = queue_view s"
  "queue_view (s\<lparr>peer_addrs := x4\<rparr>) = queue_view s"
  "queue_view (s\<lparr>peer_map := x5\<rparr>) = queue_view s"
  "queue_view (s\<lparr>current_term := x6\<rparr>) = queue_view s"
  "queue_view (s\<lparr>voted_for := x7\<rparr>) = queue_view s"
  "queue_view (s\<lparr>raft_log := x8\<rparr>) = queue_view s"
  "queue_view (s\<lparr>flushed_index := x9\<rparr>) = queue_view s"
  "queue_view (s\<lparr>leader_id := x10\<rparr>) = queue_view s"
  "queue_view (s\<lparr>leader_addr := x11\<rparr>) = queue_view s"
  "queue_view (s\<lparr>role := x12\<rparr>) = queue_view s"
  "queue_view (s\<lparr>vote_count := x13\<rparr>) = queue_view s"
  "queue_view (s\<lparr>votes_received := x14\<rparr>) = queue_view s"
  "queue_view (s\<lparr>pre_votes_received := x15\<rparr>) = queue_view s"
  "queue_view (s\<lparr>next_index := x16\<rparr>) = queue_view s"
  "queue_view (s\<lparr>match_index := x17\<rparr>) = queue_view s"
  "queue_view (s\<lparr>client_sessions := x18\<rparr>) = queue_view s"
  "queue_view (s\<lparr>session_manager := x19\<rparr>) = queue_view s"
  "queue_view (s\<lparr>retry_state := x20\<rparr>) = queue_view s"
  "queue_view (s\<lparr>inflight := x21\<rparr>) = queue_view s"
  "queue_view (s\<lparr>last_heartbeat_sent := x22\<rparr>) = queue_view s"
  "queue_view (s\<lparr>leader_lease_expiry := x23\<rparr>) = queue_view s"
  "queue_view (s\<lparr>pre_vote_count := x24\<rparr>) = queue_view s"
  "queue_view (s\<lparr>pre_vote_running := x25\<rparr>) = queue_view s"
  "queue_view (s\<lparr>pre_vote_term := x26\<rparr>) = queue_view s"
  "queue_view (s\<lparr>check_quorum_enabled := x27\<rparr>) = queue_view s"
  "queue_view (s\<lparr>pre_vote_enabled := x28\<rparr>) = queue_view s"
  "queue_view (s\<lparr>has_leader_contact := x29\<rparr>) = queue_view s"
  "queue_view (s\<lparr>last_leader_contact := x30\<rparr>) = queue_view s"
  "queue_view (s\<lparr>quorum_acks := x31\<rparr>) = queue_view s"
  "queue_view (s\<lparr>quiesced := x32\<rparr>) = queue_view s"
  "queue_view (s\<lparr>last_activity_time := x33\<rparr>) = queue_view s"
  "queue_view (s\<lparr>consecutive_quiesced_timeouts := x34\<rparr>) = queue_view s"
  "queue_view (s\<lparr>last_contact_time := x35\<rparr>) = queue_view s"
  "queue_view (s\<lparr>pending_config_change := x36\<rparr>) = queue_view s"
  "queue_view (s\<lparr>cluster_config := x37\<rparr>) = queue_view s"
  "queue_view (s\<lparr>election_timer_enabled := x38\<rparr>) = queue_view s"
  "queue_view (s\<lparr>election_deadline := x39\<rparr>) = queue_view s"
  "queue_view (s\<lparr>heartbeat_timer_enabled := x40\<rparr>) = queue_view s"
  "queue_view (s\<lparr>heartbeat_deadline := x41\<rparr>) = queue_view s"
  "queue_view (s\<lparr>snapshot_check_timer_enabled := x42\<rparr>) = queue_view s"
  "queue_view (s\<lparr>snapshot_check_deadline := x43\<rparr>) = queue_view s"
  "queue_view (s\<lparr>snapshot_sends := x44\<rparr>) = queue_view s"
  "queue_view (s\<lparr>snapshot_temp_path := x45\<rparr>) = queue_view s"
  "queue_view (s\<lparr>snapshot_recv_index := x46\<rparr>) = queue_view s"
  "queue_view (s\<lparr>snapshot_recv_term := x47\<rparr>) = queue_view s"
  "queue_view (s\<lparr>snapshot_recv_expected_offset := x48\<rparr>) = queue_view s"
  "queue_view (s\<lparr>snapshot_restore_in_progress := x49\<rparr>) = queue_view s"
  "queue_view (s\<lparr>apply_running := x50\<rparr>) = queue_view s"
  "queue_view (s\<lparr>pending_reads := x51\<rparr>) = queue_view s"
  "queue_view (s\<lparr>next_read_id := x52\<rparr>) = queue_view s"
  "queue_view (s\<lparr>has_role_change_callback := x53\<rparr>) = queue_view s"
  "queue_view (s\<lparr>has_leader_change_callback := x54\<rparr>) = queue_view s"
  "queue_view (s\<lparr>has_persister := x55\<rparr>) = queue_view s"
  "queue_view (s\<lparr>has_log_persister := x56\<rparr>) = queue_view s"
  "queue_view (s\<lparr>durable := x57\<rparr>) = queue_view s"
  "queue_view (s\<lparr>state := x58\<rparr>) = queue_view s"
  "queue_view (s\<lparr>next_correlation_id := x59\<rparr>) = queue_view s"
  "queue_view (s\<lparr>snapshot_in_progress := x60\<rparr>) = queue_view s"
  "queue_view (s\<lparr>temp_files := x61\<rparr>) = queue_view s"
  "queue_view (s\<lparr>out := x62\<rparr>) = queue_view s"
  by (simp_all add: queue_view_def)

lemma queue_view_eqD:
  assumes "queue_view s' = queue_view s"
  shows "commit_index s' = commit_index s" "last_enqueued s' = last_enqueued s" "last_applied s' = last_applied s" "apply_queue s' = apply_queue s" "pending_proposals s' = pending_proposals s" "proposal_sessions s' = proposal_sessions s" "last_snapshot_index s' = last_snapshot_index s" "last_snapshot_term s' = last_snapshot_term s"
  using assms by (simp_all add: queue_view_def)

lemma queue_view_emit [simp]: "queue_view (emit e s) = queue_view s"
  by (simp add: emit_def)

lemma queue_view_SaveState [simp]: "queue_view (snd (SaveState env s)) = queue_view s"
  by (simp add: SaveState_def Let_def)

lemma queue_view_Persist [simp]: "queue_view (PersistClusterConfigLocked env s) = queue_view s"
  by (simp add: PersistClusterConfigLocked_def)

lemma queue_view_send: "send_frame s s' \<Longrightarrow> queue_view s' = queue_view s"
  unfolding send_frame_iff by auto

lemmas queue_view_Broadcast [simp] = queue_view_send [OF send_frame_Broadcast]

lemma append_local_views [simp]:
  "core (snd (append_local c s)) = core s" "queue_view (snd (append_local c s)) = queue_view s"
  by (simp_all add: append_local_def Let_def split: prod.split option.split)

lemma add_peer_views [simp]:
  "core (add_peer i a s) = core s" "queue_view (add_peer i a s) = queue_view s" "raft_log (add_peer i a s) = raft_log s"
  by (simp_all add: add_peer_def Let_def)

lemma apply_joint_views [simp]:
  "core (apply_joint env c s) = core s" "queue_view (apply_joint env c s) = queue_view s"
  by (simp_all add: apply_joint_def Let_def split: option.split)

lemma apply_finalize_views [simp]:
  "core (apply_finalize env c s) = core s" "queue_view (apply_finalize env c s) = queue_view s"
  by (simp_all add: apply_finalize_def Let_def split: option.split)

lemma apply_add_learner_views [simp]:
  "core (apply_add_learner env c s) = core s" "queue_view (apply_add_learner env c s) = queue_view s"
  by (simp_all add: apply_add_learner_def Let_def split: option.split)

lemma apply_promote_views [simp]:
  "core (apply_promote env c s) = core s" "queue_view (apply_promote env c s) = queue_view s"
  by (simp_all add: apply_promote_def Let_def split: option.split)

lemma apply_add_views [simp]:
  "core (apply_add env c s) = core s" "queue_view (apply_add env c s) = queue_view s"
  by (simp_all add: apply_add_def Let_def split: option.split)

lemma apply_remove_views [simp]:
  "core (apply_remove env c s) = core s" "queue_view (apply_remove env c s) = queue_view s"
  by (simp_all add: apply_remove_def Let_def split: option.split)

lemma ApplyConfigChange_views [simp]:
  "core (ApplyConfigChangeLocked env c s) = core s"
  "queue_view (ApplyConfigChangeLocked env c s) = queue_view s"
  by (simp_all add: ApplyConfigChangeLocked_def Let_def)

lemma SaveState_log [simp]: "raft_log (snd (SaveState env s)) = raft_log s"
  by (simp add: SaveState_def Let_def)

lemma Persist_log [simp]: "raft_log (PersistClusterConfigLocked env s) = raft_log s"
  by (simp add: PersistClusterConfigLocked_def)

lemma append_local_log [simp]:
  "raft_log (snd (append_local c s)) = snd (Append (current_term s) c (raft_log s))"
  by (simp add: append_local_def Let_def split: prod.split option.split)

lemma Persist_term [simp]: "current_term (PersistClusterConfigLocked env s) = current_term s"
  by (rule core_eqD(3) [OF core_PersistClusterConfig])

lemma Broadcast_log [simp]: "raft_log (BroadcastAppendEntriesLocked env s) = raft_log s"
  by (rule send_frameD(4) [OF send_frame_Broadcast])

lemma apply_joint_log:
  "raft_log (apply_joint env c s) = raft_log s \<or>
   (\<exists>d. raft_log (apply_joint env c s) = snd (Append (current_term s) d (raft_log s)))"
  by (auto simp: apply_joint_def Let_def split: option.split)

lemma apply_other_logs [simp]:
  "raft_log (apply_finalize env c s) = raft_log s" "raft_log (apply_add_learner env c s) = raft_log s"
  "raft_log (apply_promote env c s) = raft_log s" "raft_log (apply_add env c s) = raft_log s"
  "raft_log (apply_remove env c s) = raft_log s"
  by (simp_all add: apply_finalize_def apply_add_learner_def apply_promote_def apply_add_def
      apply_remove_def Let_def split: option.split)

lemma ApplyConfigChange_log:
  "raft_log (ApplyConfigChangeLocked env c s) = raft_log s \<or>
   (\<exists>d. raft_log (ApplyConfigChangeLocked env c s) = snd (Append (current_term s) d (raft_log s)))"
  using apply_joint_log [of env c s] by (simp add: ApplyConfigChangeLocked_def Let_def)

section \<open>Every committed entry is enqueued once, in order\<close>

text \<open>\<open>l'\<close> is \<open>l\<close> with entries added at its end.\<close>

definition log_grows :: "RaftLog \<Rightarrow> RaftLog \<Rightarrow> nat \<Rightarrow> bool" where
  "log_grows l l' n \<longleftrightarrow> log_wf l' \<and> log_end l \<le> log_end l' \<and> log_end l' \<le> log_end l + n \<and>
     start_index l' = start_index l \<and> (\<forall>i < log_end l. log_map l' i = log_map l i)"

lemma log_grows_refl: "log_wf l \<Longrightarrow> log_grows l l n"
  by (simp add: log_grows_def)

lemma log_grows_trans: "log_grows l l' m \<Longrightarrow> log_grows l' l'' n \<Longrightarrow> log_grows l l'' (m + n)"
  by (fastforce simp: log_grows_def)

lemma log_grows_Append:
  assumes "log_wf l" and "Suc (log_end l) < U32"
  shows "log_grows l (snd (Append t d l)) 1"
proof -
  have "log_wf (AppendLogEntry (new_entry l t d) l)"
    using assms by (intro AppendLogEntry_wf) (simp_all add: new_entry_def)
  with assms show ?thesis
    by (auto simp: log_grows_def Append_wf_eq AppendLogEntry_log_map)
qed

definition task_of :: "RaftLogEntry \<Rightarrow> Index \<times> bool \<times> string" where
  "task_of e = (if is_config_entry (e_data e) then (e_index e, True, []) else (e_index e, False, e_data e))"

definition task_key :: "ApplyTask \<Rightarrow> Index \<times> bool \<times> string" where
  "task_key t = (at_index t, at_is_config_change t, at_data t)"

lemma enqueue_config_fields:
  "core (enqueue_config env e s) = core s" "commit_index (enqueue_config env e s) = commit_index s"
  "last_enqueued (enqueue_config env e s) = last_enqueued s" "last_applied (enqueue_config env e s) = last_applied s"
  "apply_queue (enqueue_config env e s) = apply_queue s @ [config_task (last_enqueued s)]"
  "raft_log (enqueue_config env e s) = raft_log (ApplyConfigChangeLocked env (e_data e) s)"
  using queue_view_eqD [OF ApplyConfigChange_views(2) [of env "e_data e" s]]
  by (simp_all add: enqueue_config_def push_task_def Let_def emit_def split: option.split)

lemma enqueue_command_fields:
  "core (enqueue_command e s) = core s" "commit_index (enqueue_command e s) = commit_index s"
  "last_enqueued (enqueue_command e s) = last_enqueued s" "last_applied (enqueue_command e s) = last_applied s"
  "map task_key (apply_queue (enqueue_command e s)) = map task_key (apply_queue s) @ [(last_enqueued s, False, e_data e)]"
  "raft_log (enqueue_command e s) = raft_log s"
  by (simp_all add: enqueue_command_def push_task_def Let_def task_key_def)

lemma apply_next_ok:
  assumes "log_wf (raft_log s)" and "Suc (log_end (raft_log s)) < U32"
    and "log_map (raft_log s) (Suc (last_enqueued s)) = Some e"
  shows "\<exists>s'. apply_next env s = Some s' \<and> core s' = core s \<and> commit_index s' = commit_index s \<and>
    last_enqueued s' = Suc (last_enqueued s) \<and> last_applied s' = last_applied s \<and>
    map task_key (apply_queue s') = map task_key (apply_queue s) @ [task_of e] \<and>
    log_grows (raft_log s) (raft_log s') 1"
proof -
  let ?s1 = "s\<lparr>last_enqueued := Suc (last_enqueued s)\<rparr>"
  have "Suc (last_enqueued s) < log_end (raft_log s)" using assms(3) by (auto simp: log_map_def split: if_splits)
  then have inc: "u32_add (last_enqueued s) 1 = Suc (last_enqueued s)"
    using assms(1) log_wfD(2) [OF assms(1)] by (simp add: u32_add_eq)
  have idx: "e_index e = Suc (last_enqueued s)" by (rule log_map_index [OF assms(1,3)])
  have get: "GetEntry (raft_log s) (Suc (last_enqueued s)) = Some e"
    using assms(1,3) by (simp add: GetEntry_log_map)
  have grows: "log_grows (raft_log s) (raft_log (enqueue_config env e ?s1)) 1"
    using ApplyConfigChange_log [of env "e_data e" ?s1] log_grows_refl [OF assms(1)]
      log_grows_Append [OF assms(1,2)]
    by (auto simp: enqueue_config_fields)
  show ?thesis
    using grows get idx inc
    by (auto simp: apply_next_def Let_def enqueue_config_fields enqueue_command_fields task_of_def
        task_key_def config_task_def log_grows_refl [OF assms(1)])
qed

lemma apply_rounds_ok:
  assumes "log_wf (raft_log s)" and "log_end (raft_log s) + n < U32"
    and "n = commit_index s - last_enqueued s" and "last_enqueued s \<le> commit_index s"
    and "start_index (raft_log s) \<le> Suc (last_enqueued s)" and "commit_index s < log_end (raft_log s)"
  shows "\<exists>s'. apply_rounds env n s = Some s' \<and> core s' = core s \<and> commit_index s' = commit_index s \<and>
    last_enqueued s' = commit_index s \<and> last_applied s' = last_applied s \<and>
    map task_key (apply_queue s') = map task_key (apply_queue s) @
      map (task_of \<circ> the \<circ> log_map (raft_log s)) [Suc (last_enqueued s) ..< Suc (commit_index s)] \<and>
    log_grows (raft_log s) (raft_log s') n"
  using assms
proof (induction n arbitrary: s)
  case 0
  then show ?case by (simp add: log_grows_refl)
next
  case (Suc n)
  let ?k = "Suc (last_enqueued s)"
  have lt: "last_enqueued s < commit_index s" using Suc.prems(3) by simp
  then obtain e where e: "log_map (raft_log s) ?k = Some e"
    using Suc.prems(5,6) by (auto simp: log_map_def)
  obtain s1 where s1: "apply_next env s = Some s1" "core s1 = core s" "commit_index s1 = commit_index s"
      "last_enqueued s1 = ?k" "last_applied s1 = last_applied s"
      "map task_key (apply_queue s1) = map task_key (apply_queue s) @ [task_of e]"
      "log_grows (raft_log s) (raft_log s1) 1"
    using apply_next_ok [OF Suc.prems(1) _ e, of env] Suc.prems(2) by auto
  have g: "log_wf (raft_log s1)" "log_end (raft_log s) \<le> log_end (raft_log s1)"
      "log_end (raft_log s1) \<le> log_end (raft_log s) + 1" "start_index (raft_log s1) = start_index (raft_log s)"
      "\<And>i. i < log_end (raft_log s) \<Longrightarrow> log_map (raft_log s1) i = log_map (raft_log s) i"
    using s1(7) by (auto simp: log_grows_def)
  have pre: "log_end (raft_log s1) + n < U32" "n = commit_index s1 - last_enqueued s1"
      "last_enqueued s1 \<le> commit_index s1" "start_index (raft_log s1) \<le> Suc (last_enqueued s1)"
      "commit_index s1 < log_end (raft_log s1)"
    using Suc.prems s1(3,4) g lt by auto
  obtain s2 where s2: "apply_rounds env n s1 = Some s2" "core s2 = core s1" "commit_index s2 = commit_index s1"
      "last_enqueued s2 = commit_index s1" "last_applied s2 = last_applied s1"
      "map task_key (apply_queue s2) = map task_key (apply_queue s1) @
        map (task_of \<circ> the \<circ> log_map (raft_log s1)) [Suc (last_enqueued s1) ..< Suc (commit_index s1)]"
      "log_grows (raft_log s1) (raft_log s2) n"
    using Suc.IH [OF g(1) pre] by blast
  have same: "map (task_of \<circ> the \<circ> log_map (raft_log s1)) [Suc ?k ..< Suc (commit_index s)] =
      map (task_of \<circ> the \<circ> log_map (raft_log s)) [Suc ?k ..< Suc (commit_index s)]"
    using g(5) Suc.prems(6) by (intro map_cong) auto
  have upt: "[?k ..< Suc (commit_index s)] = ?k # [Suc ?k ..< Suc (commit_index s)]"
    using lt by (simp add: upt_rec)
  show ?case
    using s1 s2 lt e same log_grows_trans [OF s1(7) s2(7)] by (simp add: upt del: upt_Suc)
qed

section \<open>The commit rule\<close>

lemma find_commit_sound:
  assumes "find_commit s n = Some i"
  shows "commit_index s < i" "i \<le> commit_index s + n" "GetLogTermLocked s i = current_term s"
    "JointMajoritySatisfied (cluster_config s) (count_old s i) (count_new s i)"
    "\<forall>j. i < j \<and> j \<le> commit_index s + n \<longrightarrow> GetLogTermLocked s j = current_term s \<and>
       \<not> JointMajoritySatisfied (cluster_config s) (count_old s j) (count_new s j)"
  using assms
  by (induction n) (auto simp: Let_def le_Suc_eq split: if_splits)

text \<open>The nodes known to hold the entry at \<open>index\<close>: the leader and the peers that match it.\<close>

definition replicas :: "RaftNode \<Rightarrow> Index \<Rightarrow> NodeId set" where
  "replicas s index = insert (server_id s) {p. \<exists>m. map_of (match_index s) p = Some m \<and> index \<le> m}"

lemma finite_replicas [simp]: "finite (replicas s i)"
proof -
  have "{p. \<exists>m. map_of (match_index s) p = Some m \<and> i \<le> m} \<subseteq> dom (map_of (match_index s))" by auto
  then show ?thesis by (auto simp: replicas_def intro: finite_subset [OF _ finite_dom_map_of])
qed

lemma count_match:
  assumes "distinct (keys m)" and "x \<notin> set (keys m)"
  shows "(if P x then 1 else 0) + length (filter (\<lambda>(p, v). i \<le> v \<and> P p) m) =
    card (insert x {p. \<exists>v. map_of m p = Some v \<and> i \<le> v} \<inter> {p. P p})"
proof -
  let ?F = "filter (\<lambda>(p, v). i \<le> v \<and> P p) m"
  have d: "distinct (map fst ?F)" using assms(1) by (induction m) auto
  have "set (map fst ?F) = {p. \<exists>v. map_of m p = Some v \<and> i \<le> v} \<inter> {p. P p}" (is "_ = ?S")
    using map_of_eq_Some_iff [OF assms(1)] by force
  with distinct_card [OF d] have len: "length ?F = card ?S" by simp
  have fin: "finite ?S" by (metis \<open>set (map fst ?F) = ?S\<close> finite_set)
  have "x \<notin> ?S" using assms(2) by (auto dest: map_of_SomeD simp: rev_image_eqI)
  then show ?thesis
    using len fin by (auto simp: Int_insert_left)
qed

lemma commit_is_quorum:
  assumes "distinct (keys (match_index s))" and "server_id s \<notin> set (keys (match_index s))"
    and "config_ok (cluster_config s)" and "\<not> cc_is_joint (cluster_config s)"
    and "JointMajoritySatisfied (cluster_config s) (count_old s i) (count_new s i)"
  shows "QuorumSatisfied (cluster_config s) (replicas s i)"
proof -
  let ?c = "cluster_config s"
  have "count_new s i = card (replicas s i \<inter> {p. IsVoter ?c p})"
    unfolding count_new_def replicas_def by (rule count_match [OF assms(1,2)])
  also have "{p. IsVoter ?c p} = set (cc_nodes ?c)" using assms(4) by (auto simp: IsVoter_iff)
  finally show ?thesis
    using assms(3,4,5) by (auto simp: QuorumSatisfied_iff majority_of_def JointMajoritySatisfied_def
        GetMajority_def config_ok_def u32_id)
qed

lemma commit_old_majority:
  assumes "distinct (keys (match_index s))" and "server_id s \<notin> set (keys (match_index s))"
    and "config_ok (cluster_config s)" and "cc_is_joint (cluster_config s)"
    and "JointMajoritySatisfied (cluster_config s) (count_old s i) (count_new s i)"
  shows "majority_of (cc_old_nodes (cluster_config s)) (replicas s i)"
proof -
  let ?c = "cluster_config s"
  have "count_old s i = card (replicas s i \<inter> {p. in_old ?c p})"
    unfolding count_old_def replicas_def by (rule count_match [OF assms(1,2)])
  also have "{p. in_old ?c p} = set (cc_old_nodes ?c)" using assms(4) by (auto simp: in_old_def)
  finally show ?thesis
    using assms(3,4,5) by (auto simp: majority_of_def JointMajoritySatisfied_def GetOldMajority_def
        config_ok_def u32_id)
qed

lemma apply_next_keeps:
  assumes "apply_next env s = Some s'"
  shows "core s' = core s" "commit_index s' = commit_index s" "last_applied s' = last_applied s"
  using assms
  by (auto simp: apply_next_def Let_def enqueue_config_fields enqueue_command_fields split: option.splits)

lemma apply_rounds_keeps:
  assumes "apply_rounds env n s = Some s'"
  shows "core s' = core s" "commit_index s' = commit_index s" "last_applied s' = last_applied s"
  using assms
  by (induction env n s rule: apply_rounds.induct)
     (auto simp: apply_next_keeps split: if_splits option.splits)

lemma ApplyCommitted_keeps:
  assumes "ApplyCommittedLocked env s = Some s'"
  shows "core s' = core s" "commit_index s' = commit_index s" "last_applied s' = last_applied s"
  using apply_rounds_keeps [OF assms [unfolded ApplyCommittedLocked_def]] by auto

lemma TryCommit_keeps:
  assumes "TryCommitLocked env s = Some s'"
  shows "core s' = core s" "commit_index s \<le> commit_index s'" "last_applied s' = last_applied s"
  using assms ApplyCommitted_keeps [of env] find_commit_sound(1) [of s]
  by (auto simp: TryCommitLocked_def less_imp_le split: option.splits)

section \<open>Properties\<close>


definition ex_commit :: RaftNode where
  "ex_commit = (ex_group [2, 3])
     \<lparr>role := LEADER, current_term := 2, raft_log := ex_log2,
      next_index := [2 \<mapsto> 3, 3 \<mapsto> 1], match_index := [(2, 2), (3, 0)], flushed_index := 2\<rparr>"

lemma ex_commit_fields:
  "raft_log ex_commit = ex_log2" "match_index ex_commit = [(2, 2), (3, 0)]"
  "server_id ex_commit = 1" "current_term ex_commit = 2" "commit_index ex_commit = 0" "flushed_index ex_commit = 2"
  "cluster_config ex_commit = ex_cc [1, 2, 3] [] False" "last_snapshot_index ex_commit = 0"
  "last_enqueued ex_commit = 0" "apply_queue ex_commit = []"
  by (simp_all add: ex_commit_def ex_defs ex_cc_def)

lemma ex_commit_find: "find_commit ex_commit 2 = Some 2" "commit_ceiling ex_commit = 2"
proof -
  have "GetLogTermLocked ex_commit 2 = 2"
    by (simp add: GetLogTermLocked_def ex_commit_fields GetLogTerm_def)
  then show "find_commit ex_commit 2 = Some 2"
    using find_commit.simps(2) [of ex_commit 1]
    by (simp add: ex_commit_fields numeral_2_eq_2 [symmetric] Let_def count_new_def count_old_def
        ex_cc_def JointMajoritySatisfied_def GetMajority_def u32_def U32_def IsVoter_def)
  show "commit_ceiling ex_commit = 2" by (simp add: commit_ceiling_def ex_commit_fields)
qed

lemma ex_commit_try: "\<exists>s'. TryCommitLocked (ex_env 0) ex_commit = Some s' \<and> commit_index s' = 2"
proof -
  let ?s = "ex_commit\<lparr>commit_index := 2\<rparr>"
  have "\<exists>s'. apply_rounds (ex_env 0) 2 ?s = Some s' \<and> core s' = core ?s \<and> commit_index s' = commit_index ?s \<and>
      last_enqueued s' = commit_index ?s \<and> last_applied s' = last_applied ?s \<and>
      map task_key (apply_queue s') = map task_key (apply_queue ?s) @
        map (task_of \<circ> the \<circ> log_map (raft_log ?s)) [Suc (last_enqueued ?s) ..< Suc (commit_index ?s)] \<and>
      log_grows (raft_log ?s) (raft_log s') 2"
    by (rule apply_rounds_ok) (simp_all add: ex_commit_fields U32_def)
  then show ?thesis
    by (auto simp: TryCommitLocked_def ex_commit_find ApplyCommittedLocked_def ex_commit_fields)
qed


text \<open>
  C14: Committed entries reach the apply thread completely, exactly once and in log order: starting
  from any state whose committed entries are in the log, ApplyCommitted does not abort, leaves the
  enqueue position at the commit index, and appends to the queue one task per entry between the
  two, carrying the entry's index and data (configuration changes as markers); it never changes
  the node's term, vote or role, and only ever appends to the log.
\<close>

theorem committed_entries_enqueued_in_order:
  assumes "log_wf (raft_log s)" and "last_enqueued s \<le> commit_index s"
    and "start_index (raft_log s) \<le> Suc (last_enqueued s)" and "commit_index s < log_end (raft_log s)"
    and "log_end (raft_log s) + (commit_index s - last_enqueued s) < U32"
  shows "\<exists>s'. ApplyCommittedLocked env s = Some s' \<and> core s' = core s \<and>
    last_enqueued s' = commit_index s \<and> commit_index s' = commit_index s \<and>
    map task_key (apply_queue s') = map task_key (apply_queue s) @
      map (task_of \<circ> the \<circ> log_map (raft_log s)) [Suc (last_enqueued s) ..< Suc (commit_index s)] \<and>
    log_grows (raft_log s) (raft_log s') (commit_index s - last_enqueued s)"
  using apply_rounds_ok [OF assms(1,5) refl assms(2-4), of env] unfolding ApplyCommittedLocked_def by blast

theorem committed_entries_enqueued_in_order_witness:
  "\<exists>s'. ApplyCommittedLocked (ex_env 0) (ex_commit\<lparr>commit_index := 2\<rparr>) = Some s' \<and>
     map task_key (apply_queue s') = [(1, False, ''a''), (2, False, ''b'')]"
proof -
  let ?s = "ex_commit\<lparr>commit_index := 2\<rparr>"
  have "map (task_of \<circ> the \<circ> log_map (raft_log ?s)) [Suc 0 ..< 3] = [(1, False, ''a''), (2, False, ''b'')]"
    by (simp add: ex_commit_fields upt_rec numeral_2_eq_2 [symmetric] task_of_def is_config_entry_def starts_with_def)
  then show ?thesis
    using committed_entries_enqueued_in_order [of ?s "ex_env 0"]
    by (auto simp: ex_commit_fields U32_def)
qed

definition ex_joint :: RaftNode where
  "ex_joint = ex_commit\<lparr>cluster_config := ex_cc [4, 5, 6] [1, 2, 3] True\<rparr>"

text \<open>
  In joint mode the commit rule does not require a majority of the new configuration: the
  count for the new configuration admits every voter of the old one. With the change from
  \<open>{1, 2, 3}\<close> to \<open>{4, 5, 6}\<close> in progress, a leader commits an entry held by nodes 1 and 2 alone, that
  is by no node of the new configuration at all.
\<close>

theorem joint_commit_misses_new_majority:
  "\<exists>s'. TryCommitLocked (ex_env 0) ex_joint = Some s' \<and> commit_index s' = 2 \<and>
     replicas ex_joint 2 \<inter> set (cc_nodes (cluster_config ex_joint)) = {}"
proof -
  let ?s = "ex_joint\<lparr>commit_index := 2\<rparr>"
  have "GetLogTermLocked ex_joint 2 = 2"
    by (simp add: GetLogTermLocked_def ex_joint_def ex_commit_fields GetLogTerm_def)
  then have find: "find_commit ex_joint 2 = Some 2"
    using find_commit.simps(2) [of ex_joint 1]
    by (simp add: ex_joint_def ex_commit_fields numeral_2_eq_2 [symmetric] Let_def count_new_def count_old_def in_old_def
        ex_cc_def JointMajoritySatisfied_def GetMajority_def GetOldMajority_def u32_def U32_def IsVoter_def)
  have "commit_ceiling ex_joint = 2" by (simp add: commit_ceiling_def ex_joint_def ex_commit_fields)
  moreover have "\<exists>s'. apply_rounds (ex_env 0) 2 ?s = Some s' \<and> core s' = core ?s \<and> commit_index s' = commit_index ?s \<and>
      last_enqueued s' = commit_index ?s \<and> last_applied s' = last_applied ?s \<and>
      map task_key (apply_queue s') = map task_key (apply_queue ?s) @
        map (task_of \<circ> the \<circ> log_map (raft_log ?s)) [Suc (last_enqueued ?s) ..< Suc (commit_index ?s)] \<and>
      log_grows (raft_log ?s) (raft_log s') 2"
    by (rule apply_rounds_ok) (simp_all add: ex_joint_def ex_commit_fields U32_def)
  ultimately have "\<exists>s'. TryCommitLocked (ex_env 0) ex_joint = Some s' \<and> commit_index s' = 2"
    using find by (auto simp: TryCommitLocked_def ApplyCommittedLocked_def ex_joint_def ex_commit_fields)
  then show ?thesis
    by (auto simp: replicas_def ex_joint_def ex_commit_fields ex_cc_def split: if_splits)
qed

end
