(* ===== verification/Ballot_Frame.thy ===== *)
theory Ballot_Frame
  imports Applier
begin

text \<open>
  What replication, snapshots and the applier leave alone of an election: they never ask for a
  vote, never change the node's term, vote, role or tally, and write to the persister at most the
  term and vote the node already has.
\<close>

fun is_vote_send :: "effect \<Rightarrow> bool" where
  "is_vote_send (SendRpc _ _ (RequestVote _) _ _) = True"
| "is_vote_send _ = False"

definition vote_sends :: "RaftNode \<Rightarrow> effect list" where
  "vote_sends s = filter is_vote_send (out s)"

definition dur :: "RaftNode \<Rightarrow> (Term \<times> NodeId) option" where
  "dur s = map_option (\<lambda>p. (ps_current_term p, ps_voted_for p)) (durable s)"

definition quiet :: "RaftNode \<Rightarrow> RaftNode \<Rightarrow> bool" where
  "quiet s s' \<longleftrightarrow> core s' = core s \<and> vote_sends s' = vote_sends s \<and>
     (dur s' = dur s \<or> dur s' = Some (current_term s, voted_for s))"

lemma quiet_refl [simp]: "quiet s s"
  by (simp add: quiet_def)

lemma quiet_trans: "quiet s t \<Longrightarrow> quiet t u \<Longrightarrow> quiet s u"
  using core_eqD(3,4) [of t s] by (auto simp: quiet_def)

lemma quiet_coreD: "quiet s s' \<Longrightarrow> core s' = core s"
  by (simp add: quiet_def)

text \<open>Updates of the other fields are quiet.\<close>

lemma quiet_upd [simp]:
  "quiet s (t\<lparr>peer_addrs := x0\<rparr>) = quiet s t"
  "quiet s (t\<lparr>peer_map := x1\<rparr>) = quiet s t"
  "quiet s (t\<lparr>raft_log := x2\<rparr>) = quiet s t"
  "quiet s (t\<lparr>commit_index := x3\<rparr>) = quiet s t"
  "quiet s (t\<lparr>last_applied := x4\<rparr>) = quiet s t"
  "quiet s (t\<lparr>flushed_index := x5\<rparr>) = quiet s t"
  "quiet s (t\<lparr>vote_count := x6\<rparr>) = quiet s t"
  "quiet s (t\<lparr>next_index := x7\<rparr>) = quiet s t"
  "quiet s (t\<lparr>match_index := x8\<rparr>) = quiet s t"
  "quiet s (t\<lparr>client_sessions := x9\<rparr>) = quiet s t"
  "quiet s (t\<lparr>session_manager := x10\<rparr>) = quiet s t"
  "quiet s (t\<lparr>proposal_sessions := x11\<rparr>) = quiet s t"
  "quiet s (t\<lparr>retry_state := x12\<rparr>) = quiet s t"
  "quiet s (t\<lparr>inflight := x13\<rparr>) = quiet s t"
  "quiet s (t\<lparr>last_heartbeat_sent := x14\<rparr>) = quiet s t"
  "quiet s (t\<lparr>leader_lease_expiry := x15\<rparr>) = quiet s t"
  "quiet s (t\<lparr>pre_vote_count := x16\<rparr>) = quiet s t"
  "quiet s (t\<lparr>has_leader_contact := x17\<rparr>) = quiet s t"
  "quiet s (t\<lparr>last_leader_contact := x18\<rparr>) = quiet s t"
  "quiet s (t\<lparr>quorum_acks := x19\<rparr>) = quiet s t"
  "quiet s (t\<lparr>last_activity_time := x20\<rparr>) = quiet s t"
  "quiet s (t\<lparr>consecutive_quiesced_timeouts := x21\<rparr>) = quiet s t"
  "quiet s (t\<lparr>last_contact_time := x22\<rparr>) = quiet s t"
  "quiet s (t\<lparr>pending_config_change := x23\<rparr>) = quiet s t"
  "quiet s (t\<lparr>cluster_config := x24\<rparr>) = quiet s t"
  "quiet s (t\<lparr>election_timer_enabled := x25\<rparr>) = quiet s t"
  "quiet s (t\<lparr>election_deadline := x26\<rparr>) = quiet s t"
  "quiet s (t\<lparr>heartbeat_timer_enabled := x27\<rparr>) = quiet s t"
  "quiet s (t\<lparr>heartbeat_deadline := x28\<rparr>) = quiet s t"
  "quiet s (t\<lparr>snapshot_check_timer_enabled := x29\<rparr>) = quiet s t"
  "quiet s (t\<lparr>snapshot_check_deadline := x30\<rparr>) = quiet s t"
  "quiet s (t\<lparr>last_snapshot_index := x31\<rparr>) = quiet s t"
  "quiet s (t\<lparr>last_snapshot_term := x32\<rparr>) = quiet s t"
  "quiet s (t\<lparr>snapshot_sends := x33\<rparr>) = quiet s t"
  "quiet s (t\<lparr>snapshot_temp_path := x34\<rparr>) = quiet s t"
  "quiet s (t\<lparr>snapshot_recv_index := x35\<rparr>) = quiet s t"
  "quiet s (t\<lparr>snapshot_recv_term := x36\<rparr>) = quiet s t"
  "quiet s (t\<lparr>snapshot_recv_expected_offset := x37\<rparr>) = quiet s t"
  "quiet s (t\<lparr>snapshot_restore_in_progress := x38\<rparr>) = quiet s t"
  "quiet s (t\<lparr>pending_proposals := x39\<rparr>) = quiet s t"
  "quiet s (t\<lparr>apply_queue := x40\<rparr>) = quiet s t"
  "quiet s (t\<lparr>apply_running := x41\<rparr>) = quiet s t"
  "quiet s (t\<lparr>last_enqueued := x42\<rparr>) = quiet s t"
  "quiet s (t\<lparr>pending_reads := x43\<rparr>) = quiet s t"
  "quiet s (t\<lparr>next_read_id := x44\<rparr>) = quiet s t"
  "quiet s (t\<lparr>has_role_change_callback := x45\<rparr>) = quiet s t"
  "quiet s (t\<lparr>has_leader_change_callback := x46\<rparr>) = quiet s t"
  "quiet s (t\<lparr>next_correlation_id := x47\<rparr>) = quiet s t"
  "quiet s (t\<lparr>snapshot_in_progress := x48\<rparr>) = quiet s t"
  "quiet s (t\<lparr>temp_files := x49\<rparr>) = quiet s t"
  by (simp_all add: quiet_def vote_sends_def dur_def)

lemma quiet_emit [simp]: "\<not> is_vote_send e \<Longrightarrow> quiet s (emit e t) = quiet s t"
  by (simp add: quiet_def emit_def vote_sends_def dur_def)

lemma dur_SaveState:
  "dur (snd (SaveState env s)) = dur s \<or> dur (snd (SaveState env s)) = Some (current_term s, voted_for s)"
  by (simp add: SaveState_def Let_def dur_def CurrentPersistentStateLocked_def)

lemma out_SaveState [simp]: "out (snd (SaveState env s)) = out s"
  by (simp add: SaveState_def Let_def)

lemma quiet_SaveState [simp]: "quiet s t \<Longrightarrow> quiet s (snd (SaveState env t))"
  using dur_SaveState [of env t] by (elim quiet_trans) (simp add: quiet_def vote_sends_def)

lemma quiet_Persist [simp]: "quiet s t \<Longrightarrow> quiet s (PersistClusterConfigLocked env t)"
  by (simp add: PersistClusterConfigLocked_def)

section \<open>Sends\<close>

lemma vote_sends_simps [simp]:
  "vote_sends (set_send p st s) = vote_sends s" "vote_sends (take_correlation_id s) = vote_sends s"
  "vote_sends (s\<lparr>next_index := a\<rparr>) = vote_sends s" "vote_sends (s\<lparr>snapshot_in_progress := b\<rparr>) = vote_sends s"
  "vote_sends (s\<lparr>inflight := c\<rparr>) = vote_sends s" "vote_sends (s\<lparr>last_heartbeat_sent := d\<rparr>) = vote_sends s"
  "vote_sends (touch_next p s) = vote_sends s"
  by (simp_all add: vote_sends_def touch_next_def)

lemma vote_sends_emit [simp]:
  "vote_sends (emit e s) = (if is_vote_send e then vote_sends s @ [e] else vote_sends s)"
  by (simp add: vote_sends_def)

lemma send_vote_sends: "vote_sends (SendNextSnapshotChunkLocked env p s) = vote_sends s"
  by (simp add: SendNextSnapshotChunkLocked_def Let_def split: option.split)

lemma send_install_vote_sends: "vote_sends (SendInstallSnapshotToPeerLocked env p s) = vote_sends s"
  by (simp add: SendInstallSnapshotToPeerLocked_def Let_def send_vote_sends)

lemma send_append_vote_sends: "vote_sends (SendAppendEntriesToPeerLocked env p s) = vote_sends s"
  by (simp add: SendAppendEntriesToPeerLocked_def Let_def send_install_vote_sends split: option.split)

lemma fill_vote_sends: "vote_sends (fill_pipeline env p s) = vote_sends s"
proof (induction env p s rule: fill_pipeline.induct)
  case (1 env p s)
  then show ?case
    by (subst fill_pipeline.simps) (auto simp: fill_step_def send_append_vote_sends)
qed

lemma broadcast_vote_sends: "vote_sends (BroadcastAppendEntriesLocked env s) = vote_sends s"
proof -
  have "vote_sends (fold (fill_pipeline env) ps t) = vote_sends t" for ps t
    by (induction ps arbitrary: t) (simp_all add: fill_vote_sends)
  then show ?thesis by (simp add: BroadcastAppendEntriesLocked_def)
qed

lemma quiet_send:
  assumes "send_frame t t'" and "vote_sends t' = vote_sends t" and "quiet s t"
  shows "quiet s t'"
proof (rule quiet_trans [OF assms(3)])
  show "quiet t t'"
    using assms(2) send_frame_core [OF assms(1)] send_frameD(14) [OF assms(1)] by (simp add: quiet_def dur_def)
qed

lemmas quiet_sends [simp] =
  quiet_send [OF send_frame_Broadcast broadcast_vote_sends]
  quiet_send [OF send_frame_SendAppendEntries send_append_vote_sends]
  quiet_send [OF snap_send_frame [OF snap_frame_SendInstallSnapshot] send_install_vote_sends]
  quiet_send [OF snap_send_frame [OF snap_frame_SendNextSnapshotChunk] send_vote_sends]

lemma quiet_append_local [simp]: "quiet s t \<Longrightarrow> quiet s (snd (append_local c t))"
  by (simp add: append_local_def Let_def split: prod.split option.split)

section \<open>Applying\<close>

lemma quiet_add_peer [simp]: "quiet s t \<Longrightarrow> quiet s (add_peer i a t)"
  by (simp add: add_peer_def Let_def)

lemma quiet_branches [simp]:
  "quiet s t \<Longrightarrow> quiet s (apply_joint env c t)" "quiet s t \<Longrightarrow> quiet s (apply_finalize env c t)"
  "quiet s t \<Longrightarrow> quiet s (apply_add_learner env c t)" "quiet s t \<Longrightarrow> quiet s (apply_promote env c t)"
  "quiet s t \<Longrightarrow> quiet s (apply_add env c t)" "quiet s t \<Longrightarrow> quiet s (apply_remove env c t)"
  subgoal by (simp add: apply_joint_def Let_def split: option.split)
  subgoal by (simp add: apply_finalize_def split: option.split)
  subgoal by (simp add: apply_add_learner_def Let_def split: option.split)
  subgoal by (simp add: apply_promote_def Let_def split: option.split)
  subgoal by (simp add: apply_add_def Let_def split: option.split)
  subgoal by (simp add: apply_remove_def Let_def split: option.split)
  done

lemma quiet_ApplyConfigChange [simp]: "quiet s t \<Longrightarrow> quiet s (ApplyConfigChangeLocked env c t)"
  by (simp add: ApplyConfigChangeLocked_def Let_def)

lemma quiet_enqueue [simp]:
  "quiet s t \<Longrightarrow> quiet s (enqueue_config env e t)" "quiet s t \<Longrightarrow> quiet s (enqueue_command e t)"
  by (simp_all add: enqueue_config_def enqueue_command_def push_task_def Let_def split: option.split)

lemma quiet_apply_next: "apply_next env t = Some s' \<Longrightarrow> quiet s t \<Longrightarrow> quiet s s'"
  by (auto simp: apply_next_def Let_def split: option.splits)

lemma quiet_apply_rounds: "apply_rounds env n t = Some s' \<Longrightarrow> quiet s t \<Longrightarrow> quiet s s'"
  by (induction env n t rule: apply_rounds.induct)
     (auto intro: quiet_apply_next split: if_splits option.splits)

lemma quiet_ApplyCommitted: "ApplyCommittedLocked env t = Some s' \<Longrightarrow> quiet s t \<Longrightarrow> quiet s s'"
  unfolding ApplyCommittedLocked_def by (rule quiet_apply_rounds)

lemma quiet_TryCommit: "TryCommitLocked env t = Some s' \<Longrightarrow> quiet s t \<Longrightarrow> quiet s s'"
  by (auto simp: TryCommitLocked_def elim: quiet_ApplyCommitted split: option.splits)

end
