(* ===== verification/Election.thy ===== *)
theory Election
  imports Ballot_Frame
begin

text \<open>
  Leader election: \<open>src/election_manager.cpp\<close>, and the vote handlers \<open>HandleRequestVote\<close> and
  \<open>HandlePreVote\<close> of \<open>src/rpc_handlers.cpp\<close>. The lock flag of \<open>BecomeFollowerLockedImpl\<close> only chooses who
  takes \<open>replication_mtx_\<close>; both branches do the same.
\<close>

section \<open>Role transitions\<close>

definition publish_role :: "RaftNodeRole \<Rightarrow> RaftNode \<Rightarrow> RaftNode" where
  "publish_role old_role s =
     (if old_role \<noteq> role s
      then let s1 = emit (RoleChangedEvent old_role (role s) (current_term s)) s in
           if has_role_change_callback s1
           then emit (RoleChangeCallback (role s1) (current_term s1)) s1 else s1
      else s)"

definition BecomeFollowerLockedImpl :: "Env \<Rightarrow> Term \<Rightarrow> bool \<Rightarrow> bool \<Rightarrow> RaftNode \<Rightarrow> RaftNode option" where
  "BecomeFollowerLockedImpl env term replication_lock_held persist_state s =
     (let old_role = role s;
          s1 = s\<lparr>role := FOLLOWER,
                 voted_for := (if current_term s < term then -1 else voted_for s),
                 current_term := term, vote_count := 0, votes_received := {},
                 pre_votes_received := {}, leader_id := -1, leader_addr := []\<rparr>;
          s2 = (StopHeartbeatTimerLocked s1)\<lparr>inflight := Map.empty\<rparr>;
          s3 = (StopSnapshotCheckTimerLocked s2)\<lparr>snapshot_sends := Map.empty\<rparr>;
          s4 = (if persist_state then ResetElectionTimerLocked env s3 else CancelElectionTimerLocked s3)
      in if persist_state \<and> has_persister s4
         then (case SaveState env s4 of
                 (True, s5) \<Rightarrow> Some (publish_role old_role s5)
               | (False, _) \<Rightarrow> None)
         else Some (publish_role old_role s4))"

definition BecomeFollowerLocked :: "Env \<Rightarrow> Term \<Rightarrow> RaftNode \<Rightarrow> RaftNode option" where
  "BecomeFollowerLocked env term s = BecomeFollowerLockedImpl env term False True s"

definition BecomeFollowerWithReplicationLocked :: "Env \<Rightarrow> Term \<Rightarrow> RaftNode \<Rightarrow> RaftNode option" where
  "BecomeFollowerWithReplicationLocked env term s = BecomeFollowerLockedImpl env term True True s"

definition BecomeFollowerAfterDiskFailureLocked :: "Env \<Rightarrow> Term \<Rightarrow> RaftNode \<Rightarrow> RaftNode option" where
  "BecomeFollowerAfterDiskFailureLocked env term s = BecomeFollowerLockedImpl env term False False s"

definition ElectionQuorumSatisfiedLocked :: "RaftNode \<Rightarrow> NodeId set \<Rightarrow> bool" where
  "ElectionQuorumSatisfiedLocked s voters = QuorumSatisfied (cluster_config s) voters"

text \<open>The loop over \<open>peer_map_\<close> that initialises the leader's view of each peer.\<close>

definition init_peer :: "Env \<Rightarrow> Index \<Rightarrow> NodeId \<Rightarrow> RaftNode \<Rightarrow> RaftNode" where
  "init_peer env last_index peer s =
     s\<lparr>next_index := (next_index s)(peer \<mapsto> u32_add last_index 1),
       match_index := AList.update peer 0 (match_index s),
       quorum_acks := AList.update peer (env_now env) (quorum_acks s),
       last_contact_time := (last_contact_time s)(peer \<mapsto> env_now env)\<rparr>"

definition BecomeLeaderLocked :: "Env \<Rightarrow> RaftNode \<Rightarrow> RaftNode" where
  "BecomeLeaderLocked env s =
     (let old_role = role s;
          s1 = s\<lparr>role := LEADER, leader_id := server_id s, leader_addr := nc_listen_addr (config s),
                 next_index := Map.empty, match_index := [], retry_state := Map.empty,
                 inflight := Map.empty, snapshot_sends := Map.empty, client_sessions := Map.empty,
                 quorum_acks := [], last_contact_time := Map.empty\<rparr>;
          s2 = fold (init_peer env (LastLogIndex (raft_log s))) (map fst (peer_map s1)) s1;
          s3 = StartSnapshotCheckTimerLocked env
                 (StartHeartbeatTimerLocked env 0 (CancelElectionTimerLocked s2));
          s4 = (if cc_is_joint (cluster_config s3)
                then snd (append_local (finalize_cmd env (cc_nodes (cluster_config s3))) s3)
                else s3);
          s5 = (if old_role \<noteq> role s4
                then emit (RoleChangedEvent old_role (role s4) (current_term s4)) s4 else s4);
          s6 = emit (LeaderChangedEvent (server_id s5) (nc_listen_addr (config s5)) (current_term s5)) s5;
          s7 = (if old_role \<noteq> role s6 \<and> has_role_change_callback s6
                then emit (RoleChangeCallback (role s6) (current_term s6)) s6 else s6);
          s8 = (if has_leader_change_callback s7
                then emit (LeaderChangeCallback (server_id s7) (nc_listen_addr (config s7))) s7 else s7)
      in BroadcastAppendEntriesLocked env s8)"

section \<open>Asking for votes\<close>

definition vote_request :: "RaftNode \<Rightarrow> RequestVoteRequest" where
  "vote_request s =
     (let (last_index, last_term) = GetLastLogInfo (raft_log s) in
      \<lparr>rv_correlation_id = next_correlation_id s, rv_group_id = group_id s, rv_term = current_term s,
       rv_candidate_id = server_id s, rv_last_log_index = last_index, rv_last_log_term = last_term\<rparr>)"

definition SendRequestVoteToPeerLocked :: "Env \<Rightarrow> NodeId \<times> NodeAddr \<Rightarrow> RaftNode \<Rightarrow> RaftNode" where
  "SendRequestVoteToPeerLocked env pa s =
     (let req = vote_request s; s1 = take_correlation_id s in
      if \<not> env_serialize_ok env (RequestVote req) then s1
      else emit (SendRpc (fst pa) (snd pa) (RequestVote req) (rpc_timeout_ms (cfg s1))
                   (OnRequestVoteResponse (current_term s1))) s1)"

definition BroadcastRequestVoteLocked :: "Env \<Rightarrow> RaftNode \<Rightarrow> RaftNode" where
  "BroadcastRequestVoteLocked env s = fold (SendRequestVoteToPeerLocked env) (peer_map s) s"

definition BecomeCandidateLocked :: "Env \<Rightarrow> RaftNode \<Rightarrow> RaftNode option" where
  "BecomeCandidateLocked env s =
     (let old_role = role s;
          s1 = s\<lparr>role := CANDIDATE, current_term := u32_add (current_term s) 1,
                 voted_for := server_id s, vote_count := 1, votes_received := {server_id s}\<rparr>;
          saved = (if has_persister s1
                   then (case SaveState env s1 of (True, s2) \<Rightarrow> Some s2 | (False, _) \<Rightarrow> None)
                   else Some s1)
      in case saved of
           None \<Rightarrow> None
         | Some s2 \<Rightarrow>
           let s3 = publish_role old_role s2 in
           if ElectionQuorumSatisfiedLocked s3 (votes_received s3)
           then Some (BecomeLeaderLocked env s3)
           else Some (ResetElectionTimerLocked env (BroadcastRequestVoteLocked env s3)))"

definition HandleRequestVoteResponse ::
  "Env \<Rightarrow> NodeId \<Rightarrow> RequestVoteResponse \<Rightarrow> Term \<Rightarrow> RaftNode \<Rightarrow> RaftNode option" where
  "HandleRequestVoteResponse env from resp original_term s =
     (if \<not> IsRunning s then Some s
      else if role s \<noteq> CANDIDATE then Some s
      else if current_term s < rvr_term resp then BecomeFollowerLocked env (rvr_term resp) s
      else if original_term \<noteq> current_term s then Some s
      else if rvr_term resp < current_term s then Some s
      else if rvr_vote_granted resp
      then let votes = insert from (votes_received s);
               s1 = s\<lparr>votes_received := votes, vote_count := u32 (card votes)\<rparr>
           in if ElectionQuorumSatisfiedLocked s1 (votes_received s1)
              then Some (BecomeLeaderLocked env s1) else Some s1
      else Some s)"

section \<open>Pre-vote\<close>

definition pre_vote_request :: "RaftNode \<Rightarrow> PreVoteRequest" where
  "pre_vote_request s =
     (let (last_index, last_term) = GetLastLogInfo (raft_log s) in
      \<lparr>pv_correlation_id = next_correlation_id s, pv_group_id = group_id s, pv_term = pre_vote_term s,
       pv_candidate_id = server_id s, pv_last_log_index = last_index, pv_last_log_term = last_term\<rparr>)"

definition SendPreVoteToPeerLocked :: "Env \<Rightarrow> NodeId \<times> NodeAddr \<Rightarrow> RaftNode \<Rightarrow> RaftNode" where
  "SendPreVoteToPeerLocked env pa s =
     (let req = pre_vote_request s; s1 = take_correlation_id s in
      if \<not> env_serialize_ok env (PreVote req) then s1
      else emit (SendRpc (fst pa) (snd pa) (PreVote req) (rpc_timeout_ms (cfg s1))
                   (OnPreVoteResponse (pre_vote_term s1))) s1)"

definition BroadcastPreVoteLocked :: "Env \<Rightarrow> RaftNode \<Rightarrow> RaftNode" where
  "BroadcastPreVoteLocked env s = fold (SendPreVoteToPeerLocked env) (peer_map s) s"

definition start_pre_vote :: "Env \<Rightarrow> RaftNode \<Rightarrow> RaftNode option" where
  "start_pre_vote env s =
     (let s1 = s\<lparr>pre_vote_running := True, pre_vote_count := 1, pre_votes_received := {server_id s},
                 pre_vote_term := u32_add (current_term s) 1\<rparr>
      in if ElectionQuorumSatisfiedLocked s1 (pre_votes_received s1)
         then BecomeCandidateLocked env (s1\<lparr>pre_vote_running := False\<rparr>)
         else let s2 = BroadcastPreVoteLocked env s1;
                  half = election_timeout_ms (cfg s2) div 2
              in Some (emit (SetTimeout (if half < 10 then 10 else half) PreVoteTimeout) s2))"

definition OnElectionTimeoutLocked :: "Env \<Rightarrow> RaftNode \<Rightarrow> RaftNode option" where
  "OnElectionTimeoutLocked env s =
     (let elect = (\<lambda>s. if \<not> pre_vote_enabled s then BecomeCandidateLocked env s else start_pre_vote env s)
      in if \<not> IsRunning s then Some s
         else if role s = LEADER then Some s
         else if quiesced s
         then let s1 = s\<lparr>consecutive_quiesced_timeouts := u32_add (consecutive_quiesced_timeouts s) 1\<rparr> in
              if nc_quiesced_max_consecutive_timeouts (config s1) \<le> consecutive_quiesced_timeouts s1
              then (case ExitQuiescedLocked env False s1 of None \<Rightarrow> None | Some s2 \<Rightarrow> elect s2)
              else Some (ResetElectionTimerLocked env s1)
         else elect s)"

text \<open>The timer armed by \<open>OnElectionTimeoutLocked\<close>.\<close>

definition OnPreVoteTimeout :: "Env \<Rightarrow> RaftNode \<Rightarrow> RaftNode" where
  "OnPreVoteTimeout env s =
     (if pre_vote_running s
      then ResetElectionTimerLocked env
             (s\<lparr>pre_vote_running := False, pre_vote_count := 0, pre_votes_received := {}\<rparr>)
      else s)"

definition HandlePreVoteResponse ::
  "Env \<Rightarrow> NodeId \<Rightarrow> PreVoteResponse \<Rightarrow> Term \<Rightarrow> RaftNode \<Rightarrow> RaftNode option" where
  "HandlePreVoteResponse env from resp original_pre_vote_term s =
     (if \<not> IsRunning s then Some s
      else if \<not> pre_vote_running s then Some s
      else if role s = CANDIDATE \<or> role s = LEADER then Some s
      else if original_pre_vote_term \<noteq> pre_vote_term s then Some s
      else if current_term s < pvr_term resp
      then BecomeFollowerLocked env (pvr_term resp) (s\<lparr>pre_vote_running := False, pre_vote_count := 0\<rparr>)
      else if pvr_vote_granted resp
      then let votes = insert from (pre_votes_received s);
               s1 = s\<lparr>pre_votes_received := votes, pre_vote_count := u32 (card votes)\<rparr>
           in if ElectionQuorumSatisfiedLocked s1 (pre_votes_received s1)
              then BecomeCandidateLocked env
                     (s1\<lparr>pre_vote_running := False, pre_vote_count := 0, pre_votes_received := {}\<rparr>)
              else Some s1
      else Some s)"

section \<open>Answering vote requests\<close>

definition log_is_up_to_date :: "RaftNode \<Rightarrow> Index \<Rightarrow> Term \<Rightarrow> bool" where
  "log_is_up_to_date s req_index req_term =
     (let (last_index, last_term) = GetLastLogInfo (raft_log s) in
      last_term < req_term \<or> (req_term = last_term \<and> last_index \<le> req_index))"

definition leader_is_recent :: "Env \<Rightarrow> RaftNode \<Rightarrow> bool" where
  "leader_is_recent env s \<longleftrightarrow>
     check_quorum_enabled s \<and> has_leader_contact s \<and>
     within_ms (env_now env) (last_leader_contact s) (election_timeout_ms (cfg s))"

text \<open>The part of \<open>HandleRequestVote\<close> after the term update.\<close>

definition consider_vote :: "Env \<Rightarrow> RequestVoteRequest \<Rightarrow> RaftNode \<Rightarrow> RequestVoteResponse \<times> RaftNode" where
  "consider_vote env req s =
     (let no = (\<lparr>rvr_term = current_term s, rvr_vote_granted = False\<rparr>, s) in
      if rv_term req < current_term s then no
      else if \<not> IsVoter (cluster_config s) (rv_candidate_id req) then no
      else if \<not> log_is_up_to_date s (rv_last_log_index req) (rv_last_log_term req) then no
      else if leader_is_recent env s then no
      else if voted_for s = -1 \<or> voted_for s = rv_candidate_id req
      then let s1 = ResetElectionTimerLocked env (s\<lparr>voted_for := rv_candidate_id req\<rparr>) in
           if has_persister s1
           then (case SaveState env s1 of
                   (True, s2) \<Rightarrow> (\<lparr>rvr_term = current_term s, rvr_vote_granted = True\<rparr>, s2)
                 | (False, s2) \<Rightarrow> (\<lparr>rvr_term = current_term s, rvr_vote_granted = False\<rparr>, s2))
           else (\<lparr>rvr_term = current_term s, rvr_vote_granted = True\<rparr>, s1)
      else no)"

definition HandleRequestVote ::
  "Env \<Rightarrow> RequestVoteRequest \<Rightarrow> RaftNode \<Rightarrow> (RequestVoteResponse \<times> RaftNode) option" where
  "HandleRequestVote env req s =
     (if current_term s < rv_term req
      then (case BecomeFollowerLocked env (rv_term req) s of
              None \<Rightarrow> None
            | Some s1 \<Rightarrow> Some (consider_vote env req s1))
      else Some (consider_vote env req s))"

text \<open>\<open>HandlePreVote\<close> reads the state and never writes it.\<close>

definition HandlePreVote :: "Env \<Rightarrow> PreVoteRequest \<Rightarrow> RaftNode \<Rightarrow> PreVoteResponse" where
  "HandlePreVote env req s =
     \<lparr>pvr_term = current_term s,
      pvr_vote_granted =
        (if pv_term req \<le> current_term s then False
         else if \<not> IsVoter (cluster_config s) (pv_candidate_id req) then False
         else if \<not> log_is_up_to_date s (pv_last_log_index req) (pv_last_log_term req) then False
         else if leader_is_recent env s then False
         else True)\<rparr>"

section \<open>What the transitions do to a ballot\<close>

lemma quiet_timers [simp]:
  "quiet s (CancelElectionTimerLocked t) = quiet s t"
  "quiet s (ResetElectionTimerLocked env t) = quiet s t"
  "quiet s (StartHeartbeatTimerLocked env n t) = quiet s t"
  "quiet s (StopHeartbeatTimerLocked t) = quiet s t"
  "quiet s (StartSnapshotCheckTimerLocked env t) = quiet s t"
  "quiet s (StopSnapshotCheckTimerLocked t) = quiet s t"
  "quiet s (publish_role r t) = quiet s t"
  "quiet s (take_correlation_id t) = quiet s t"
  by (simp_all add: CancelElectionTimerLocked_def ResetElectionTimerLocked_def StartHeartbeatTimerLocked_def
    StopHeartbeatTimerLocked_def StartSnapshotCheckTimerLocked_def StopSnapshotCheckTimerLocked_def
    publish_role_def take_correlation_id_def Let_def)

lemma ballot_upd [simp]:
  "dur (s\<lparr>role := x0\<rparr>) = dur s" "vote_sends (s\<lparr>role := x0\<rparr>) = vote_sends s"
  "dur (s\<lparr>current_term := x1\<rparr>) = dur s" "vote_sends (s\<lparr>current_term := x1\<rparr>) = vote_sends s"
  "dur (s\<lparr>voted_for := x2\<rparr>) = dur s" "vote_sends (s\<lparr>voted_for := x2\<rparr>) = vote_sends s"
  "dur (s\<lparr>votes_received := x3\<rparr>) = dur s" "vote_sends (s\<lparr>votes_received := x3\<rparr>) = vote_sends s"
  "dur (s\<lparr>pre_votes_received := x4\<rparr>) = dur s" "vote_sends (s\<lparr>pre_votes_received := x4\<rparr>) = vote_sends s"
  "dur (s\<lparr>pre_vote_running := x5\<rparr>) = dur s" "vote_sends (s\<lparr>pre_vote_running := x5\<rparr>) = vote_sends s"
  "dur (s\<lparr>pre_vote_term := x6\<rparr>) = dur s" "vote_sends (s\<lparr>pre_vote_term := x6\<rparr>) = vote_sends s"
  "dur (s\<lparr>leader_id := x7\<rparr>) = dur s" "vote_sends (s\<lparr>leader_id := x7\<rparr>) = vote_sends s"
  "dur (s\<lparr>leader_addr := x8\<rparr>) = dur s" "vote_sends (s\<lparr>leader_addr := x8\<rparr>) = vote_sends s"
  "dur (s\<lparr>quiesced := x9\<rparr>) = dur s" "vote_sends (s\<lparr>quiesced := x9\<rparr>) = vote_sends s"
  "dur (s\<lparr>state := x10\<rparr>) = dur s" "vote_sends (s\<lparr>state := x10\<rparr>) = vote_sends s"
  "dur (s\<lparr>vote_count := x11\<rparr>) = dur s" "vote_sends (s\<lparr>vote_count := x11\<rparr>) = vote_sends s"
  "dur (s\<lparr>pre_vote_count := x12\<rparr>) = dur s" "vote_sends (s\<lparr>pre_vote_count := x12\<rparr>) = vote_sends s"
  by (simp_all add: dur_def vote_sends_def)

text \<open>What may have been written to the persister in between.\<close>

definition saved_between :: "RaftNode \<Rightarrow> RaftNode \<Rightarrow> bool" where
  "saved_between s s' \<longleftrightarrow> dur s' = dur s \<or>
     (\<exists>t v. dur s' = Some (t, v) \<and> current_term s \<le> t \<and> t \<le> current_term s' \<and>
        v = (if current_term s < t then -1 else voted_for s))"

text \<open>
  \<open>recedes s s'\<close>: between the two states the node asked for no vote and cast none, and if it is still
  a candidate or leader it is so in the same term with the same tally.
\<close>

definition recedes :: "RaftNode \<Rightarrow> RaftNode \<Rightarrow> bool" where
  "recedes s s' \<longleftrightarrow>
     server_id s' = server_id s \<and> has_persister s' = has_persister s \<and> vote_sends s' = vote_sends s \<and>
     current_term s \<le> current_term s' \<and>
     voted_for s' = (if current_term s < current_term s' then -1 else voted_for s) \<and>
     (role s' = FOLLOWER \<or> role s' = role s \<and> current_term s' = current_term s \<and>
        votes_received s' = votes_received s) \<and>
     saved_between s s'"

lemma recedes_refl [simp]: "recedes s s"
  by (simp add: recedes_def saved_between_def)

lemma saved_between_trans:
  assumes "saved_between s t" and "saved_between t u" and "current_term s \<le> current_term t"
    and "current_term t \<le> current_term u"
    and "voted_for t = (if current_term s < current_term t then -1 else voted_for s)"
  shows "saved_between s u"
proof (cases "dur u = dur t")
  case True
  then show ?thesis using assms(1,4) unfolding saved_between_def by (metis order_trans)
next
  case False
  then obtain r v where r: "dur u = Some (r, v)" "current_term t \<le> r" "r \<le> current_term u"
    and v: "v = (if current_term t < r then -1 else voted_for t)"
    using assms(2) unfolding saved_between_def by blast
  have "current_term s \<le> r" using r(2) assms(3) by simp
  moreover have "v = (if current_term s < r then -1 else voted_for s)"
    using v r(2) assms(3,5) by (cases "current_term s < current_term t"; cases "current_term t < r") auto
  ultimately show ?thesis using r unfolding saved_between_def by blast
qed

lemma recedes_trans:
  assumes "recedes s t" and "recedes t u"
  shows "recedes s u"
proof -
  have "saved_between s u"
    using assms by (intro saved_between_trans [of s t u]) (simp_all add: recedes_def)
  moreover have "role u = FOLLOWER \<or> role u = role s \<and> current_term u = current_term s \<and>
      votes_received u = votes_received s"
    using assms unfolding recedes_def by metis
  moreover have "voted_for u = (if current_term s < current_term u then -1 else voted_for s)"
    using assms unfolding recedes_def by (metis le_less_trans less_le_trans nless_le)
  ultimately show ?thesis
    using assms unfolding recedes_def by (metis order_trans)
qed

lemma quiet_recedes:
  assumes "quiet s s'"
  shows "recedes s s'"
  using assms core_eqD(1,2,3,4,5,11) [OF quiet_coreD [OF assms]]
  by (auto simp: quiet_def recedes_def saved_between_def)

lemma recedes_quiet: "recedes s t \<Longrightarrow> quiet t u \<Longrightarrow> recedes s u"
  by (rule recedes_trans [OF _ quiet_recedes])

text \<open>Stepping down, in a term at least the node's own.\<close>

definition stepped_down :: "Term \<Rightarrow> RaftNode \<Rightarrow> RaftNode" where
  "stepped_down term s =
     s\<lparr>role := FOLLOWER, voted_for := (if current_term s < term then -1 else voted_for s),
       current_term := term, votes_received := {}, pre_votes_received := {}, leader_id := -1,
       leader_addr := []\<rparr>"

lemma BecomeFollower_quiet:
  "BecomeFollowerLockedImpl env term held persist s = Some s' \<Longrightarrow> quiet (stepped_down term s) s'"
proof -
  assume a: "BecomeFollowerLockedImpl env term held persist s = Some s'"
  have q: "quiet (stepped_down term s)
    (s\<lparr>role := FOLLOWER, voted_for := if current_term s < term then - 1 else voted_for s, current_term := term,
       vote_count := 0, votes_received := {}, pre_votes_received := {}, leader_id := - 1, leader_addr := []\<rparr>)"
    by (simp add: stepped_down_def quiet_def core_def vote_sends_def dur_def)
  have sv: "quiet r t \<Longrightarrow> SaveState env t = (b, u) \<Longrightarrow> quiet r u" for r t u b
    using quiet_SaveState [of r t env] by simp
  show ?thesis
    using a q by (auto simp: BecomeFollowerLockedImpl_def Let_def elim!: sv [rotated]
      split: if_splits prod.splits bool.splits)
qed

lemma BecomeFollower_recedes:
  assumes "BecomeFollowerLockedImpl env term held persist s = Some s'" and "current_term s \<le> term"
  shows "recedes s s'" "current_term s' = term" "role s' = FOLLOWER"
proof -
  have q: "quiet (stepped_down term s) s'" by (rule BecomeFollower_quiet [OF assms(1)])
  have "recedes s (stepped_down term s)"
    using assms(2) by (simp add: recedes_def saved_between_def stepped_down_def)
  then show "recedes s s'" using q by (rule recedes_quiet)
  show "current_term s' = term" "role s' = FOLLOWER"
    using core_eqD(2,3) [OF quiet_coreD [OF q]] by (simp_all add: stepped_down_def)
qed

lemmas BecomeFollower_defs =
  BecomeFollowerLocked_def BecomeFollowerWithReplicationLocked_def BecomeFollowerAfterDiskFailureLocked_def

text \<open>Taking the lead.\<close>

lemma quiet_init_peers [simp]: "quiet s t \<Longrightarrow> quiet s (fold (init_peer env l) ps t)"
  by (induction ps arbitrary: t) (simp_all add: init_peer_def)

lemma BecomeLeader_quiet:
  "quiet (s\<lparr>role := LEADER, leader_id := server_id s, leader_addr := nc_listen_addr (config s)\<rparr>)
     (BecomeLeaderLocked env s)"
  by (simp add: BecomeLeaderLocked_def Let_def)

lemma BecomeLeader_ballot:
  "server_id (BecomeLeaderLocked env s) = server_id s" "role (BecomeLeaderLocked env s) = LEADER"
  "current_term (BecomeLeaderLocked env s) = current_term s" "voted_for (BecomeLeaderLocked env s) = voted_for s"
  "votes_received (BecomeLeaderLocked env s) = votes_received s"
  "has_persister (BecomeLeaderLocked env s) = has_persister s"
  "vote_sends (BecomeLeaderLocked env s) = vote_sends s"
  "dur (BecomeLeaderLocked env s) = dur s \<or> dur (BecomeLeaderLocked env s) = Some (current_term s, voted_for s)"
  using BecomeLeader_quiet [of s env] core_eqD(1,2,3,4,5,11) [OF quiet_coreD [OF BecomeLeader_quiet [of s env]]]
  by (simp_all add: quiet_def vote_sends_def dur_def)

text \<open>Asking every peer for its vote.\<close>

fun asks_for :: "NodeId \<Rightarrow> Term \<Rightarrow> effect \<Rightarrow> bool" where
  "asks_for i t (SendRpc _ _ (RequestVote req) _ (OnRequestVoteResponse t')) =
     (rv_candidate_id req = i \<and> rv_term req = t \<and> t' = t)"
| "asks_for _ _ _ = False"

lemma vote_request_fields [simp]:
  "rv_candidate_id (vote_request s) = server_id s" "rv_term (vote_request s) = current_term s"
  by (simp_all add: vote_request_def split: prod.split)

lemma core_SendRequestVote [simp]: "core (SendRequestVoteToPeerLocked env pa s) = core s"
  by (simp add: SendRequestVoteToPeerLocked_def Let_def)

lemma dur_SendRequestVote [simp]: "dur (SendRequestVoteToPeerLocked env pa s) = dur s"
  by (simp add: SendRequestVoteToPeerLocked_def Let_def emit_def take_correlation_id_def dur_def)

lemma vote_sends_SendRequestVote:
  "\<exists>vs. vote_sends (SendRequestVoteToPeerLocked env pa s) = vote_sends s @ vs \<and>
     (\<forall>e\<in>set vs. asks_for (server_id s) (current_term s) e)"
  using core_eqD(3) [of "take_correlation_id s" s]
  by (simp add: SendRequestVoteToPeerLocked_def Let_def)

lemma BroadcastRequestVote_ballot:
  "core (BroadcastRequestVoteLocked env s) = core s"
  "dur (BroadcastRequestVoteLocked env s) = dur s"
  "\<exists>vs. vote_sends (BroadcastRequestVoteLocked env s) = vote_sends s @ vs \<and>
     (\<forall>e\<in>set vs. asks_for (server_id s) (current_term s) e)"
proof -
  have "core (fold (SendRequestVoteToPeerLocked env) ps s) = core s \<and>
      dur (fold (SendRequestVoteToPeerLocked env) ps s) = dur s \<and>
      (\<exists>vs. vote_sends (fold (SendRequestVoteToPeerLocked env) ps s) = vote_sends s @ vs \<and>
        (\<forall>e\<in>set vs. asks_for (server_id s) (current_term s) e))" for ps
  proof (induction ps arbitrary: s)
    case (Cons pa ps)
    define t where "t = SendRequestVoteToPeerLocked env pa s"
    obtain us where u: "vote_sends t = vote_sends s @ us" "\<forall>e\<in>set us. asks_for (server_id s) (current_term s) e"
      using vote_sends_SendRequestVote [of env pa s] t_def by blast
    have c: "core t = core s" by (simp add: t_def)
    obtain vs where "vote_sends (fold (SendRequestVoteToPeerLocked env) ps t) = vote_sends t @ vs"
      "\<forall>e\<in>set vs. asks_for (server_id s) (current_term s) e"
      using Cons.IH [of t] core_eqD(1,3) [OF c] by auto
    then have "vote_sends (fold (SendRequestVoteToPeerLocked env) ps t) = vote_sends s @ (us @ vs)"
      "\<forall>e\<in>set (us @ vs). asks_for (server_id s) (current_term s) e"
      using u by auto
    then have "\<exists>vs. vote_sends (fold (SendRequestVoteToPeerLocked env) ps t) = vote_sends s @ vs \<and>
        (\<forall>e\<in>set vs. asks_for (server_id s) (current_term s) e)" by blast
    then show ?case using Cons.IH [of t] c by (simp add: t_def)
  qed simp
  then show "core (BroadcastRequestVoteLocked env s) = core s"
    "dur (BroadcastRequestVoteLocked env s) = dur s"
    "\<exists>vs. vote_sends (BroadcastRequestVoteLocked env s) = vote_sends s @ vs \<and>
     (\<forall>e\<in>set vs. asks_for (server_id s) (current_term s) e)"
    by (simp_all add: BroadcastRequestVoteLocked_def)
qed

text \<open>Standing for election: the outcome of \<open>BecomeCandidateLocked\<close> on a node with a persister.\<close>

definition stands :: "RaftNode \<Rightarrow> RaftNode \<Rightarrow> bool" where
  "stands s s' \<longleftrightarrow>
     server_id s' = server_id s \<and> has_persister s' = has_persister s \<and>
     current_term s' = u32_add (current_term s) 1 \<and> voted_for s' = server_id s \<and>
     votes_received s' = {server_id s} \<and> dur s' = Some (current_term s', server_id s) \<and>
     (role s' = CANDIDATE \<or> role s' = LEADER \<and> QuorumSatisfied (cluster_config s) {server_id s}) \<and>
     (\<exists>vs. vote_sends s' = vote_sends s @ vs \<and> (\<forall>e\<in>set vs. asks_for (server_id s) (current_term s') e))"

lemma publish_role_fields [simp]:
  "core (publish_role r s) = core s" "dur (publish_role r s) = dur s" "vote_sends (publish_role r s) = vote_sends s"
  "cluster_config (publish_role r s) = cluster_config s"
  by (simp_all add: publish_role_def Let_def emit_def dur_def vote_sends_def)

lemma reset_timer_fields [simp]:
  "core (ResetElectionTimerLocked env s) = core s" "dur (ResetElectionTimerLocked env s) = dur s"
  "vote_sends (ResetElectionTimerLocked env s) = vote_sends s"
  "cluster_config (ResetElectionTimerLocked env s) = cluster_config s"
  by (simp_all add: ResetElectionTimerLocked_def CancelElectionTimerLocked_def Let_def dur_def vote_sends_def)

lemma SaveState_True:
  "SaveState env s = (True, t) \<longleftrightarrow>
     env_save_ok env (CurrentPersistentStateLocked s) \<and> t = s\<lparr>durable := Some (CurrentPersistentStateLocked s)\<rparr>"
  by (auto simp: SaveState_def Let_def)

lemma BecomeCandidate_stands:
  assumes "BecomeCandidateLocked env s = Some s'" and "has_persister s"
  shows "stands s s'"
proof -
  define c where "c = s\<lparr>role := CANDIDATE, current_term := u32_add (current_term s) 1,
                 voted_for := server_id s, vote_count := 1, votes_received := {server_id s}\<rparr>"
  define d where "d = publish_role (role s) (c\<lparr>durable := Some (CurrentPersistentStateLocked c)\<rparr>)"
  have c: "server_id c = server_id s" "has_persister c = has_persister s" "cluster_config c = cluster_config s"
    "current_term c = u32_add (current_term s) 1" "voted_for c = server_id s" "votes_received c = {server_id s}"
    "role c = CANDIDATE" "vote_sends c = vote_sends s" by (simp_all add: c_def)
  have core: "core d = core c" and d: "dur d = Some (current_term c, voted_for c)" "vote_sends d = vote_sends c"
    "cluster_config d = cluster_config s"
    by (simp_all add: d_def c(3)) (simp_all add: dur_def vote_sends_def CurrentPersistentStateLocked_def)
  have s': "s' = (if ElectionQuorumSatisfiedLocked d (votes_received d) then BecomeLeaderLocked env d
      else ResetElectionTimerLocked env (BroadcastRequestVoteLocked env d))"
    using assms(1) [unfolded BecomeCandidateLocked_def Let_def, folded c_def] assms(2)
    by (auto simp: c(2) d_def SaveState_True split: prod.splits bool.splits if_splits)
  show ?thesis
  proof (cases "ElectionQuorumSatisfiedLocked d (votes_received d)")
    case True
    then show ?thesis
      using s' BecomeLeader_ballot [of env d] core_eqD(1,2,3,4,5,11) [OF core] c d
      by (auto simp: stands_def ElectionQuorumSatisfiedLocked_def)
  next
    case False
    then have s'': "s' = ResetElectionTimerLocked env (BroadcastRequestVoteLocked env d)" using s' by simp
    have core': "core s' = core d" "dur s' = dur d"
      by (simp_all add: s'' BroadcastRequestVote_ballot(1,2))
    have "\<exists>vs. vote_sends s' = vote_sends d @ vs \<and> (\<forall>e\<in>set vs. asks_for (server_id d) (current_term d) e)"
      using BroadcastRequestVote_ballot(3) [of env d] by (simp add: s'')
    then show ?thesis
      using core_eqD(1,2,3,4,5,11) [OF core] core_eqD(1,2,3,4,5,11) [OF core'(1)] core'(2) c d
      by (simp add: stands_def)
  qed
qed

end
