(* ===== verification/Votes.thy ===== *)
theory Votes
  imports Election Example_Node
begin

text \<open>
  What each election handler does to the node's ballot, and the properties of votes and pre-votes
  that need only one node.
\<close>

section \<open>Handlers\<close>

lemma stands_pre:
  assumes "stands t s'" and "server_id t = server_id s" and "has_persister t = has_persister s"
    and "current_term t = current_term s" and "cluster_config t = cluster_config s"
    and "vote_sends t = vote_sends s"
  shows "stands s s'"
  using assms(1) unfolding stands_def assms(2-6) .

text \<open>A counted vote.\<close>

definition tallies :: "NodeId \<Rightarrow> RaftNode \<Rightarrow> RaftNode \<Rightarrow> bool" where
  "tallies from s s' \<longleftrightarrow>
     role s = CANDIDATE \<and> server_id s' = server_id s \<and> has_persister s' = has_persister s \<and>
     current_term s' = current_term s \<and> voted_for s' = voted_for s \<and> vote_sends s' = vote_sends s \<and>
     votes_received s' = insert from (votes_received s) \<and>
     (dur s' = dur s \<or> dur s' = Some (current_term s, voted_for s)) \<and>
     (role s' = CANDIDATE \<or> role s' = LEADER \<and> QuorumSatisfied (cluster_config s) (votes_received s'))"

lemma HandleRequestVoteResponse_outcome:
  assumes "HandleRequestVoteResponse env from resp original_term s = Some s'"
  shows "recedes s s' \<or> tallies from s s' \<and> rvr_vote_granted resp \<and>
    rvr_term resp = current_term s \<and> original_term = current_term s"
proof (cases "current_term s < rvr_term resp")
  case True
  then show ?thesis
    using assms BecomeFollower_recedes(1) [of env "rvr_term resp" _ _ s s']
    by (auto simp: HandleRequestVoteResponse_def BecomeFollower_defs split: if_splits)
next
  case False
  define t where "t = s\<lparr>votes_received := insert from (votes_received s),
      vote_count := u32 (card (insert from (votes_received s)))\<rparr>"
  have t: "server_id t = server_id s" "role t = role s" "has_persister t = has_persister s"
    "current_term t = current_term s" "voted_for t = voted_for s" "dur t = dur s"
    "vote_sends t = vote_sends s" "votes_received t = insert from (votes_received s)"
    "cluster_config t = cluster_config s" by (simp_all add: t_def)
  consider "s' = s" | "role s = CANDIDATE" "original_term = current_term s" "rvr_term resp = current_term s"
      "rvr_vote_granted resp" "s' = (if ElectionQuorumSatisfiedLocked t (votes_received t)
         then BecomeLeaderLocked env t else t)"
    using assms False unfolding HandleRequestVoteResponse_def Let_def t_def [symmetric]
    by (auto split: if_splits)
  then show ?thesis
  proof cases
    case 2
    then have "tallies from s s'"
      using BecomeLeader_ballot [of env t] t by (auto simp: tallies_def ElectionQuorumSatisfiedLocked_def)
    then show ?thesis using 2 by simp
  qed simp
qed

text \<open>A vote cast for another node.\<close>

definition votes_for :: "NodeId \<Rightarrow> RaftNode \<Rightarrow> RaftNode \<Rightarrow> bool" where
  "votes_for c s s' \<longleftrightarrow>
     server_id s' = server_id s \<and> has_persister s' = has_persister s \<and> role s' = role s \<and>
     current_term s' = current_term s \<and> votes_received s' = votes_received s \<and>
     vote_sends s' = vote_sends s \<and> (voted_for s = -1 \<or> voted_for s = c) \<and> voted_for s' = c \<and>
     (dur s' = dur s \<or> dur s' = Some (current_term s, c))"

lemma consider_vote_outcome:
  assumes "consider_vote env req s = (resp, s')"
  shows "\<not> rvr_vote_granted resp \<and> s' = s \<or>
    votes_for (rv_candidate_id req) s s' \<and> current_term s \<le> rv_term req \<and> rvr_term resp = current_term s \<and>
    (rvr_vote_granted resp \<longrightarrow> has_persister s \<longrightarrow> dur s' = Some (current_term s, rv_candidate_id req)) \<and>
    log_is_up_to_date s (rv_last_log_index req) (rv_last_log_term req) \<and>
    IsVoter (cluster_config s) (rv_candidate_id req) \<and> \<not> leader_is_recent env s"
proof -
  define t where "t = ResetElectionTimerLocked env (s\<lparr>voted_for := rv_candidate_id req\<rparr>)"
  have c: "core t = core (s\<lparr>voted_for := rv_candidate_id req\<rparr>)" "dur t = dur s" "vote_sends t = vote_sends s"
    by (simp_all add: t_def)
  have t: "server_id t = server_id s" "role t = role s" "has_persister t = has_persister s"
    "current_term t = current_term s" "voted_for t = rv_candidate_id req"
    "votes_received t = votes_received s"
    using core_eqD(1,2,3,4,5,11) [OF c(1)] by simp_all
  define u where "u = t\<lparr>durable := Some (CurrentPersistentStateLocked t)\<rparr>"
  have u: "server_id u = server_id s" "role u = role s" "has_persister u = has_persister s"
    "current_term u = current_term s" "voted_for u = rv_candidate_id req"
    "votes_received u = votes_received s" "vote_sends u = vote_sends s"
    "dur u = Some (current_term s, rv_candidate_id req)"
    using t c(3) by (simp_all add: u_def dur_def CurrentPersistentStateLocked_def vote_sends_def)
  have sv: "SaveState env t = (if env_save_ok env (CurrentPersistentStateLocked t) then (True, u) else (False, t))"
    by (simp add: SaveState_def Let_def u_def)
  have v: "votes_for (rv_candidate_id req) s t" "votes_for (rv_candidate_id req) s u"
    if "voted_for s = -1 \<or> voted_for s = rv_candidate_id req"
    using that t u c by (simp_all add: votes_for_def)
  have "\<not> rvr_vote_granted resp \<and> s' = s \<or>
    (voted_for s = -1 \<or> voted_for s = rv_candidate_id req) \<and> current_term s \<le> rv_term req \<and>
    rvr_term resp = current_term s \<and>
    (s' = u \<or> s' = t \<and> (rvr_vote_granted resp \<longrightarrow> \<not> has_persister s)) \<and>
    log_is_up_to_date s (rv_last_log_index req) (rv_last_log_term req) \<and>
    IsVoter (cluster_config s) (rv_candidate_id req) \<and> \<not> leader_is_recent env s"
    using assms unfolding consider_vote_def Let_def t_def [symmetric] sv
    by (cases "env_save_ok env (CurrentPersistentStateLocked t)") (auto simp: t(3) split: if_splits)
  then show ?thesis using v u(8) by blast
qed

lemma HandleRequestVote_outcome:
  assumes "HandleRequestVote env req s = Some (resp, s')"
  obtains t where "recedes s t"
    and "\<not> rvr_vote_granted resp \<and> s' = t \<or>
      votes_for (rv_candidate_id req) t s' \<and> current_term t = rv_term req \<and> rvr_term resp = rv_term req \<and>
      (rvr_vote_granted resp \<longrightarrow> has_persister t \<longrightarrow> dur s' = Some (rv_term req, rv_candidate_id req))"
proof (cases "current_term s < rv_term req")
  case True
  then obtain t where f: "BecomeFollowerLocked env (rv_term req) s = Some t"
    and c: "consider_vote env req t = (resp, s')"
    using assms by (auto simp: HandleRequestVote_def split: option.splits)
  have r: "recedes s t" "current_term t = rv_term req"
    using BecomeFollower_recedes(1,2) [OF f [unfolded BecomeFollowerLocked_def]] True by simp_all
  show thesis using that [OF r(1)] consider_vote_outcome [OF c] r(2) by auto
next
  case False
  then have c: "consider_vote env req s = (resp, s')"
    using assms by (simp add: HandleRequestVote_def)
  show thesis using that [OF recedes_refl [of s]] consider_vote_outcome [OF c] False by auto
qed

lemma SendPreVote_quiet [simp]: "quiet s t \<Longrightarrow> quiet s (SendPreVoteToPeerLocked env pa t)"
  by (simp add: SendPreVoteToPeerLocked_def Let_def)

lemma BroadcastPreVote_quiet [simp]: "quiet s t \<Longrightarrow> quiet s (BroadcastPreVoteLocked env t)"
proof -
  have "quiet s t \<Longrightarrow> quiet s (fold (SendPreVoteToPeerLocked env) ps t)" for ps
    by (induction ps arbitrary: t) simp_all
  then show "quiet s t \<Longrightarrow> ?thesis" by (simp add: BroadcastPreVoteLocked_def)
qed

lemma start_pre_vote_outcome:
  assumes "start_pre_vote env s = Some s'" and "has_persister s"
  shows "recedes s s' \<or> stands s s'"
proof -
  define t where "t = s\<lparr>pre_vote_running := True, pre_vote_count := 1, pre_votes_received := {server_id s},
                 pre_vote_term := u32_add (current_term s) 1\<rparr>"
  have r: "recedes s t" by (simp add: t_def recedes_def saved_between_def)
  have t: "has_persister t" "server_id t = server_id s" "current_term t = current_term s"
    "vote_sends t = vote_sends s" "cluster_config t = cluster_config s" using assms(2) by (simp_all add: t_def)
  consider "BecomeCandidateLocked env (t\<lparr>pre_vote_running := False\<rparr>) = Some s'" | "quiet t s'"
    using assms(1) unfolding start_pre_vote_def Let_def t_def [symmetric]
    by (auto split: if_splits)
  then show ?thesis
  proof cases
    case 1
    from BecomeCandidate_stands [OF 1] have "stands (t\<lparr>pre_vote_running := False\<rparr>) s'" by (simp add: t)
    then have "stands s s'" by (rule stands_pre) (simp_all add: t assms(2))
    then show ?thesis ..
  next
    case 2
    then show ?thesis using recedes_quiet [OF r] by blast
  qed
qed

lemma ExitQuiesced_recedes:
  assumes "ExitQuiescedLocked env held s = Some s'"
  shows "recedes s s'" "cluster_config s' = cluster_config s" "has_persister s' = has_persister s"
    "server_id s' = server_id s" "current_term s' = current_term s" "vote_sends s' = vote_sends s"
  using assms by (auto simp: ExitQuiescedLocked_def Let_def recedes_def saved_between_def
    StartHeartbeatTimerLocked_def StopHeartbeatTimerLocked_def dur_def vote_sends_def split: if_splits)

lemma elect_outcome:
  assumes "(if \<not> pre_vote_enabled s then BecomeCandidateLocked env s else start_pre_vote env s) = Some s'"
    and "has_persister s"
  shows "recedes s s' \<or> stands s s'"
  using assms start_pre_vote_outcome [of env s s'] BecomeCandidate_stands [of env s s']
  by (simp split: if_splits)

lemma recedes_count [simp]: "recedes s (s\<lparr>consecutive_quiesced_timeouts := n\<rparr>)"
  by (rule quiet_recedes) simp

lemma OnElectionTimeout_outcome:
  assumes "OnElectionTimeoutLocked env s = Some s'" and "has_persister s"
  shows "recedes s s' \<or> stands s s'"
proof -
  define t where "t = s\<lparr>consecutive_quiesced_timeouts := u32_add (consecutive_quiesced_timeouts s) 1\<rparr>"
  consider "quiet s s'"
    | "(if \<not> pre_vote_enabled s then BecomeCandidateLocked env s else start_pre_vote env s) = Some s'"
    | u where "ExitQuiescedLocked env False t = Some u"
      "(if \<not> pre_vote_enabled u then BecomeCandidateLocked env u else start_pre_vote env u) = Some s'"
    using assms(1) unfolding OnElectionTimeoutLocked_def Let_def t_def [symmetric]
    by (auto simp: t_def split: if_splits option.splits)
  then show ?thesis
  proof cases
    case 1
    then show ?thesis by (simp add: quiet_recedes)
  next
    case 2
    then show ?thesis using elect_outcome assms(2) by blast
  next
    case 3
    note x = ExitQuiesced_recedes [OF 3(1)]
    have t: "recedes s t" "has_persister t = has_persister s" "server_id t = server_id s"
      "current_term t = current_term s" "vote_sends t = vote_sends s" "cluster_config t = cluster_config s"
      by (simp_all add: t_def vote_sends_def)
    have "recedes u s' \<or> stands u s'" using elect_outcome [OF 3(2)] assms(2) x t by simp
    then show ?thesis
    proof
      assume "recedes u s'"
      then show ?thesis using recedes_trans [OF recedes_trans [OF t(1) x(1)]] by blast
    next
      assume "stands u s'"
      then have "stands s s'" by (rule stands_pre) (simp_all add: x t)
      then show ?thesis ..
    qed
  qed
qed

lemma HandlePreVoteResponse_outcome:
  assumes "HandlePreVoteResponse env from resp original_pre_vote_term s = Some s'" and "has_persister s"
  shows "recedes s s' \<or> stands s s'"
proof -
  define t where "t = s\<lparr>pre_votes_received := insert from (pre_votes_received s),
      pre_vote_count := u32 (card (insert from (pre_votes_received s)))\<rparr>"
  define u where "u = t\<lparr>pre_vote_running := False, pre_vote_count := 0, pre_votes_received := {}\<rparr>"
  define v where "v = s\<lparr>pre_vote_running := False, pre_vote_count := 0\<rparr>"
  have r: "recedes s t" "recedes s v" by (simp_all add: t_def v_def recedes_def saved_between_def)
  have "s' = s \<or> s' = t \<or> BecomeCandidateLocked env u = Some s' \<or>
      current_term s < pvr_term resp \<and> BecomeFollowerLocked env (pvr_term resp) v = Some s'"
    using assms(1) unfolding HandlePreVoteResponse_def Let_def t_def [symmetric] u_def [symmetric] v_def [symmetric]
    by (simp split: if_splits)
  then consider "s' = s" | "s' = t" | "BecomeCandidateLocked env u = Some s'"
    | "current_term s < pvr_term resp" "BecomeFollowerLocked env (pvr_term resp) v = Some s'" by blast
  then show ?thesis
  proof cases
    case 3
    have "has_persister u" using assms(2) by (simp add: u_def t_def)
    with BecomeCandidate_stands [OF 3] have "stands u s'" .
    then have "stands s s'" by (rule stands_pre) (simp_all add: u_def t_def)
    then show ?thesis ..
  next
    case 4
    then have "recedes v s'"
      by (intro BecomeFollower_recedes(1) [OF 4(2) [unfolded BecomeFollowerLocked_def]]) (simp add: v_def)
    then show ?thesis using recedes_trans [OF r(2)] by blast
  qed (simp_all add: r)
qed

lemma OnPreVoteTimeout_recedes: "recedes s (OnPreVoteTimeout env s)"
proof -
  have "recedes s (s\<lparr>pre_vote_running := False, pre_vote_count := 0, pre_votes_received := {}\<rparr>)"
    by (simp add: recedes_def saved_between_def)
  then show ?thesis by (auto simp: OnPreVoteTimeout_def intro: recedes_quiet)
qed

section \<open>Granting votes\<close>

text \<open>What stepping down leaves alone, besides the fields of \<^const>\<open>core\<close>.\<close>

definition voter_view :: "RaftNode \<Rightarrow> ClusterConfig \<times> RaftLog \<times> bool \<times> time" where
  "voter_view s = (cluster_config s, raft_log s, has_leader_contact s, last_leader_contact s)"

lemma voter_view_simps [simp]:
  "voter_view (publish_role r t) = voter_view t" "voter_view (StopHeartbeatTimerLocked t) = voter_view t"
  "voter_view (StopSnapshotCheckTimerLocked t) = voter_view t"
  "voter_view (ResetElectionTimerLocked env t) = voter_view t"
  "voter_view (CancelElectionTimerLocked t) = voter_view t"
  "voter_view (t\<lparr>inflight := x\<rparr>) = voter_view t" "voter_view (t\<lparr>snapshot_sends := y\<rparr>) = voter_view t"
  "voter_view (snd (SaveState env t)) = voter_view t"
  by (simp_all add: voter_view_def publish_role_def emit_def StopHeartbeatTimerLocked_def SaveState_def
    StopSnapshotCheckTimerLocked_def ResetElectionTimerLocked_def CancelElectionTimerLocked_def Let_def)

lemma voter_view_BecomeFollower:
  assumes "BecomeFollowerLockedImpl env term held persist s = Some s'"
  shows "voter_view s' = voter_view s" "cfg s' = cfg s" "check_quorum_enabled s' = check_quorum_enabled s"
proof -
  define t where "t = s\<lparr>role := FOLLOWER, voted_for := if current_term s < term then - 1 else voted_for s,
     current_term := term, vote_count := 0, votes_received := {}, pre_votes_received := {}, leader_id := - 1,
     leader_addr := []\<rparr>"
  have sv: "SaveState env r = (b, u) \<Longrightarrow> voter_view u = voter_view r" for r u b
    using voter_view_simps(8) [of env r] by simp
  have "voter_view s' = voter_view t"
    using assms unfolding BecomeFollowerLockedImpl_def Let_def t_def [symmetric]
    by (auto dest: sv split: if_splits prod.splits bool.splits)
  then show "voter_view s' = voter_view s" by (simp add: t_def voter_view_def)
  show "cfg s' = cfg s" "check_quorum_enabled s' = check_quorum_enabled s"
    using core_eqD(17,20) [OF quiet_coreD [OF BecomeFollower_quiet [OF assms]]] by (simp_all add: stepped_down_def cfg_def)
qed

lemma voter_view_decisions:
  assumes "voter_view s' = voter_view s"
  shows "cluster_config s' = cluster_config s" "log_is_up_to_date s' = log_is_up_to_date s"
    "cfg s' = cfg s \<Longrightarrow> check_quorum_enabled s' = check_quorum_enabled s \<Longrightarrow>
      leader_is_recent env s' = leader_is_recent env s"
  using assms by (simp_all add: voter_view_def log_is_up_to_date_def leader_is_recent_def fun_eq_iff)

lemma BecomeFollower_returns:
  assumes "\<And>ps. env_save_ok env ps"
  shows "\<exists>s'. BecomeFollowerLockedImpl env term held persist s = Some s'"
proof -
  have "SaveState env t = (True, t\<lparr>durable := Some (CurrentPersistentStateLocked t)\<rparr>)" for t
    using assms by (simp add: SaveState_def Let_def)
  then show ?thesis by (simp add: BecomeFollowerLockedImpl_def Let_def)
qed

definition ex_vote_req :: "Term \<Rightarrow> Index \<Rightarrow> Term \<Rightarrow> RequestVoteRequest" where
  "ex_vote_req t li lt = \<lparr>rv_correlation_id = 1, rv_group_id = 0, rv_term = t, rv_candidate_id = 2,
     rv_last_log_index = li, rv_last_log_term = lt\<rparr>"

lemma ex_group_fields [simp]:
  "server_id (ex_group ids) = 1" "current_term (ex_group ids) = 0" "voted_for (ex_group ids) = -1"
  "role (ex_group ids) = FOLLOWER" "has_persister (ex_group ids)" "IsRunning (ex_group ids)"
  "raft_log (ex_group ids) = RaftLog_init" "has_leader_contact (ex_group ids) = False" "quiesced (ex_group ids) = False"
  "pre_vote_enabled (ex_group ids)" "check_quorum_enabled (ex_group ids)" "cfg (ex_group ids) = default_values"
  "peer_map (ex_group ids) = map (\<lambda>i. (i, ''h:1'')) ids" "votes_received (ex_group ids) = {}"
  "cluster_config (ex_group ids) = \<lparr>cc_nodes = 1 # ids, cc_old_nodes = [], cc_learners = [], cc_version = 1,
     cc_is_joint = False\<rparr>"
  by (simp_all add: ex_group_def blank_node_def ex_config_def IsRunning_def cfg_def mkRuntimeConfig_def
    MakeRuntimeConfigValues_def)

lemma ex_env_fields [simp]:
  "env_save_ok (ex_env t) ps" "env_now (ex_env t) = t" "env_rand (ex_env t) a b = a"
  by (simp_all add: ex_env_def)

lemma ex_vote:
  "\<exists>s'. HandleRequestVote (ex_env 0) (ex_vote_req 1 0 0) (ex_group [2, 3]) =
     Some (\<lparr>rvr_term = 1, rvr_vote_granted = True\<rparr>, s')"
proof -
  obtain t where f: "BecomeFollowerLockedImpl (ex_env 0) 1 False True (ex_group [2, 3]) = Some t"
    using BecomeFollower_returns [of "ex_env 0", OF ex_env_fields(1)] by blast
  have v: "voter_view t = voter_view (ex_group [2, 3])" by (rule voter_view_BecomeFollower(1) [OF f])
  have t: "current_term t = 1" "voted_for t = -1"
    using BecomeFollower_recedes(1,2) [OF f] by (simp_all add: recedes_def)
  have "cluster_config t = cluster_config (ex_group [2, 3])" "raft_log t = RaftLog_init"
    "has_leader_contact t = False" using v by (simp_all add: voter_view_def)
  then show ?thesis
    using f t by (simp add: HandleRequestVote_def ex_vote_req_def BecomeFollowerLocked_def consider_vote_def
      IsVoter_def log_is_up_to_date_def GetLastLogInfo_def RaftLog_init_def leader_is_recent_def SaveState_def Let_def)
qed

text \<open>
  C2: A node that answers a vote request with a grant is in the candidate's term, holds the vote for
  that candidate in memory and on disk, had not voted for anyone else in that term, and only grants
  to a voter of its configuration whose log is at least as up to date as its own.
\<close>

theorem vote_granted_durably:
  assumes "HandleRequestVote env req s = Some (resp, s')" and "rvr_vote_granted resp" and "has_persister s"
  shows "rvr_term resp = rv_term req \<and> current_term s' = rv_term req \<and> voted_for s' = rv_candidate_id req \<and>
    map_option (\<lambda>p. (ps_current_term p, ps_voted_for p)) (durable s') = Some (rv_term req, rv_candidate_id req) \<and>
    current_term s \<le> rv_term req \<and>
    (current_term s = rv_term req \<longrightarrow> voted_for s = -1 \<or> voted_for s = rv_candidate_id req) \<and>
    IsVoter (cluster_config s) (rv_candidate_id req) \<and>
    log_is_up_to_date s (rv_last_log_index req) (rv_last_log_term req)"
proof (cases "current_term s < rv_term req")
  case True
  then obtain t where f: "BecomeFollowerLockedImpl env (rv_term req) False True s = Some t"
    and c: "consider_vote env req t = (resp, s')"
    using assms(1) by (auto simp: HandleRequestVote_def BecomeFollowerLocked_def split: option.splits)
  have t: "has_persister t = has_persister s" "current_term t = rv_term req"
    using BecomeFollower_recedes [OF f] True by (simp_all add: recedes_def)
  show ?thesis
    using consider_vote_outcome [OF c] assms(2,3) t True
      voter_view_decisions(1,2) [OF voter_view_BecomeFollower(1) [OF f]]
    by (auto simp: votes_for_def dur_def)
next
  case False
  then have c: "consider_vote env req s = (resp, s')"
    using assms(1) by (simp add: HandleRequestVote_def)
  show ?thesis
    using consider_vote_outcome [OF c] assms(2,3) False by (auto simp: votes_for_def dur_def)
qed

theorem vote_granted_durably_witness:
  "\<exists>resp s'. HandleRequestVote (ex_env 0) (ex_vote_req 1 0 0) (ex_group [2, 3]) = Some (resp, s') \<and>
     rvr_vote_granted resp \<and> current_term s' = 1 \<and> voted_for s' = 2 \<and> durable s' \<noteq> None"
proof -
  obtain s' where h: "HandleRequestVote (ex_env 0) (ex_vote_req 1 0 0) (ex_group [2, 3]) =
      Some (\<lparr>rvr_term = 1, rvr_vote_granted = True\<rparr>, s')"
    using ex_vote by blast
  have "current_term s' = 1 \<and> voted_for s' = 2 \<and> durable s' \<noteq> None"
    using vote_granted_durably [OF h] by (auto simp: ex_vote_req_def)
  then show ?thesis using h by auto
qed

text \<open>
  Pre-votes predict votes. When a node grants a pre-vote, it would grant the vote itself to the
  same candidate at the announced term in the same state, provided its persister accepts writes.
\<close>

theorem pre_vote_predicts_vote:
  assumes "pvr_vote_granted (HandlePreVote env req s)" and "\<And>ps. env_save_ok env ps"
  shows "\<exists>s'. HandleRequestVote env
      \<lparr>rv_correlation_id = cid, rv_group_id = gid, rv_term = pv_term req, rv_candidate_id = pv_candidate_id req,
       rv_last_log_index = pv_last_log_index req, rv_last_log_term = pv_last_log_term req\<rparr> s =
      Some (\<lparr>rvr_term = pv_term req, rvr_vote_granted = True\<rparr>, s')"
proof -
  have g: "current_term s < pv_term req" "IsVoter (cluster_config s) (pv_candidate_id req)"
    "log_is_up_to_date s (pv_last_log_index req) (pv_last_log_term req)" "\<not> leader_is_recent env s"
    using assms(1) by (auto simp: HandlePreVote_def split: if_splits)
  obtain t where f: "BecomeFollowerLockedImpl env (pv_term req) False True s = Some t"
    using BecomeFollower_returns [OF assms(2)] by blast
  note v = voter_view_BecomeFollower [OF f]
  have t: "current_term t = pv_term req" "voted_for t = -1" "cluster_config t = cluster_config s"
    "log_is_up_to_date t = log_is_up_to_date s" "\<not> leader_is_recent env t"
    using BecomeFollower_recedes(1,2) [OF f] g(1,4) voter_view_decisions [OF v(1)] v(2,3)
    by (simp_all add: recedes_def)
  show ?thesis
    using g f t assms(2)
    by (simp add: HandleRequestVote_def BecomeFollowerLocked_def consider_vote_def SaveState_def Let_def)
qed

theorem pre_vote_predicts_vote_witness:
  "let req = \<lparr>pv_correlation_id = 1, pv_group_id = 0, pv_term = 1, pv_candidate_id = 3, pv_last_log_index = 0,
         pv_last_log_term = 0\<rparr> in
   pvr_vote_granted (HandlePreVote (ex_env 0) req (ex_group [2, 3])) \<and>
   (\<exists>s'. HandleRequestVote (ex_env 0) \<lparr>rv_correlation_id = 2, rv_group_id = 0, rv_term = 1, rv_candidate_id = 3,
       rv_last_log_index = 0, rv_last_log_term = 0\<rparr> (ex_group [2, 3]) =
     Some (\<lparr>rvr_term = 1, rvr_vote_granted = True\<rparr>, s'))"
proof -
  define req where "req = \<lparr>pv_correlation_id = 1, pv_group_id = 0, pv_term = 1, pv_candidate_id = 3,
    pv_last_log_index = 0, pv_last_log_term = 0\<rparr>"
  have g: "pvr_vote_granted (HandlePreVote (ex_env 0) req (ex_group [2, 3]))"
    by (simp add: HandlePreVote_def req_def IsVoter_def log_is_up_to_date_def GetLastLogInfo_def
      RaftLog_init_def leader_is_recent_def)
  show ?thesis
    using g pre_vote_predicts_vote [OF g, of 2 0] by (simp add: req_def Let_def)
qed

text \<open>
  A node whose log holds no entry, as after it installed a snapshot and started its log anew,
  grants its vote in a new term to any voter that asks, however old the candidate's log is: the
  snapshot's index and term play no part in the comparison.
\<close>

theorem compacted_log_votes_for_any_log:
  assumes "entries (raft_log s) = []" and "current_term s < rv_term req" and "\<And>ps. env_save_ok env ps"
    and "IsVoter (cluster_config s) (rv_candidate_id req)" and "\<not> leader_is_recent env s"
  shows "\<exists>s'. HandleRequestVote env req s = Some (\<lparr>rvr_term = rv_term req, rvr_vote_granted = True\<rparr>, s')"
proof -
  obtain t where f: "BecomeFollowerLockedImpl env (rv_term req) False True s = Some t"
    using BecomeFollower_returns [OF assms(3)] by blast
  note v = voter_view_BecomeFollower [OF f]
  have "log_is_up_to_date s (rv_last_log_index req) (rv_last_log_term req)"
    using assms(1) by (auto simp: log_is_up_to_date_def GetLastLogInfo_def)
  then have t: "current_term t = rv_term req" "voted_for t = -1" "cluster_config t = cluster_config s"
    "log_is_up_to_date t (rv_last_log_index req) (rv_last_log_term req)" "\<not> leader_is_recent env t"
    using BecomeFollower_recedes(1,2) [OF f] assms(2,5) voter_view_decisions [OF v(1)] v(2,3)
    by (simp_all add: recedes_def)
  show ?thesis
    using assms f t
    by (simp add: HandleRequestVote_def BecomeFollowerLocked_def consider_vote_def SaveState_def Let_def)
qed

text \<open>A node that installed a snapshot of index 5 and term 3.\<close>

definition ex_compacted :: RaftNode where
  "ex_compacted = (ex_group [2, 3])\<lparr>raft_log := SetStartIndex 6 RaftLog_init, last_snapshot_index := 5,
     last_snapshot_term := 3, commit_index := 5, last_applied := 5, current_term := 3\<rparr>"

theorem compacted_log_votes_for_any_log_witness:
  "last_snapshot_index ex_compacted = 5 \<and> commit_index ex_compacted = 5 \<and>
   (\<exists>s'. HandleRequestVote (ex_env 0) (ex_vote_req 4 1 1) ex_compacted =
      Some (\<lparr>rvr_term = 4, rvr_vote_granted = True\<rparr>, s'))"
  using compacted_log_votes_for_any_log [of ex_compacted "ex_vote_req 4 1 1" "ex_env 0"]
  by (simp add: ex_compacted_def ex_vote_req_def SetStartIndex_def RaftLog_init_def IsVoter_def leader_is_recent_def)

section \<open>A candidate with pre-votes enabled\<close>

text \<open>The events by which a node retries an election.\<close>

inductive election_retry :: "RaftNode \<Rightarrow> RaftNode \<Rightarrow> bool" where
  timeout: "OnElectionTimeoutLocked env s = Some s' \<Longrightarrow> election_retry s s'"
| pre_vote_timeout: "election_retry s (OnPreVoteTimeout env s)"
| pre_vote_response: "HandlePreVoteResponse env from resp t s = Some s' \<Longrightarrow> election_retry s s'"

definition stuck :: "Term \<Rightarrow> RaftNode \<Rightarrow> bool" where
  "stuck t s \<longleftrightarrow> IsRunning s \<and> role s = CANDIDATE \<and> current_term s = t \<and> pre_vote_enabled s \<and>
     \<not> QuorumSatisfied (cluster_config s) {server_id s}"

lemma emit_cluster_config [simp]: "cluster_config (emit e s) = cluster_config s"
  by (simp add: emit_def)

lemma SendPreVote_cluster_config [simp]: "cluster_config (SendPreVoteToPeerLocked env pa s) = cluster_config s"
  by (simp add: SendPreVoteToPeerLocked_def take_correlation_id_def emit_def Let_def)

lemma BroadcastPreVote_cluster_config [simp]: "cluster_config (BroadcastPreVoteLocked env s) = cluster_config s"
proof -
  have "cluster_config (fold (SendPreVoteToPeerLocked env) ps s) = cluster_config s" for ps
    by (induction ps arbitrary: s) simp_all
  then show ?thesis by (simp add: BroadcastPreVoteLocked_def)
qed

lemma stuck_quiet:
  assumes "stuck t s" and "quiet s s'" and "cluster_config s' = cluster_config s"
  shows "stuck t s'"
  using assms(1,3) core_eqD(1,2,3,18,21) [OF quiet_coreD [OF assms(2)]] by (simp add: stuck_def)

lemma stuck_start_pre_vote:
  assumes "stuck t s" and "start_pre_vote env s = Some s'"
  shows "stuck t s'"
proof -
  define u where "u = s\<lparr>pre_vote_running := True, pre_vote_count := 1, pre_votes_received := {server_id s},
                 pre_vote_term := u32_add (current_term s) 1\<rparr>"
  have u: "stuck t u" "pre_votes_received u = {server_id u}"
    using assms(1) by (simp_all add: u_def stuck_def IsRunning_def)
  then have "\<not> ElectionQuorumSatisfiedLocked u (pre_votes_received u)"
    by (simp add: stuck_def ElectionQuorumSatisfiedLocked_def)
  then have "\<exists>n. s' = emit (SetTimeout n PreVoteTimeout) (BroadcastPreVoteLocked env u)"
    using assms(2) unfolding start_pre_vote_def Let_def u_def [symmetric] by auto
  then show ?thesis by (auto intro!: stuck_quiet [OF u(1)])
qed

lemma stuck_retry:
  assumes "election_retry s s'" and "stuck t s"
  shows "stuck t s'"
  using assms(1)
proof cases
  case (timeout env)
  define u where "u = s\<lparr>consecutive_quiesced_timeouts := u32_add (consecutive_quiesced_timeouts s) 1\<rparr>"
  have u: "stuck t u" using assms(2) by (simp add: u_def stuck_def IsRunning_def)
  define v where "v = (if quiesced u then u\<lparr>quiesced := False, consecutive_quiesced_timeouts := 0\<rparr> else u)"
  have x: "ExitQuiescedLocked env False u = Some v" and v: "stuck t v"
    using u by (simp_all add: v_def ExitQuiescedLocked_def stuck_def IsRunning_def Let_def)
  have p: "IsRunning s" "role s \<noteq> LEADER" "pre_vote_enabled s" "pre_vote_enabled v"
    using assms(2) v by (simp_all add: stuck_def)
  have "start_pre_vote env s = Some s' \<or> s' = ResetElectionTimerLocked env u \<or> start_pre_vote env v = Some s'"
    using timeout p unfolding OnElectionTimeoutLocked_def Let_def u_def [symmetric] x
    by (simp split: if_splits)
  then show ?thesis
    using stuck_start_pre_vote [OF assms(2), of env s'] stuck_start_pre_vote [OF v, of env s'] stuck_quiet [OF u, of s']
    by auto
next
  case (pre_vote_timeout env)
  have "stuck t (s\<lparr>pre_vote_running := False, pre_vote_count := 0, pre_votes_received := {}\<rparr>)"
    using assms(2) by (simp add: stuck_def IsRunning_def)
  from stuck_quiet [OF this] show ?thesis using pre_vote_timeout assms(2) by (simp add: OnPreVoteTimeout_def)
next
  case (pre_vote_response env i resp t')
  then show ?thesis using assms(2) by (auto simp: HandlePreVoteResponse_def stuck_def split: if_splits)
qed

text \<open>
  A candidate of a cluster with pre-votes enabled that needs other votes never starts another
  election: no sequence of election timeouts, pre-vote timeouts and pre-vote responses, however many
  of them grant, makes it leave its term. Its timeouts start pre-votes, and a candidate ignores the
  answers to them, so a split vote between all the voters lasts until a node restarts.
\<close>

theorem candidate_never_retries:
  assumes "election_retry\<^sup>*\<^sup>* s s'"
    and "IsRunning s \<and> role s = CANDIDATE \<and> pre_vote_enabled s \<and> \<not> QuorumSatisfied (cluster_config s) {server_id s}"
  shows "role s' = CANDIDATE \<and> current_term s' = current_term s"
proof -
  have "stuck (current_term s) s'"
    using assms(1)
  proof (induction rule: rtranclp_induct)
    case base
    then show ?case using assms(2) by (simp add: stuck_def)
  next
    case (step y z)
    then show ?case using stuck_retry by blast
  qed
  then show ?thesis by (simp add: stuck_def)
qed

theorem candidate_never_retries_witness:
  "let s = (ex_group [2, 3])\<lparr>role := CANDIDATE, current_term := 4, voted_for := 1, votes_received := {1}\<rparr> in
   \<exists>s'. OnElectionTimeoutLocked (ex_env 0) s = Some s' \<and>
     (\<exists>s''. HandlePreVoteResponse (ex_env 0) 2 \<lparr>pvr_term = 4, pvr_vote_granted = True\<rparr> 5 s' = Some s'' \<and>
        role s'' = CANDIDATE \<and> current_term s'' = 4)"
proof -
  define s where "s = (ex_group [2, 3])\<lparr>role := CANDIDATE, current_term := 4, voted_for := 1, votes_received := {1}\<rparr>"
  have st: "IsRunning s \<and> role s = CANDIDATE \<and> pre_vote_enabled s \<and> \<not> QuorumSatisfied (cluster_config s) {server_id s}"
    using ex_group_fields(6) [of "[2, 3]"]
    by (simp add: s_def QuorumSatisfied_iff config_ok_def U32_def majority_of_def IsRunning_def)
  obtain s' where a: "OnElectionTimeoutLocked (ex_env 0) s = Some s'"
    using st by (cases "OnElectionTimeoutLocked (ex_env 0) s")
      (auto simp: OnElectionTimeoutLocked_def start_pre_vote_def ElectionQuorumSatisfiedLocked_def Let_def s_def)
  have r: "election_retry\<^sup>*\<^sup>* s s'" using a by (blast intro: election_retry.timeout)
  have "role s' = CANDIDATE" using candidate_never_retries [OF r st] by simp
  then have b: "HandlePreVoteResponse (ex_env 0) 2 \<lparr>pvr_term = 4, pvr_vote_granted = True\<rparr> 5 s' = Some s'"
    by (simp add: HandlePreVoteResponse_def)
  show ?thesis
    using a b candidate_never_retries [OF r st] unfolding s_def [symmetric] Let_def by (auto simp: s_def)
qed

end
