(* ===== verification/Append_Entries.thy ===== *)
theory Append_Entries
  imports Votes
begin

text \<open>
  The follower's side of replication: \<open>HandleAppendEntries\<close> of \<open>src/rpc_handlers.cpp\<close>, in the two
  phases the code runs under different locks. Between them other handlers may run; here the second
  phase follows the first.
\<close>

section \<open>The handler\<close>

text \<open>The loop that cuts the log at the first entry whose term differs.\<close>

fun truncate_conflict :: "RaftLogEntry list \<Rightarrow> RaftNode \<Rightarrow> RaftNode" where
  "truncate_conflict [] s = s"
| "truncate_conflict (e # es) s =
     (let existing_term = GetLogTermLocked s (e_index e) in
      if existing_term \<noteq> 0 \<and> existing_term \<noteq> e_term e
      then let s1 = s\<lparr>raft_log := TruncateSuffix (e_index e) (raft_log s)\<rparr> in
           if has_log_persister s1 then emit (LogTruncateSuffix (e_index e)) s1 else s1
      else truncate_conflict es s)"

definition expected_index :: "RaftLog \<Rightarrow> Index" where
  "expected_index l =
     (let last_index = fst (GetLastLogInfo l) in
      if last_index = 0 then GetFirstIndex l else u32_add last_index 1)"

text \<open>The loop that appends; \<open>Some\<close> is the index reported for an entry that leaves a gap.\<close>

fun append_new :: "RaftLogEntry list \<Rightarrow> RaftNode \<Rightarrow> Index option \<times> RaftNode" where
  "append_new [] s = (None, s)"
| "append_new (e # es) s =
     (if e_index e < GetFirstIndex (raft_log s) then append_new es s
      else let existing_term = GetLogTermLocked s (e_index e) in
           if existing_term \<noteq> 0 \<and> existing_term = e_term e then append_new es s
           else let expected = expected_index (raft_log s) in
                if e_index e \<noteq> expected then (Some expected, s)
                else let s1 = s\<lparr>raft_log := snd (Append (e_term e) (e_data e) (raft_log s))\<rparr>;
                         s2 = (if has_log_persister s1 then emit (LogAppend e None) s1 else s1)
                     in append_new es s2)"

text \<open>Phase 1, under \<open>election_mtx_\<close>; \<open>False\<close> marks the early returns.\<close>

definition append_election_phase ::
  "Env \<Rightarrow> AppendEntriesRequest \<Rightarrow> RaftNode \<Rightarrow> (bool \<times> AppendEntriesResponse \<times> RaftNode) option" where
  "append_election_phase env req s =
     (case RecordActivityLocked env False s of
        None \<Rightarrow> None
      | Some s1 \<Rightarrow>
        let resp = \<lparr>aer_term = current_term s1, aer_success = False, aer_conflict_index = 0, aer_entries_count = 0\<rparr> in
        if \<not> IsVoter (cluster_config s1) (ae_leader_id req) then Some (False, resp, s1)
        else case (if current_term s1 < ae_term req then BecomeFollowerLocked env (ae_term req) s1 else Some s1) of
               None \<Rightarrow> None
             | Some s2 \<Rightarrow>
               let resp2 = resp\<lparr>aer_term := current_term s2\<rparr> in
               if ae_term req < current_term s2 then Some (False, resp2, s2)
               else let s3 = s2\<lparr>leader_id := ae_leader_id req\<rparr>;
                        s4 = (case map_of (peer_map s3) (leader_id s3) of
                                None \<Rightarrow> s3
                              | Some addr \<Rightarrow> s3\<lparr>leader_addr := addr\<rparr>);
                        s5 = s4\<lparr>last_leader_contact := env_now env, has_leader_contact := True\<rparr>
                    in Some (True, resp2, ResetElectionTimerLocked env s5))"

text \<open>Phase 2, under \<open>replication_mtx_\<close>.\<close>

definition append_commit ::
  "Env \<Rightarrow> AppendEntriesRequest \<Rightarrow> AppendEntriesResponse \<Rightarrow> RaftNode \<Rightarrow> (AppendEntriesResponse \<times> RaftNode) option" where
  "append_commit env req resp s =
     (case (if commit_index s < ae_leader_commit req
            then ApplyCommittedLocked env
                   (s\<lparr>commit_index := min (ae_leader_commit req) (fst (GetLastLogInfo (raft_log s)))\<rparr>)
            else Some s) of
        None \<Rightarrow> None
      | Some s1 \<Rightarrow> Some (resp\<lparr>aer_success := True\<rparr>, s1))"

definition append_replication_phase ::
  "Env \<Rightarrow> AppendEntriesRequest \<Rightarrow> AppendEntriesResponse \<Rightarrow> RaftNode \<Rightarrow> (AppendEntriesResponse \<times> RaftNode) option" where
  "append_replication_phase env req resp s =
     (let first_index = GetFirstIndex (raft_log s) in
      if 0 < ae_prev_log_index req \<and> u32_add (ae_prev_log_index req) 1 < first_index
      then Some (resp\<lparr>aer_conflict_index := first_index\<rparr>, s)
      else if 0 < ae_prev_log_index req \<and> GetLogTermLocked s (ae_prev_log_index req) \<noteq> ae_prev_log_term req
      then Some (resp\<lparr>aer_conflict_index := ae_prev_log_index req\<rparr>, s)
      else if ae_entries req = [] then append_commit env req resp s
      else case append_new (ae_entries req) (truncate_conflict (ae_entries req) s) of
             (Some expected, s1) \<Rightarrow> Some (resp\<lparr>aer_conflict_index := expected\<rparr>, s1)
           | (None, s1) \<Rightarrow>
               append_commit env req (resp\<lparr>aer_entries_count := u32 (length (ae_entries req))\<rparr>) s1)"

definition HandleAppendEntries ::
  "Env \<Rightarrow> AppendEntriesRequest \<Rightarrow> RaftNode \<Rightarrow> (AppendEntriesResponse \<times> RaftNode) option" where
  "HandleAppendEntries env req s =
     (case append_election_phase env req s of
        None \<Rightarrow> None
      | Some (False, resp, s1) \<Rightarrow> Some (resp, s1)
      | Some (True, resp, s1) \<Rightarrow> append_replication_phase env req resp s1)"

section \<open>Fields the log work touches\<close>

definition log_view :: "RaftNode \<Rightarrow> RaftLog \<times> Index \<times> Term \<times> Index" where
  "log_view s = (raft_log s, last_snapshot_index s, last_snapshot_term s, commit_index s)"

lemma log_view_upd [simp]:
  "log_view (s\<lparr>group_id := x0\<rparr>) = log_view s"
  "log_view (s\<lparr>config := x1\<rparr>) = log_view s"
  "log_view (s\<lparr>runtime_config := x2\<rparr>) = log_view s"
  "log_view (s\<lparr>server_id := x3\<rparr>) = log_view s"
  "log_view (s\<lparr>peer_addrs := x4\<rparr>) = log_view s"
  "log_view (s\<lparr>peer_map := x5\<rparr>) = log_view s"
  "log_view (s\<lparr>current_term := x6\<rparr>) = log_view s"
  "log_view (s\<lparr>voted_for := x7\<rparr>) = log_view s"
  "log_view (s\<lparr>last_applied := x8\<rparr>) = log_view s"
  "log_view (s\<lparr>flushed_index := x9\<rparr>) = log_view s"
  "log_view (s\<lparr>leader_id := x10\<rparr>) = log_view s"
  "log_view (s\<lparr>leader_addr := x11\<rparr>) = log_view s"
  "log_view (s\<lparr>role := x12\<rparr>) = log_view s"
  "log_view (s\<lparr>vote_count := x13\<rparr>) = log_view s"
  "log_view (s\<lparr>votes_received := x14\<rparr>) = log_view s"
  "log_view (s\<lparr>pre_votes_received := x15\<rparr>) = log_view s"
  "log_view (s\<lparr>next_index := x16\<rparr>) = log_view s"
  "log_view (s\<lparr>match_index := x17\<rparr>) = log_view s"
  "log_view (s\<lparr>client_sessions := x18\<rparr>) = log_view s"
  "log_view (s\<lparr>session_manager := x19\<rparr>) = log_view s"
  "log_view (s\<lparr>proposal_sessions := x20\<rparr>) = log_view s"
  "log_view (s\<lparr>retry_state := x21\<rparr>) = log_view s"
  "log_view (s\<lparr>inflight := x22\<rparr>) = log_view s"
  "log_view (s\<lparr>last_heartbeat_sent := x23\<rparr>) = log_view s"
  "log_view (s\<lparr>leader_lease_expiry := x24\<rparr>) = log_view s"
  "log_view (s\<lparr>pre_vote_count := x25\<rparr>) = log_view s"
  "log_view (s\<lparr>pre_vote_running := x26\<rparr>) = log_view s"
  "log_view (s\<lparr>pre_vote_term := x27\<rparr>) = log_view s"
  "log_view (s\<lparr>check_quorum_enabled := x28\<rparr>) = log_view s"
  "log_view (s\<lparr>pre_vote_enabled := x29\<rparr>) = log_view s"
  "log_view (s\<lparr>has_leader_contact := x30\<rparr>) = log_view s"
  "log_view (s\<lparr>last_leader_contact := x31\<rparr>) = log_view s"
  "log_view (s\<lparr>quorum_acks := x32\<rparr>) = log_view s"
  "log_view (s\<lparr>quiesced := x33\<rparr>) = log_view s"
  "log_view (s\<lparr>last_activity_time := x34\<rparr>) = log_view s"
  "log_view (s\<lparr>consecutive_quiesced_timeouts := x35\<rparr>) = log_view s"
  "log_view (s\<lparr>last_contact_time := x36\<rparr>) = log_view s"
  "log_view (s\<lparr>pending_config_change := x37\<rparr>) = log_view s"
  "log_view (s\<lparr>cluster_config := x38\<rparr>) = log_view s"
  "log_view (s\<lparr>election_timer_enabled := x39\<rparr>) = log_view s"
  "log_view (s\<lparr>election_deadline := x40\<rparr>) = log_view s"
  "log_view (s\<lparr>heartbeat_timer_enabled := x41\<rparr>) = log_view s"
  "log_view (s\<lparr>heartbeat_deadline := x42\<rparr>) = log_view s"
  "log_view (s\<lparr>snapshot_check_timer_enabled := x43\<rparr>) = log_view s"
  "log_view (s\<lparr>snapshot_check_deadline := x44\<rparr>) = log_view s"
  "log_view (s\<lparr>snapshot_sends := x45\<rparr>) = log_view s"
  "log_view (s\<lparr>snapshot_temp_path := x46\<rparr>) = log_view s"
  "log_view (s\<lparr>snapshot_recv_index := x47\<rparr>) = log_view s"
  "log_view (s\<lparr>snapshot_recv_term := x48\<rparr>) = log_view s"
  "log_view (s\<lparr>snapshot_recv_expected_offset := x49\<rparr>) = log_view s"
  "log_view (s\<lparr>snapshot_restore_in_progress := x50\<rparr>) = log_view s"
  "log_view (s\<lparr>pending_proposals := x51\<rparr>) = log_view s"
  "log_view (s\<lparr>apply_queue := x52\<rparr>) = log_view s"
  "log_view (s\<lparr>apply_running := x53\<rparr>) = log_view s"
  "log_view (s\<lparr>last_enqueued := x54\<rparr>) = log_view s"
  "log_view (s\<lparr>pending_reads := x55\<rparr>) = log_view s"
  "log_view (s\<lparr>next_read_id := x56\<rparr>) = log_view s"
  "log_view (s\<lparr>has_role_change_callback := x57\<rparr>) = log_view s"
  "log_view (s\<lparr>has_leader_change_callback := x58\<rparr>) = log_view s"
  "log_view (s\<lparr>has_persister := x59\<rparr>) = log_view s"
  "log_view (s\<lparr>has_log_persister := x60\<rparr>) = log_view s"
  "log_view (s\<lparr>durable := x61\<rparr>) = log_view s"
  "log_view (s\<lparr>state := x62\<rparr>) = log_view s"
  "log_view (s\<lparr>next_correlation_id := x63\<rparr>) = log_view s"
  "log_view (s\<lparr>snapshot_in_progress := x64\<rparr>) = log_view s"
  "log_view (s\<lparr>temp_files := x65\<rparr>) = log_view s"
  "log_view (s\<lparr>out := x66\<rparr>) = log_view s"
  by (simp_all add: log_view_def)

lemma log_view_eqD:
  assumes "log_view s' = log_view s"
  shows "raft_log s' = raft_log s" "last_snapshot_index s' = last_snapshot_index s" "last_snapshot_term s' = last_snapshot_term s" "commit_index s' = commit_index s"
  using assms by (simp_all add: log_view_def)

lemma log_view_simps [simp]:
  "log_view (emit e s) = log_view s" "log_view (snd (SaveState env s)) = log_view s"
  "log_view (PersistClusterConfigLocked env s) = log_view s" "log_view (publish_role r s) = log_view s"
  "log_view (StopHeartbeatTimerLocked s) = log_view s" "log_view (StopSnapshotCheckTimerLocked s) = log_view s"
  "log_view (StartHeartbeatTimerLocked env n s) = log_view s"
  "log_view (ResetElectionTimerLocked env s) = log_view s" "log_view (CancelElectionTimerLocked s) = log_view s"
  "log_view (push_task t s) = log_view s" "log_view (add_peer i a s) = log_view s"
  by (simp_all add: log_view_def emit_def SaveState_def PersistClusterConfigLocked_def publish_role_def
    StopHeartbeatTimerLocked_def StopSnapshotCheckTimerLocked_def StartHeartbeatTimerLocked_def
    ResetElectionTimerLocked_def CancelElectionTimerLocked_def push_task_def add_peer_def Let_def)

lemma log_view_BecomeFollower:
  assumes "BecomeFollowerLockedImpl env term held persist s = Some s'"
  shows "log_view s' = log_view s"
proof -
  define t where "t = s\<lparr>role := FOLLOWER, voted_for := if current_term s < term then - 1 else voted_for s,
     current_term := term, vote_count := 0, votes_received := {}, pre_votes_received := {}, leader_id := - 1,
     leader_addr := []\<rparr>"
  have sv: "SaveState env r = (b, u) \<Longrightarrow> log_view u = log_view r" for r u b
    using log_view_simps(2) [of env r] by simp
  have "log_view s' = log_view t"
    using assms unfolding BecomeFollowerLockedImpl_def Let_def t_def [symmetric]
    by (auto dest: sv split: if_splits prod.splits bool.splits)
  then show ?thesis by (simp add: t_def)
qed

lemma role_Persist [simp]: "role (PersistClusterConfigLocked env s) = role s"
  by (rule core_eqD(2)) simp

lemma log_view_branches [simp]:
  "role s \<noteq> LEADER \<Longrightarrow> log_view (apply_joint env c s) = log_view s"
  "log_view (apply_finalize env c s) = log_view s" "log_view (apply_add_learner env c s) = log_view s"
  "log_view (apply_promote env c s) = log_view s" "log_view (apply_add env c s) = log_view s"
  "log_view (apply_remove env c s) = log_view s"
  by (simp_all add: apply_joint_def apply_finalize_def apply_add_learner_def apply_promote_def apply_add_def
    apply_remove_def Let_def split: option.split)

lemma log_view_apply_next:
  assumes "apply_next env s = Some s'" and "role s \<noteq> LEADER"
  shows "log_view s' = log_view s"
proof -
  have "log_view (ApplyConfigChangeLocked env c t) = log_view t" if "role t \<noteq> LEADER" for c t
    using that by (simp add: ApplyConfigChangeLocked_def Let_def)
  with assms show ?thesis
    by (auto simp: apply_next_def enqueue_config_def enqueue_command_def Let_def split: option.splits if_splits)
qed

lemma log_view_ApplyCommitted:
  assumes "ApplyCommittedLocked env s = Some s'" and "role s \<noteq> LEADER"
  shows "log_view s' = log_view s"
proof -
  have "apply_rounds env n t = Some t' \<Longrightarrow> role t \<noteq> LEADER \<Longrightarrow> log_view t' = log_view t" for n t t'
  proof (induction n arbitrary: t)
    case (Suc n)
    show ?case
    proof (cases "last_enqueued t < commit_index t")
      case True
      then obtain u where u: "apply_next env t = Some u" "apply_rounds env n u = Some t'"
        using Suc.prems(1) by (auto split: option.splits)
      have "role u = role t" using apply_next_keeps(1) [OF u(1)] by (rule core_eqD(2))
      then show ?thesis using Suc.IH [OF u(2)] Suc.prems(2) log_view_apply_next [OF u(1)] by simp
    next
      case False
      then show ?thesis using Suc.prems(1) by simp
    qed
  qed simp
  then show ?thesis using assms by (simp add: ApplyCommittedLocked_def)
qed

lemma log_view_RecordActivity:
  "RecordActivityLocked env held s = Some s' \<Longrightarrow> log_view s' = log_view s"
  by (auto simp: RecordActivityLocked_def ExitQuiescedLocked_def Let_def split: if_splits)

section \<open>Reconciling the log\<close>

text \<open>
  The state the log work relies on: a well-formed log that starts after the last snapshot and holds
  entries of terms from 1 on. \<open>request_ok\<close>: the entries of a request carry consecutive indices after
  \<open>prev_log_index\<close> and terms from 1 on, as a leader's log has them.
\<close>

definition log_ok :: "RaftNode \<Rightarrow> bool" where
  "log_ok s \<longleftrightarrow> log_wf (raft_log s) \<and> last_snapshot_index s < start_index (raft_log s) \<and>
     (\<forall>e\<in>set (entries (raft_log s)). e_term e \<noteq> 0)"

definition run_from :: "Index \<Rightarrow> RaftLogEntry list \<Rightarrow> bool" where
  "run_from i es \<longleftrightarrow> map e_index es = [i ..< i + length es] \<and> (\<forall>e\<in>set es. e_term e \<noteq> 0) \<and> i + length es < U32"

definition request_ok :: "AppendEntriesRequest \<Rightarrow> bool" where
  "request_ok req \<longleftrightarrow> run_from (Suc (ae_prev_log_index req)) (ae_entries req) \<and>
     (ae_prev_log_index req \<noteq> 0 \<longrightarrow> ae_prev_log_term req \<noteq> 0)"

definition agrees :: "RaftLogEntry list \<Rightarrow> RaftLog \<Rightarrow> bool" where
  "agrees es l \<longleftrightarrow> (\<forall>e\<in>set es. \<forall>x. log_map l (e_index e) = Some x \<longrightarrow> e_term x = e_term e)"

definition stored :: "RaftLogEntry list \<Rightarrow> RaftLog \<Rightarrow> bool" where
  "stored es l \<longleftrightarrow> (\<forall>e\<in>set es. start_index l \<le> e_index e \<longrightarrow>
     (\<exists>x. log_map l (e_index e) = Some x \<and> e_term x = e_term e))"

lemma run_from_Cons: "run_from i (e # es) \<longleftrightarrow> e_index e = i \<and> e_term e \<noteq> 0 \<and> Suc i < U32 \<and> run_from (Suc i) es"
  by (auto simp: run_from_def upt_conv_Cons simp del: upt_Suc)

lemma run_from_ge: "run_from i es \<Longrightarrow> e \<in> set es \<Longrightarrow> i \<le> e_index e"
  by (induction es arbitrary: i) (fastforce simp: run_from_Cons)+

lemma log_map_term: "log_ok s \<Longrightarrow> log_map (raft_log s) i = Some x \<Longrightarrow> e_term x \<noteq> 0"
  by (auto simp: log_ok_def log_map_def log_end_def split: if_splits)

lemma log_term_in_log:
  assumes "log_ok s" and "start_index (raft_log s) \<le> i"
  shows "GetLogTermLocked s i = (case log_map (raft_log s) i of None \<Rightarrow> 0 | Some x \<Rightarrow> e_term x)"
  using assms by (auto simp: GetLogTermLocked_def GetLogTerm_def GetEntry_log_map log_ok_def dest: log_wfD(1))

lemma expected_index_wf:
  assumes "log_wf l"
  shows "expected_index l = log_end l"
  using arg_cong [OF Append_wf_eq [OF assms, of 0 "[]"], where f = fst]
  by (auto simp: Append_def expected_index_def GetFirstIndex_def Let_def split: if_splits)

lemma log_ok_cong:
  "raft_log s' = raft_log s \<Longrightarrow> last_snapshot_index s' = last_snapshot_index s \<Longrightarrow> log_ok s' = log_ok s"
  by (simp add: log_ok_def)

lemma log_ok_truncate:
  assumes "log_ok s"
  shows "log_ok (s\<lparr>raft_log := TruncateSuffix i (raft_log s)\<rparr>)"
  using assms by (auto simp: log_ok_def TruncateSuffix_wf) (auto simp: TruncateSuffix_wf_eq dest: in_set_takeD)

lemma truncate_conflict_fields [simp]:
  "core (truncate_conflict es s) = core s" "vote_sends (truncate_conflict es s) = vote_sends s"
  "dur (truncate_conflict es s) = dur s" "last_snapshot_index (truncate_conflict es s) = last_snapshot_index s"
  "last_snapshot_term (truncate_conflict es s) = last_snapshot_term s"
  "commit_index (truncate_conflict es s) = commit_index s" "cluster_config (truncate_conflict es s) = cluster_config s"
  by (induction es) (simp_all add: Let_def, simp_all add: emit_def vote_sends_def dur_def)

lemma append_new_fields:
  "core (snd (append_new es s)) = core s \<and> vote_sends (snd (append_new es s)) = vote_sends s \<and>
   dur (snd (append_new es s)) = dur s \<and> last_snapshot_index (snd (append_new es s)) = last_snapshot_index s \<and>
   last_snapshot_term (snd (append_new es s)) = last_snapshot_term s \<and>
   commit_index (snd (append_new es s)) = commit_index s \<and> cluster_config (snd (append_new es s)) = cluster_config s"
  by (induction es arbitrary: s) (simp_all add: Let_def, simp_all add: emit_def vote_sends_def dur_def)

text \<open>The first index at which a stored term differs.\<close>

fun conflict_at :: "RaftLogEntry list \<Rightarrow> RaftNode \<Rightarrow> Index option" where
  "conflict_at [] s = None"
| "conflict_at (e # es) s =
     (if GetLogTermLocked s (e_index e) \<noteq> 0 \<and> GetLogTermLocked s (e_index e) \<noteq> e_term e
      then Some (e_index e) else conflict_at es s)"

lemma truncate_conflict_log:
  "raft_log (truncate_conflict es s) =
     (case conflict_at es s of None \<Rightarrow> raft_log s | Some i \<Rightarrow> TruncateSuffix i (raft_log s))"
  by (induction es) (simp_all add: Let_def emit_def)

lemma conflict_at_agrees:
  assumes "log_ok s" and "run_from i es"
  shows "case conflict_at es s of None \<Rightarrow> agrees es (raft_log s)
    | Some j \<Rightarrow> i \<le> j \<and> agrees es (TruncateSuffix j (raft_log s))"
  using assms(2)
proof (induction es arbitrary: i)
  case (Cons e es)
  then have r: "e_index e = i" "run_from (Suc i) es" by (simp_all add: run_from_Cons)
  have wf: "log_wf (raft_log s)" using assms(1) by (simp add: log_ok_def)
  have here: "e_term x = e_term e" if "log_map (raft_log s) i = Some x"
      "\<not> (GetLogTermLocked s i \<noteq> 0 \<and> GetLogTermLocked s i \<noteq> e_term e)" for x
  proof -
    have "start_index (raft_log s) \<le> i" using that(1) by (simp add: log_map_def split: if_splits)
    from log_term_in_log [OF assms(1) this] that show ?thesis using log_map_term [OF assms(1) that(1)] by simp
  qed
  show ?case
  proof (cases "GetLogTermLocked s i \<noteq> 0 \<and> GetLogTermLocked s i \<noteq> e_term e")
    case True
    have "log_map (TruncateSuffix i (raft_log s)) (e_index x) = None" if "x \<in> set (e # es)" for x
      using that run_from_ge [OF Cons.prems that] by (simp add: TruncateSuffix_log_map [OF wf] restrict_map_def)
    then have "agrees (e # es) (TruncateSuffix i (raft_log s))" unfolding agrees_def by simp
    then show ?thesis using True r(1) by simp
  next
    case False
    then show ?thesis
      using Cons.IH [OF r(2)] r(1) here
      by (auto simp: agrees_def TruncateSuffix_log_map [OF wf] restrict_map_def split: option.splits)
  qed
qed (simp add: agrees_def)

lemma agrees_Cons:
  "agrees (e # es) l \<longleftrightarrow> (\<forall>x. log_map l (e_index e) = Some x \<longrightarrow> e_term x = e_term e) \<and> agrees es l"
  by (simp add: agrees_def)

lemma stored_mono:
  assumes "stored es l" and "log_map l \<subseteq>\<^sub>m log_map l'" and "start_index l' = start_index l"
  shows "stored es l'"
  using assms unfolding stored_def map_le_def by (metis domI)

text \<open>
  Appending a run that agrees with the log and leaves no gap succeeds, keeps every stored entry and
  stores the run; the entries it adds carry the run's terms and data.
\<close>

definition extended :: "Index \<Rightarrow> RaftLogEntry list \<Rightarrow> RaftLog \<Rightarrow> RaftLog \<Rightarrow> bool" where
  "extended i es l l' \<longleftrightarrow> log_map l \<subseteq>\<^sub>m log_map l' \<and> start_index l' = start_index l \<and> stored es l' \<and>
     log_end l' = max (log_end l) (i + length es) \<and>
     (\<forall>k < length es. log_end l \<le> i + k \<longrightarrow> map_option payload (log_map l' (i + k)) = Some (payload (es ! k)))"

lemma stored_Cons:
  "stored (e # es) l \<longleftrightarrow> (start_index l \<le> e_index e \<longrightarrow>
     (\<exists>x. log_map l (e_index e) = Some x \<and> e_term x = e_term e)) \<and> stored es l"
  by (simp add: stored_def)

lemma extended_skip:
  assumes "extended (Suc i) es l l'" and "e_index e = i" and "i < log_end l"
    and "start_index l \<le> i \<Longrightarrow> \<exists>x. log_map l i = Some x \<and> e_term x = e_term e"
  shows "extended i (e # es) l l'"
proof -
  have le: "log_map l \<subseteq>\<^sub>m log_map l'" and st: "start_index l' = start_index l"
    using assms(1) by (simp_all add: extended_def)
  have "stored (e # es) l'"
    using assms(1,2,4) le st unfolding stored_Cons extended_def map_le_def by (metis domI)
  moreover have "map_option payload (log_map l' (i + k)) = Some (payload ((e # es) ! k))"
    if "k < length (e # es)" "log_end l \<le> i + k" for k
    using that assms(1,3) by (cases k) (auto simp: extended_def)
  ultimately show ?thesis using assms(1) le st by (simp add: extended_def)
qed

lemma extended_append:
  assumes "extended (Suc i) es (AppendLogEntry n l) l'" and "e_index e = i" and "i = log_end l"
    and "payload n = payload e" and "log_wf l"
  shows "extended i (e # es) l l'"
proof -
  let ?m = "AppendLogEntry n l"
  have new: "log_map ?m = (log_map l)(i \<mapsto> n)" by (simp add: AppendLogEntry_log_map assms(3))
  have le: "log_map ?m \<subseteq>\<^sub>m log_map l'" and st: "start_index l' = start_index l"
    using assms(1) by (simp_all add: extended_def)
  have at: "log_map l' i = Some n" using le new by (metis domI fun_upd_same map_le_def)
  have "log_map l i = None" by (simp add: log_map_def assms(3))
  then have "log_map l \<subseteq>\<^sub>m log_map ?m" by (auto simp: new map_le_def)
  then have le': "log_map l \<subseteq>\<^sub>m log_map l'" using le by (rule map_le_trans)
  have "map_option payload (log_map l' (i + k)) = Some (payload ((e # es) ! k))"
    if "k < length (e # es)" for k
    using that assms(1,3,4) at by (cases k) (auto simp: extended_def)
  moreover have "stored (e # es) l'"
    using assms(1,2,4) at by (simp add: stored_Cons extended_def payload_def)
  ultimately show ?thesis using assms(1,3) le' st by (simp add: extended_def)
qed

lemma append_new_extends:
  assumes "log_ok s" and "run_from i es" and "i \<le> log_end (raft_log s)" and "agrees es (raft_log s)"
  shows "fst (append_new es s) = None \<and> log_ok (snd (append_new es s)) \<and>
    extended i es (raft_log s) (raft_log (snd (append_new es s)))"
  using assms
proof (induction es arbitrary: i s)
  case Nil
  then show ?case by (auto simp: extended_def stored_def max_def)
next
  case (Cons e es)
  have e: "e_index e = i" "e_term e \<noteq> 0" "Suc i < U32" "run_from (Suc i) es"
    using Cons.prems(2) by (simp_all add: run_from_Cons)
  have wf: "log_wf (raft_log s)" using Cons.prems(1) by (simp add: log_ok_def)
  have ag: "agrees es (raft_log s)" using Cons.prems(4) by (simp add: agrees_Cons)
  consider (below) "i < start_index (raft_log s)"
    | (here) "start_index (raft_log s) \<le> i" "i < log_end (raft_log s)"
    | (at_end) "i = log_end (raft_log s)"
    using Cons.prems(3) by linarith
  then show ?case
  proof cases
    case below
    then have lt: "i < log_end (raft_log s)" by (simp add: log_end_def)
    have "append_new (e # es) s = append_new es s" using below e(1) by (simp add: GetFirstIndex_def)
    then show ?thesis
      using Cons.IH [OF Cons.prems(1) e(4) Suc_leI [OF lt] ag] below by (simp add: extended_skip [OF _ e(1) lt])
  next
    case here
    then obtain x where x: "log_map (raft_log s) i = Some x" by (auto simp: log_map_def)
    then have t: "e_term x = e_term e" using Cons.prems(4) e(1) by (simp add: agrees_Cons)
    have "append_new (e # es) s = append_new es s"
      using here e t x log_term_in_log [OF Cons.prems(1) here(1)] by (simp add: GetFirstIndex_def Let_def)
    then show ?thesis
      using Cons.IH [OF Cons.prems(1) e(4) Suc_leI [OF here(2)] ag] x t by (simp add: extended_skip [OF _ e(1) here(2)])
  next
    case at_end
    define n where "n = new_entry (raft_log s) (e_term e) (e_data e)"
    define u where "u = s\<lparr>raft_log := AppendLogEntry n (raft_log s)\<rparr>"
    define v where "v = (if has_log_persister u then emit (LogAppend e None) u else u)"
    have v: "raft_log v = AppendLogEntry n (raft_log s)" "last_snapshot_index v = last_snapshot_index s"
      by (simp_all add: v_def u_def emit_def)
    have st: "start_index (raft_log s) \<le> i" using at_end by (simp add: log_end_def)
    have none: "log_map (raft_log s) i = None" by (simp add: log_map_def at_end)
    have step: "append_new (e # es) s = append_new es v"
      using st e(1) log_term_in_log [OF Cons.prems(1) st] none expected_index_wf [OF wf] at_end
      by (simp add: GetFirstIndex_def Let_def Append_wf_eq [OF wf] v_def u_def n_def)
    have ok: "log_ok v"
      using Cons.prems(1) e(2,3) at_end v
      by (auto simp: log_ok_def n_def new_entry_def intro!: AppendLogEntry_wf) (auto simp: AppendLogEntry_def)
    have "e_index y \<noteq> i" if "y \<in> set es" for y using run_from_ge [OF e(4) that] by simp
    then have "agrees es (raft_log v)" using ag at_end by (auto simp: agrees_def v AppendLogEntry_log_map)
    from Cons.IH [OF ok e(4) _ this] show ?thesis
      unfolding step using extended_append [OF _ e(1) at_end _ wf, of es n]
      by (simp add: v at_end n_def payload_def new_entry_def)
  qed
qed

section \<open>The phases\<close>

lemma RecordActivity_recedes:
  assumes "RecordActivityLocked env held s = Some s'"
  shows "recedes s s'"
proof -
  have "recedes s (s\<lparr>last_activity_time := env_steady env\<rparr>)" by (rule quiet_recedes) simp
  then show ?thesis
    using assms ExitQuiesced_recedes(1) [of env held "s\<lparr>last_activity_time := env_steady env\<rparr>" s']
    by (auto simp: RecordActivityLocked_def Let_def intro: recedes_trans split: if_splits)
qed

lemma recedes_leader [simp]:
  "recedes s (t\<lparr>leader_id := i\<rparr>) = recedes s t" "recedes s (t\<lparr>leader_addr := a\<rparr>) = recedes s t"
  by (simp_all add: recedes_def saved_between_def)

lemma recedes_reset:
  assumes "recedes s t"
  shows "recedes s (ResetElectionTimerLocked env (t\<lparr>last_leader_contact := x, has_leader_contact := True\<rparr>))"
  by (rule recedes_quiet [OF assms]) simp

lemma append_election_phase_outcome:
  assumes "append_election_phase env req s = Some (go, resp, s')"
  shows "log_view s' = log_view s" "recedes s s'" "\<not> aer_success resp" "aer_conflict_index resp = 0"
    "go \<Longrightarrow> current_term s' = ae_term req" "go \<Longrightarrow> aer_term resp = ae_term req"
    "go \<longleftrightarrow> IsVoter (cluster_config s) (ae_leader_id req) \<and> current_term s \<le> ae_term req"
proof -
  obtain s1 where s1: "RecordActivityLocked env False s = Some s1"
    using assms by (auto simp: append_election_phase_def split: option.splits)
  have r1: "recedes s s1" "log_view s1 = log_view s" "cluster_config s1 = cluster_config s" "current_term s1 = current_term s"
    using RecordActivity_recedes [OF s1] log_view_RecordActivity [OF s1] s1
    by (auto simp: RecordActivityLocked_def ExitQuiescedLocked_def Let_def StartHeartbeatTimerLocked_def
      StopHeartbeatTimerLocked_def split: if_splits)
  have all: "log_view s' = log_view s \<and> recedes s s' \<and> \<not> aer_success resp \<and> aer_conflict_index resp = 0 \<and>
    (go \<longrightarrow> current_term s' = ae_term req \<and> aer_term resp = ae_term req) \<and>
    (go \<longleftrightarrow> IsVoter (cluster_config s) (ae_leader_id req) \<and> current_term s \<le> ae_term req)"
  proof (cases "IsVoter (cluster_config s1) (ae_leader_id req)")
    case False
    then show ?thesis using assms s1 r1 by (auto simp: append_election_phase_def Let_def)
  next
    case True
    then obtain s2 where s2: "(if current_term s1 < ae_term req then BecomeFollowerLocked env (ae_term req) s1
        else Some s1) = Some s2"
      using assms s1 by (auto simp: append_election_phase_def Let_def split: option.splits)
    define s3 where "s3 = s2\<lparr>leader_id := ae_leader_id req\<rparr>"
    define s4 where "s4 = (case map_of (peer_map s3) (leader_id s3) of None \<Rightarrow> s3 | Some addr \<Rightarrow> s3\<lparr>leader_addr := addr\<rparr>)"
    have r2: "recedes s1 s2" "log_view s2 = log_view s1" "ae_term req \<le> current_term s2"
      "current_term s2 = max (current_term s1) (ae_term req)"
      using s2 BecomeFollower_recedes [of env "ae_term req" False True s1 s2]
        log_view_BecomeFollower [of env "ae_term req" False True s1 s2]
      by (auto simp: BecomeFollowerLocked_def split: if_splits)
    have r4: "recedes s s4" "log_view s4 = log_view s" "current_term s4 = current_term s2"
      using recedes_trans [OF r1(1) r2(1)] r1(2) r2(2) by (auto simp: s4_def s3_def split: option.splits)
    have "\<not> go \<and> ae_term req < current_term s2 \<and> s' = s2 \<and> \<not> aer_success resp \<and> aer_conflict_index resp = 0 \<or>
        go \<and> ae_term req = current_term s2 \<and> \<not> aer_success resp \<and> aer_conflict_index resp = 0 \<and> aer_term resp = current_term s2 \<and>
        s' = ResetElectionTimerLocked env (s4\<lparr>last_leader_contact := env_now env, has_leader_contact := True\<rparr>)"
      using assms True s2 r2(3) unfolding append_election_phase_def s1 Let_def s4_def s3_def
      by (auto split: if_splits)
    then show ?thesis
      using recedes_trans [OF r1(1) r2(1)] r1 r2 r4 recedes_reset [OF r4(1), of env] True
        core_eqD(3) [of "ResetElectionTimerLocked env (s4\<lparr>last_leader_contact := env_now env, has_leader_contact := True\<rparr>)" s4]
      by auto
  qed
  then show "log_view s' = log_view s" "recedes s s'" "\<not> aer_success resp" "aer_conflict_index resp = 0"
    "go \<Longrightarrow> current_term s' = ae_term req" "go \<Longrightarrow> aer_term resp = ae_term req"
    "go \<longleftrightarrow> IsVoter (cluster_config s) (ae_leader_id req) \<and> current_term s \<le> ae_term req"
    by simp_all
qed

lemma append_commit_outcome:
  assumes "append_commit env req resp s = Some (resp', s')"
  shows "resp' = resp\<lparr>aer_success := True\<rparr>" "quiet s s'"
    "role s \<noteq> LEADER \<Longrightarrow> raft_log s' = raft_log s \<and> last_snapshot_index s' = last_snapshot_index s \<and>
       last_snapshot_term s' = last_snapshot_term s \<and>
       commit_index s' = (if commit_index s < ae_leader_commit req
         then min (ae_leader_commit req) (LastLogIndex (raft_log s)) else commit_index s)"
proof -
  show "resp' = resp\<lparr>aer_success := True\<rparr>"
    using assms by (auto simp: append_commit_def split: option.splits)
  have c: "(if commit_index s < ae_leader_commit req
            then ApplyCommittedLocked env
                   (s\<lparr>commit_index := min (ae_leader_commit req) (fst (GetLastLogInfo (raft_log s)))\<rparr>)
            else Some s) = Some s'"
    using assms by (auto simp: append_commit_def split: option.splits)
  then show "quiet s s'"
    by (auto elim: quiet_ApplyCommitted split: if_splits)
  show "raft_log s' = raft_log s \<and> last_snapshot_index s' = last_snapshot_index s \<and>
       last_snapshot_term s' = last_snapshot_term s \<and>
       commit_index s' = (if commit_index s < ae_leader_commit req
         then min (ae_leader_commit req) (LastLogIndex (raft_log s)) else commit_index s)" if "role s \<noteq> LEADER"
    using c that log_view_ApplyCommitted [of env "s\<lparr>commit_index := min (ae_leader_commit req) (fst (GetLastLogInfo (raft_log s)))\<rparr>" s']
    by (auto simp: log_view_def LastLogIndex_def split: if_splits)
qed

text \<open>Whether the entry before the request's entries matches.\<close>

definition prev_matches :: "AppendEntriesRequest \<Rightarrow> RaftNode \<Rightarrow> bool" where
  "prev_matches req s \<longleftrightarrow> ae_prev_log_index req = 0 \<or>
     start_index (raft_log s) \<le> Suc (ae_prev_log_index req) \<and>
     GetLogTermLocked s (ae_prev_log_index req) = ae_prev_log_term req"

lemma prev_matches_no_gap:
  assumes "log_ok s" and "request_ok req" and "prev_matches req s"
  shows "Suc (ae_prev_log_index req) \<le> log_end (raft_log s)"
proof (cases "ae_prev_log_index req < start_index (raft_log s)")
  case True
  then show ?thesis by (simp add: log_end_def)
next
  case False
  then have p: "ae_prev_log_index req \<noteq> 0" "start_index (raft_log s) \<le> ae_prev_log_index req"
    using assms(1) by (auto simp: log_ok_def log_wf_def)
  then have "GetLogTermLocked s (ae_prev_log_index req) \<noteq> 0"
    using assms(2,3) by (simp add: request_ok_def prev_matches_def)
  then show ?thesis
    using log_term_in_log [OF assms(1) p(2)] by (auto simp: log_map_def split: if_splits)
qed

lemma truncate_conflict_ok:
  assumes "log_ok s"
  shows "log_ok (truncate_conflict es s)"
  using assms log_ok_truncate [OF assms] by (auto simp: log_ok_def truncate_conflict_log split: option.split)

text \<open>The log after the two loops, for a request whose previous entry matches.\<close>

lemma reconcile:
  assumes "log_ok s" and "request_ok req" and "prev_matches req s"
  defines "t \<equiv> truncate_conflict (ae_entries req) s"
  shows "fst (append_new (ae_entries req) t) = None" "log_ok (snd (append_new (ae_entries req) t))"
    "extended (Suc (ae_prev_log_index req)) (ae_entries req) (raft_log t)
       (raft_log (snd (append_new (ae_entries req) t)))"
proof -
  let ?i = "Suc (ae_prev_log_index req)"
  have run: "run_from ?i (ae_entries req)" using assms(2) by (simp add: request_ok_def)
  have wf: "log_wf (raft_log s)" using assms(1) by (simp add: log_ok_def)
  have gap: "?i \<le> log_end (raft_log s)" by (rule prev_matches_no_gap [OF assms(1,2,3)])
  have "agrees (ae_entries req) (raft_log t) \<and> ?i \<le> log_end (raft_log t)"
    using conflict_at_agrees [OF assms(1) run] gap
    by (auto simp: t_def truncate_conflict_log TruncateSuffix_log_end [OF wf] split: option.splits)
  from append_new_extends [OF truncate_conflict_ok [OF assms(1)] run, of "ae_entries req", folded t_def] this
  show "fst (append_new (ae_entries req) t) = None" "log_ok (snd (append_new (ae_entries req) t))"
    "extended ?i (ae_entries req) (raft_log t) (raft_log (snd (append_new (ae_entries req) t)))"
    by simp_all
qed

lemma append_replication_phase_outcome:
  assumes "append_replication_phase env req resp s = Some (resp', s')" and "log_ok s" and "request_ok req"
    and "role s \<noteq> LEADER" and "\<not> aer_success resp"
  defines "t \<equiv> snd (append_new (ae_entries req) (truncate_conflict (ae_entries req) s))"
  shows "\<not> prev_matches req s \<Longrightarrow> \<not> aer_success resp' \<and> s' = s"
    and "prev_matches req s \<Longrightarrow> aer_success resp' \<and> raft_log s' = raft_log t \<and>
      last_snapshot_index s' = last_snapshot_index s \<and> last_snapshot_term s' = last_snapshot_term s \<and>
      commit_index s' = (if commit_index s < ae_leader_commit req
         then min (ae_leader_commit req) (LastLogIndex (raft_log t)) else commit_index s)"
    and "prev_matches req s \<Longrightarrow> aer_entries_count resp' =
      (if ae_entries req = [] then aer_entries_count resp else u32 (length (ae_entries req)))"
proof -
  have u: "u32_add (ae_prev_log_index req) 1 = Suc (ae_prev_log_index req)"
    using assms(3) by (auto simp: request_ok_def run_from_def u32_simps)
  have m: "\<not> prev_matches req s \<longleftrightarrow> 0 < ae_prev_log_index req \<and> u32_add (ae_prev_log_index req) 1 < start_index (raft_log s) \<or>
      0 < ae_prev_log_index req \<and> GetLogTermLocked s (ae_prev_log_index req) \<noteq> ae_prev_log_term req"
    unfolding u by (auto simp: prev_matches_def)
  show "\<not> prev_matches req s \<Longrightarrow> \<not> aer_success resp' \<and> s' = s"
    using assms(1,5) m by (auto simp: append_replication_phase_def GetFirstIndex_def Let_def split: if_splits)
  assume pm: "prev_matches req s"
  define r where "r = (if ae_entries req = [] then resp else resp\<lparr>aer_entries_count := u32 (length (ae_entries req))\<rparr>)"
  have "append_new (ae_entries req) (truncate_conflict (ae_entries req) s) = (None, t)"
    using reconcile(1) [OF assms(2,3) pm] by (simp add: t_def prod_eq_iff)
  moreover have "t = s" if "ae_entries req = []" using that by (simp add: t_def)
  ultimately have c: "append_commit env req r t = Some (resp', s')"
    using assms(1) pm m by (auto simp: append_replication_phase_def GetFirstIndex_def Let_def r_def split: if_splits)
  have t: "role t = role s" "commit_index t = commit_index s" "last_snapshot_index t = last_snapshot_index s"
    "last_snapshot_term t = last_snapshot_term s"
    using append_new_fields [of "ae_entries req" "truncate_conflict (ae_entries req) s"]
      core_eqD(2) [of t s] by (simp_all add: t_def)
  show "aer_success resp' \<and> raft_log s' = raft_log t \<and>
      last_snapshot_index s' = last_snapshot_index s \<and> last_snapshot_term s' = last_snapshot_term s \<and>
      commit_index s' = (if commit_index s < ae_leader_commit req
         then min (ae_leader_commit req) (LastLogIndex (raft_log t)) else commit_index s)"
    "aer_entries_count resp' =
      (if ae_entries req = [] then aer_entries_count resp else u32 (length (ae_entries req)))"
    using append_commit_outcome(1,3) [OF c] t assms(4) by (simp_all add: r_def)
qed

lemma HandleAppendEntries_phases:
  assumes "HandleAppendEntries env req s = Some (resp, s')"
  obtains go resp1 s1 where "append_election_phase env req s = Some (go, resp1, s1)"
    and "if go then append_replication_phase env req resp1 s1 = Some (resp, s') else resp = resp1 \<and> s' = s1"
  using assms by (auto simp: HandleAppendEntries_def split: option.splits bool.splits)

lemma append_replication_phase_quiet:
  assumes "append_replication_phase env req resp s = Some (resp', s')"
  shows "quiet s s'"
proof -
  let ?t = "snd (append_new (ae_entries req) (truncate_conflict (ae_entries req) s))"
  have q: "quiet s ?t"
    using append_new_fields [of "ae_entries req" "truncate_conflict (ae_entries req) s"] by (simp add: quiet_def)
  have "s' = s \<or> s' = ?t \<or> (\<exists>r t. (t = s \<or> t = ?t) \<and> append_commit env req r t = Some (resp', s'))"
    using assms
    by (auto simp: append_replication_phase_def Let_def split: if_splits prod.splits option.splits)
  then show ?thesis using q append_commit_outcome(2) quiet_trans by fastforce
qed

lemma HandleAppendEntries_recedes:
  assumes "HandleAppendEntries env req s = Some (resp, s')"
  shows "recedes s s'"
proof -
  obtain go resp1 s1 where p: "append_election_phase env req s = Some (go, resp1, s1)"
    and q: "if go then append_replication_phase env req resp1 s1 = Some (resp, s') else resp = resp1 \<and> s' = s1"
    using HandleAppendEntries_phases [OF assms] .
  note r = append_election_phase_outcome(2) [OF p]
  show ?thesis
    using q r recedes_quiet [OF r append_replication_phase_quiet] by (auto split: if_splits)
qed

lemma log_view_cong:
  assumes "log_view s' = log_view s"
  shows "GetLogTermLocked s' = GetLogTermLocked s" "prev_matches req s' = prev_matches req s"
    "log_ok s' = log_ok s" "conflict_at es s' = conflict_at es s"
proof -
  show g: "GetLogTermLocked s' = GetLogTermLocked s"
    using log_view_eqD(1,2,3) [OF assms] by (simp add: GetLogTermLocked_def fun_eq_iff)
  show "prev_matches req s' = prev_matches req s"
    using log_view_eqD(1) [OF assms] g by (simp add: prev_matches_def)
  show "log_ok s' = log_ok s" using log_view_eqD(1,2) [OF assms] by (simp add: log_ok_def)
  show "conflict_at es s' = conflict_at es s" by (induction es) (simp_all add: g)
qed

lemma append_entries_answer:
  assumes "HandleAppendEntries env req s = Some (resp, s')" and "log_ok s" and "request_ok req"
    and "role s \<noteq> LEADER"
  shows "(aer_success resp \<longleftrightarrow>
      IsVoter (cluster_config s) (ae_leader_id req) \<and> current_term s \<le> ae_term req \<and> prev_matches req s) \<and>
    (\<not> aer_success resp \<longrightarrow> raft_log s' = raft_log s \<and> commit_index s' = commit_index s)"
proof -
  obtain go resp1 s1 where p: "append_election_phase env req s = Some (go, resp1, s1)"
    and q: "if go then append_replication_phase env req resp1 s1 = Some (resp, s') else resp = resp1 \<and> s' = s1"
    using HandleAppendEntries_phases [OF assms(1)] .
  note e = append_election_phase_outcome [OF p]
  have ok: "log_ok s1" "prev_matches req s1 = prev_matches req s" "role s1 \<noteq> LEADER"
    using assms(2,4) log_view_cong [OF e(1)] e(2) by (auto simp: recedes_def)
  have v: "raft_log s1 = raft_log s" "commit_index s1 = commit_index s" using log_view_eqD(1,4) [OF e(1)] .
  show ?thesis
  proof (cases go)
    case True
    then have "append_replication_phase env req resp1 s1 = Some (resp, s')" using q by simp
    from append_replication_phase_outcome(1,2) [OF this ok(1) assms(3) ok(3) e(3)] show ?thesis
      using e(7) True ok(2) v by auto
  next
    case False
    then show ?thesis using q e(3,7) v by auto
  qed
qed

lemma append_entries_log:
  assumes "HandleAppendEntries env req s = Some (resp, s')" and "log_ok s" and "request_ok req"
    and "role s \<noteq> LEADER" and "aer_success resp"
  shows "log_ok s' \<and> start_index (raft_log s') = start_index (raft_log s) \<and>
    stored (ae_entries req) (raft_log s') \<and>
    (case conflict_at (ae_entries req) s of
       None \<Rightarrow> log_map (raft_log s) \<subseteq>\<^sub>m log_map (raft_log s')
     | Some c \<Rightarrow> log_map (raft_log s) |` {..<c} \<subseteq>\<^sub>m log_map (raft_log s')) \<and>
    commit_index s' = (if commit_index s < ae_leader_commit req
      then min (ae_leader_commit req) (LastLogIndex (raft_log s')) else commit_index s)"
proof -
  obtain go resp1 s1 where p: "append_election_phase env req s = Some (go, resp1, s1)"
    and q: "if go then append_replication_phase env req resp1 s1 = Some (resp, s') else resp = resp1 \<and> s' = s1"
    using HandleAppendEntries_phases [OF assms(1)] .
  note e = append_election_phase_outcome [OF p]
  have ok: "log_ok s1" "role s1 \<noteq> LEADER" using assms(2,4) log_view_cong [OF e(1)] e(2) by (auto simp: recedes_def)
  have ph: "append_replication_phase env req resp1 s1 = Some (resp, s')"
    using q e(3) assms(5) by (auto split: if_splits)
  note o = append_replication_phase_outcome(1,2) [OF ph ok(1) assms(3) ok(2) e(3)]
  have pm: "prev_matches req s1" using o(1) assms(5) by blast
  let ?t = "truncate_conflict (ae_entries req) s1"
  let ?u = "snd (append_new (ae_entries req) ?t)"
  note rc = reconcile(2,3) [OF ok(1) assms(3) pm]
  have u: "raft_log s' = raft_log ?u" "last_snapshot_index s' = last_snapshot_index ?u"
    using o(2) [OF pm] append_new_fields [of "ae_entries req" ?t] by simp_all
  have wf: "log_wf (raft_log s)" using assms(2) by (simp add: log_ok_def)
  have t: "raft_log ?t = (case conflict_at (ae_entries req) s of None \<Rightarrow> raft_log s | Some i \<Rightarrow> TruncateSuffix i (raft_log s))"
    using log_view_cong(4) [OF e(1)] log_view_eqD(1) [OF e(1)] by (simp add: truncate_conflict_log split: option.split)
  show ?thesis
    using rc u o(2) [OF pm] log_view_eqD(4) [OF e(1)] t wf
    by (auto simp: extended_def TruncateSuffix_log_map log_ok_cong [OF u] split: option.splits)
qed

lemma truncate_conflict_none: "conflict_at es s = None \<Longrightarrow> truncate_conflict es s = s"
  by (induction es) (auto simp: Let_def split: if_splits)

text \<open>A log that already stores a run is left alone.\<close>

lemma stored_no_conflict:
  assumes "log_ok s" and "stored es (raft_log s)" and "\<forall>e\<in>set es. start_index (raft_log s) \<le> e_index e"
  shows "conflict_at es s = None" "append_new es s = (None, s)"
proof -
  have t: "GetLogTermLocked s (e_index e) = e_term e" "e_term e \<noteq> 0" if "e \<in> set es" for e
  proof -
    obtain x where x: "log_map (raft_log s) (e_index e) = Some x" "e_term x = e_term e"
      using assms(2,3) \<open>e \<in> set es\<close> by (auto simp: stored_def)
    show "e_term e \<noteq> 0" using log_map_term [OF assms(1) x(1)] x(2) by simp
    show "GetLogTermLocked s (e_index e) = e_term e"
      using log_term_in_log [OF assms(1)] assms(3) \<open>e \<in> set es\<close> x by simp
  qed
  show "conflict_at es s = None" using t(1) by (induction es) simp_all
  show "append_new es s = (None, s)"
    using t assms(3) by (induction es) (simp_all add: GetFirstIndex_def)
qed

section \<open>Examples\<close>

text \<open>A follower of term 2 with the log \<open>es\<close>, and a request of leader 2 in term 2.\<close>

definition ex_follower :: "RaftLog \<Rightarrow> RaftNode" where
  "ex_follower l = (ex_group [2, 3])\<lparr>current_term := 2, raft_log := l\<rparr>"

definition ex_append :: "Index \<Rightarrow> Term \<Rightarrow> RaftLogEntry list \<Rightarrow> Index \<Rightarrow> AppendEntriesRequest" where
  "ex_append p t es c = \<lparr>ae_correlation_id = 1, ae_group_id = 0, ae_term = 2, ae_leader_id = 2,
     ae_prev_log_index = p, ae_prev_log_term = t, ae_entries = es, ae_leader_commit = c\<rparr>"

lemma ex_follower_fields [simp]:
  "role (ex_follower l) = FOLLOWER" "current_term (ex_follower l) = 2" "raft_log (ex_follower l) = l"
  "commit_index (ex_follower l) = 0" "last_enqueued (ex_follower l) = 0" "last_snapshot_index (ex_follower l) = 0"
  "quiesced (ex_follower l) = False" "has_log_persister (ex_follower l) = False"
  "peer_map (ex_follower l) = [(2, ''h:1''), (3, ''h:1'')]"
  "cluster_config (ex_follower l) = \<lparr>cc_nodes = [1, 2, 3], cc_old_nodes = [], cc_learners = [], cc_version = 1,
     cc_is_joint = False\<rparr>"
  by (simp_all add: ex_follower_def ex_group_def blank_node_def)

lemma ex_append_fields [simp]:
  "ae_term (ex_append p t es c) = 2" "ae_leader_id (ex_append p t es c) = 2"
  "ae_prev_log_index (ex_append p t es c) = p" "ae_prev_log_term (ex_append p t es c) = t"
  "ae_entries (ex_append p t es c) = es" "ae_leader_commit (ex_append p t es c) = c"
  by (simp_all add: ex_append_def)

text \<open>The state after the first phase.\<close>

definition ex_contacted :: "RaftLog \<Rightarrow> RaftNode" where
  "ex_contacted l = ResetElectionTimerLocked (ex_env 0) ((ex_follower l)\<lparr>last_activity_time := 0,
     leader_id := 2, leader_addr := ''h:1'', last_leader_contact := 0, has_leader_contact := True\<rparr>)"

lemma ex_phase1:
  "append_election_phase (ex_env 0) (ex_append p t es c) (ex_follower l) =
     Some (True, \<lparr>aer_term = 2, aer_success = False, aer_conflict_index = 0, aer_entries_count = 0\<rparr>, ex_contacted l)"
  by (simp add: append_election_phase_def RecordActivityLocked_def ex_contacted_def Let_def IsVoter_def)
     (simp add: ex_env_def)

lemma ex_contacted_fields [simp]:
  "raft_log (ex_contacted l) = l" "commit_index (ex_contacted l) = 0" "last_enqueued (ex_contacted l) = 0"
  "last_snapshot_index (ex_contacted l) = 0" "has_log_persister (ex_contacted l) = False" "role (ex_contacted l) = FOLLOWER"
  "pending_proposals (ex_contacted l) = []" "proposal_sessions (ex_contacted l) = Map.empty"
  by (simp_all add: ex_contacted_def ResetElectionTimerLocked_def CancelElectionTimerLocked_def Let_def)
     (simp_all add: ex_follower_def ex_group_def blank_node_def)

lemma ex_append_returns:
  assumes "log_ok (ex_follower l)" and "request_ok (ex_append p t es 0)" and "prev_matches (ex_append p t es 0) (ex_follower l)"
  shows "\<exists>resp s'. HandleAppendEntries (ex_env 0) (ex_append p t es 0) (ex_follower l) = Some (resp, s') \<and> aer_success resp"
proof -
  have v: "log_view (ex_contacted l) = log_view (ex_follower l)"
    by (rule append_election_phase_outcome(1) [OF ex_phase1 [of p t es 0 l]])
  have ok: "log_ok (ex_contacted l)" "prev_matches (ex_append p t es 0) (ex_contacted l)"
    using assms log_view_cong [OF v] by simp_all
  obtain u where a: "append_new es (truncate_conflict es (ex_contacted l)) = (None, u)"
    using reconcile(1) [OF ok(1) assms(2) ok(2)] by (cases "append_new es (truncate_conflict es (ex_contacted l))") simp
  have "append_commit (ex_env 0) (ex_append p t es 0) r u = Some (r\<lparr>aer_success := True\<rparr>, u)" for r u
    by (simp add: append_commit_def)
  then have "\<exists>resp s'. append_replication_phase (ex_env 0) (ex_append p t es 0) resp1 (ex_contacted l) = Some (resp, s')" for resp1
    using a by (auto simp: append_replication_phase_def Let_def)
  then obtain resp s' where h: "HandleAppendEntries (ex_env 0) (ex_append p t es 0) (ex_follower l) = Some (resp, s')"
    by (simp add: HandleAppendEntries_def ex_phase1) blast
  have "aer_success resp"
    using append_entries_answer [OF h assms(1,2)] assms(3) by (simp add: IsVoter_def)
  then show ?thesis using h by blast
qed

definition ex_split_log :: RaftLog where
  "ex_split_log = ex_log [ex_entry 1 1 ''a'', ex_entry 2 1 ''x'']"

definition ex_fix :: "RaftLogEntry list" where
  "ex_fix = [ex_entry 2 2 ''b'', ex_entry 3 2 ''c'']"

lemma ex_split_ok:
  "log_ok (ex_follower ex_split_log)" "request_ok (ex_append 1 1 ex_fix 0)"
  "prev_matches (ex_append 1 1 ex_fix 0) (ex_follower ex_split_log)"
  "conflict_at ex_fix (ex_follower ex_split_log) = Some 2"
proof -
  have wf: "log_wf ex_split_log"
    by (simp add: ex_split_log_def ex_log_def log_wf_def log_end_def U32_def)
  show "log_ok (ex_follower ex_split_log)"
    using wf by (simp add: log_ok_def) (simp add: ex_split_log_def ex_log_def)
  show "request_ok (ex_append 1 1 ex_fix 0)"
    by (simp add: request_ok_def run_from_def ex_fix_def U32_def)
  have t: "GetLogTermLocked (ex_follower ex_split_log) 1 = 1" "GetLogTermLocked (ex_follower ex_split_log) 2 = 1"
    using wf by (simp_all add: GetLogTermLocked_def GetLogTerm_def GetEntry_log_map)
      (simp_all add: log_map_def ex_split_log_def ex_log_def log_end_def)
  show "prev_matches (ex_append 1 1 ex_fix 0) (ex_follower ex_split_log)"
    using t by (simp add: prev_matches_def) (simp add: ex_split_log_def ex_log_def)
  show "conflict_at ex_fix (ex_follower ex_split_log) = Some 2"
    using t by (simp add: ex_fix_def)
qed

text \<open>The same request delivered twice to a follower that has its entry.\<close>

definition ex_accepted :: AppendEntriesResponse where
  "ex_accepted = \<lparr>aer_term = 2, aer_success = True, aer_conflict_index = 0, aer_entries_count = 1\<rparr>"

lemma ex_replicated:
  assumes "raft_log s = ex_log2" and "last_snapshot_index s = 0" and "commit_index s = 0"
  shows "append_replication_phase (ex_env 0) (ex_append 1 1 [ex_entry 2 2 ''b''] 0)
     \<lparr>aer_term = 2, aer_success = False, aer_conflict_index = 0, aer_entries_count = 0\<rparr> s = Some (ex_accepted, s)"
proof -
  have "GetLogTermLocked s 1 = 1" "GetLogTermLocked s 2 = 2" using assms by (simp_all add: GetLogTermLocked_def GetLogTerm_def)
  then show ?thesis
    using assms by (simp add: append_replication_phase_def append_commit_def GetFirstIndex_def ex_accepted_def)
      (simp add: u32_add_def u32_def U32_def)
qed

lemma ex_contacted_more:
  "current_term (ex_contacted l) = 2" "quiesced (ex_contacted l) = False"
  "peer_map (ex_contacted l) = [(2, ''h:1''), (3, ''h:1'')]" "cluster_config (ex_contacted l) = cluster_config (ex_follower l)"
  by (simp_all add: ex_contacted_def ResetElectionTimerLocked_def CancelElectionTimerLocked_def Let_def)

lemma ex_repeated:
  "HandleAppendEntries (ex_env 0) (ex_append 1 1 [ex_entry 2 2 ''b''] 0) (ex_follower ex_log2) = Some (ex_accepted, ex_contacted ex_log2)"
  "\<exists>s. HandleAppendEntries (ex_env 0) (ex_append 1 1 [ex_entry 2 2 ''b''] 0) (ex_contacted ex_log2) = Some (ex_accepted, s)"
  "log_ok (ex_follower ex_log2)" "request_ok (ex_append 1 1 [ex_entry 2 2 ''b''] 0)"
proof -
  let ?req = "ex_append 1 1 [ex_entry 2 2 ''b''] 0"
  let ?r = "\<lparr>aer_term = 2, aer_success = False, aer_conflict_index = 0, aer_entries_count = 0\<rparr>"
  show "HandleAppendEntries (ex_env 0) ?req (ex_follower ex_log2) = Some (ex_accepted, ex_contacted ex_log2)"
    using ex_replicated [of "ex_contacted ex_log2"]
    by (simp add: HandleAppendEntries_def ex_phase1)
  obtain s where p: "append_election_phase (ex_env 0) ?req (ex_contacted ex_log2) = Some (True, ?r, s)"
    by (simp add: append_election_phase_def RecordActivityLocked_def Let_def IsVoter_def ex_contacted_more)
  then have "log_view s = log_view (ex_contacted ex_log2)" by (rule append_election_phase_outcome(1))
  from log_view_eqD [OF this] have "append_replication_phase (ex_env 0) ?req ?r s = Some (ex_accepted, s)"
    by (intro ex_replicated) simp_all
  with p show "\<exists>s. HandleAppendEntries (ex_env 0) ?req (ex_contacted ex_log2) = Some (ex_accepted, s)"
    by (simp add: HandleAppendEntries_def)
  show "log_ok (ex_follower ex_log2)" by (simp add: log_ok_def)
  show "request_ok ?req" by (simp add: request_ok_def run_from_def U32_def)
qed

section \<open>Properties\<close>





text \<open>
  C12: Processing a request twice is processing it once: when a follower that accepted a request
  receives the same request again, its log does not change and neither does its commit index, so
  retransmissions and reordered copies of one message are harmless.
\<close>

theorem append_entries_idempotent:
  assumes "HandleAppendEntries env req s = Some (resp, s')" and "aer_success resp"
    and "HandleAppendEntries env' req s' = Some (resp', s'')"
    and "log_ok s" and "request_ok req" and "role s \<noteq> LEADER"
    and "start_index (raft_log s) \<le> Suc (ae_prev_log_index req)"
  shows "raft_log s'' = raft_log s' \<and> commit_index s'' = commit_index s'"
proof -
  note r = append_entries_log [OF assms(1,4,5,6,2)]
  have nl: "role s' \<noteq> LEADER" using HandleAppendEntries_recedes [OF assms(1)] assms(6) by (auto simp: recedes_def)
  have ge: "\<forall>e\<in>set (ae_entries req). start_index (raft_log s') \<le> e_index e"
    using run_from_ge [of "Suc (ae_prev_log_index req)" "ae_entries req"] assms(5,7) r
    by (fastforce simp: request_ok_def)
  show ?thesis
  proof (cases "aer_success resp'")
    case True
    obtain go resp1 s1 where p: "append_election_phase env' req s' = Some (go, resp1, s1)"
      and q: "if go then append_replication_phase env' req resp1 s1 = Some (resp', s'') else resp' = resp1 \<and> s'' = s1"
      using HandleAppendEntries_phases [OF assms(3)] .
    note e = append_election_phase_outcome [OF p]
    have v: "raft_log s1 = raft_log s'" "commit_index s1 = commit_index s'" using log_view_eqD(1,4) [OF e(1)] .
    have ok: "log_ok s1" "role s1 \<noteq> LEADER" using r nl log_view_cong [OF e(1)] e(2) by (auto simp: recedes_def)
    have ph: "append_replication_phase env' req resp1 s1 = Some (resp', s'')"
      using q e(3) True by (auto split: if_splits)
    note o = append_replication_phase_outcome(1,2) [OF ph ok(1) assms(5) ok(2) e(3)]
    have "stored (ae_entries req) (raft_log s1)" "\<forall>e\<in>set (ae_entries req). start_index (raft_log s1) \<le> e_index e"
      using r ge v by simp_all
    note n = stored_no_conflict [OF ok(1) this]
    have u: "snd (append_new (ae_entries req) (truncate_conflict (ae_entries req) s1)) = s1"
      using n truncate_conflict_none by simp
    have "prev_matches req s1" using o(1) True by blast
    from o(2) [OF this, unfolded u] show ?thesis using v r by (auto split: if_splits)
  next
    case False
    then show ?thesis using append_entries_answer [OF assms(3) _ assms(5) nl] r by blast
  qed
qed

theorem append_entries_idempotent_witness:
  "\<exists>s' s''.
     HandleAppendEntries (ex_env 0) (ex_append 1 1 [ex_entry 2 2 ''b''] 0) (ex_follower ex_log2) = Some (ex_accepted, s') \<and>
     HandleAppendEntries (ex_env 0) (ex_append 1 1 [ex_entry 2 2 ''b''] 0) s' = Some (ex_accepted, s'') \<and>
     raft_log s'' = raft_log s' \<and> commit_index s'' = commit_index s'"
proof -
  obtain s where h: "HandleAppendEntries (ex_env 0) (ex_append 1 1 [ex_entry 2 2 ''b''] 0) (ex_contacted ex_log2) = Some (ex_accepted, s)"
    using ex_repeated(2) by blast
  have "raft_log s = raft_log (ex_contacted ex_log2) \<and> commit_index s = commit_index (ex_contacted ex_log2)"
    using append_entries_idempotent [OF ex_repeated(1) _ h ex_repeated(3,4)] by (simp add: ex_accepted_def)
  then show ?thesis using h ex_repeated(1) by blast
qed

text \<open>A follower's log with a tail of term 1, and the leader's second entry.\<close>

definition ex_tail :: RaftLog where
  "ex_tail = ex_log [ex_entry 1 1 ''a'', ex_entry 2 1 ''b'', ex_entry 3 1 ''stale'']"

lemma ex_tail_facts [simp]:
  "log_wf ex_tail" "start_index ex_tail = Suc 0" "log_end ex_tail = 4" "GetLastLogInfo ex_tail = (3, 1)"
  "log_map ex_tail (Suc 0) = Some (ex_entry 1 1 ''a'')" "log_map ex_tail 2 = Some (ex_entry 2 1 ''b'')"
  "log_map ex_tail 3 = Some (ex_entry 3 1 ''stale'')"
  by (simp_all add: ex_tail_def ex_log_def log_wf_def log_end_def log_map_def U32_def GetLastLogInfo_def)

text \<open>
  The commit index a follower adopts is not limited to the entries the leader just sent. Here the
  leader of term 2 sends its second entry with commit index 3; the follower has that entry, answers
  success, and commits its own third entry, a leftover of term 1 that nothing compared with the
  leader's third entry.
\<close>

theorem commit_passes_verified_entries:
  "\<exists>resp s'. HandleAppendEntries (ex_env 0) (ex_append 1 1 [ex_entry 2 1 ''b''] 3) (ex_follower ex_tail) = Some (resp, s') \<and>
     aer_success resp \<and> commit_index s' = 3 \<and> GetEntry (raft_log s') 3 = Some (ex_entry 3 1 ''stale'')"
proof -
  let ?s = "ex_contacted ex_tail" and ?req = "ex_append 1 1 [ex_entry 2 1 ''b''] 3"
  have t: "GetLogTermLocked ?s 1 = 1" "GetLogTermLocked ?s 2 = 1"
    by (simp_all add: GetLogTermLocked_def GetLogTerm_def GetEntry_log_map)
  obtain s' where a: "apply_rounds (ex_env 0) 3 (?s\<lparr>commit_index := 3\<rparr>) = Some s'"
    using apply_rounds_ok [of "?s\<lparr>commit_index := 3\<rparr>" 3 "ex_env 0"] by (auto simp: U32_def)
  have c: "ApplyCommittedLocked (ex_env 0) (?s\<lparr>commit_index := 3\<rparr>) = Some s'"
    using a by (simp add: ApplyCommittedLocked_def)
  have s': "commit_index s' = 3" "raft_log s' = ex_tail"
    using log_view_ApplyCommitted [OF c] by (simp_all add: log_view_def)
  have n: "\<not> u32_add 1 1 < 1" by (simp add: u32_add_def U32_def)
  have "append_replication_phase (ex_env 0) ?req r ?s =
      Some (r\<lparr>aer_entries_count := u32 1, aer_success := True\<rparr>, s')" for r
    using t c n by (simp add: append_replication_phase_def append_commit_def GetFirstIndex_def Let_def)
  then show ?thesis
    using s' by (simp add: HandleAppendEntries_def ex_phase1 GetEntry_log_map)
qed

text \<open>
  A follower that has just installed a snapshot and holds no entry beyond it moves its commit
  index backwards, to 0, on the first heartbeat whose commit index is ahead of its own.
\<close>

theorem heartbeat_rewinds_commit_index:
  "\<exists>resp s'. HandleAppendEntries (ex_env 0) (ex_append 5 3 [] 6) (ex_compacted\<lparr>current_term := 2\<rparr>) = Some (resp, s') \<and>
     aer_success resp \<and> commit_index ex_compacted = 5 \<and> commit_index s' = 0"
proof -
  define s where "s = ResetElectionTimerLocked (ex_env 0) (ex_compacted\<lparr>current_term := 2, last_activity_time := 0,
     leader_id := 2, leader_addr := ''h:1'', last_leader_contact := 0, has_leader_contact := True\<rparr>)"
  have p: "append_election_phase (ex_env 0) (ex_append 5 3 [] 6) (ex_compacted\<lparr>current_term := 2\<rparr>) =
     Some (True, \<lparr>aer_term = 2, aer_success = False, aer_conflict_index = 0, aer_entries_count = 0\<rparr>, s)"
    by (simp add: append_election_phase_def RecordActivityLocked_def s_def ex_compacted_def Let_def IsVoter_def)
       (simp add: ex_env_def)
  have f: "raft_log s = SetStartIndex 6 RaftLog_init" "commit_index s = 5" "last_snapshot_index s = 5" "last_snapshot_term s = 3"
    by (simp_all add: s_def ex_compacted_def ResetElectionTimerLocked_def CancelElectionTimerLocked_def Let_def)
  have "append_replication_phase (ex_env 0) (ex_append 5 3 [] 6) r s = Some (r\<lparr>aer_success := True\<rparr>, s\<lparr>commit_index := 0\<rparr>)" for r
    by (simp add: append_replication_phase_def append_commit_def GetFirstIndex_def GetLogTermLocked_def f Let_def
      SetStartIndex_def GetLastLogInfo_def ApplyCommittedLocked_def u32_simps U32_def)
  then show ?thesis
    using p by (simp add: HandleAppendEntries_def ex_compacted_def)
qed

end
