(* ===== verification/Replication_Responses.thy ===== *)
theory Replication_Responses
  imports Append_Entries
begin

text \<open>
  The leader's side of replication in \<open>src/log_replicator.cpp\<close>: the responses to AppendEntries and
  heartbeats, retries with back-off, CheckQuorum, the heartbeat tick, and the scheduling of dead-node
  removal and learner promotion. A result of \<^const>\<open>None\<close> is an abort, a thread that locks a mutex it
  holds, or, in the back-off, a shift by the width of the type.
\<close>

section \<open>Retries\<close>

text \<open>\<open>1u << attempts\<close>, undefined from 32 on.\<close>

definition shift_one :: "nat \<Rightarrow> nat option" where
  "shift_one n = (if n < 32 then Some (2 ^ n) else None)"

definition retry_delay :: "RuntimeConfigValues \<Rightarrow> nat \<Rightarrow> nat option" where
  "retry_delay v attempts =
     map_option (\<lambda>f. min (u32 (base_retry_delay_ms v * f)) (max_retry_delay_ms v)) (shift_one attempts)"

definition ScheduleAppendEntriesRetryLocked :: "NodeId \<Rightarrow> RaftNode \<Rightarrow> RaftNode option" where
  "ScheduleAppendEntriesRetryLocked peer s =
     (if \<not> IsRunning s \<or> role s \<noteq> LEADER then Some s
      else let attempts = at0 (retry_state s) peer + 1;
               s1 = s\<lparr>retry_state := (retry_state s)(peer \<mapsto> attempts)\<rparr>
           in if i32 (int (max_retry_attempts (cfg s1))) < int attempts
              then Some (s1\<lparr>retry_state := (retry_state s1)(peer := None)\<rparr>)
              else map_option (\<lambda>delay. emit (SetTimeout delay (RetryAppendEntries peer)) s1)
                     (retry_delay (cfg s1) attempts))"

definition ScheduleAppendEntriesRetry :: "NodeId \<Rightarrow> bool \<Rightarrow> RaftNode \<Rightarrow> RaftNode option" where
  "ScheduleAppendEntriesRetry peer is_heartbeat s =
     ScheduleAppendEntriesRetryLocked peer
       (if is_heartbeat then s
        else case inflight s peer of
               Some (head # _) \<Rightarrow>
                 s\<lparr>next_index := (next_index s)(peer \<mapsto> if_start_index head),
                   inflight := (inflight s)(peer \<mapsto> [])\<rparr>
             | _ \<Rightarrow> s)"

text \<open>The work of the retry timer, also armed after a rejected heartbeat.\<close>

definition OnRetryAppendEntries :: "Env \<Rightarrow> NodeId \<Rightarrow> RaftNode \<Rightarrow> RaftNode" where
  "OnRetryAppendEntries env peer s =
     (if role s = LEADER then SendAppendEntriesToPeerLocked env peer s else s)"

section \<open>Acknowledgements\<close>

definition is_fresh_voter :: "Env \<Rightarrow> RaftNode \<Rightarrow> NodeId \<times> time \<Rightarrow> bool" where
  "is_fresh_voter env s pt \<longleftrightarrow>
     within_ms (env_now env) (snd pt) (election_timeout_ms (cfg s)) \<and> IsVoter (cluster_config s) (fst pt)"

definition update_lease :: "Env \<Rightarrow> RaftNode \<Rightarrow> RaftNode" where
  "update_lease env s =
     (let ack_count = 1 + length (filter (is_fresh_voter env s) (quorum_acks s)) in
      if GetMajority (cluster_config s) \<le> u32 ack_count
      then s\<lparr>leader_lease_expiry := env_now env + ms (election_timeout_ms (cfg s))\<rparr>
      else s)"

definition count_read_acks :: "NodeId \<Rightarrow> RaftNode \<Rightarrow> RaftNode" where
  "count_read_acks peer s =
     s\<lparr>pending_reads := map (\<lambda>(i, r). (i, r\<lparr>pr_acks := insert peer (pr_acks r)\<rparr>)) (pending_reads s)\<rparr>"

definition record_ack :: "Env \<Rightarrow> NodeId \<Rightarrow> RaftNode \<Rightarrow> RaftNode" where
  "record_ack env peer s =
     (let s1 = s\<lparr>last_contact_time := (last_contact_time s)(peer \<mapsto> env_now env)\<rparr> in
      if check_quorum_enabled s1
      then s1\<lparr>quorum_acks := AList.update peer (env_now env) (quorum_acks s1)\<rparr> else s1)"

section \<open>Responses\<close>

definition set_progress :: "NodeId \<Rightarrow> Index \<Rightarrow> Index \<Rightarrow> RaftNode \<Rightarrow> RaftNode" where
  "set_progress peer match nxt s =
     s\<lparr>match_index := AList.update peer match (match_index s), next_index := (next_index s)(peer \<mapsto> nxt)\<rparr>"

text \<open>A failure with nothing in flight: one step back, not below the acknowledged entries.\<close>

definition back_off :: "NodeId \<Rightarrow> RaftNode \<Rightarrow> RaftNode" where
  "back_off peer s =
     (let match = al_at0 (match_index s) peer in
      set_progress peer match (max (u32_add match 1) (u32_sub (at0 (next_index s) peer) 1)) s)"

definition append_succeeded ::
  "Env \<Rightarrow> NodeId \<Rightarrow> AppendEntriesResponse \<Rightarrow> InflightEntry \<Rightarrow> RaftNode \<Rightarrow> RaftNode option" where
  "append_succeeded env peer resp head s =
     (let new_match = u32_sub (u32_add (if_start_index head) (aer_entries_count resp)) 1;
          match = max (al_at0 (match_index s) peer) new_match;
          s1 = set_progress peer match (max (at0 (next_index s) peer) (u32_add match 1)) s;
          s2 = s1\<lparr>retry_state := (retry_state s1)(peer := None)\<rparr>;
          s3 = count_read_acks peer (update_lease env (record_ack env peer s2))
      in case TryCommitLocked env s3 of
           None \<Rightarrow> None
         | Some s4 \<Rightarrow>
             let s5 = s4\<lparr>next_index := touch (next_index s4) peer\<rparr> in
             if at0 (next_index s5) peer \<le> fst (GetLastLogInfo (raft_log s5))
             then Some (SendAppendEntriesToPeerLocked env peer s5) else Some s5)"

definition append_rejected ::
  "Env \<Rightarrow> NodeId \<Rightarrow> AppendEntriesResponse \<Rightarrow> InflightEntry \<Rightarrow> RaftNode \<Rightarrow> RaftNode option" where
  "append_rejected env peer resp head s =
     (let s1 = s\<lparr>inflight := (inflight s)(peer \<mapsto> [])\<rparr>;
          match = al_at0 (match_index s1) peer;
          nxt = (if 0 < aer_conflict_index resp then aer_conflict_index resp
                 else max 1 (u32_sub (if_start_index head) 1));
          match' = (if nxt \<le> match then u32_sub nxt 1 else match);
          s2 = set_progress peer match' (if nxt < 1 then 1 else nxt) s1
      in ScheduleAppendEntriesRetryLocked peer
           (s2\<lparr>last_contact_time := (last_contact_time s2)(peer \<mapsto> env_now env)\<rparr>))"

definition HandleAppendEntriesResponse ::
  "Env \<Rightarrow> NodeId \<Rightarrow> AppendEntriesResponse \<Rightarrow> RaftNode \<Rightarrow> RaftNode option" where
  "HandleAppendEntriesResponse env peer resp s =
     (if \<not> IsRunning s then Some s
      else if role s \<noteq> LEADER then Some s
      else if current_term s < aer_term resp then BecomeFollowerLocked env (aer_term resp) s
      else case inflight s peer of
             Some (head # rest) \<Rightarrow>
               let s1 = s\<lparr>inflight := (inflight s)(peer \<mapsto> rest)\<rparr> in
               if aer_success resp then append_succeeded env peer resp head s1
               else append_rejected env peer resp head s1
           | _ \<Rightarrow>
               if \<not> aer_success resp then ScheduleAppendEntriesRetryLocked peer (back_off peer s)
               else Some s)"

text \<open>The rejected heartbeat: snapshot, clamp or back off, then a prompt resend.\<close>

definition heartbeat_rejected :: "Env \<Rightarrow> NodeId \<Rightarrow> AppendEntriesResponse \<Rightarrow> RaftNode \<Rightarrow> RaftNode" where
  "heartbeat_rejected env peer resp s =
     (let s1 = s\<lparr>last_contact_time := (last_contact_time s)(peer \<mapsto> env_now env)\<rparr>;
          leader_last = fst (GetLastLogInfo (raft_log s1));
          resend = (\<lambda>s. emit (SetTimeout 0 (RetryAppendEntries peer)) s)
      in if 0 < aer_conflict_index resp
         then if leader_last < aer_conflict_index resp then SendInstallSnapshotToPeerLocked env peer s1
              else let nxt = min (aer_conflict_index resp) (u32_add leader_last 1);
                       match = al_at0 (match_index s1) peer
                   in resend (set_progress peer (if nxt \<le> match then u32_sub nxt 1 else match) nxt s1)
         else resend (back_off peer s1))"

definition HandleHeartbeatResponse ::
  "Env \<Rightarrow> NodeId \<Rightarrow> AppendEntriesResponse \<Rightarrow> RaftNode \<Rightarrow> RaftNode option" where
  "HandleHeartbeatResponse env peer resp s =
     (if \<not> IsRunning s then Some s
      else if role s \<noteq> LEADER then Some s
      else if current_term s < aer_term resp then BecomeFollowerLocked env (aer_term resp) s
      else if \<not> aer_success resp then Some (heartbeat_rejected env peer resp s)
      else Some (count_read_acks peer (update_lease env (record_ack env peer s))))"

section \<open>The heartbeat tick\<close>

definition acked_voters :: "Env \<Rightarrow> RaftNode \<Rightarrow> NodeId set" where
  "acked_voters env s = insert (server_id s) (fst ` set (filter (is_fresh_voter env s) (quorum_acks s)))"

definition CheckQuorumLocked :: "Env \<Rightarrow> RaftNode \<Rightarrow> RaftNode option" where
  "CheckQuorumLocked env s =
     (if \<not> IsRunning s \<or> role s \<noteq> LEADER then Some s
      else if \<not> ElectionQuorumSatisfiedLocked s (acked_voters env s)
      then BecomeFollowerWithReplicationLocked env (current_term s) s
      else Some s)"

definition MaybeAutoPromoteLearnersLocked :: "RaftNode \<Rightarrow> RaftNode" where
  "MaybeAutoPromoteLearnersLocked s =
     (if \<not> IsRunning s \<or> role s \<noteq> LEADER then s
      else fold (\<lambda>learner s'. case map_of (match_index s') learner of
                    None \<Rightarrow> s'
                  | Some m \<Rightarrow> if commit_index s' \<le> m
                              then emit (SetTimeout 0 (AutoPromoteLearner learner)) s' else s')
             (cc_learners (cluster_config s)) s)"

definition is_dead :: "Env \<Rightarrow> RaftNode \<Rightarrow> NodeId \<Rightarrow> bool" where
  "is_dead env s peer \<longleftrightarrow> peer \<noteq> server_id s \<and>
     (case last_contact_time s peer of
        None \<Rightarrow> True
      | Some t \<Rightarrow> beyond_ms (env_now env) t (nc_dead_node_timeout_ms (config s)))"

definition quorum_without :: "Env \<Rightarrow> RaftNode \<Rightarrow> NodeId \<Rightarrow> bool" where
  "quorum_without env s dead =
     (let remaining = u32_sub (u32 (length (cc_nodes (cluster_config s)))) 1;
          active_voters = 1 + length (filter (\<lambda>pt. is_fresh_voter env s pt \<and> fst pt \<noteq> dead) (quorum_acks s))
      in remaining div 2 + 1 \<le> u32 active_voters)"

definition MaybeRemoveDeadNodesLocked :: "Env \<Rightarrow> RaftNode \<Rightarrow> RaftNode" where
  "MaybeRemoveDeadNodesLocked env s =
     (if \<not> IsRunning s \<or> role s \<noteq> LEADER then s
      else if \<not> nc_auto_remove_dead_nodes (config s) then s
      else fold (\<lambda>dead s'. if quorum_without env s' dead
                           then emit (SetTimeout 1 (RemoveDeadNode dead)) s' else s')
             (filter (is_dead env s) (cc_nodes (cluster_config s))) s)"

definition OnHeartbeatTimeoutLocked :: "Env \<Rightarrow> RaftNode \<Rightarrow> RaftNode option" where
  "OnHeartbeatTimeoutLocked env s =
     (if \<not> IsRunning s then Some s
      else if role s \<noteq> LEADER then Some s
      else case (if ShouldEnterQuiescedLocked env s then EnterQuiescedLocked env True s else Some s) of
             None \<Rightarrow> None
           | Some s1 \<Rightarrow>
             if quiesced s1 \<and> pending_reads s1 = [] then Some s1
             else case (if check_quorum_enabled s1 then CheckQuorumLocked env s1 else Some s1) of
                    None \<Rightarrow> None
                  | Some s2 \<Rightarrow>
                    if role s2 \<noteq> LEADER then Some s2
                    else Some (MaybeRemoveDeadNodesLocked env
                                 (MaybeAutoPromoteLearnersLocked (BroadcastAppendEntriesLocked env s2))))"

definition CheckHeartbeatTimeoutLocked :: "Env \<Rightarrow> RaftNode \<Rightarrow> RaftNode option" where
  "CheckHeartbeatTimeoutLocked env s =
     (if \<not> heartbeat_timer_enabled s \<or> env_now env < heartbeat_deadline s then Some s
      else let interval = (if quiesced s then nc_quiesced_heartbeat_interval_ms (config s)
                           else heartbeat_interval_ms (cfg s))
           in OnHeartbeatTimeoutLocked env (s\<lparr>heartbeat_deadline := heartbeat_deadline s + ms interval\<rparr>))"

section \<open>Ballots\<close>

lemma quiet_progress [simp]:
  "quiet s (set_progress p m n t) = quiet s t" "quiet s (record_ack env p t) = quiet s t"
  "quiet s (update_lease env t) = quiet s t" "quiet s (count_read_acks p t) = quiet s t"
  "quiet s (back_off p t) = quiet s t"
  by (simp_all add: set_progress_def record_ack_def update_lease_def count_read_acks_def back_off_def Let_def)

lemma quiet_ScheduleRetryLocked:
  "ScheduleAppendEntriesRetryLocked p t = Some s' \<Longrightarrow> quiet s t \<Longrightarrow> quiet s s'"
  by (auto simp: ScheduleAppendEntriesRetryLocked_def Let_def split: if_splits)

lemma quiet_ScheduleRetry:
  "ScheduleAppendEntriesRetry p hb t = Some s' \<Longrightarrow> quiet s t \<Longrightarrow> quiet s s'"
  unfolding ScheduleAppendEntriesRetry_def
  by (erule quiet_ScheduleRetryLocked) (simp split: option.split list.split)

lemma quiet_OnRetry: "quiet s (OnRetryAppendEntries env p s)"
  by (simp add: OnRetryAppendEntries_def)

lemma quiet_append_succeeded: "append_succeeded env p resp h s = Some s' \<Longrightarrow> quiet s s'"
proof -
  assume "append_succeeded env p resp h s = Some s'"
  then obtain t u where t: "TryCommitLocked env t = Some u" "quiet s t"
    and s': "s' = u\<lparr>next_index := touch (next_index u) p\<rparr> \<or>
      s' = SendAppendEntriesToPeerLocked env p (u\<lparr>next_index := touch (next_index u) p\<rparr>)"
    by (auto simp: append_succeeded_def Let_def split: option.splits if_splits)
  have "quiet s u" by (rule quiet_TryCommit [OF t])
  then show "quiet s s'" using s' by auto
qed

lemma HandleAppendEntriesResponse_recedes:
  assumes "HandleAppendEntriesResponse env p resp s = Some s'"
  shows "recedes s s'"
proof -
  have q: "append_rejected env p resp h (s\<lparr>inflight := x\<rparr>) = Some s' \<Longrightarrow> quiet s s'" for h x
    unfolding append_rejected_def Let_def by (erule quiet_ScheduleRetryLocked) simp
  have q2: "append_succeeded env p resp h (s\<lparr>inflight := x\<rparr>) = Some s' \<Longrightarrow> quiet s s'" for h x
    using quiet_trans [OF _ quiet_append_succeeded, of s "s\<lparr>inflight := x\<rparr>"] by simp
  have q3: "ScheduleAppendEntriesRetryLocked p (back_off p s) = Some s' \<Longrightarrow> quiet s s'"
    by (erule quiet_ScheduleRetryLocked) simp
  have "current_term s < aer_term resp \<and> BecomeFollowerLocked env (aer_term resp) s = Some s' \<or> quiet s s'"
    using assms q q2 q3 unfolding HandleAppendEntriesResponse_def Let_def
    by (auto split: if_splits option.splits list.splits)
  then show ?thesis
    using BecomeFollower_recedes(1) [of env "aer_term resp" False True s s'] quiet_recedes [of s s']
    by (auto simp: BecomeFollowerLocked_def)
qed

lemma HandleHeartbeatResponse_recedes:
  assumes "HandleHeartbeatResponse env p resp s = Some s'"
  shows "recedes s s'"
proof -
  have "quiet s (heartbeat_rejected env p resp s)" by (simp add: heartbeat_rejected_def Let_def)
  then have "current_term s < aer_term resp \<and> BecomeFollowerLocked env (aer_term resp) s = Some s' \<or> quiet s s'"
    using assms by (auto simp: HandleHeartbeatResponse_def split: if_splits)
  then show ?thesis
    using BecomeFollower_recedes(1) [of env "aer_term resp" False True s s'] quiet_recedes [of s s']
    by (auto simp: BecomeFollowerLocked_def)
qed

lemma quiet_MaybePromote [simp]: "quiet s t \<Longrightarrow> quiet s (MaybeAutoPromoteLearnersLocked t)"
proof -
  have "quiet s t \<Longrightarrow> quiet s (fold (\<lambda>learner s'. case map_of (match_index s') learner of None \<Rightarrow> s'
      | Some m \<Rightarrow> if commit_index s' \<le> m then emit (SetTimeout 0 (AutoPromoteLearner learner)) s' else s') ls t)" for ls
    by (induction ls arbitrary: t) (auto split: option.split)
  then show "quiet s t \<Longrightarrow> ?thesis" by (simp add: MaybeAutoPromoteLearnersLocked_def)
qed

lemma quiet_MaybeRemove [simp]: "quiet s t \<Longrightarrow> quiet s (MaybeRemoveDeadNodesLocked env t)"
proof -
  have "quiet s t \<Longrightarrow> quiet s (fold (\<lambda>dead s'. if quorum_without env s' dead
      then emit (SetTimeout 1 (RemoveDeadNode dead)) s' else s') ls t)" for ls
    by (induction ls arbitrary: t) auto
  then show "quiet s t \<Longrightarrow> ?thesis" by (simp add: MaybeRemoveDeadNodesLocked_def)
qed

lemma CheckQuorum_recedes: "CheckQuorumLocked env s = Some s' \<Longrightarrow> recedes s s'"
  using BecomeFollower_recedes(1) [of env "current_term s" True True s s']
  by (auto simp: CheckQuorumLocked_def BecomeFollowerWithReplicationLocked_def split: if_splits)

lemma recedes_quiesced [simp]: "recedes s (t\<lparr>quiesced := b\<rparr>) = recedes s t"
  by (simp add: recedes_def saved_between_def)

lemma recedes_timeouts [simp]: "recedes s (t\<lparr>consecutive_quiesced_timeouts := n\<rparr>) = recedes s t"
  by (simp add: recedes_def saved_between_def dur_def vote_sends_def)

lemma OnHeartbeatTimeout_recedes:
  assumes "OnHeartbeatTimeoutLocked env s = Some s'"
  shows "recedes s s'"
proof -
  have e: "recedes s t" if "(if ShouldEnterQuiescedLocked env s then EnterQuiescedLocked env True s else Some s) = Some t" for t
    using that by (auto simp: EnterQuiescedLocked_def Let_def intro: recedes_quiet split: if_splits)
  have c: "recedes t u" if "(if check_quorum_enabled t then CheckQuorumLocked env t else Some t) = Some u" for t u
    using that CheckQuorum_recedes by (auto split: if_splits)
  have q: "recedes s (MaybeRemoveDeadNodesLocked env (MaybeAutoPromoteLearnersLocked (BroadcastAppendEntriesLocked env u)))"
    if "recedes s u" for u
    by (rule recedes_quiet [OF that]) simp
  show ?thesis
  proof (cases "IsRunning s \<and> role s = LEADER")
    case True
    then obtain t where t: "(if ShouldEnterQuiescedLocked env s then EnterQuiescedLocked env True s else Some s) = Some t"
      and k: "(if quiesced t \<and> pending_reads t = [] then Some t
             else case (if check_quorum_enabled t then CheckQuorumLocked env t else Some t) of
                    None \<Rightarrow> None
                  | Some s2 \<Rightarrow>
                    if role s2 \<noteq> LEADER then Some s2
                    else Some (MaybeRemoveDeadNodesLocked env
                                 (MaybeAutoPromoteLearnersLocked (BroadcastAppendEntriesLocked env s2)))) = Some s'"
      using assms unfolding OnHeartbeatTimeoutLocked_def
      by (cases "if ShouldEnterQuiescedLocked env s then EnterQuiescedLocked env True s else Some s") simp_all
    show ?thesis
    proof (cases "quiesced t \<and> pending_reads t = []")
      case True
      then show ?thesis using k e [OF t] by simp
    next
      case False
      then obtain u where u: "(if check_quorum_enabled t then CheckQuorumLocked env t else Some t) = Some u"
        using k by (cases "if check_quorum_enabled t then CheckQuorumLocked env t else Some t") (simp_all split: if_splits)
      have "recedes s u" by (rule recedes_trans [OF e [OF t] c [OF u]])
      then show ?thesis using k False q [of u] unfolding u by (simp split: if_splits)
    qed
  next
    case False
    then show ?thesis using assms by (auto simp: OnHeartbeatTimeoutLocked_def split: if_splits)
  qed
qed

lemma CheckHeartbeatTimeout_recedes:
  assumes "CheckHeartbeatTimeoutLocked env s = Some s'"
  shows "recedes s s'"
proof -
  have d: "recedes s (s\<lparr>heartbeat_deadline := x\<rparr>)" for x by (rule quiet_recedes) simp
  have "s' = s \<or> (\<exists>x. OnHeartbeatTimeoutLocked env (s\<lparr>heartbeat_deadline := x\<rparr>) = Some s')"
    using assms by (auto simp: CheckHeartbeatTimeoutLocked_def Let_def split: if_splits)
  then show ?thesis
  proof (elim disjE exE)
    fix x assume "OnHeartbeatTimeoutLocked env (s\<lparr>heartbeat_deadline := x\<rparr>) = Some s'"
    then show ?thesis by (rule recedes_trans [OF d OnHeartbeatTimeout_recedes])
  qed simp
qed

section \<open>Properties\<close>

text \<open>
  Retries back off exponentially. For a validated configuration, the n-th consecutive retry to a
  peer (n up to 22 and within the allowed attempts) is scheduled after the base delay times two to
  the n milliseconds, capped at the maximum delay; one attempt past the limit schedules nothing and
  forgets the count.
\<close>

theorem retry_backoff:
  assumes "IsRunning s" and "role s = LEADER" and "Validate (cfg s) = OK" and "at0 (retry_state s) p = k" and "k < 22"
  shows "\<exists>s'. ScheduleAppendEntriesRetryLocked p s = Some s' \<and>
    (if Suc k \<le> max_retry_attempts (cfg s)
     then retry_state s' p = Some (Suc k) \<and>
       out s' = out s @ [SetTimeout (min (base_retry_delay_ms (cfg s) * 2 ^ Suc k) (max_retry_delay_ms (cfg s))) (RetryAppendEntries p)]
     else retry_state s' p = None \<and> out s' = out s)"
proof -
  let ?n = "Suc k"
  have v: "base_retry_delay_ms (cfg s) \<le> 1000" "max_retry_attempts (cfg s) \<le> 100"
    using assms(3) by (simp_all add: values_valid_def)
  have "base_retry_delay_ms (cfg s) * 2 ^ ?n \<le> 1000 * 2 ^ 22"
    using v(1) assms(5) by (intro mult_le_mono power_increasing) simp_all
  then have u: "u32 (base_retry_delay_ms (cfg s) * 2 ^ ?n) = base_retry_delay_ms (cfg s) * 2 ^ ?n"
    by (simp add: u32_def U32_def)
  have i: "i32 (int (max_retry_attempts (cfg s))) = int (max_retry_attempts (cfg s))"
    using v(2) by (simp add: i32_def)
  have d: "retry_delay (cfg s) ?n = Some (min (base_retry_delay_ms (cfg s) * 2 ^ ?n) (max_retry_delay_ms (cfg s)))"
    using assms(5) u by (simp add: retry_delay_def shift_one_def del: power_Suc)
  show ?thesis
    using assms(1,2,4) d i unfolding ScheduleAppendEntriesRetryLocked_def Let_def
    by (simp add: cfg_def emit_def del: power_Suc)
qed

theorem retry_backoff_witness:
  "\<exists>s'. ScheduleAppendEntriesRetryLocked 2 ((ex_group [2, 3])\<lparr>role := LEADER, retry_state := [2 \<mapsto> 2]\<rparr>) = Some s' \<and>
     retry_state s' 2 = Some 3 \<and> out s' = [SetTimeout 80 (RetryAppendEntries 2)]"
proof -
  let ?s = "(ex_group [2, 3])\<lparr>role := LEADER, retry_state := [2 \<mapsto> 2]\<rparr>"
  have c: "cfg ?s = default_values" using ex_group_fields(12) [of "[2, 3]"] by (simp add: cfg_def)
  have f: "IsRunning ?s" "at0 (retry_state ?s) 2 = 2" "out ?s = []"
    by (simp_all add: IsRunning_def at0_def ex_group_def blank_node_def)
  have d: "max_retry_attempts default_values = 5" "base_retry_delay_ms default_values = 10"
    "max_retry_delay_ms default_values = 500" by (simp_all add: default_values_def)
  show ?thesis
    using retry_backoff [of ?s 2 2] f unfolding c d by simp
qed

text \<open>
  The back-off of a configuration that passes validation can collapse: with a base delay of 8 ms
  and 100 allowed attempts, the 29th retry is scheduled after 0 ms, because the product wraps around
  32 bits before the cap is taken, and the 32nd shifts by the width of the type, which C++ leaves
  undefined.
\<close>

theorem retry_delay_wraps:
  "\<exists>v. Validate v = OK \<and> max_retry_attempts v = 100 \<and> retry_delay v 28 = Some (max_retry_delay_ms v) \<and>
     retry_delay v 29 = Some 0 \<and> retry_delay v 32 = None"
proof -
  let ?v = "default_values\<lparr>base_retry_delay_ms := 8, max_retry_attempts := 100\<rparr>"
  have "Validate ?v = OK" "max_retry_attempts ?v = 100" "retry_delay ?v 28 = Some (max_retry_delay_ms ?v)"
    "retry_delay ?v 29 = Some 0" "retry_delay ?v 32 = None"
    by (simp_all add: values_valid_def default_values_def retry_delay_def shift_one_def u32_def U32_def)
  then show ?thesis by blast
qed

text \<open>
  CheckQuorum keeps a leader exactly when the voters it heard from within one election timeout,
  itself included, still form an election quorum of its configuration; otherwise it steps down in the
  same term, keeping its vote.
\<close>

theorem check_quorum_keeps_leader_iff_acked:
  assumes "CheckQuorumLocked env s = Some s'" and "IsRunning s" and "role s = LEADER"
  shows "(role s' = LEADER \<longleftrightarrow> QuorumSatisfied (cluster_config s)
      ({server_id s} \<union> {p. \<exists>t. (p, t) \<in> set (quorum_acks s) \<and> IsVoter (cluster_config s) p \<and>
         within_ms (env_now env) t (election_timeout_ms (cfg s))})) \<and>
    current_term s' = current_term s \<and> voted_for s' = voted_for s \<and>
    (role s' = LEADER \<longrightarrow> s' = s)"
proof -
  have a: "acked_voters env s = {server_id s} \<union> {p. \<exists>t. (p, t) \<in> set (quorum_acks s) \<and> IsVoter (cluster_config s) p \<and>
         within_ms (env_now env) t (election_timeout_ms (cfg s))}"
    by (force simp: acked_voters_def is_fresh_voter_def)
  show ?thesis
  proof (cases "QuorumSatisfied (cluster_config s) (acked_voters env s)")
    case True
    then show ?thesis using assms unfolding a [symmetric] by (simp add: CheckQuorumLocked_def ElectionQuorumSatisfiedLocked_def)
  next
    case False
    then have f: "BecomeFollowerLockedImpl env (current_term s) True True s = Some s'"
      using assms by (simp add: CheckQuorumLocked_def ElectionQuorumSatisfiedLocked_def BecomeFollowerWithReplicationLocked_def)
    from BecomeFollower_recedes [OF f] have "role s' = FOLLOWER" "current_term s' = current_term s" "voted_for s' = voted_for s"
      by (simp_all add: recedes_def)
    then show ?thesis using False unfolding a [symmetric] by simp
  qed
qed

theorem check_quorum_keeps_leader_iff_acked_witness:
  "\<exists>s'. CheckQuorumLocked (ex_env (ms 400)) ((ex_group [2, 3])\<lparr>role := LEADER, quorum_acks := [(2, 0), (3, 0)]\<rparr>) = Some s' \<and>
     role s' = FOLLOWER \<and> voted_for s' = -1"
proof -
  let ?s = "(ex_group [2, 3])\<lparr>role := LEADER, quorum_acks := [(2, 0), (3, 0)]\<rparr>"
  have c: "cfg ?s = default_values" using ex_group_fields(12) [of "[2, 3]"] by (simp add: cfg_def)
  have r: "IsRunning ?s" using ex_group_fields(6) [of "[2, 3]"] by (simp add: IsRunning_def)
  have w: "\<not> within_ms (env_now (ex_env (ms 400))) 0 (election_timeout_ms (cfg ?s))"
    unfolding c by (simp add: within_ms_def elapsed_ms_def ms_def default_values_def u32_def U32_def)
  have q: "\<not> QuorumSatisfied (cluster_config ?s) {1}"
    by (simp add: QuorumSatisfied_iff config_ok_def U32_def majority_of_def)
  have v: "acked_voters (ex_env (ms 400)) ?s = {1}"
    using w by (simp add: acked_voters_def is_fresh_voter_def)
  obtain s' where s': "CheckQuorumLocked (ex_env (ms 400)) ?s = Some s'"
    using BecomeFollower_returns [of "ex_env (ms 400)", OF ex_env_fields(1)] r
    by (fastforce simp: CheckQuorumLocked_def BecomeFollowerWithReplicationLocked_def)
  have e: "{server_id ?s} \<union> {p. \<exists>t. (p, t) \<in> set (quorum_acks ?s) \<and> IsVoter (cluster_config ?s) p \<and>
      within_ms (env_now (ex_env (ms 400))) t (election_timeout_ms (cfg ?s))} = {1}"
    using w by auto
  have f: "role s' \<noteq> LEADER" "voted_for s' = -1"
    using check_quorum_keeps_leader_iff_acked [OF s' r, unfolded e] q by simp_all
  have "role s' = FOLLOWER"
    using CheckQuorum_recedes [OF s'] f(1) by (auto simp: recedes_def)
  then show ?thesis using s' f(2) by blast
qed

text \<open>
  A leader that should go quiesced never does: the heartbeat tick calls \<open>EnterQuiescedLocked\<close> with
  \<open>replication_mtx_\<close> held, and that function locks it again for a leader, so the tick thread blocks on
  itself.
\<close>

theorem quiescing_leader_locks_itself:
  assumes "IsRunning s" and "role s = LEADER" and "heartbeat_timer_enabled s" and "heartbeat_deadline s \<le> env_now env"
    and "nc_quiesced_mode_enabled (config s)" and "\<not> quiesced s"
    and "beyond_ms (env_steady env) (last_activity_time s) (nc_quiesced_idle_threshold_ms (config s))"
  shows "CheckHeartbeatTimeoutLocked env s = None"
  using assms by (simp add: CheckHeartbeatTimeoutLocked_def OnHeartbeatTimeoutLocked_def ShouldEnterQuiescedLocked_def
      EnterQuiescedLocked_def IsRunning_def Let_def)

theorem quiescing_leader_locks_itself_witness:
  "CheckHeartbeatTimeoutLocked (ex_env (ms 3000))
     ((ex_group [2, 3])\<lparr>role := LEADER, heartbeat_timer_enabled := True, heartbeat_deadline := 0, last_activity_time := 0,
        config := (ex_config 1 [] [])\<lparr>nc_quiesced_mode_enabled := True\<rparr>\<rparr>) = None"
proof -
  let ?s = "(ex_group [2, 3])\<lparr>role := LEADER, heartbeat_timer_enabled := True, heartbeat_deadline := 0, last_activity_time := 0,
        config := (ex_config 1 [] [])\<lparr>nc_quiesced_mode_enabled := True\<rparr>\<rparr>"
  have "beyond_ms (ms 3000) 0 2000" by (simp add: beyond_ms_def elapsed_ms_def ms_def u32_def U32_def)
  then show ?thesis
    using quiescing_leader_locks_itself [of ?s "ex_env (ms 3000)"] ex_group_fields(6) [of "[2, 3]"]
    by (simp add: IsRunning_def ex_env_def ex_config_def) (simp add: ms_def)
qed

text \<open>A leader of term 2 that has sent entries 1 and 2 to node 2 and heard nothing yet.\<close>

definition ex_sent :: RaftNode where
  "ex_sent = ex_commit\<lparr>match_index := [(2, 0), (3, 0)], inflight := [2 \<mapsto> [\<lparr>if_start_index = 1, if_count = 2\<rparr>]]\<rparr>"

lemma ex_commit_more [simp]:
  "IsRunning ex_commit" "role ex_commit = LEADER" "check_quorum_enabled ex_commit" "pending_reads ex_commit = []"
  "quorum_acks ex_commit = []" "next_index ex_commit = [2 \<mapsto> 3, 3 \<mapsto> 1]" "cfg ex_commit = default_values"
  "last_contact_time ex_commit = Map.empty"
  using ex_group_fields(6,11,12) [of "[2, 3]"]
  by (simp_all add: ex_commit_def IsRunning_def cfg_def) (simp_all add: ex_group_def blank_node_def)

text \<open>
  The leader does not check the term of an AppendEntries response against its own beyond stepping
  down on a newer one: a success answer of an older term is paired with the batch now at the head of
  the pipeline. Here an answer of term 1 acknowledges a batch sent in term 2, and the leader commits
  two entries on the strength of it.
\<close>

theorem stale_response_commits:
  "\<exists>s'. HandleAppendEntriesResponse (ex_env 0) 2
       \<lparr>aer_term = 1, aer_success = True, aer_conflict_index = 0, aer_entries_count = 2\<rparr> ex_sent = Some s' \<and>
     commit_index ex_sent = 0 \<and> current_term ex_sent = 2 \<and> commit_index s' = 2"
proof -
  let ?resp = "\<lparr>aer_term = 1, aer_success = True, aer_conflict_index = 0, aer_entries_count = 2\<rparr>"
  define t where "t = ex_sent\<lparr>inflight := (inflight ex_sent)(2 \<mapsto> [])\<rparr>"
  define u where "u = count_read_acks 2 (update_lease (ex_env 0) (record_ack (ex_env 0) 2
     ((set_progress 2 2 3 t)\<lparr>retry_state := (retry_state t)(2 := None)\<rparr>)))"
  have f: "raft_log u = ex_log2" "match_index u = [(2, 2), (3, 0)]" "server_id u = 1" "current_term u = 2"
    "commit_index u = 0" "flushed_index u = 2" "cluster_config u = ex_cc [1, 2, 3] [] False"
    "last_snapshot_index u = 0" "last_enqueued u = 0"
    by (simp_all add: u_def t_def ex_sent_def count_read_acks_def update_lease_def record_ack_def set_progress_def
      Let_def ex_commit_fields)
  have nx: "next_index u 2 = Some 3" "role u = LEADER"
    by (simp_all add: u_def t_def ex_sent_def count_read_acks_def update_lease_def record_ack_def set_progress_def Let_def)
  have "GetLogTermLocked u 2 = 2" by (simp add: GetLogTermLocked_def f GetLogTerm_def)
  then have fc: "find_commit u 2 = Some 2" "commit_ceiling u = 2"
    using find_commit.simps(2) [of u 1]
    by (simp_all add: f commit_ceiling_def numeral_2_eq_2 [symmetric] Let_def count_new_def count_old_def
        ex_cc_def JointMajoritySatisfied_def GetMajority_def u32_def U32_def IsVoter_def)
  obtain v where v: "apply_rounds (ex_env 0) 2 (u\<lparr>commit_index := 2\<rparr>) = Some v"
    using apply_rounds_ok [of "u\<lparr>commit_index := 2\<rparr>" 2 "ex_env 0"] by (auto simp: f U32_def)
  then have tc: "TryCommitLocked (ex_env 0) u = Some v"
    by (simp add: TryCommitLocked_def fc ApplyCommittedLocked_def f)
  have "commit_index v = 2" using apply_rounds_keeps(2) [OF v] by simp
  moreover have "append_succeeded (ex_env 0) 2 ?resp \<lparr>if_start_index = 1, if_count = 2\<rparr> t =
      (let w = v\<lparr>next_index := touch (next_index v) 2\<rparr> in
       Some (if at0 (next_index w) 2 \<le> fst (GetLastLogInfo (raft_log w)) then SendAppendEntriesToPeerLocked (ex_env 0) 2 w else w))"
  proof -
    have "u32_sub (u32_add 1 2) 1 = 2" "u32_add 2 1 = 3" by (simp_all add: u32_add_def u32_sub_def U32_def)
    moreover have "al_at0 (match_index t) 2 = 0" "at0 (next_index t) 2 = 3"
      by (simp_all add: t_def ex_sent_def al_at0_def at0_def)
    ultimately show ?thesis
      using tc unfolding u_def by (simp add: append_succeeded_def Let_def set_progress_def)
  qed
  moreover have "commit_index (SendAppendEntriesToPeerLocked (ex_env 0) 2 w) = commit_index w" for w
    by (rule send_frameD(5) [OF send_frame_SendAppendEntries])
  ultimately have "\<exists>s'. append_succeeded (ex_env 0) 2 ?resp \<lparr>if_start_index = 1, if_count = 2\<rparr> t = Some s' \<and> commit_index s' = 2"
    by (simp add: Let_def)
  moreover have "HandleAppendEntriesResponse (ex_env 0) 2 ?resp ex_sent =
      append_succeeded (ex_env 0) 2 ?resp \<lparr>if_start_index = 1, if_count = 2\<rparr> t"
    using ex_commit_more(1)
    by (simp add: HandleAppendEntriesResponse_def t_def ex_sent_def IsRunning_def ex_commit_fields)
  ultimately show ?thesis by (simp add: ex_sent_def ex_commit_fields)
qed

lemma acks_simps [simp]:
  "quorum_acks (StartSnapshotCheckTimerLocked env t) = quorum_acks t"
  "cluster_config (StartSnapshotCheckTimerLocked env t) = cluster_config t"
  "quorum_acks (StartHeartbeatTimerLocked env n t) = quorum_acks t"
  "cluster_config (StartHeartbeatTimerLocked env n t) = cluster_config t"
  "quorum_acks (CancelElectionTimerLocked t) = quorum_acks t"
  "cluster_config (CancelElectionTimerLocked t) = cluster_config t"
  "quorum_acks (emit e t) = quorum_acks t"
  "quorum_acks (snd (append_local d t)) = quorum_acks t" "cluster_config (snd (append_local d t)) = cluster_config t"
  by (simp_all add: StartSnapshotCheckTimerLocked_def StartHeartbeatTimerLocked_def CancelElectionTimerLocked_def emit_def
    append_local_def Let_def split: prod.split option.split)

lemma BecomeLeader_acks:
  defines "t \<equiv> \<lambda>env s. fold (init_peer env (LastLogIndex (raft_log s))) (map fst (peer_map s))
     (s\<lparr>role := LEADER, leader_id := server_id s, leader_addr := nc_listen_addr (config s),
                 next_index := Map.empty, match_index := [], retry_state := Map.empty,
                 inflight := Map.empty, snapshot_sends := Map.empty, client_sessions := Map.empty,
                 quorum_acks := [], last_contact_time := Map.empty\<rparr>)"
  shows "quorum_acks (BecomeLeaderLocked env s) = quorum_acks (t env s)"
    "cluster_config (BecomeLeaderLocked env s) = cluster_config (t env s)"
proof -
  have b: "quorum_acks (BroadcastAppendEntriesLocked env u) = quorum_acks u"
    "cluster_config (BroadcastAppendEntriesLocked env u) = cluster_config u" for u
    using send_frame_Broadcast [of u env] unfolding send_frame_iff by auto
  show "quorum_acks (BecomeLeaderLocked env s) = quorum_acks (t env s)"
    "cluster_config (BecomeLeaderLocked env s) = cluster_config (t env s)"
    unfolding BecomeLeaderLocked_def Let_def t_def by (simp_all add: b)
qed

text \<open>
  The leader lease counts peers that never answered. A leader just elected by five voters marks
  every peer as having acknowledged at that moment, so one heartbeat answer within the election
  timeout extends its lease by a full election timeout although three of its four peers are silent.
\<close>

theorem lease_counts_silent_peers:
  "\<exists>s'. HandleHeartbeatResponse (ex_env (ms 200)) 2
       \<lparr>aer_term = 0, aer_success = True, aer_conflict_index = 0, aer_entries_count = 0\<rparr>
       (BecomeLeaderLocked (ex_env 0) (ex_group [2, 3, 4, 5])) = Some s' \<and>
     GetMajority (cluster_config s') = 3 \<and> leader_lease_expiry s' = ms 200 + ms 300"
proof -
  define s0 where "s0 = BecomeLeaderLocked (ex_env 0) (ex_group [2, 3, 4, 5])"
  have c: "core s0 = core ((ex_group [2, 3, 4, 5])\<lparr>role := LEADER, leader_id := server_id (ex_group [2, 3, 4, 5]),
      leader_addr := nc_listen_addr (config (ex_group [2, 3, 4, 5]))\<rparr>)"
    unfolding s0_def by (rule quiet_coreD [OF BecomeLeader_quiet])
  have f: "role s0 = LEADER" "current_term s0 = 0" "check_quorum_enabled s0" "IsRunning s0" "cfg s0 = default_values"
    using core_eqD(2,3,17,20,21) [OF c] ex_group_fields(6,12) [of "[2, 3, 4, 5]"]
    by (simp_all add: IsRunning_def cfg_def)
  have q: "quorum_acks s0 = [(2, 0), (3, 0), (4, 0), (5, 0)]" "cluster_config s0 = cluster_config (ex_group [2, 3, 4, 5])"
    unfolding s0_def BecomeLeader_acks by (simp_all add: init_peer_def)
  note k = q(2)
  have w: "within_ms (ms 200) 0 300" by (simp add: within_ms_def elapsed_ms_def ms_def u32_def U32_def)
  have e: "election_timeout_ms default_values = 300" by (simp add: default_values_def)
  have m: "GetMajority (cluster_config s0) = 3" by (simp add: k GetMajority_def u32_def U32_def)
  define t where "t = record_ack (ex_env (ms 200)) 2 s0"
  have t: "quorum_acks t = [(2, ms 200), (3, 0), (4, 0), (5, 0)]" "cluster_config t = cluster_config s0" "cfg t = default_values"
    using f q(1) by (simp_all add: t_def record_ack_def cfg_def Let_def)
  have "filter (is_fresh_voter (ex_env (ms 200)) t) (quorum_acks t) = quorum_acks t"
    using w by (simp add: t is_fresh_voter_def e k IsVoter_def)
  then have l: "update_lease (ex_env (ms 200)) t = t\<lparr>leader_lease_expiry := ms 200 + ms 300\<rparr>"
    by (simp add: update_lease_def t m e u32_def U32_def)
  show ?thesis
    using f l t(2) m unfolding s0_def [symmetric]
    by (simp add: HandleHeartbeatResponse_def t_def [symmetric] count_read_acks_def)
qed

end
