(* ===== verification/Snapshots.thy ===== *)
theory Snapshots
  imports Replication_Responses
begin

text \<open>
  Snapshots: creation, persisting and log compaction on the leader, transfer to a peer
  (\<open>src/snapshot_manager.cpp\<close>), and \<open>HandleInstallSnapshot\<close> with its file handling
  (\<open>src/rpc_handlers.cpp\<close>). The state machine's \<open>CreateSnapshot\<close> and \<open>RestoreStream\<close> and the persister's
  \<open>SaveSnapshotStream\<close> are parameters in the environment. Work the code does between two lock regions
  follows the first region directly.
\<close>

section \<open>Taking a snapshot\<close>

definition ShouldTriggerSnapshotLocked :: "RaftNode \<Rightarrow> bool" where
  "ShouldTriggerSnapshotLocked s =
     (let last_index = fst (GetLastLogInfo (raft_log s)) in
      if last_index \<le> last_snapshot_index s then False
      else snapshot_threshold_entries (cfg s) \<le> last_index - last_snapshot_index s \<or>
           snapshot_threshold_bytes (cfg s) \<le> snd (GetLogStats (raft_log s)))"

text \<open>
  The scan of a snapshot in chunks from \<open>off\<close>: the data read until an empty read, or \<^const>\<open>None\<close> when
  the size passes the limit. Every read moves the offset, so the limit bounds the loop.
\<close>

function read_snapshot :: "(nat \<Rightarrow> nat \<Rightarrow> string) \<Rightarrow> nat \<Rightarrow> nat \<Rightarrow> string option" where
  "read_snapshot rd limit off =
     (let chunk = rd off kSnapshotChunkSize in
      if chunk = [] then Some []
      else if limit < off + length chunk then None
      else map_option ((@) chunk) (read_snapshot rd limit (off + length chunk)))"
  by pat_completeness auto
termination
proof (relation "measure (\<lambda>(rd, limit, off). Suc limit - off)")
  fix rd :: "nat \<Rightarrow> nat \<Rightarrow> string" and limit off :: nat and chunk
  assume "chunk = rd off kSnapshotChunkSize" and "chunk \<noteq> []" and "\<not> limit < off + length chunk"
  then show "((rd, limit, off + length chunk), rd, limit, off) \<in> measure (\<lambda>(rd, limit, off). Suc limit - off)"
    by (simp add: length_greater_0_conv [symmetric] del: length_greater_0_conv)
qed simp

declare read_snapshot.simps [simp del]

definition max_snapshot_size :: "RaftNode \<Rightarrow> nat" where
  "max_snapshot_size s =
     (if 0 < max_snapshot_size_bytes (cfg s) then max_snapshot_size_bytes (cfg s) else 100 * 1024 * 1024)"

text \<open>\<open>Inl\<close> the error status, \<open>Inr\<close> the index and term of the snapshot.\<close>

definition CreateAndPersistSnapshot :: "Env \<Rightarrow> RaftNode \<Rightarrow> (Status + Index \<times> Term) \<times> RaftNode" where
  "CreateAndPersistSnapshot env s =
     (case env_create_snapshot env of
        None \<Rightarrow> (Inl (Error ''Failed to create snapshot'' []), s)
      | Some snap \<Rightarrow>
        let idx = u32 (snap_index snap); trm = u32 (snap_term snap) in
        case read_snapshot (snap_read snap) (max_snapshot_size s) 0 of
          None \<Rightarrow> (Inl (Error ''Snapshot exceeds max size'' []), s)
        | Some data \<Rightarrow>
          if has_persister s \<and> data \<noteq> []
          then if idx \<le> last_snapshot_index s
               then (Inl (Error ''Snapshot superseded while creating'' []), s)
               else let status = env_save_snapshot env idx trm data;
                        s1 = emit (SaveSnapshot idx trm data) s
                    in if \<not> ok status then (Inl status, s1) else (Inr (idx, trm), s1)
          else (Inr (idx, trm), s))"

definition ApplySnapshotLocked :: "Index \<Rightarrow> Term \<Rightarrow> RaftNode \<Rightarrow> Status \<times> RaftNode" where
  "ApplySnapshotLocked idx trm s =
     (if \<not> IsRunning s then (Error ''Node stopped while creating snapshot'' [], s)
      else if role s \<noteq> LEADER then (NotLeader (leader_id s) (leader_addr s), s)
      else if idx \<le> last_snapshot_index s then (Error ''Snapshot superseded while creating'' [], s)
      else if idx < fst (GetLastLogInfo (raft_log s)) then (Error ''Log advanced while creating snapshot'' [], s)
      else let s1 = s\<lparr>raft_log := SetStartIndex (u32_add idx 1) (raft_log s),
                      last_snapshot_index := idx, last_snapshot_term := trm\<rparr>;
               keep = log_retention_entries (cfg s1);
               compact_before = (if keep < u32_add idx 1 then u32_sub (u32_add idx 1) keep else 1)
           in (OK, if has_log_persister s1 then emit (LogTruncatePrefix compact_before) s1 else s1))"

text \<open>Both entry points hold the in-progress flag while they run and clear it on every return.\<close>

definition RunAutoSnapshotIfNeeded :: "Env \<Rightarrow> RaftNode \<Rightarrow> Status \<times> RaftNode" where
  "RunAutoSnapshotIfNeeded env s =
     (if snapshot_in_progress s then (OK, s)
      else if \<not> IsRunning s \<or> role s \<noteq> LEADER then (OK, s)
      else if \<not> ShouldTriggerSnapshotLocked s then (OK, s)
      else case CreateAndPersistSnapshot env s of
             (Inl status, s1) \<Rightarrow> (status, s1)
           | (Inr (idx, trm), s1) \<Rightarrow> ApplySnapshotLocked idx trm s1)"

definition TriggerSnapshot :: "Env \<Rightarrow> RaftNode \<Rightarrow> Status \<times> RaftNode" where
  "TriggerSnapshot env s =
     (if snapshot_in_progress s then (Error ''A snapshot is already in progress'' [], s)
      else if \<not> IsRunning s then (Error ''Node not running'' [], s)
      else if role s \<noteq> LEADER then (NotLeader (leader_id s) (leader_addr s), s)
      else case CreateAndPersistSnapshot env s of
             (Inl status, s1) \<Rightarrow> (status, s1)
           | (Inr (idx, trm), s1) \<Rightarrow> ApplySnapshotLocked idx trm s1)"

definition CheckSnapshotTimeoutLocked :: "Env \<Rightarrow> RaftNode \<Rightarrow> RaftNode" where
  "CheckSnapshotTimeoutLocked env s =
     (if \<not> snapshot_check_timer_enabled s \<or> env_now env < snapshot_check_deadline s then s
      else snd (RunAutoSnapshotIfNeeded env
             (s\<lparr>snapshot_check_deadline := snapshot_check_deadline s + ms (snapshot_check_interval_ms (cfg s))\<rparr>)))"

section \<open>Sending it\<close>

definition PrepareSnapshotForPeer :: "Env \<Rightarrow> NodeId \<Rightarrow> RaftNode \<Rightarrow> RaftNode" where
  "PrepareSnapshotForPeer env peer s0 =
     (let s = s0\<lparr>snapshot_in_progress := False\<rparr> in
      case env_create_snapshot env of
        None \<Rightarrow> s
      | Some snap \<Rightarrow>
        (case snapshot_sends s peer of
           None \<Rightarrow> s
         | Some st \<Rightarrow>
           if \<not> IsRunning s \<or> role s \<noteq> LEADER then set_send peer (st\<lparr>ss_in_progress := False\<rparr>) s
           else if ss_snapshot st \<noteq> None then s
           else case next_index s peer of
                  None \<Rightarrow> set_send peer (st\<lparr>ss_in_progress := False\<rparr>) s
                | Some n \<Rightarrow>
                    if GetFirstIndex (raft_log s) \<le> n then set_send peer (st\<lparr>ss_in_progress := False\<rparr>) s
                    else SendNextSnapshotChunkLocked env peer
                           (set_send peer (st\<lparr>ss_snapshot := Some snap, ss_offset := 0,
                              ss_last_included_index := u32 (snap_index snap),
                              ss_last_included_term := u32 (snap_term snap), ss_in_progress := True\<rparr>) s)))"

definition OnRetrySnapshotChunk :: "Env \<Rightarrow> NodeId \<Rightarrow> RaftNode \<Rightarrow> RaftNode" where
  "OnRetrySnapshotChunk env peer s =
     (if role s = LEADER then SendNextSnapshotChunkLocked env peer s else s)"

definition HandleInstallSnapshotResponse ::
  "Env \<Rightarrow> NodeId \<Rightarrow> InstallSnapshotResponse \<Rightarrow> bool \<Rightarrow> RaftNode \<Rightarrow> RaftNode option" where
  "HandleInstallSnapshotResponse env peer resp rpc_success s =
     (if \<not> IsRunning s then Some s
      else if role s \<noteq> LEADER then Some s
      else if current_term s < isr_term resp then BecomeFollowerLocked env (isr_term resp) s
      else case snapshot_sends s peer of
             None \<Rightarrow> Some s
           | Some st \<Rightarrow>
             if \<not> rpc_success
             then Some (emit (SetTimeout 100 (RetrySnapshotChunk peer)) (set_send peer (st\<lparr>ss_in_progress := False\<rparr>) s))
             else if ss_last_chunk_size st < kSnapshotChunkSize
             then TryCommitLocked env
                    ((set_progress peer (ss_last_included_index st) (u32_add (ss_last_included_index st) 1) s)
                       \<lparr>snapshot_sends := (snapshot_sends s)(peer := None)\<rparr>)
             else Some (SendNextSnapshotChunkLocked env peer
                    (set_send peer (st\<lparr>ss_offset := ss_offset st + ss_last_chunk_size st, ss_in_progress := True\<rparr>) s)))"

section \<open>Receiving it\<close>

text \<open>Phase 1; \<open>False\<close> marks the early returns.\<close>

definition install_election_phase ::
  "Env \<Rightarrow> InstallSnapshotRequest \<Rightarrow> RaftNode \<Rightarrow> (bool \<times> InstallSnapshotResponse \<times> RaftNode) option" where
  "install_election_phase env req s =
     (let resp = \<lparr>isr_term = current_term s\<rparr> in
      if \<not> IsVoter (cluster_config s) (is_leader_id req) then Some (False, resp, s)
      else if is_term req < current_term s then Some (False, resp, s)
      else case (if current_term s < is_term req then BecomeFollowerLocked env (is_term req) s else Some s) of
             None \<Rightarrow> None
           | Some s1 \<Rightarrow>
             let s2 = s1\<lparr>leader_id := is_leader_id req\<rparr>;
                 s3 = (case map_of (peer_map s2) (leader_id s2) of
                         None \<Rightarrow> s2
                       | Some addr \<Rightarrow> s2\<lparr>leader_addr := addr\<rparr>)
             in Some (True, \<lparr>isr_term = current_term s1\<rparr>, ResetElectionTimerLocked env s3))"

definition temp_path :: "Index \<Rightarrow> Term \<Rightarrow> RaftNode \<Rightarrow> string" where
  "temp_path idx trm s =
     (if nc_data_dir (config s) = [] then ''/tmp'' else nc_data_dir (config s)) @ ''/rollingraft_snapshot_'' @
     to_string (server_id s) @ ''_g'' @ to_string (int (group_id s)) @ ''_'' @
     to_string (int idx) @ ''_'' @ to_string (int trm)"

definition drop_transfer :: "RaftNode \<Rightarrow> RaftNode" where
  "drop_transfer s =
     s\<lparr>temp_files := (if snapshot_temp_path s = [] then temp_files s
                      else (temp_files s)(snapshot_temp_path s := None)),
       snapshot_temp_path := [], snapshot_recv_index := 0, snapshot_recv_term := 0,
       snapshot_recv_expected_offset := 0\<rparr>"

text \<open>
  Phase 2: where the chunk goes, \<^const>\<open>None\<close> when it is dropped; then the append, and for the last chunk
  the path, index and term handed to the restore.
\<close>

definition place_chunk :: "Env \<Rightarrow> InstallSnapshotRequest \<Rightarrow> RaftNode \<Rightarrow> bool \<times> RaftNode" where
  "place_chunk env req s =
     (if is_offset req = 0
      then if snapshot_restore_in_progress s then (False, s)
           else let s1 = s\<lparr>snapshot_recv_index := is_last_included_index req,
                           snapshot_recv_term := is_last_included_term req,
                           snapshot_recv_expected_offset := 0, 
                           snapshot_temp_path := temp_path (is_last_included_index req) (is_last_included_term req) s\<rparr>
                in if \<not> env_file_ok env then (False, s1)
                   else (True, s1\<lparr>temp_files := (temp_files s1)(snapshot_temp_path s1 \<mapsto> [])\<rparr>)
      else if snapshot_temp_path s = [] \<or> is_last_included_index req \<noteq> snapshot_recv_index s \<or>
              is_last_included_term req \<noteq> snapshot_recv_term s \<or>
              is_offset req \<noteq> snapshot_recv_expected_offset s
      then (False, drop_transfer s)
      else (True, s))"

definition file_data :: "RaftNode \<Rightarrow> string \<Rightarrow> string" where
  "file_data s path = (case temp_files s path of None \<Rightarrow> [] | Some d \<Rightarrow> d)"

definition install_chunk ::
  "Env \<Rightarrow> InstallSnapshotRequest \<Rightarrow> RaftNode \<Rightarrow> (string \<times> Index \<times> Term) option \<times> RaftNode" where
  "install_chunk env req s =
     (case place_chunk env req s of
        (False, s1) \<Rightarrow> (None, s1)
      | (True, s1) \<Rightarrow>
        if \<not> env_file_ok env then (None, s1)
        else let path = snapshot_temp_path s1;
                 s2 = s1\<lparr>temp_files := (temp_files s1)(path \<mapsto> file_data s1 path @ is_data req),
                         snapshot_recv_expected_offset :=
                           u64_add (snapshot_recv_expected_offset s1) (length (is_data req))\<rparr>
             in if is_done req
                then (Some (path, is_last_included_index req, is_last_included_term req),
                      s2\<lparr>snapshot_recv_index := 0, snapshot_recv_term := 0, snapshot_recv_expected_offset := 0,
                         snapshot_temp_path := [], snapshot_restore_in_progress := True\<rparr>)
                else (None, s2))"

text \<open>Phase 2c: the in-memory state moves to the snapshot unless something newer is there.\<close>

definition install_apply :: "Index \<Rightarrow> Term \<Rightarrow> RaftNode \<Rightarrow> RaftNode" where
  "install_apply idx trm s =
     (if idx \<le> last_snapshot_index s then s
      else if idx < commit_index s then s
      else let s1 = s\<lparr>raft_log := SetStartIndex (u32_add idx 1) (raft_log s),
                      last_snapshot_index := idx, last_snapshot_term := trm\<rparr>;
               s2 = (if has_log_persister s1 then emit (LogTruncatePrefix (u32_add idx 1)) s1 else s1)
           in s2\<lparr>last_applied := idx, commit_index := idx, apply_queue := [], last_enqueued := idx\<rparr>)"

definition PersistSnapshotFile :: "Env \<Rightarrow> string \<Rightarrow> Index \<Rightarrow> Term \<Rightarrow> RaftNode \<Rightarrow> RaftNode" where
  "PersistSnapshotFile env path idx trm s =
     (if \<not> has_persister s then s else emit (SaveSnapshot idx trm (file_data s path)) s)"

definition RestoreFromSnapshotFile :: "Env \<Rightarrow> string \<Rightarrow> RaftNode \<Rightarrow> bool \<times> RaftNode" where
  "RestoreFromSnapshotFile env path s =
     (env_restore_ok env (file_data s path), emit (RestoreStateMachine (file_data s path)) s)"

definition install_finish :: "Env \<Rightarrow> string \<times> Index \<times> Term \<Rightarrow> RaftNode \<Rightarrow> RaftNode" where
  "install_finish env job s =
     (let (path, idx, trm) = job;
          (restored, s1) = RestoreFromSnapshotFile env path s;
          clean = (\<lambda>s. s\<lparr>temp_files := (temp_files s)(path := None), snapshot_restore_in_progress := False\<rparr>)
      in if \<not> restored then clean s1
         else let s2 = (if idx \<le> last_snapshot_index s1 then s1 else PersistSnapshotFile env path idx trm s1)
              in clean (install_apply idx trm s2))"

definition HandleInstallSnapshot ::
  "Env \<Rightarrow> InstallSnapshotRequest \<Rightarrow> RaftNode \<Rightarrow> (InstallSnapshotResponse \<times> RaftNode) option" where
  "HandleInstallSnapshot env req s =
     (case install_election_phase env req s of
        None \<Rightarrow> None
      | Some (False, resp, s1) \<Rightarrow> Some (resp, s1)
      | Some (True, resp, s1) \<Rightarrow>
        (case install_chunk env req s1 of
           (None, s2) \<Rightarrow> Some (resp, s2)
         | (Some job, s2) \<Rightarrow> Some (resp, install_finish env job s2)))"

section \<open>What it leaves alone\<close>

lemma quiet_SendNext [simp]: "quiet s t \<Longrightarrow> quiet s (SendNextSnapshotChunkLocked env p t)"
  by (auto simp: SendNextSnapshotChunkLocked_def Let_def set_send_def take_correlation_id_def split: option.split)

lemma quiet_set_send [simp]: "quiet s (set_send p st t) = quiet s t"
  by (simp add: set_send_def)

lemma quiet_CreateAndPersist [simp]: "quiet s t \<Longrightarrow> quiet s (snd (CreateAndPersistSnapshot env t))"
  by (simp add: CreateAndPersistSnapshot_def Let_def split: option.split)

lemma quiet_ApplySnapshot [simp]: "quiet s t \<Longrightarrow> quiet s (snd (ApplySnapshotLocked i k t))"
  by (simp add: ApplySnapshotLocked_def Let_def)

lemma quiet_create_apply:
  "quiet s t \<Longrightarrow> quiet s (snd (case CreateAndPersistSnapshot env t of
      (Inl status, s1) \<Rightarrow> (status, s1) | (Inr (idx, trm), s1) \<Rightarrow> ApplySnapshotLocked idx trm s1))"
  using quiet_CreateAndPersist [of s t env] by (cases "CreateAndPersistSnapshot env t") (auto split: sum.split)

lemma quiet_RunAutoSnapshot [simp]: "quiet s t \<Longrightarrow> quiet s (snd (RunAutoSnapshotIfNeeded env t))"
  by (simp add: RunAutoSnapshotIfNeeded_def quiet_create_apply)

lemma quiet_TriggerSnapshot: "quiet s (snd (TriggerSnapshot env s))"
  by (simp add: TriggerSnapshot_def quiet_create_apply)

lemma quiet_CheckSnapshotTimeout: "quiet s (CheckSnapshotTimeoutLocked env s)"
  by (simp add: CheckSnapshotTimeoutLocked_def)

lemma quiet_PrepareSnapshot: "quiet s (PrepareSnapshotForPeer env p s)"
  by (auto simp: PrepareSnapshotForPeer_def Let_def split: option.split)

lemma quiet_OnRetrySnapshotChunk: "quiet s (OnRetrySnapshotChunk env p s)"
  by (simp add: OnRetrySnapshotChunk_def)

lemma quiet_drop_transfer [simp]: "quiet s (drop_transfer t) = quiet s t"
  by (simp add: drop_transfer_def)

lemma quiet_place_chunk [simp]: "quiet s t \<Longrightarrow> quiet s (snd (place_chunk env req t))"
  by (simp add: place_chunk_def Let_def)

lemma quiet_install_chunk: "quiet s t \<Longrightarrow> quiet s (snd (install_chunk env req t))"
  using quiet_place_chunk [of s t env req]
  by (cases "place_chunk env req t") (auto simp: install_chunk_def Let_def split: bool.split)

lemma quiet_install_finish: "quiet s t \<Longrightarrow> quiet s (install_finish env job t)"
  by (cases job) (simp add: install_finish_def RestoreFromSnapshotFile_def PersistSnapshotFile_def install_apply_def Let_def)

lemma install_election_phase_cases:
  assumes "install_election_phase env req s = Some (go, resp, s')"
  obtains "\<not> go" and "s' = s" and "isr_term resp = current_term s"
  | t a where "go" and "is_term req \<ge> current_term s" and "IsVoter (cluster_config s) (is_leader_id req)"
      and "(if current_term s < is_term req then BecomeFollowerLocked env (is_term req) s else Some s) = Some t"
      and "s' = ResetElectionTimerLocked env (t\<lparr>leader_id := is_leader_id req, leader_addr := a\<rparr>)"
      and "isr_term resp = current_term t"
proof (cases "IsVoter (cluster_config s) (is_leader_id req) \<and> current_term s \<le> is_term req")
  case False
  then show thesis using assms that(1) by (auto simp: install_election_phase_def Let_def split: if_splits)
next
  case True
  then obtain t where t: "(if current_term s < is_term req then BecomeFollowerLocked env (is_term req) s else Some s) = Some t"
    using assms by (auto simp: install_election_phase_def Let_def split: option.splits)
  define a where "a = (case map_of (peer_map t) (is_leader_id req) of None \<Rightarrow> leader_addr t | Some x \<Rightarrow> x)"
  have "(case map_of (peer_map t) (is_leader_id req) of None \<Rightarrow> t\<lparr>leader_id := is_leader_id req\<rparr>
      | Some addr \<Rightarrow> t\<lparr>leader_id := is_leader_id req, leader_addr := addr\<rparr>) =
    t\<lparr>leader_id := is_leader_id req, leader_addr := a\<rparr>"
    by (simp add: a_def split: option.split)
  then show thesis
    using assms True t by (intro that(2) [of t a]) (auto simp: install_election_phase_def Let_def not_less)
qed

lemma install_election_phase_outcome:
  assumes "install_election_phase env req s = Some (go, resp, s')"
  shows "recedes s s'" "log_view s' = log_view s"
  using assms
proof (atomize (full), cases rule: install_election_phase_cases)
  case (2 t a)
  have "recedes s t \<and> log_view t = log_view s"
    using 2(2,4) BecomeFollower_recedes(1) [of env "is_term req" False True s t]
      log_view_BecomeFollower [of env "is_term req" False True s t]
    by (auto simp: BecomeFollowerLocked_def split: if_splits)
  then show "recedes s s' \<and> log_view s' = log_view s"
    using recedes_quiet [of s "t\<lparr>leader_id := is_leader_id req, leader_addr := a\<rparr>" s'] 2(5) by simp
qed simp

lemma HandleInstallSnapshot_cases:
  assumes "HandleInstallSnapshot env req s = Some (resp, s')"
  obtains go s1 where "install_election_phase env req s = Some (go, resp, s1)"
    and "s' = (if go then (case install_chunk env req s1 of (None, s2) \<Rightarrow> s2 | (Some job, s2) \<Rightarrow> install_finish env job s2) else s1)"
proof -
  obtain go r s1 where p: "install_election_phase env req s = Some (go, r, s1)"
    using assms by (auto simp: HandleInstallSnapshot_def split: option.splits)
  show thesis
  proof (cases go)
    case True
    obtain job s2 where c: "install_chunk env req s1 = (job, s2)" by fastforce
    show thesis
      using assms p c True by (intro that [of go s1]) (cases job; simp add: HandleInstallSnapshot_def)+
  next
    case False
    then show thesis using assms p by (intro that [of go s1]) (simp_all add: HandleInstallSnapshot_def)
  qed
qed

lemma HandleInstallSnapshot_recedes:
  assumes "HandleInstallSnapshot env req s = Some (resp, s')"
  shows "recedes s s'"
proof -
  obtain go s1 where p: "install_election_phase env req s = Some (go, resp, s1)"
    and s': "s' = (if go then (case install_chunk env req s1 of (None, s2) \<Rightarrow> s2 | (Some job, s2) \<Rightarrow> install_finish env job s2) else s1)"
    using HandleInstallSnapshot_cases [OF assms] .
  have "quiet s1 s'"
    using quiet_install_chunk [of s1 s1 env req] s'
    by (cases "install_chunk env req s1") (auto intro: quiet_install_finish split: option.splits)
  then show ?thesis using install_election_phase_outcome(1) [OF p] by (blast intro: recedes_quiet)
qed

lemma HandleInstallSnapshotResponse_recedes:
  assumes "HandleInstallSnapshotResponse env p resp rpc s = Some s'"
  shows "recedes s s'"
proof -
  have "quiet s s'" if "\<not> current_term s < isr_term resp"
  proof (cases "snapshot_sends s p")
    case None
    then show ?thesis using assms that by (simp add: HandleInstallSnapshotResponse_def split: if_splits)
  next
    case (Some st)
    show ?thesis
    proof (cases "IsRunning s \<and> role s = LEADER \<and> rpc \<and> ss_last_chunk_size st < kSnapshotChunkSize")
      case True
      then show ?thesis using assms that Some by (simp add: HandleInstallSnapshotResponse_def) (erule quiet_TryCommit, simp)
    next
      case False
      then show ?thesis using assms that Some by (auto simp: HandleInstallSnapshotResponse_def split: if_splits)
    qed
  qed
  then have "BecomeFollowerLocked env (isr_term resp) s = Some s' \<and> current_term s < isr_term resp \<or> quiet s s'"
    using assms by (auto simp: HandleInstallSnapshotResponse_def split: if_splits)
  then show ?thesis
    using BecomeFollower_recedes(1) [of env "isr_term resp" False True s s'] quiet_recedes [of s s']
    by (auto simp: BecomeFollowerLocked_def)
qed

section \<open>Installing\<close>

definition install_view :: "RaftNode \<Rightarrow> nat \<times> NodeId \<times> Term \<times> RaftNodeRole \<times> ClusterConfig \<times> RaftNodeConfig \<times> RaftLog \<times> Index \<times> Term \<times> Index \<times> bool \<times> bool \<times> Index" where
  "install_view s = (group_id s, server_id s, current_term s, role s, cluster_config s, config s, raft_log s, last_snapshot_index s, last_snapshot_term s, commit_index s, has_persister s, has_log_persister s, last_applied s)"

lemma install_view_upd [simp]:
  "install_view (s\<lparr>runtime_config := x0\<rparr>) = install_view s"
  "install_view (s\<lparr>peer_addrs := x1\<rparr>) = install_view s"
  "install_view (s\<lparr>peer_map := x2\<rparr>) = install_view s"
  "install_view (s\<lparr>voted_for := x3\<rparr>) = install_view s"
  "install_view (s\<lparr>flushed_index := x4\<rparr>) = install_view s"
  "install_view (s\<lparr>leader_id := x5\<rparr>) = install_view s"
  "install_view (s\<lparr>leader_addr := x6\<rparr>) = install_view s"
  "install_view (s\<lparr>vote_count := x7\<rparr>) = install_view s"
  "install_view (s\<lparr>votes_received := x8\<rparr>) = install_view s"
  "install_view (s\<lparr>pre_votes_received := x9\<rparr>) = install_view s"
  "install_view (s\<lparr>next_index := x10\<rparr>) = install_view s"
  "install_view (s\<lparr>match_index := x11\<rparr>) = install_view s"
  "install_view (s\<lparr>client_sessions := x12\<rparr>) = install_view s"
  "install_view (s\<lparr>session_manager := x13\<rparr>) = install_view s"
  "install_view (s\<lparr>proposal_sessions := x14\<rparr>) = install_view s"
  "install_view (s\<lparr>retry_state := x15\<rparr>) = install_view s"
  "install_view (s\<lparr>inflight := x16\<rparr>) = install_view s"
  "install_view (s\<lparr>last_heartbeat_sent := x17\<rparr>) = install_view s"
  "install_view (s\<lparr>leader_lease_expiry := x18\<rparr>) = install_view s"
  "install_view (s\<lparr>pre_vote_count := x19\<rparr>) = install_view s"
  "install_view (s\<lparr>pre_vote_running := x20\<rparr>) = install_view s"
  "install_view (s\<lparr>pre_vote_term := x21\<rparr>) = install_view s"
  "install_view (s\<lparr>check_quorum_enabled := x22\<rparr>) = install_view s"
  "install_view (s\<lparr>pre_vote_enabled := x23\<rparr>) = install_view s"
  "install_view (s\<lparr>has_leader_contact := x24\<rparr>) = install_view s"
  "install_view (s\<lparr>last_leader_contact := x25\<rparr>) = install_view s"
  "install_view (s\<lparr>quorum_acks := x26\<rparr>) = install_view s"
  "install_view (s\<lparr>quiesced := x27\<rparr>) = install_view s"
  "install_view (s\<lparr>last_activity_time := x28\<rparr>) = install_view s"
  "install_view (s\<lparr>consecutive_quiesced_timeouts := x29\<rparr>) = install_view s"
  "install_view (s\<lparr>last_contact_time := x30\<rparr>) = install_view s"
  "install_view (s\<lparr>pending_config_change := x31\<rparr>) = install_view s"
  "install_view (s\<lparr>election_timer_enabled := x32\<rparr>) = install_view s"
  "install_view (s\<lparr>election_deadline := x33\<rparr>) = install_view s"
  "install_view (s\<lparr>heartbeat_timer_enabled := x34\<rparr>) = install_view s"
  "install_view (s\<lparr>heartbeat_deadline := x35\<rparr>) = install_view s"
  "install_view (s\<lparr>snapshot_check_timer_enabled := x36\<rparr>) = install_view s"
  "install_view (s\<lparr>snapshot_check_deadline := x37\<rparr>) = install_view s"
  "install_view (s\<lparr>snapshot_sends := x38\<rparr>) = install_view s"
  "install_view (s\<lparr>snapshot_temp_path := x39\<rparr>) = install_view s"
  "install_view (s\<lparr>snapshot_recv_index := x40\<rparr>) = install_view s"
  "install_view (s\<lparr>snapshot_recv_term := x41\<rparr>) = install_view s"
  "install_view (s\<lparr>snapshot_recv_expected_offset := x42\<rparr>) = install_view s"
  "install_view (s\<lparr>snapshot_restore_in_progress := x43\<rparr>) = install_view s"
  "install_view (s\<lparr>pending_proposals := x44\<rparr>) = install_view s"
  "install_view (s\<lparr>apply_queue := x45\<rparr>) = install_view s"
  "install_view (s\<lparr>apply_running := x46\<rparr>) = install_view s"
  "install_view (s\<lparr>last_enqueued := x47\<rparr>) = install_view s"
  "install_view (s\<lparr>pending_reads := x48\<rparr>) = install_view s"
  "install_view (s\<lparr>next_read_id := x49\<rparr>) = install_view s"
  "install_view (s\<lparr>has_role_change_callback := x50\<rparr>) = install_view s"
  "install_view (s\<lparr>has_leader_change_callback := x51\<rparr>) = install_view s"
  "install_view (s\<lparr>durable := x52\<rparr>) = install_view s"
  "install_view (s\<lparr>state := x53\<rparr>) = install_view s"
  "install_view (s\<lparr>next_correlation_id := x54\<rparr>) = install_view s"
  "install_view (s\<lparr>snapshot_in_progress := x55\<rparr>) = install_view s"
  "install_view (s\<lparr>temp_files := x56\<rparr>) = install_view s"
  "install_view (s\<lparr>out := x57\<rparr>) = install_view s"
  by (simp_all add: install_view_def)

lemma install_view_eqD:
  assumes "install_view s' = install_view s"
  shows "group_id s' = group_id s" "server_id s' = server_id s" "current_term s' = current_term s" "role s' = role s" "cluster_config s' = cluster_config s" "config s' = config s" "raft_log s' = raft_log s" "last_snapshot_index s' = last_snapshot_index s" "last_snapshot_term s' = last_snapshot_term s" "commit_index s' = commit_index s" "has_persister s' = has_persister s" "has_log_persister s' = has_log_persister s" "last_applied s' = last_applied s"
  using assms by (simp_all add: install_view_def)

lemma install_view_steps [simp]:
  "install_view (ResetElectionTimerLocked env s) = install_view s" "install_view (emit e s) = install_view s"
  "install_view (drop_transfer s) = install_view s"
  by (simp_all add: ResetElectionTimerLocked_def CancelElectionTimerLocked_def Let_def drop_transfer_def emit_def)

lemma install_view_place [simp]: "install_view (snd (place_chunk env req s)) = install_view s"
  by (simp add: place_chunk_def Let_def)

lemma install_view_chunk [simp]: "install_view (snd (install_chunk env req s)) = install_view s"
  using install_view_place [of env req s]
  by (cases "place_chunk env req s") (auto simp: install_chunk_def Let_def split: bool.split)

text \<open>What \<open>install_finish\<close> does to the indexes.\<close>

lemma install_finish_indexes:
  "commit_index (install_finish env (path, idx, trm) s) =
     (if env_restore_ok env (file_data s path) \<and> last_snapshot_index s < idx \<and> commit_index s \<le> idx then idx else commit_index s)"
  "last_snapshot_index (install_finish env (path, idx, trm) s) =
     (if env_restore_ok env (file_data s path) \<and> last_snapshot_index s < idx \<and> commit_index s \<le> idx then idx
      else last_snapshot_index s)"
  "last_applied (install_finish env (path, idx, trm) s) =
     (if env_restore_ok env (file_data s path) \<and> last_snapshot_index s < idx \<and> commit_index s \<le> idx then idx else last_applied s)"
  "raft_log (install_finish env (path, idx, trm) s) =
     (if env_restore_ok env (file_data s path) \<and> last_snapshot_index s < idx \<and> commit_index s \<le> idx
      then SetStartIndex (u32_add idx 1) (raft_log s) else raft_log s)"
  "RestoreStateMachine (file_data s path) \<in> set (out (install_finish env (path, idx, trm) s))"
  "env_restore_ok env (file_data s path) \<Longrightarrow> last_snapshot_index s < idx \<Longrightarrow> has_persister s \<Longrightarrow>
     SaveSnapshot idx trm (file_data s path) \<in> set (out (install_finish env (path, idx, trm) s))"
  "\<not> snapshot_restore_in_progress (install_finish env (path, idx, trm) s)"
  by (simp_all add: install_finish_def RestoreFromSnapshotFile_def PersistSnapshotFile_def install_apply_def Let_def
      file_data_def emit_def)

text \<open>A follower that has the first bytes \<open>d\<close> of a snapshot.\<close>

definition receiving :: "Index \<Rightarrow> Term \<Rightarrow> string \<Rightarrow> RaftNode \<Rightarrow> bool" where
  "receiving idx trm d s =
     (if d = [] then \<not> snapshot_restore_in_progress s
      else snapshot_temp_path s = temp_path idx trm s \<and> snapshot_recv_index s = idx \<and> snapshot_recv_term s = trm \<and>
           snapshot_recv_expected_offset s = length d \<and> temp_files s (temp_path idx trm s) = Some d)"

lemma temp_path_nonempty [simp]: "temp_path idx trm s \<noteq> []"
  by (simp add: temp_path_def)

lemma temp_path_view: "install_view s' = install_view s \<Longrightarrow> temp_path idx trm s' = temp_path idx trm s"
  using install_view_eqD [of s' s] by (simp add: temp_path_def)

lemma temp_path_upd [simp]:
  "temp_path idx trm (s\<lparr>temp_files := f\<rparr>) = temp_path idx trm s"
  "temp_path idx trm (s\<lparr>snapshot_recv_expected_offset := n\<rparr>) = temp_path idx trm s"
  by (simp_all add: temp_path_def)

lemma place_chunk_receiving:
  assumes "receiving idx trm d s" and "env_file_ok env" and "is_offset req = length d"
    and "is_last_included_index req = idx" and "is_last_included_term req = trm"
  obtains s' where "place_chunk env req s = (True, s')" and "install_view s' = install_view s"
    and "snapshot_temp_path s' = temp_path idx trm s" and "snapshot_recv_index s' = idx" and "snapshot_recv_term s' = trm"
    and "snapshot_recv_expected_offset s' = length d" and "file_data s' (temp_path idx trm s) = d"
proof (cases "d = []")
  case True
  with assms show thesis by (intro that [of "snd (place_chunk env req s)"]) (simp_all add: place_chunk_def receiving_def Let_def file_data_def)
next
  case False
  with assms show thesis by (intro that [of s]) (simp_all add: place_chunk_def receiving_def Let_def file_data_def)
qed

lemma install_chunk_receiving:
  assumes "receiving idx trm d s" and "env_file_ok env" and "is_offset req = length d"
    and "is_last_included_index req = idx" and "is_last_included_term req = trm"
    and "length d + length (is_data req) < U64"
  shows "\<not> is_done req \<Longrightarrow> is_data req \<noteq> [] \<Longrightarrow>
      \<exists>s'. install_chunk env req s = (None, s') \<and> receiving idx trm (d @ is_data req) s'"
    and "is_done req \<Longrightarrow> \<exists>s'. install_chunk env req s = (Some (temp_path idx trm s, idx, trm), s') \<and>
      file_data s' (temp_path idx trm s) = d @ is_data req"
proof -
  obtain s' where p: "place_chunk env req s = (True, s')" "install_view s' = install_view s"
    and f: "snapshot_temp_path s' = temp_path idx trm s" "snapshot_recv_index s' = idx" "snapshot_recv_term s' = trm"
      "snapshot_recv_expected_offset s' = length d" "file_data s' (temp_path idx trm s) = d"
    using place_chunk_receiving [OF assms(1-5)] .
  note t = temp_path_view [OF p(2)]
  show "\<exists>s'. install_chunk env req s = (None, s') \<and> receiving idx trm (d @ is_data req) s'"
    if "\<not> is_done req" "is_data req \<noteq> []"
    using p(1) f t assms(2,6) that
    by (simp add: install_chunk_def Let_def receiving_def u64_add_def)
  show "\<exists>s'. install_chunk env req s = (Some (temp_path idx trm s, idx, trm), s') \<and>
      file_data s' (temp_path idx trm s) = d @ is_data req" if "is_done req"
    using p(1) f assms(2,4,5) that by (simp add: install_chunk_def Let_def) (simp add: file_data_def)
qed

text \<open>Delivered by the leader of the node's own term, the chunk is taken as it is.\<close>

definition from_leader :: "InstallSnapshotRequest \<Rightarrow> RaftNode \<Rightarrow> bool" where
  "from_leader req s \<longleftrightarrow> IsVoter (cluster_config s) (is_leader_id req) \<and> is_term req = current_term s"

lemma install_phase_from_leader:
  assumes "from_leader req s"
  obtains s' where "install_election_phase env req s = Some (True, \<lparr>isr_term = current_term s\<rparr>, s')"
    and "install_view s' = install_view s" and "receiving idx trm d s' = receiving idx trm d s"
proof -
  define t where "t = ResetElectionTimerLocked env (case map_of (peer_map s) (is_leader_id req) of
      None \<Rightarrow> s\<lparr>leader_id := is_leader_id req\<rparr> | Some a \<Rightarrow> s\<lparr>leader_id := is_leader_id req, leader_addr := a\<rparr>)"
  have "install_election_phase env req s = Some (True, \<lparr>isr_term = current_term s\<rparr>, t)"
    using assms by (simp add: install_election_phase_def from_leader_def t_def Let_def)
  moreover have "install_view t = install_view s" by (simp add: t_def split: option.split)
  moreover from temp_path_view [OF this] have "receiving idx trm d t = receiving idx trm d s"
    by (simp add: receiving_def)
      (simp add: t_def ResetElectionTimerLocked_def CancelElectionTimerLocked_def Let_def split: option.split)
  ultimately show thesis by (rule that)
qed

section \<open>A whole transfer\<close>

text \<open>
  The message a leader has just sent, and \<open>n\<close> rounds of a transfer: the chunk is delivered to the
  follower, and the follower's answer to the leader, which sends the next chunk.
\<close>

definition last_chunk :: "RaftNode \<Rightarrow> InstallSnapshotRequest option" where
  "last_chunk s =
     (if out s = [] then None
      else case last (out s) of SendRpc _ _ (InstallSnapshot req) _ _ \<Rightarrow> Some req | _ \<Rightarrow> None)"

definition exchange :: "Env \<Rightarrow> Env \<Rightarrow> NodeId \<Rightarrow> RaftNode \<Rightarrow> RaftNode \<Rightarrow> (RaftNode \<times> RaftNode) option" where
  "exchange le fe peer l f =
     (case last_chunk l of
        None \<Rightarrow> None
      | Some req \<Rightarrow>
        (case HandleInstallSnapshot fe req f of
           None \<Rightarrow> None
         | Some (resp, f1) \<Rightarrow>
             map_option (\<lambda>l1. (l1, f1)) (HandleInstallSnapshotResponse le peer resp True l)))"

fun exchanges :: "nat \<Rightarrow> Env \<Rightarrow> Env \<Rightarrow> NodeId \<Rightarrow> RaftNode \<Rightarrow> RaftNode \<Rightarrow> (RaftNode \<times> RaftNode) option" where
  "exchanges 0 le fe peer l f = Some (l, f)"
| "exchanges (Suc n) le fe peer l f =
     (case exchange le fe peer l f of None \<Rightarrow> None | Some (l1, f1) \<Rightarrow> exchanges n le fe peer l1 f1)"

text \<open>\<open>Snapshot::Read\<close> as \<open>state_machine.h\<close> documents it: short reads only at the end of the data.\<close>

definition serves :: "Snapshot \<Rightarrow> string \<Rightarrow> bool" where
  "serves snap data \<longleftrightarrow> (\<forall>off n. snap_read snap off n = take n (drop off data))"

text \<open>A leader ready to send the chunk at \<open>off\<close>, and one that waits for its answer.\<close>

definition ready_to_send :: "SnapshotSendState \<Rightarrow> NodeId \<Rightarrow> RaftNode \<Rightarrow> bool" where
  "ready_to_send st peer l \<longleftrightarrow> IsRunning l \<and> role l = LEADER \<and> map_of (peer_map l) peer \<noteq> None \<and>
     snapshot_sends l peer = Some st \<and> ss_in_progress st \<and> ss_snapshot st \<noteq> None"

definition chunk_sent :: "SnapshotSendState \<Rightarrow> NodeId \<Rightarrow> string \<Rightarrow> RaftNode \<Rightarrow> bool" where
  "chunk_sent st peer buf l \<longleftrightarrow> ready_to_send (st\<lparr>ss_last_chunk_size := length buf\<rparr>) peer l \<and>
     (\<exists>req. last_chunk l = Some req \<and> is_term req = current_term l \<and> is_leader_id req = server_id l \<and>
        is_last_included_index req = ss_last_included_index st \<and> is_last_included_term req = ss_last_included_term st \<and>
        is_offset req = u32 (ss_offset st) \<and> is_data req = buf \<and> is_done req = (length buf < kSnapshotChunkSize))"

lemma send_next_chunk:
  assumes "ready_to_send st peer l" and "ss_snapshot st = Some snap" and "\<And>m. env_serialize_ok env m"
  defines "l' \<equiv> SendNextSnapshotChunkLocked env peer l"
  shows "chunk_sent st peer (snap_read snap (ss_offset st) kSnapshotChunkSize) l'"
    and "current_term l' = current_term l" "server_id l' = server_id l"
  using assms
  by (auto simp: SendNextSnapshotChunkLocked_def ready_to_send_def chunk_sent_def Let_def set_send_def
      take_correlation_id_def emit_def last_chunk_def chunk_request_def IsRunning_def)

lemma next_chunk_answered:
  assumes "chunk_sent st peer buf l" and "ss_snapshot st = Some snap" and "\<And>m. env_serialize_ok env m"
    and "isr_term resp = current_term l" and "length buf = kSnapshotChunkSize"
  obtains l' where "HandleInstallSnapshotResponse env peer resp True l = Some l'"
    and "chunk_sent (st\<lparr>ss_last_chunk_size := kSnapshotChunkSize, ss_offset := ss_offset st + kSnapshotChunkSize, ss_in_progress := True\<rparr>) peer
           (snap_read snap (ss_offset st + kSnapshotChunkSize) kSnapshotChunkSize) l'"
    and "current_term l' = current_term l" "server_id l' = server_id l"
proof -
  let ?st = "st\<lparr>ss_last_chunk_size := kSnapshotChunkSize, ss_offset := ss_offset st + kSnapshotChunkSize, ss_in_progress := True\<rparr>"
  have r: "ready_to_send (st\<lparr>ss_last_chunk_size := kSnapshotChunkSize\<rparr>) peer l"
    using assms(1,5) by (simp add: chunk_sent_def)
  then have "HandleInstallSnapshotResponse env peer resp True l = Some (SendNextSnapshotChunkLocked env peer (set_send peer ?st l))"
    using r assms(4) by (simp add: HandleInstallSnapshotResponse_def ready_to_send_def)
  moreover have "ready_to_send ?st peer (set_send peer ?st l)"
    using r by (simp add: ready_to_send_def set_send_def IsRunning_def)
  note n = send_next_chunk [OF this, of snap env]
  ultimately show thesis
    using n assms(2,3)
    by (intro that [of "SendNextSnapshotChunkLocked env peer (set_send peer ?st l)"]) (simp_all add: set_send_def)
qed

lemma last_chunk_answered:
  assumes "chunk_sent st peer buf l" and "isr_term resp = current_term l" and "length buf < kSnapshotChunkSize"
  shows "HandleInstallSnapshotResponse env peer resp True l =
    TryCommitLocked env ((set_progress peer (ss_last_included_index st) (u32_add (ss_last_included_index st) 1) l)
      \<lparr>snapshot_sends := (snapshot_sends l)(peer := None)\<rparr>)"
  using assms by (simp add: HandleInstallSnapshotResponse_def chunk_sent_def ready_to_send_def)

lemma follower_takes_chunk:
  assumes "chunk_sent st peer buf l" and "last_chunk l = Some req" and "env_file_ok env"
    and "receiving (ss_last_included_index st) (ss_last_included_term st) d f" and "ss_offset st = length d"
    and "length d + length buf < U32"
    and "IsVoter (cluster_config f) (server_id l)" and "current_term f = current_term l"
  defines "path \<equiv> temp_path (ss_last_included_index st) (ss_last_included_term st) f"
  shows "length buf = kSnapshotChunkSize \<Longrightarrow>
      \<exists>f'. HandleInstallSnapshot env req f = Some (\<lparr>isr_term = current_term l\<rparr>, f') \<and> install_view f' = install_view f \<and>
        receiving (ss_last_included_index st) (ss_last_included_term st) (d @ buf) f'"
    and "length buf < kSnapshotChunkSize \<Longrightarrow>
      \<exists>f1. HandleInstallSnapshot env req f = Some (\<lparr>isr_term = current_term l\<rparr>,
          install_finish env (path, ss_last_included_index st, ss_last_included_term st) f1) \<and>
        install_view f1 = install_view f \<and> file_data f1 path = d @ buf"
proof -
  let ?idx = "ss_last_included_index st" and ?trm = "ss_last_included_term st"
  have req: "from_leader req f" "is_last_included_index req = ?idx" "is_last_included_term req = ?trm"
    "is_offset req = length d" "is_data req = buf" "is_done req = (length buf < kSnapshotChunkSize)"
    using assms(1,2,5-8) by (auto simp: chunk_sent_def from_leader_def u32_id)
  obtain f0 where p: "install_election_phase env req f = Some (True, \<lparr>isr_term = current_term f\<rparr>, f0)"
    "install_view f0 = install_view f" "receiving ?idx ?trm d f0 = receiving ?idx ?trm d f"
    using install_phase_from_leader [OF req(1)] .
  have "length d + length (is_data req) < U64" using assms(6) req(5) by (simp add: U32_def U64_def)
  note c = install_chunk_receiving [of ?idx ?trm d f0 env req, OF _ assms(3) req(4,2,3) this]
  have v: "install_view (snd (install_chunk env req f0)) = install_view f" using p(2) by simp
  show "\<exists>f'. HandleInstallSnapshot env req f = Some (\<lparr>isr_term = current_term l\<rparr>, f') \<and>
      install_view f' = install_view f \<and> receiving ?idx ?trm (d @ buf) f'"
    if len: "length buf = kSnapshotChunkSize"
  proof -
    have "buf \<noteq> []" "\<not> is_done req" using len req(6) by (auto simp: kSnapshotChunkSize_def)
    then obtain f' where "install_chunk env req f0 = (None, f')" "receiving ?idx ?trm (d @ buf) f'"
      using c(1) p(3) assms(4) req(5) by auto
    then show ?thesis using p(1) v assms(8) by (simp add: HandleInstallSnapshot_def)
  qed
  show "\<exists>f1. HandleInstallSnapshot env req f = Some (\<lparr>isr_term = current_term l\<rparr>, install_finish env (path, ?idx, ?trm) f1) \<and>
      install_view f1 = install_view f \<and> file_data f1 path = d @ buf"
    if len: "length buf < kSnapshotChunkSize"
  proof -
    obtain f1 where "install_chunk env req f0 = (Some (path, ?idx, ?trm), f1)" "file_data f1 path = d @ buf"
      using c(2) p(3) assms(4) req(5,6) len temp_path_view [OF p(2)] by (auto simp: path_def)
    then show ?thesis using p(1) v assms(8) by (intro exI [of _ f1]) (simp add: HandleInstallSnapshot_def)
  qed
qed

lemma exchange_step:
  assumes "chunk_sent st peer (take kSnapshotChunkSize (drop off data)) l" and "ss_snapshot st = Some snap" and "serves snap data"
    and "ss_offset st = off" and "off + kSnapshotChunkSize \<le> length data" and "length data < U32"
    and "receiving (ss_last_included_index st) (ss_last_included_term st) (take off data) f"
    and "env_file_ok fe" and "\<And>m. env_serialize_ok le m"
    and "IsVoter (cluster_config f) (server_id l)" and "current_term f = current_term l"
  obtains l' f' st' where "exchange le fe peer l f = Some (l', f')"
    and "chunk_sent st' peer (take kSnapshotChunkSize (drop (off + kSnapshotChunkSize) data)) l'"
    and "ss_snapshot st' = Some snap" "ss_offset st' = off + kSnapshotChunkSize"
    and "ss_last_included_index st' = ss_last_included_index st" "ss_last_included_term st' = ss_last_included_term st"
    and "receiving (ss_last_included_index st) (ss_last_included_term st) (take (off + kSnapshotChunkSize) data) f'"
    and "install_view f' = install_view f" and "current_term l' = current_term l" and "server_id l' = server_id l"
proof -
  let ?buf = "take kSnapshotChunkSize (drop off data)"
  obtain req where req: "last_chunk l = Some req" using assms(1) by (auto simp: chunk_sent_def)
  have len: "length ?buf = kSnapshotChunkSize" "ss_offset st = length (take off data)" using assms(4,5) by simp_all
  have "length (take off data) + length ?buf < U32" using assms(5,6) by simp
  from follower_takes_chunk(1) [OF assms(1) req assms(8,7) len(2) this assms(10,11) len(1)]
  obtain f' where f: "HandleInstallSnapshot fe req f = Some (\<lparr>isr_term = current_term l\<rparr>, f')" "install_view f' = install_view f"
    "receiving (ss_last_included_index st) (ss_last_included_term st) (take off data @ ?buf) f'" by blast
  obtain l' where l: "HandleInstallSnapshotResponse le peer \<lparr>isr_term = current_term l\<rparr> True l = Some l'"
    "chunk_sent (st\<lparr>ss_last_chunk_size := kSnapshotChunkSize, ss_offset := ss_offset st + kSnapshotChunkSize,
       ss_in_progress := True\<rparr>) peer (snap_read snap (ss_offset st + kSnapshotChunkSize) kSnapshotChunkSize) l'"
    "current_term l' = current_term l" "server_id l' = server_id l"
    using next_chunk_answered [OF assms(1,2,9) _ len(1), of "\<lparr>isr_term = current_term l\<rparr>"] by auto
  have "take off data @ ?buf = take (off + kSnapshotChunkSize) data" by (simp add: take_add)
  with f l req assms(2-4) show thesis
    by (intro that [of l' f' "st\<lparr>ss_last_chunk_size := kSnapshotChunkSize, ss_offset := ss_offset st + kSnapshotChunkSize,
       ss_in_progress := True\<rparr>"]) (simp_all add: exchange_def serves_def)
qed

lemma exchanges_reach:
  assumes "chunk_sent st peer (take kSnapshotChunkSize (drop off data)) l" and "ss_snapshot st = Some snap" and "serves snap data"
    and "ss_offset st = off" and "off + n * kSnapshotChunkSize \<le> length data" and "length data < U32"
    and "receiving (ss_last_included_index st) (ss_last_included_term st) (take off data) f"
    and "env_file_ok fe" and "\<And>m. env_serialize_ok le m"
    and "IsVoter (cluster_config f) (server_id l)" and "current_term f = current_term l"
  shows "\<exists>l' f' st'. exchanges n le fe peer l f = Some (l', f') \<and>
      chunk_sent st' peer (take kSnapshotChunkSize (drop (off + n * kSnapshotChunkSize) data)) l' \<and>
      ss_offset st' = off + n * kSnapshotChunkSize \<and>
      ss_last_included_index st' = ss_last_included_index st \<and> ss_last_included_term st' = ss_last_included_term st \<and>
      receiving (ss_last_included_index st) (ss_last_included_term st) (take (off + n * kSnapshotChunkSize) data) f' \<and>
      install_view f' = install_view f \<and> current_term l' = current_term l \<and> server_id l' = server_id l"
  using assms
proof (induction n arbitrary: off st l f)
  case 0
  then show ?case by auto
next
  case (Suc n)
  have le: "off + kSnapshotChunkSize \<le> length data" using Suc.prems(5) by simp
  obtain l1 f1 st1 where e: "exchange le fe peer l f = Some (l1, f1)"
    and c: "chunk_sent st1 peer (take kSnapshotChunkSize (drop (off + kSnapshotChunkSize) data)) l1"
      "ss_snapshot st1 = Some snap" "ss_offset st1 = off + kSnapshotChunkSize"
    and i: "ss_last_included_index st1 = ss_last_included_index st" "ss_last_included_term st1 = ss_last_included_term st"
    and r: "receiving (ss_last_included_index st) (ss_last_included_term st) (take (off + kSnapshotChunkSize) data) f1"
    and v: "install_view f1 = install_view f" "current_term l1 = current_term l" "server_id l1 = server_id l"
    using exchange_step [OF Suc.prems(1-4) le Suc.prems(6-11)] .
  have "off + kSnapshotChunkSize + n * kSnapshotChunkSize \<le> length data" using Suc.prems(5) by simp
  from Suc.IH [OF c(1,2) Suc.prems(3) c(3) this Suc.prems(6) r [folded i] Suc.prems(8,9)]
  show ?case using e i v Suc.prems(10,11) install_view_eqD(3,5) [OF v(1)] by (simp add: add.assoc)
qed

section \<open>Other facts\<close>

lemma read_snapshot_serves:
  assumes "serves snap data" and "off \<le> length data"
  shows "read_snapshot (snap_read snap) limit off =
    (if off = length data \<or> length data \<le> limit then Some (drop off data) else None)"
  using assms(2)
proof (induction "length data - off" arbitrary: off rule: less_induct)
  case less
  let ?c = "take kSnapshotChunkSize (drop off data)"
  have c: "snap_read snap off kSnapshotChunkSize = ?c" using assms(1) by (simp add: serves_def)
  have k: "0 < kSnapshotChunkSize" by (simp add: kSnapshotChunkSize_def)
  show ?case
  proof (cases "off = length data")
    case True
    then show ?thesis using c by (subst read_snapshot.simps) simp
  next
    case False
    with less.prems k have l: "length data - (off + length ?c) < length data - off" "off + length ?c \<le> length data" "?c \<noteq> []"
      by auto
    have d: "?c @ drop (off + length ?c) data = drop off data"
      using append_take_drop_id [of "length ?c" "drop off data"] by (simp add: add.commute min_def split: if_splits)
    show ?thesis
      using False l d c less.hyps [OF l(1,2)] by (subst read_snapshot.simps) (auto simp: Let_def)
  qed
qed

lemma install_view_from_leader_single:
  assumes "from_leader req s" and "is_offset req = 0" and "is_done req" and "\<not> snapshot_restore_in_progress s"
    and "env_file_ok env" and "length (is_data req) < U64"
  defines "idx \<equiv> is_last_included_index req" and "trm \<equiv> is_last_included_term req"
  obtains s1 where "HandleInstallSnapshot env req s =
      Some (\<lparr>isr_term = current_term s\<rparr>, install_finish env (temp_path idx trm s, idx, trm) s1)"
    and "install_view s1 = install_view s" and "file_data s1 (temp_path idx trm s) = is_data req"
proof -
  have r: "receiving idx trm [] s" using assms(4) by (simp add: receiving_def)
  obtain s0 where p: "install_election_phase env req s = Some (True, \<lparr>isr_term = current_term s\<rparr>, s0)"
    "install_view s0 = install_view s" "receiving idx trm [] s0 = receiving idx trm [] s"
    using install_phase_from_leader [OF assms(1)] .
  obtain s1 where "install_chunk env req s0 = (Some (temp_path idx trm s0, idx, trm), s1)"
    "file_data s1 (temp_path idx trm s0) = is_data req"
    using install_chunk_receiving(2) [OF p(3) [THEN iffD2, OF r] assms(5), of req] assms(2,3,6)
    by (auto simp: idx_def trm_def)
  then show thesis
    using p temp_path_view [OF p(2)] install_view_chunk [of env req s0]
    by (intro that [of s1]) (simp_all add: HandleInstallSnapshot_def)
qed

lemma CreateAndPersist_error:
  "CreateAndPersistSnapshot env s = (Inl e, s') \<Longrightarrow> e \<noteq> OK"
  by (auto simp: CreateAndPersistSnapshot_def Let_def ok_eq_OK split: option.splits if_splits)

lemma CreateAndPersist_ok:
  assumes "CreateAndPersistSnapshot env s = (Inr (idx, trm), s')"
    and "env_create_snapshot env = Some snap" and "serves snap data"
  shows "idx = u32 (snap_index snap)" "data = [] \<or> length data \<le> max_snapshot_size s"
    "raft_log s' = raft_log s" "last_snapshot_index s' = last_snapshot_index s"
    "has_persister s \<Longrightarrow> data \<noteq> [] \<Longrightarrow> SaveSnapshot idx trm data \<in> set (out s') \<and> ok (env_save_snapshot env idx trm data)"
  using assms(1,2) read_snapshot_serves [OF assms(3), of 0 "max_snapshot_size s"]
  by (auto simp: CreateAndPersistSnapshot_def Let_def emit_def split: option.splits if_splits)

lemma log_map_le_last:
  assumes "log_wf l" and "log_map l k = Some e"
  shows "k \<le> LastLogIndex l"
  using assms by (auto simp: LastLogIndex_wf log_map_def log_end_def split: if_splits)

text \<open>
  The retry armed when a chunk's RPC fails does nothing: the failure clears the flag without which
  \<open>SendNextSnapshotChunkLocked\<close> returns. The transfer resumes at the next heartbeat.
\<close>

lemma failed_chunk_retry_is_idle:
  assumes "HandleInstallSnapshotResponse env p resp False s = Some s'" and "isr_term resp \<le> current_term s"
    and "IsRunning s" and "role s = LEADER"
  shows "OnRetrySnapshotChunk env' p s' = s'"
proof (cases "snapshot_sends s p")
  case None
  then have "s' = s" using assms by (simp add: HandleInstallSnapshotResponse_def)
  then show ?thesis using None by (simp add: OnRetrySnapshotChunk_def SendNextSnapshotChunkLocked_def)
next
  case (Some st)
  then have "snapshot_sends s' p = Some (st\<lparr>ss_in_progress := False\<rparr>)"
    using assms by (auto simp: HandleInstallSnapshotResponse_def set_send_def emit_def)
  then show ?thesis by (simp add: OnRetrySnapshotChunk_def SendNextSnapshotChunkLocked_def split: option.split)
qed

section \<open>Properties\<close>

text \<open>
  C10: A snapshot sent in 64 KiB chunks arrives whole. Starting from a leader about to send the chunk at
  offset 0 to a follower of its term that is not restoring, after one round of chunk and answer for
  each full chunk the leader has sent a short last chunk; when that arrives the follower restores
  its state machine from exactly the bytes of the snapshot, saves them, and moves its snapshot, commit and
  applied indexes to the snapshot's; the answer makes the leader set the follower's progress to it.
\<close>

theorem snapshot_transfer_installs:
  assumes "ready_to_send st peer l" and "ss_snapshot st = Some snap" and "ss_offset st = 0"
    and "serves snap data" and "length data < U32" and "\<And>m. env_serialize_ok le m"
    and "env_file_ok fe" and "env_restore_ok fe data" and "\<not> snapshot_restore_in_progress f" and "has_persister f"
    and "IsVoter (cluster_config f) (server_id l)" and "current_term f = current_term l"
    and "ss_last_included_index st = idx" and "ss_last_included_term st = trm"
    and "last_snapshot_index f < idx" and "commit_index f \<le> idx"
  shows "\<exists>l' f' req f''.
      exchanges (length data div kSnapshotChunkSize) le fe peer (SendNextSnapshotChunkLocked le peer l) f = Some (l', f') \<and>
      last_chunk l' = Some req \<and> HandleInstallSnapshot fe req f' = Some (\<lparr>isr_term = current_term l\<rparr>, f'') \<and>
      RestoreStateMachine data \<in> set (out f'') \<and> SaveSnapshot idx trm data \<in> set (out f'') \<and>
      last_snapshot_index f'' = idx \<and> commit_index f'' = idx \<and> last_applied f'' = idx \<and>
      HandleInstallSnapshotResponse le peer \<lparr>isr_term = current_term l\<rparr> True l' =
        TryCommitLocked le ((set_progress peer idx (u32_add idx 1) l')\<lparr>snapshot_sends := (snapshot_sends l')(peer := None)\<rparr>)"
proof -
  let ?l = "SendNextSnapshotChunkLocked le peer l" and ?n = "length data div kSnapshotChunkSize"
  let ?off = "?n * kSnapshotChunkSize"
  have s: "chunk_sent st peer (take kSnapshotChunkSize (drop 0 data)) ?l" "current_term ?l = current_term l" "server_id ?l = server_id l"
    using send_next_chunk [OF assms(1,2,6)] assms(3,4) by (simp_all add: serves_def)
  have n: "0 + ?off \<le> length data" "length (drop ?off data) < kSnapshotChunkSize"
    using mod_less_divisor [of kSnapshotChunkSize "length data"] by (simp_all add: minus_div_mult_eq_mod kSnapshotChunkSize_def)
  have r: "receiving (ss_last_included_index st) (ss_last_included_term st) (take 0 data) f"
    using assms(9) by (simp add: receiving_def)
  obtain l' f' st' where e: "exchanges ?n le fe peer ?l f = Some (l', f')"
    and c: "chunk_sent st' peer (drop ?off data) l'" "ss_offset st' = ?off"
    and i: "ss_last_included_index st' = idx" "ss_last_included_term st' = trm" "receiving idx trm (take ?off data) f'"
    and v: "install_view f' = install_view f" "current_term l' = current_term l" "server_id l' = server_id l"
    using exchanges_reach [OF s(1) assms(2,4,3) n(1) assms(5) r assms(7,6)] n(2) s(2,3) assms(11-14) by auto
  obtain req where req: "last_chunk l' = Some req" using c(1) by (auto simp: chunk_sent_def)
  have m: "ss_offset st' = length (take ?off data)" "length (take ?off data) + length (drop ?off data) < U32"
    using c(2) n(1) assms(5) by simp_all
  define path where "path = temp_path idx trm f'"
  obtain f1 where f: "HandleInstallSnapshot fe req f' = Some (\<lparr>isr_term = current_term l\<rparr>, install_finish fe (path, idx, trm) f1)"
    "install_view f1 = install_view f'" "file_data f1 path = data"
    using follower_takes_chunk(2) [OF c(1) req assms(7) i(3) [folded i(1,2)] m _ _ n(2)]
      install_view_eqD(3,5) [OF v(1)] v(2,3) assms(11,12) by (auto simp: path_def i)
  have w: "last_snapshot_index f1 < idx" "commit_index f1 \<le> idx" "has_persister f1"
    using install_view_eqD(8,10,11) [OF f(2)] install_view_eqD(8,10,11) [OF v(1)] assms(10,15,16) by simp_all
  show ?thesis
    using e req f(1,3) w assms(8) last_chunk_answered [OF c(1) _ n(2), of "\<lparr>isr_term = current_term l\<rparr>" le] v(2) i
      install_finish_indexes [where env = fe and path = path and idx = idx and trm = trm and s = f1] by auto
qed

text \<open>A leader with a snapshot of three bytes for node 2, and node 2.\<close>

definition ex_snapshot :: Snapshot where
  "ex_snapshot = \<lparr>snap_index = 5, snap_term = 1, snap_read = (\<lambda>off n. take n (drop off ''abc''))\<rparr>"

definition ex_send :: SnapshotSendState where
  "ex_send = SnapshotSendState_init\<lparr>ss_snapshot := Some ex_snapshot, ss_in_progress := True,
     ss_last_included_index := 5, ss_last_included_term := 1\<rparr>"

definition ex_sender :: RaftNode where
  "ex_sender = (ex_group [2, 3])\<lparr>role := LEADER, current_term := 2, snapshot_sends := [2 \<mapsto> ex_send]\<rparr>"

definition ex_receiver :: RaftNode where
  "ex_receiver = (ex_follower ex_log2)\<lparr>server_id := 2\<rparr>"

lemma ex_transfer:
  "ready_to_send ex_send 2 ex_sender" "serves ex_snapshot ''abc''" "ss_snapshot ex_send = Some ex_snapshot"
  "ss_last_included_index ex_send = 5" "ss_last_included_term ex_send = 1" "ss_offset ex_send = 0"
  "current_term ex_sender = 2" "server_id ex_sender = 1" "current_term ex_receiver = 2"
  "\<not> snapshot_restore_in_progress ex_receiver" "has_persister ex_receiver" "last_snapshot_index ex_receiver = 0"
  "commit_index ex_receiver = 0" "IsVoter (cluster_config ex_receiver) 1"
  by (simp_all add: ready_to_send_def serves_def ex_send_def ex_sender_def ex_receiver_def ex_snapshot_def IsVoter_def
      SnapshotSendState_init_def IsRunning_def)
     (simp_all add: ex_follower_def ex_group_def blank_node_def ex_config_def)

text \<open>A whole snapshot in one chunk, from the leader of the term.\<close>

definition ex_install :: "Index \<Rightarrow> Term \<Rightarrow> string \<Rightarrow> InstallSnapshotRequest" where
  "ex_install idx trm data = \<lparr>is_correlation_id = 1, is_group_id = 0, is_term = 2, is_leader_id = 1,
     is_last_included_index = idx, is_last_included_term = trm, is_offset = 0, is_data = data, is_done = True\<rparr>"

lemma ex_install_returns:
  obtains s1 where "HandleInstallSnapshot (ex_env 0) (ex_install idx trm ''abc'') ex_receiver =
      Some (\<lparr>isr_term = 2\<rparr>, install_finish (ex_env 0) (temp_path idx trm ex_receiver, idx, trm) s1)"
    and "install_view s1 = install_view ex_receiver" and "file_data s1 (temp_path idx trm ex_receiver) = ''abc''"
proof -
  have "from_leader (ex_install idx trm ''abc'') ex_receiver" using ex_transfer by (simp add: from_leader_def ex_install_def)
  from install_view_from_leader_single [OF this, of "ex_env 0"] show thesis
    using that ex_transfer by (auto simp: ex_install_def ex_env_def U64_def)
qed

theorem snapshot_transfer_installs_witness:
  "\<exists>l' f' req f''.
      exchanges 0 (ex_env 0) (ex_env 0) 2 (SendNextSnapshotChunkLocked (ex_env 0) 2 ex_sender) ex_receiver = Some (l', f') \<and>
      last_chunk l' = Some req \<and> HandleInstallSnapshot (ex_env 0) req f' = Some (\<lparr>isr_term = 2\<rparr>, f'') \<and>
      RestoreStateMachine ''abc'' \<in> set (out f'') \<and> commit_index f'' = 5"
proof -
  have "length ''abc'' div kSnapshotChunkSize = 0" "length ''abc'' < U32" by (simp_all add: kSnapshotChunkSize_def U32_def)
  moreover have "env_serialize_ok (ex_env 0) m" "env_file_ok (ex_env 0)" "env_restore_ok (ex_env 0) d" for m d
    by (simp_all add: ex_env_def)
  ultimately show ?thesis
    using snapshot_transfer_installs [OF ex_transfer(1,3,6,2) _ _ _ _ ex_transfer(10,11), of "ex_env 0" "ex_env 0" 5 1] ex_transfer
    by auto
qed

text \<open>
  C26: \<open>HandleInstallSnapshot\<close> never moves a node back: its commit index and the index of its snapshot do not
  decrease, and its log is either untouched or replaced by the empty log that starts right after the
  new snapshot, which the commit index then equals.
\<close>

theorem install_snapshot_monotone:
  assumes "HandleInstallSnapshot env req s = Some (resp, s')"
  shows "commit_index s \<le> commit_index s' \<and> last_snapshot_index s \<le> last_snapshot_index s' \<and>
    (raft_log s' = raft_log s \<or>
     raft_log s' = SetStartIndex (u32_add (last_snapshot_index s') 1) (raft_log s) \<and>
     last_snapshot_index s < last_snapshot_index s' \<and> commit_index s' = last_snapshot_index s')"
proof -
  obtain go s1 where p: "install_election_phase env req s = Some (go, resp, s1)"
    and s': "s' = (if go then (case install_chunk env req s1 of (None, s2) \<Rightarrow> s2 | (Some job, s2) \<Rightarrow> install_finish env job s2) else s1)"
    using HandleInstallSnapshot_cases [OF assms] .
  obtain job s2 where c: "install_chunk env req s1 = (job, s2)" by fastforce
  have v: "raft_log s2 = raft_log s" "last_snapshot_index s2 = last_snapshot_index s" "commit_index s2 = commit_index s"
    "raft_log s1 = raft_log s" "last_snapshot_index s1 = last_snapshot_index s" "commit_index s1 = commit_index s"
    using install_view_chunk [of env req s1] c install_view_eqD(7,8,10) [of s2 s1]
      log_view_eqD [OF install_election_phase_outcome(2) [OF p]] by simp_all
  consider "s' = s1" | "s' = s2" | path idx trm where "s' = install_finish env (path, idx, trm) s2"
    using s' c by (cases go; cases job) auto
  then show ?thesis
  proof cases
    case 3
    then show ?thesis using v by (simp add: install_finish_indexes)
  qed (use v in simp_all)
qed

theorem install_snapshot_monotone_witness:
  "\<exists>resp s'. HandleInstallSnapshot (ex_env 0) (ex_install 5 1 ''abc'') ex_receiver = Some (resp, s') \<and>
     commit_index ex_receiver \<le> commit_index s' \<and> last_snapshot_index s' = 5"
proof -
  obtain s1 where s1: "HandleInstallSnapshot (ex_env 0) (ex_install 5 1 ''abc'') ex_receiver =
      Some (\<lparr>isr_term = 2\<rparr>, install_finish (ex_env 0) (temp_path 5 1 ex_receiver, 5, 1) s1)"
    "install_view s1 = install_view ex_receiver" using ex_install_returns [of 5 1] .
  then show ?thesis
    using install_snapshot_monotone [OF s1(1)] install_view_eqD(8,10) [OF s1(2)] ex_transfer(12,13)
    by (simp add: install_finish_indexes(2)) (simp add: ex_env_def)
qed

text \<open>
  A follower installs a snapshot without looking at its own log. Here it holds entries 1 and 2 and
  has acknowledged both; a snapshot that ends at its entry 1, with the same term, makes it drop entry
  2 as well, although the log agrees with the snapshot and the entry may be committed.
\<close>

theorem install_snapshot_drops_tail:
  "\<exists>resp s'. HandleInstallSnapshot (ex_env 0) (ex_install 1 1 ''abc'') ex_receiver = Some (resp, s') \<and>
     GetLogTermLocked ex_receiver 1 = 1 \<and> GetEntry (raft_log ex_receiver) 2 = Some (ex_entry 2 2 ''b'') \<and>
     GetEntry (raft_log s') 2 = None"
proof -
  obtain s1 where s1: "HandleInstallSnapshot (ex_env 0) (ex_install 1 1 ''abc'') ex_receiver =
      Some (\<lparr>isr_term = 2\<rparr>, install_finish (ex_env 0) (temp_path 1 1 ex_receiver, 1, 1) s1)"
    "install_view s1 = install_view ex_receiver" using ex_install_returns [of 1 1] .
  have "raft_log (install_finish (ex_env 0) (temp_path 1 1 ex_receiver, 1, 1) s1) = SetStartIndex (u32_add 1 1) ex_log2"
    using install_view_eqD(7,8,10) [OF s1(2)] ex_transfer(12,13)
    by (simp add: install_finish_indexes(4)) (simp add: ex_env_def ex_receiver_def)
  moreover have "GetEntry (SetStartIndex (u32_add 1 1) ex_log2) 2 = None"
    by (simp add: GetEntry_def IsInRange_def SetStartIndex_def u32_add_def u32_def U32_def)
  moreover have "GetLogTermLocked ex_receiver 1 = 1"
    by (simp add: GetLogTermLocked_def GetLogTerm_def ex_receiver_def)
  ultimately show ?thesis using s1(1) by (simp add: ex_receiver_def)
qed

text \<open>
  A snapshot older than what the follower has committed is restored all the same. The guards against stale
  snapshots protect the indexes and the log, which stay as they are, but run after the state machine has
  been replaced by the older one: the entries between are applied no more.
\<close>

theorem stale_snapshot_replaces_state_machine:
  assumes "from_leader req s" and "is_offset req = 0" and "is_done req" and "\<not> snapshot_restore_in_progress s"
    and "env_file_ok env" and "length (is_data req) < U64"
    and "is_last_included_index req < commit_index s"
  shows "\<exists>s'. HandleInstallSnapshot env req s = Some (\<lparr>isr_term = current_term s\<rparr>, s') \<and>
    RestoreStateMachine (is_data req) \<in> set (out s') \<and> last_applied s' = last_applied s \<and>
    commit_index s' = commit_index s \<and> raft_log s' = raft_log s"
proof -
  let ?idx = "is_last_included_index req" and ?trm = "is_last_included_term req"
  obtain s1 where s1: "HandleInstallSnapshot env req s =
      Some (\<lparr>isr_term = current_term s\<rparr>, install_finish env (temp_path ?idx ?trm s, ?idx, ?trm) s1)"
    "install_view s1 = install_view s" "file_data s1 (temp_path ?idx ?trm s) = is_data req"
    using install_view_from_leader_single [OF assms(1-6)] .
  then show ?thesis
    using install_finish_indexes [where env = env and path = "temp_path ?idx ?trm s" and idx = ?idx and trm = ?trm and s = s1]
      install_view_eqD(7,10,13) [OF s1(2)] assms(7) by simp
qed

theorem stale_snapshot_replaces_state_machine_witness:
  "\<exists>s'. HandleInstallSnapshot (ex_env 0) (ex_install 1 1 ''abc'') (ex_receiver\<lparr>commit_index := 2, last_applied := 2\<rparr>) =
       Some (\<lparr>isr_term = 2\<rparr>, s') \<and>
     RestoreStateMachine ''abc'' \<in> set (out s') \<and> last_applied s' = 2"
proof -
  have "env_file_ok (ex_env 0)" by (simp add: ex_env_def)
  then show ?thesis
    using stale_snapshot_replaces_state_machine [of "ex_install 1 1 ''abc''"
        "ex_receiver\<lparr>commit_index := 2, last_applied := 2\<rparr>" "ex_env 0"] ex_transfer
    by (auto simp: from_leader_def ex_install_def U64_def)
qed


definition ex_snapshot_env :: Env where
  "ex_snapshot_env = (ex_env 0)\<lparr>env_create_snapshot := Some ex_snapshot\<rparr>"

definition ex_compacting :: RaftNode where
  "ex_compacting = (ex_group [2, 3])\<lparr>role := LEADER, current_term := 2, raft_log := ex_log2\<rparr>"

lemma ex_compacting_fields:
  "snapshot_in_progress ex_compacting = False" "IsRunning ex_compacting" "role ex_compacting = LEADER"
  "last_snapshot_index ex_compacting = 0" "raft_log ex_compacting = ex_log2" "has_log_persister ex_compacting = False"
  "has_persister ex_compacting" "max_snapshot_size ex_compacting = 100 * 1024 * 1024"
  by (simp_all add: ex_compacting_def IsRunning_def max_snapshot_size_def)
     (simp_all add: ex_defs)

lemma ex_trigger: "\<exists>s'. TriggerSnapshot ex_snapshot_env ex_compacting = (OK, s')"
proof -
  have "read_snapshot (snap_read ex_snapshot) (max_snapshot_size ex_compacting) 0 = Some ''abc''"
    using read_snapshot_serves [OF ex_transfer(2), of 0 "max_snapshot_size ex_compacting"]
    by (simp add: ex_compacting_fields(8))
  then have "CreateAndPersistSnapshot ex_snapshot_env ex_compacting = (Inr (5, 1), emit (SaveSnapshot 5 1 ''abc'') ex_compacting)"
    by (simp add: CreateAndPersistSnapshot_def ex_snapshot_env_def ex_compacting_fields Let_def)
      (simp add: ex_snapshot_def u32_def U32_def ex_env_def)
  then show ?thesis
    by (simp add: TriggerSnapshot_def ApplySnapshotLocked_def ex_compacting_fields Let_def)
      (simp add: emit_def IsRunning_def ex_compacting_fields [unfolded IsRunning_def])
qed


text \<open>
  When the state machine fails to produce the snapshot a lagging peer needs, the leader never tries again: the
  peer's transfer stays marked as in progress, so every later attempt to send it a snapshot returns
  at once.
\<close>

theorem failed_snapshot_blocks_peer:
  assumes "snapshot_sends s p = None" and "\<not> snapshot_in_progress s" and "env_create_snapshot env = None"
  shows "let s1 = PrepareSnapshotForPeer env p (SendInstallSnapshotToPeerLocked env p s)
         in SendInstallSnapshotToPeerLocked env' p s1 = s1"
  using assms
  by (simp add: PrepareSnapshotForPeer_def SendInstallSnapshotToPeerLocked_def Let_def set_send_def emit_def
      SnapshotSendState_init_def fun_upd_idem)

theorem failed_snapshot_blocks_peer_witness:
  "SendInstallSnapshotToPeerLocked (ex_env 1) 2 (PrepareSnapshotForPeer (ex_env 0) 2 (SendInstallSnapshotToPeerLocked (ex_env 0) 2 (ex_group [2]))) =
     PrepareSnapshotForPeer (ex_env 0) 2 (SendInstallSnapshotToPeerLocked (ex_env 0) 2 (ex_group [2]))"
  using failed_snapshot_blocks_peer [of "ex_group [2]" 2 "ex_env 0" "ex_env 1"]
  by (simp add: Let_def) (simp add: ex_group_def blank_node_def ex_env_def)

end
