(* ===== verification/Membership.thy ===== *)
theory Membership
  imports Snapshots
begin

text \<open>
  The membership operations of \<open>src/raft_node_core.cpp\<close>: \<open>AddNode\<close>, \<open>RemoveNode\<close>, \<open>AddLearner\<close>,
  \<open>PromoteLearner\<close> and \<open>TransferLeadershipTo\<close>. A change of the voters is logged as a \<open>JOINT\<close> command whose two
  node lists are written and read by the JSON library, here \<open>env_dump_nodes\<close> and \<open>env_parse_nodes\<close>.
\<close>

section \<open>Operations\<close>

definition joint_cmd :: "Env \<Rightarrow> NodeId list \<Rightarrow> NodeId list \<Rightarrow> string" where
  "joint_cmd env olds news = CMD_JOINT @ env_dump_nodes env olds @ '':'' @ env_dump_nodes env news"

definition learner_cmd :: "NodeId \<Rightarrow> NodeAddr \<Rightarrow> string" where
  "learner_cmd i addr = CMD_ADD_LEARNER @ to_string i @ '':'' @ addr"

text \<open>
  The four operations append their command and write it through \<open>AppendSync\<close>; \<open>Inl\<close> is the status
  of a failed write, after which the entry is still in the log.
\<close>

definition append_sync :: "Env \<Rightarrow> string \<Rightarrow> RaftNode \<Rightarrow> (Status + Index) \<times> RaftNode" where
  "append_sync env cmd s =
     (let (idx, l) = Append (current_term s) cmd (raft_log s);
          s1 = s\<lparr>raft_log := l\<rparr>
      in if has_log_persister s1
         then (case GetEntry l idx of
                 None \<Rightarrow> (Inr idx, s1)
               | Some e \<Rightarrow>
                   let st = env_append_sync env e; s2 = emit (LogAppendSync e) s1 in
                   if \<not> ok st then (Inl st, s2)
                   else (Inr idx, s2\<lparr>flushed_index := max (flushed_index s2) idx\<rparr>))
         else (Inr idx, s1\<lparr>flushed_index := max (flushed_index s1) idx\<rparr>))"

definition IN_PROGRESS :: string where
  "IN_PROGRESS = ''A membership change is already in progress; wait for it to commit''"

definition track_peer :: "NodeId \<Rightarrow> NodeAddr \<Rightarrow> RaftNode \<Rightarrow> RaftNode" where
  "track_peer i addr s =
     s\<lparr>pending_config_change := True,
       peer_map := AList.update i addr (peer_map s),
       next_index := (next_index s)(i \<mapsto> u32_add (fst (GetLastLogInfo (raft_log s))) 1),
       match_index := AList.update i 0 (match_index s)\<rparr>"

definition AddNode :: "Env \<Rightarrow> NodeId \<Rightarrow> NodeAddr \<Rightarrow> RaftNode \<Rightarrow> Status \<times> RaftNode" where
  "AddNode env i addr s =
     (if \<not> IsRunning s then (Error ''Node not running'' [], s)
      else if role s \<noteq> LEADER then (NotLeader (leader_id s) (leader_addr s), s)
      else if Contains (cluster_config s) i then (Error ''Node already in cluster'' [], s)
      else if pending_config_change s then (Error IN_PROGRESS [], s)
      else let old_nodes = cc_nodes (cluster_config s); new_nodes = old_nodes @ [i] in
           case append_sync env (joint_cmd env old_nodes new_nodes) s of
             (Inl st, s1) \<Rightarrow> (st, s1)
           | (Inr idx, s1) \<Rightarrow> (OK, BroadcastAppendEntriesLocked env (track_peer i addr s1)))"

definition AddLearner :: "Env \<Rightarrow> NodeId \<Rightarrow> NodeAddr \<Rightarrow> RaftNode \<Rightarrow> Status \<times> RaftNode" where
  "AddLearner env i addr s =
     (if \<not> IsRunning s then (Error ''Node not running'' [], s)
      else if role s \<noteq> LEADER then (NotLeader (leader_id s) (leader_addr s), s)
      else if Contains (cluster_config s) i then (Error ''Node already in cluster'' [], s)
      else if pending_config_change s then (Error IN_PROGRESS [], s)
      else case append_sync env (learner_cmd i addr) s of
             (Inl st, s1) \<Rightarrow> (st, s1)
           | (Inr idx, s1) \<Rightarrow> (OK, BroadcastAppendEntriesLocked env (track_peer i addr s1)))"

definition PromoteLearner :: "Env \<Rightarrow> NodeId \<Rightarrow> RaftNode \<Rightarrow> Status \<times> RaftNode" where
  "PromoteLearner env i s =
     (if \<not> IsRunning s then (Error ''Node not running'' [], s)
      else if role s \<noteq> LEADER then (NotLeader (leader_id s) (leader_addr s), s)
      else if \<not> IsLearner (cluster_config s) i then (Error ''Node is not a learner'' [], s)
      else if pending_config_change s then (Error IN_PROGRESS [], s)
      else let old_nodes = cc_nodes (cluster_config s); new_nodes = old_nodes @ [i] in
           case append_sync env (joint_cmd env old_nodes new_nodes) s of
             (Inl st, s1) \<Rightarrow> (st, s1)
           | (Inr idx, s1) \<Rightarrow> (OK, BroadcastAppendEntriesLocked env (s1\<lparr>pending_config_change := True\<rparr>)))"

definition untrack_peer :: "NodeId \<Rightarrow> RaftNode \<Rightarrow> RaftNode" where
  "untrack_peer i s =
     s\<lparr>pending_config_change := True,
       peer_map := AList.delete i (peer_map s),
       next_index := (next_index s)(i := None),
       match_index := AList.delete i (match_index s),
       peer_addrs := filter (\<lambda>a. ExtractNodeIdFromAddr a \<noteq> i) (peer_addrs s)\<rparr>"

definition RemoveNode :: "Env \<Rightarrow> NodeId \<Rightarrow> RaftNode \<Rightarrow> (Status \<times> RaftNode) option" where
  "RemoveNode env i s =
     (if \<not> IsRunning s then Some (Error ''Node not running'' [], s)
      else if role s \<noteq> LEADER then Some (NotLeader (leader_id s) (leader_addr s), s)
      else if \<not> Contains (cluster_config s) i then Some (Error ''Node not in cluster'' [], s)
      else if pending_config_change s then Some (Error IN_PROGRESS [], s)
      else let old_nodes = cc_nodes (cluster_config s); new_nodes = remove_id i old_nodes in
           case append_sync env (joint_cmd env old_nodes new_nodes) s of
             (Inl st, s1) \<Rightarrow> Some (st, s1)
           | (Inr idx, s1) \<Rightarrow>
               let s2 = BroadcastAppendEntriesLocked env (untrack_peer i s1) in
               if i = server_id s2
               then map_option (\<lambda>s3. (OK, s3)) (BecomeFollowerLocked env (current_term s2) s2)
               else Some (OK, s2))"

definition TransferLeadershipTo :: "Env \<Rightarrow> NodeId \<Rightarrow> RaftNode \<Rightarrow> (Status \<times> RaftNode) option" where
  "TransferLeadershipTo env target s =
     (if \<not> IsRunning s then Some (Error ''Node not running'' [], s)
      else if role s \<noteq> LEADER then Some (NotLeader (leader_id s) (leader_addr s), s)
      else if target = server_id s then Some (Error ''Cannot transfer leadership to self'' [], s)
      else if map_of (peer_map s) target = None then Some (Error ''Target node not in cluster'' [], s)
      else let s1 = SendAppendEntriesToPeerLocked env target s in
           map_option (\<lambda>s2. (OK, s2)) (BecomeFollowerLocked env (current_term s1) s1))"

section \<open>What they leave alone\<close>

lemma quiet_append_sync [simp]: "quiet s t \<Longrightarrow> quiet s (snd (append_sync env cmd t))"
  by (auto simp: append_sync_def Let_def split: prod.split option.split)

lemma quiet_track [simp]:
  "quiet s (track_peer i a t) = quiet s t" "quiet s (untrack_peer i t) = quiet s t"
  by (simp_all add: track_peer_def untrack_peer_def)

lemma quiet_join:
  assumes "quiet s t" and "\<And>u. quiet s u \<Longrightarrow> quiet s (f u)"
  shows "quiet s (snd (case append_sync env cmd t of (Inl st, s1) \<Rightarrow> (st, s1) | (Inr i, s1) \<Rightarrow> (OK, BroadcastAppendEntriesLocked env (f s1))))"
  using quiet_append_sync [OF assms(1), of env cmd] assms(2)
  by (cases "append_sync env cmd t") (auto split: sum.split)

lemma quiet_membership:
  "quiet s (snd (AddNode env i a s))" "quiet s (snd (AddLearner env i a s))" "quiet s (snd (PromoteLearner env i s))"
  by (simp_all add: AddNode_def AddLearner_def PromoteLearner_def Let_def quiet_join)

lemma RemoveNode_recedes:
  assumes "RemoveNode env i s = Some (st, s')"
  shows "recedes s s'"
proof -
  define cmd where "cmd = joint_cmd env (cc_nodes (cluster_config s)) (remove_id i (cc_nodes (cluster_config s)))"
  obtain r s1 where a: "append_sync env cmd s = (r, s1)" by fastforce
  have q: "quiet s s1" using quiet_append_sync [of s s env cmd] a by simp
  define s2 where "s2 = BroadcastAppendEntriesLocked env (untrack_peer i s1)"
  have q2: "quiet s s2" using q by (simp add: s2_def)
  have "s' = s \<or> s' = s1 \<or> s' = s2 \<or> BecomeFollowerLocked env (current_term s2) s2 = Some s'"
    using assms a unfolding RemoveNode_def Let_def cmd_def [symmetric] s2_def
    by (cases r) (simp_all split: if_splits)
  then show ?thesis
    using quiet_recedes [OF q] quiet_recedes [OF q2] BecomeFollower_recedes(1) [of env "current_term s2" False True s2 s']
      recedes_trans [of s s2 s'] by (auto simp: BecomeFollowerLocked_def)
qed

lemma TransferLeadership_recedes:
  assumes "TransferLeadershipTo env t s = Some (st, s')"
  shows "recedes s s'"
proof -
  define s1 where "s1 = SendAppendEntriesToPeerLocked env t s"
  have q: "quiet s s1" by (simp add: s1_def)
  have "s' = s \<or> BecomeFollowerLocked env (current_term s1) s1 = Some s'"
    using assms unfolding TransferLeadershipTo_def Let_def s1_def [symmetric] by (auto split: if_splits)
  then show ?thesis
    using quiet_recedes [OF q] BecomeFollower_recedes(1) [of env "current_term s1" False True s1 s']
      recedes_trans [of s s1 s'] by (auto simp: BecomeFollowerLocked_def)
qed

section \<open>What the commands mean\<close>

text \<open>
  What the code relies on of the JSON library: reading back a list of 32-bit integers gives that list,
  and its text contains no colon.
\<close>

definition json_ok :: "Env \<Rightarrow> Env \<Rightarrow> bool" where
  "json_ok env env' \<longleftrightarrow>
     (\<forall>ns. (\<forall>i \<in> set ns. is_i32 i) \<longrightarrow>
        env_parse_nodes env' (env_dump_nodes env ns) = Some ns \<and> CHR '':'' \<notin> set (env_dump_nodes env ns))"

lemma config_keeps [simp]:
  "cluster_config (PersistClusterConfigLocked env s) = cluster_config s"
  "cluster_config (BroadcastAppendEntriesLocked env s) = cluster_config s"
  "cluster_config (snd (append_local c s)) = cluster_config s"
  using send_frameD(6) [OF send_frame_Broadcast]
  by (simp_all add: PersistClusterConfigLocked_def SaveState_def append_local_def Let_def split: prod.split option.split)

lemma joint_cmd_applied:
  assumes "json_ok env env'" and "\<forall>i \<in> set olds. is_i32 i" and "\<forall>i \<in> set news. is_i32 i"
  shows "cluster_config (ApplyConfigChangeLocked env' (joint_cmd env olds news) s) =
    drop_learners (bump_version ((cluster_config s)\<lparr>cc_old_nodes := olds, cc_nodes := news, cc_is_joint := True\<rparr>))"
proof -
  let ?c = "joint_cmd env olds news"
  have d: "env_parse_nodes env' (env_dump_nodes env olds) = Some olds" "env_parse_nodes env' (env_dump_nodes env news) = Some news"
    "CHR '':'' \<notin> set (env_dump_nodes env olds)"
    using assms by (auto simp: json_ok_def)
  have f: "find_from (CHR '':'') (length CMD_JOINT) ?c = Some (length CMD_JOINT + length (env_dump_nodes env olds))"
    using find_from_prefix [OF d(3), of CMD_JOINT "env_dump_nodes env news"] by (simp add: joint_cmd_def)
  have "substr ?c (length CMD_JOINT) (length (env_dump_nodes env olds)) = env_dump_nodes env olds"
    "drop (Suc (length CMD_JOINT + length (env_dump_nodes env olds))) ?c = env_dump_nodes env news"
    by (simp_all add: substr_def joint_cmd_def)
  then show ?thesis
    using f d(1,2) by (simp add: ApplyConfigChangeLocked_def apply_joint_def Let_def)
      (simp add: joint_cmd_def)
qed

lemma learner_cmd_applied:
  assumes "is_i32 i" and "\<not> Contains (cluster_config s) i"
  shows "cluster_config (ApplyConfigChangeLocked env (learner_cmd i addr) s) =
      bump_version ((cluster_config s)\<lparr>cc_learners := cc_learners (cluster_config s) @ [i]\<rparr>)"
    and "i \<noteq> server_id s \<Longrightarrow> map_of (peer_map s) i = None \<Longrightarrow>
      map_of (peer_map (ApplyConfigChangeLocked env (learner_cmd i addr) s)) i = Some addr"
proof -
  let ?c = "learner_cmd i addr"
  have f: "find_from (CHR '':'') (length CMD_ADD_LEARNER) ?c = Some (length CMD_ADD_LEARNER + length (to_string i))"
    using find_from_prefix [OF colon_notin_to_string, of CMD_ADD_LEARNER i addr] by (simp add: learner_cmd_def)
  have x: "substr ?c (length CMD_ADD_LEARNER) (length (to_string i)) = to_string i"
    "drop (Suc (length CMD_ADD_LEARNER + length (to_string i))) ?c = addr"
    by (simp_all add: substr_def learner_cmd_def)
  have p: "starts_with CMD_ADD_LEARNER ?c" "\<not> starts_with CMD_JOINT ?c" "\<not> starts_with CMD_FINALIZE ?c"
    by (simp_all add: learner_cmd_def) (simp_all add: starts_with_def CMD_ADD_LEARNER_def CMD_JOINT_def CMD_FINALIZE_def)
  have c: "ApplyConfigChangeLocked env ?c s = (PersistClusterConfigLocked env (add_peer i addr
      (s\<lparr>cluster_config := bump_version ((cluster_config s)\<lparr>cc_learners := cc_learners (cluster_config s) @ [i]\<rparr>)\<rparr>)))
        \<lparr>pending_config_change := False\<rparr>"
    using f x p assms stoll_to_string [of i "[]"]
    by (simp add: ApplyConfigChangeLocked_def apply_add_learner_def Let_def is_i32_i64)
  show "cluster_config (ApplyConfigChangeLocked env ?c s) =
      bump_version ((cluster_config s)\<lparr>cc_learners := cc_learners (cluster_config s) @ [i]\<rparr>)"
    by (simp add: c add_peer_def Let_def)
  show "map_of (peer_map (ApplyConfigChangeLocked env ?c s)) i = Some addr"
    if "i \<noteq> server_id s" "map_of (peer_map s) i = None"
    using that by (simp add: c add_peer_def Let_def PersistClusterConfigLocked_def SaveState_def update_conv')
qed

text \<open>The log after a successful or failed append.\<close>

lemma append_sync_log:
  assumes "append_sync env cmd s = (r, s')"
  shows "raft_log s' = snd (Append (current_term s) cmd (raft_log s))" "cluster_config s' = cluster_config s"
    "pending_config_change s' = pending_config_change s" "current_term s' = current_term s"
  using assms by (auto simp: append_sync_def Let_def emit_def split: prod.splits option.splits if_splits)

lemma join_log:
  assumes "(case append_sync env cmd s of (Inl st, s1) \<Rightarrow> (st, s1) | (Inr i, s1) \<Rightarrow> (OK, BroadcastAppendEntriesLocked env (f s1))) = (st, s')"
    and "log_wf (raft_log s)" and "\<And>u. raft_log (f u) = raft_log u"
  shows "\<exists>e. log_map (raft_log s') (log_end (raft_log s)) = Some e \<and> e_term e = current_term s \<and> e_data e = cmd"
proof -
  obtain r s1 where a: "append_sync env cmd s = (r, s1)" by fastforce
  have "raft_log s' = raft_log s1"
    using assms(1,3) a send_frameD(4) [OF send_frame_Broadcast] by (cases r) auto
  then show ?thesis
    using append_sync_log(1) [OF a] Append_wf_eq [OF assms(2)]
    by (simp add: AppendLogEntry_log_map new_entry_def)
qed

lemma append_sync_not_OK: "append_sync env cmd s \<noteq> (Inl OK, s')"
  by (auto simp: append_sync_def Let_def split: prod.splits option.splits if_splits)

lemma drop_learners_filter: "cc_learners (drop_learners c) = filter (\<lambda>x. x \<notin> set (cc_nodes c)) (cc_learners c)"
proof -
  have "fold remove_id ns ls = filter (\<lambda>x. x \<notin> set ns) ls" for ns ls
    by (induction ns arbitrary: ls) (auto simp: remove_id_def intro: filter_cong)
  then show ?thesis by (simp add: drop_learners_def)
qed

lemma join_pending:
  assumes "(case append_sync env cmd s of (Inl st, s1) \<Rightarrow> (st, s1)
      | (Inr idx, s1) \<Rightarrow> (OK, BroadcastAppendEntriesLocked env (track_peer i addr s1))) = (OK, s')"
  shows "pending_config_change s'"
proof -
  obtain r s1 where a: "append_sync env cmd s = (r, s1)" by fastforce
  have "send_frame (track_peer i addr s1) s'"
    using assms a append_sync_not_OK [of env cmd s s1] send_frame_Broadcast [of "track_peer i addr s1" env] by (cases r) auto
  then show ?thesis unfolding send_frame_iff by (auto simp: track_peer_def)
qed

section \<open>Examples\<close>

text \<open>A reader and a writer of node lists, and a leader of three nodes.\<close>

fun ex_fields :: "string \<Rightarrow> string list" where
  "ex_fields [] = []"
| "ex_fields (c # cs) =
     (if c = CHR '','' then [] # ex_fields cs
      else case ex_fields cs of [] \<Rightarrow> [[c]] | f # fs \<Rightarrow> (c # f) # fs)"

definition ex_parse :: "string \<Rightarrow> NodeId list option" where
  "ex_parse cs = those (map stoll (ex_fields cs))"

definition ex_dump :: "NodeId list \<Rightarrow> string" where
  "ex_dump ns = concat (map (\<lambda>i. to_string i @ '','') ns)"

lemma ex_fields_field: "CHR '','' \<notin> set f \<Longrightarrow> ex_fields (f @ CHR '','' # cs) = f # ex_fields cs"
  by (induction f) auto

lemma comma_notin_to_string: "CHR '','' \<notin> set (to_string i)"
proof -
  have "\<not> is_digit (CHR '','')" by (simp add: is_digit_def)
  then show ?thesis using nat_to_string_digits by (auto simp: to_string_def list_all_iff)
qed

lemma ex_parse_dump: "\<forall>i \<in> set ns. is_i32 i \<Longrightarrow> ex_parse (ex_dump ns) = Some ns"
proof (induction ns)
  case Nil
  then show ?case by (simp add: ex_parse_def ex_dump_def)
next
  case (Cons n ns)
  have "ex_fields (ex_dump (n # ns)) = to_string n # ex_fields (ex_dump ns)"
    using ex_fields_field [OF comma_notin_to_string] by (simp add: ex_dump_def)
  then show ?case
    using Cons stoll_to_string [of n "[]"] by (simp add: ex_parse_def is_i32_i64)
qed

definition ex_json_env :: Env where
  "ex_json_env = (ex_env 0)\<lparr>env_dump_nodes := ex_dump, env_parse_nodes := ex_parse\<rparr>"

lemma ex_json_ok: "json_ok ex_json_env ex_json_env"
proof -
  have "CHR '':'' \<notin> set (ex_dump ns)" for ns
    using colon_notin_to_string by (auto simp: ex_dump_def)
  then show ?thesis using ex_parse_dump by (simp add: json_ok_def ex_json_env_def)
qed

definition ex_chair :: RaftNode where
  "ex_chair = (ex_group [2, 3])\<lparr>role := LEADER, current_term := 2, raft_log := ex_log2\<rparr>"

lemma ex_chair_fields:
  "IsRunning ex_chair" "role ex_chair = LEADER" "raft_log ex_chair = ex_log2" "pending_config_change ex_chair = False"
  "has_log_persister ex_chair = False" "current_term ex_chair = 2" "server_id ex_chair = 1"
  "cluster_config ex_chair = \<lparr>cc_nodes = [1, 2, 3], cc_old_nodes = [], cc_learners = [], cc_version = 1, cc_is_joint = False\<rparr>"
  by (simp_all add: ex_chair_def IsRunning_def) (simp_all add: ex_group_def blank_node_def ex_config_def)

lemma ex_chair_ok: "config_ok (cluster_config ex_chair)" "\<forall>n \<in> set (cc_nodes (cluster_config ex_chair)). is_i32 n"
  by (simp_all add: ex_chair_fields config_ok_def U32_def is_i32_def)

lemma ex_add_returns: "\<exists>s'. AddNode env 4 ''h:4'' ex_chair = (OK, s')"
proof -
  have "append_sync env c ex_chair = (Inr (fst (Append 2 c ex_log2)),
      ex_chair\<lparr>raft_log := snd (Append 2 c ex_log2), flushed_index := max (flushed_index ex_chair) (fst (Append 2 c ex_log2))\<rparr>)" for c
    by (simp add: append_sync_def ex_chair_fields Let_def split: prod.split)
  then show ?thesis by (simp add: AddNode_def ex_chair_fields Contains_def Let_def)
qed

section \<open>Properties\<close>

text \<open>
  C34: \<open>AddNode\<close> accepts a new node only on a running leader with no change in flight, and then what it logs
  is a safe change: the entry carries the leader's term, and a node that applies it enters the joint
  configuration of its node list and the list with the new node, whose quorums meet those of the
  configuration it leaves.
\<close>

theorem add_node_logs_joint_change:
  assumes "AddNode env i addr s = (OK, s')" and "log_wf (raft_log s)" and "json_ok env env'"
    and "is_i32 i" and "\<forall>n \<in> set (cc_nodes (cluster_config s)). is_i32 n"
    and "config_ok (cluster_config s)" and "length (cc_nodes (cluster_config s)) + 1 < U32"
    and "cluster_config t = cluster_config s"
  shows "role s = LEADER \<and> \<not> pending_config_change s \<and> pending_config_change s' \<and>
    (\<exists>e. log_map (raft_log s') (log_end (raft_log s)) = Some e \<and> e_term e = current_term s \<and>
       (let j = cluster_config (ApplyConfigChangeLocked env' (e_data e) t)
        in cc_is_joint j \<and> cc_old_nodes j = cc_nodes (cluster_config s) \<and>
           cc_nodes j = cc_nodes (cluster_config s) @ [i] \<and> quorums_meet (cluster_config s) j))"
proof -
  let ?olds = "cc_nodes (cluster_config s)" and ?cmd = "joint_cmd env (cc_nodes (cluster_config s)) (cc_nodes (cluster_config s) @ [i])"
  have g: "role s = LEADER" "\<not> pending_config_change s"
    and a: "(case append_sync env ?cmd s of (Inl st, s1) \<Rightarrow> (st, s1)
      | (Inr idx, s1) \<Rightarrow> (OK, BroadcastAppendEntriesLocked env (track_peer i addr s1))) = (OK, s')"
    using assms(1) by (auto simp: AddNode_def Let_def split: if_splits)
  obtain e where e: "log_map (raft_log s') (log_end (raft_log s)) = Some e" "e_term e = current_term s" "e_data e = ?cmd"
    using join_log [OF a assms(2)] by (auto simp: track_peer_def)
  define j where "j = cluster_config (ApplyConfigChangeLocked env' ?cmd t)"
  have j: "cc_is_joint j" "cc_old_nodes j = ?olds" "cc_nodes j = ?olds @ [i]"
    using joint_cmd_applied [OF assms(3,5), of "?olds @ [i]" t] assms(4,5)
    by (simp_all add: j_def drop_learners_def bump_version_def)
  have "quorums_meet (cluster_config s) j"
    using assms(6,7) j by (intro joint_meets_old) (simp_all add: config_ok_def)
  moreover have "pending_config_change s'" using a by (rule join_pending)
  ultimately show ?thesis using g e j by (simp add: j_def)
qed

theorem add_node_logs_joint_change_witness:
  "\<exists>s'. AddNode ex_json_env 4 ''h:4'' ex_chair = (OK, s') \<and> pending_config_change s'"
proof -
  obtain s' where a: "AddNode ex_json_env 4 ''h:4'' ex_chair = (OK, s')" using ex_add_returns by blast
  have "is_i32 4" "length (cc_nodes (cluster_config ex_chair)) + 1 < U32" "log_wf (raft_log ex_chair)"
    by (simp_all add: is_i32_def ex_chair_fields U32_def)
  from add_node_logs_joint_change [OF a this(3) ex_json_ok this(1) ex_chair_ok(2,1) this(2) refl] a show ?thesis by blast
qed

text \<open>
  A membership change whose entry cannot be written to disk is reported as failed but not undone: the
  entry stays in the leader's log, from where it is replicated, and nothing marks a change as in
  progress.
\<close>

theorem failed_change_stays_in_log:
  assumes "AddNode env i addr s = (st, s')" and "s' \<noteq> s" and "\<not> ok st" and "log_wf (raft_log s)"
    and "log_end (raft_log s) + 1 < U32"
  shows "has_log_persister s \<and> pending_config_change s' = pending_config_change s \<and>
    (\<exists>e. log_map (raft_log s') (log_end (raft_log s)) = Some e \<and> env_append_sync env e = st \<and>
       e_data e = joint_cmd env (cc_nodes (cluster_config s)) (cc_nodes (cluster_config s) @ [i]))"
proof -
  let ?cmd = "joint_cmd env (cc_nodes (cluster_config s)) (cc_nodes (cluster_config s) @ [i])"
  obtain r s1 where c: "append_sync env ?cmd s = (r, s1)" by fastforce
  then have r: "r = Inl st" "s1 = s'"
    using assms(1-3) by (cases r; auto simp: AddNode_def Let_def split: if_splits)+
  let ?l = "AppendLogEntry (new_entry (raft_log s) (current_term s) ?cmd) (raft_log s)"
  have l: "Append (current_term s) ?cmd (raft_log s) = (log_end (raft_log s), ?l)" by (rule Append_wf_eq [OF assms(4)])
  have "log_wf ?l" using assms(4,5) by (intro AppendLogEntry_wf) (simp_all add: new_entry_def)
  then have e: "GetEntry ?l (log_end (raft_log s)) = Some (new_entry (raft_log s) (current_term s) ?cmd)"
    by (simp add: GetEntry_log_map AppendLogEntry_log_map)
  then have "has_log_persister s" "env_append_sync env (new_entry (raft_log s) (current_term s) ?cmd) = st"
    using c r by (auto simp: append_sync_def l Let_def split: if_splits)
  then show ?thesis
    using append_sync_log(1,3) [OF c [unfolded r]] l by (simp add: AppendLogEntry_log_map new_entry_def)
qed

definition ex_broken_disk :: Env where
  "ex_broken_disk = ex_json_env\<lparr>env_append_sync := \<lambda>_. Error ''disk'' []\<rparr>"

lemma ex_broken_add:
  "\<exists>s'. AddNode ex_broken_disk 4 ''h:4'' (ex_chair\<lparr>has_log_persister := True\<rparr>) = (Error ''disk'' [], s') \<and>
     s' \<noteq> ex_chair\<lparr>has_log_persister := True\<rparr>"
proof -
  let ?s = "ex_chair\<lparr>has_log_persister := True\<rparr>"
  let ?cmd = "joint_cmd ex_broken_disk [1, 2, 3] [1, 2, 3, 4]"
  let ?e = "new_entry ex_log2 2 ?cmd"
  have "log_wf (AppendLogEntry ?e ex_log2)" by (rule AppendLogEntry_wf) (simp_all add: new_entry_def U32_def)
  then have g: "GetEntry (AppendLogEntry ?e ex_log2) 3 = Some ?e"
    by (simp add: GetEntry_log_map AppendLogEntry_log_map)
  have a: "append_sync ex_broken_disk ?cmd ?s =
      (Inl (Error ''disk'' []), emit (LogAppendSync ?e) (?s\<lparr>raft_log := AppendLogEntry ?e ex_log2\<rparr>))"
    using g Append_wf_eq [OF ex_log2_wf, of 2 ?cmd] by (simp add: append_sync_def ex_chair_fields Let_def)
      (simp add: ex_broken_disk_def)
  have "out (emit (LogAppendSync ?e) (?s\<lparr>raft_log := AppendLogEntry ?e ex_log2\<rparr>)) \<noteq> out ?s" by simp
  then have n: "emit (LogAppendSync ?e) (?s\<lparr>raft_log := AppendLogEntry ?e ex_log2\<rparr>) \<noteq> ?s" by metis
  have "AddNode ex_broken_disk 4 ''h:4'' ?s =
      (Error ''disk'' [], emit (LogAppendSync ?e) (?s\<lparr>raft_log := AppendLogEntry ?e ex_log2\<rparr>))"
    using a ex_chair_fields by (simp add: AddNode_def Contains_def Let_def IsRunning_def)
  then show ?thesis using n by blast
qed

theorem failed_change_stays_in_log_witness:
  "\<exists>s' e. AddNode ex_broken_disk 4 ''h:4'' (ex_chair\<lparr>has_log_persister := True\<rparr>) = (Error ''disk'' [], s') \<and>
     log_map (raft_log s') 3 = Some e"
proof -
  obtain s' where a: "AddNode ex_broken_disk 4 ''h:4'' (ex_chair\<lparr>has_log_persister := True\<rparr>) = (Error ''disk'' [], s')"
    "s' \<noteq> ex_chair\<lparr>has_log_persister := True\<rparr>" using ex_broken_add by blast
  from failed_change_stays_in_log [OF a] show ?thesis using a(1) by (auto simp: ex_chair_fields U32_def)
qed

text \<open>
  Removing a learner does not remove it: \<open>RemoveNode\<close> reports success and stops replicating to it, but
  the command it logs lists only voters, and a node that applies it still has the learner in its
  configuration.
\<close>

theorem remove_learner_keeps_it:
  assumes "RemoveNode env i s = Some (OK, s')" and "i \<notin> set (cc_nodes (cluster_config s))"
    and "IsLearner (cluster_config s) i" and "log_wf (raft_log s)" and "json_ok env env'"
    and "\<forall>n \<in> set (cc_nodes (cluster_config s)). is_i32 n" and "cluster_config t = cluster_config s" and "i \<noteq> server_id s"
  shows "map_of (peer_map s') i = None \<and>
    (\<exists>e. log_map (raft_log s') (log_end (raft_log s)) = Some e \<and>
       IsLearner (cluster_config (ApplyConfigChangeLocked env' (e_data e) t)) i)"
proof -
  let ?ns = "cc_nodes (cluster_config s)"
  let ?cmd = "joint_cmd env ?ns (remove_id i ?ns)"
  have ns: "remove_id i ?ns = ?ns" using assms(2) by (auto simp: remove_id_def filter_id_conv)
  obtain r s1 where c: "append_sync env ?cmd s = (r, s1)" by fastforce
  have id: "server_id (BroadcastAppendEntriesLocked env (untrack_peer i s1)) = server_id s"
    using core_eqD(1) [OF quiet_coreD [OF quiet_append_sync [of s s env ?cmd]]] c
      send_frameD(11) [OF send_frame_Broadcast [of "untrack_peer i s1" env]] by (simp add: untrack_peer_def)
  have s': "s' = BroadcastAppendEntriesLocked env (untrack_peer i s1)"
    using assms(1,8) c id append_sync_not_OK [of env ?cmd s s1]
    by (cases r) (auto simp: RemoveNode_def Let_def split: if_splits)
  have p: "peer_map s' = AList.delete i (peer_map s1)" "raft_log s' = raft_log s1"
    using send_frameD(4,7) [OF send_frame_Broadcast [of "untrack_peer i s1" env]] by (simp_all add: s' untrack_peer_def)
  have "cc_learners (drop_learners c) = filter (\<lambda>x. x \<notin> set (cc_nodes c)) (cc_learners c)" for c
    by (rule drop_learners_filter)
  then have "IsLearner (cluster_config (ApplyConfigChangeLocked env' ?cmd t)) i"
    using joint_cmd_applied [OF assms(5,6), of "remove_id i ?ns" t] assms(2,3,6,7) ns
    by (simp add: IsLearner_def bump_version_def)
  then show ?thesis
    using p append_sync_log(1) [OF c] Append_wf_eq [OF assms(4), of "current_term s" ?cmd]
    by (simp add: delete_conv AppendLogEntry_log_map new_entry_def)
qed

theorem remove_learner_keeps_it_witness:
  "\<exists>s'. RemoveNode ex_json_env 9 (ex_chair\<lparr>cluster_config := (cluster_config ex_chair)\<lparr>cc_learners := [9]\<rparr>\<rparr>) = Some (OK, s') \<and>
     map_of (peer_map s') 9 = None"
proof -
  let ?s = "ex_chair\<lparr>cluster_config := (cluster_config ex_chair)\<lparr>cc_learners := [9]\<rparr>\<rparr>"
  have "append_sync ex_json_env c ?s = (Inr (fst (Append 2 c ex_log2)),
      ?s\<lparr>raft_log := snd (Append 2 c ex_log2), flushed_index := max (flushed_index ex_chair) (fst (Append 2 c ex_log2))\<rparr>)" for c
    by (simp add: append_sync_def ex_chair_fields Let_def split: prod.split)
  then obtain s' where r: "RemoveNode ex_json_env 9 ?s = Some (OK, s')"
    using ex_chair_fields send_frameD(11) [OF send_frame_Broadcast]
    by (simp add: RemoveNode_def Contains_def IsRunning_def Let_def untrack_peer_def)
  have f: "9 \<notin> set (cc_nodes (cluster_config ?s))" "IsLearner (cluster_config ?s) 9" "log_wf (raft_log ?s)" "9 \<noteq> server_id ?s"
    by (simp_all add: ex_chair_fields IsLearner_def)
  have "\<forall>n \<in> set (cc_nodes (cluster_config ?s)). is_i32 n" using ex_chair_ok(2) by simp
  from remove_learner_keeps_it [OF r f(1-3) ex_json_ok this refl f(4)] r show ?thesis by blast
qed

end
