(* ===== verification/Proposals.thy ===== *)
theory Proposals
  imports Membership
begin

text \<open>
  Client commands on the leader, from \<open>src/raft_node_core.cpp\<close>: \<open>Propose\<close>, \<open>ProposeBatch\<close>,
  \<open>OnLogEntryPersisted\<close> and \<open>ProposeAndWaitLocked\<close>. The last one waits; it is two definitions, up to the wait
  and after it. The callbacks \<open>ProposeBatch\<close> creates share a result vector and a counter, which is the
  state \<open>Batch\<close> here.
\<close>

section \<open>Proposals\<close>

definition cached_result :: "SessionResult \<Rightarrow> ApplyResult" where
  "cached_result r =
     \<lparr>ar_success = sr_success r, ar_response = sr_response r, ar_applied_index = sr_applied_index r,
      ar_error_message = sr_error_message r\<rparr>"

definition register :: "Env \<Rightarrow> Index \<Rightarrow> callback \<Rightarrow> RaftNode \<Rightarrow> RaftNode" where
  "register env idx cb s =
     s\<lparr>pending_proposals := AList.update idx
         \<lparr>pp_index = idx, pp_callback = cb, pp_propose_time = env_steady env\<rparr> (pending_proposals s)\<rparr>"

definition Propose :: "Env \<Rightarrow> string \<Rightarrow> callback \<Rightarrow> nat \<Rightarrow> nat \<Rightarrow> RaftNode \<Rightarrow> (Status \<times> RaftNode) option" where
  "Propose env command cb session_id seq_num s0 =
     (case RecordActivityLocked env True s0 of
        None \<Rightarrow> None
      | Some s \<Rightarrow>
        if \<not> IsRunning s then Some (Error ''Node not running'' [], s)
        else if role s \<noteq> LEADER then Some (NotLeader (leader_id s) (leader_addr s), s)
        else
          let (dup, s1) =
                (if session_id \<noteq> 0
                 then case IsDuplicate (env_steady env) session_id seq_num (session_manager s) of
                        (r, m) \<Rightarrow> (r, s\<lparr>session_manager := m\<rparr>)
                 else (None, s))
          in case dup of
               Some cached \<Rightarrow>
                 Some (OK, case cb of None \<Rightarrow> s1 | Some c \<Rightarrow> emit (ProposalCallback c (cached_result cached)) s1)
             | None \<Rightarrow>
                 let (idx, l) = Append (current_term s1) command (raft_log s1);
                     s2 = s1\<lparr>raft_log := l\<rparr>;
                     s3 = (if session_id \<noteq> 0
                           then s2\<lparr>proposal_sessions := (proposal_sessions s2)(idx \<mapsto> (session_id, seq_num))\<rparr>
                           else s2);
                     s4 = (if has_log_persister s3
                           then case GetEntry l idx of
                                  Some e \<Rightarrow> emit (LogAppend e (Some idx)) s3
                                | None \<Rightarrow> s3
                           else s3\<lparr>flushed_index := max (flushed_index s3) idx\<rparr>)
                 in Some (OK, BroadcastAppendEntriesLocked env (register env idx cb s4)))"

text \<open>\<open>append_all\<close> is the first loop of \<open>ProposeBatch\<close>, \<open>register_all\<close> the second.\<close>

fun append_all :: "string list \<Rightarrow> RaftNode \<Rightarrow> Index list \<times> RaftNode" where
  "append_all [] s = ([], s)"
| "append_all (c # cs) s =
     (let (idx, l) = Append (current_term s) c (raft_log s);
          (is, s1) = append_all cs (s\<lparr>raft_log := l\<rparr>)
      in (idx # is, s1))"

fun register_all :: "Env \<Rightarrow> (Index \<times> nat) list \<Rightarrow> RaftNode \<Rightarrow> RaftNode" where
  "register_all env [] s = s"
| "register_all env ((idx, cb) # ics) s =
     (let s1 = (if has_log_persister s
                then case GetEntry (raft_log s) idx of
                       Some e \<Rightarrow> emit (LogAppend e (Some idx)) s
                     | None \<Rightarrow> s
                else s)
      in register_all env ics (register env idx (Some cb) s1))"

definition ProposeBatch :: "Env \<Rightarrow> string list \<Rightarrow> nat list \<Rightarrow> RaftNode \<Rightarrow> (Status \<times> RaftNode) option" where
  "ProposeBatch env commands cbs s0 =
     (case RecordActivityLocked env True s0 of
        None \<Rightarrow> None
      | Some s \<Rightarrow>
        if \<not> IsRunning s then Some (Error ''Node not running'' [], s)
        else if role s \<noteq> LEADER then Some (NotLeader (leader_id s) (leader_addr s), s)
        else if commands = [] then Some (Error ''Empty batch'' [], s)
        else
          let (indices, s1) = append_all commands s;
              s2 = register_all env (zip indices cbs) s1;
              s3 = (if \<not> has_log_persister s2
                    then s2\<lparr>flushed_index := max (flushed_index s2) (last indices)\<rparr> else s2)
          in map_option (\<lambda>s4. (OK, s4)) (TryCommitLocked env (BroadcastAppendEntriesLocked env s3)))"

text \<open>The state the callbacks of one batch share, and one of them running; \<open>Some\<close> is the completion it posts.\<close>

record Batch =
  results :: "ApplyResult list"
  remaining :: nat

definition new_batch :: "nat \<Rightarrow> Batch" where
  "new_batch n = \<lparr>results = replicate n ApplyResult_init, remaining = n\<rparr>"

definition batch_callback :: "nat \<Rightarrow> ApplyResult \<Rightarrow> Batch \<Rightarrow> ApplyResult list option \<times> Batch" where
  "batch_callback i r b =
     (let b1 = b\<lparr>results := (results b)[i := r]\<rparr>;
          b2 = b1\<lparr>remaining := remaining b1 - 1\<rparr>
      in (if remaining b1 = 1 then Some (results b2) else None, b2))"

definition OnLogEntryPersisted :: "Env \<Rightarrow> Index \<Rightarrow> Status \<Rightarrow> RaftNode \<Rightarrow> RaftNode option" where
  "OnLogEntryPersisted env idx status s =
     (if \<not> ok status
      then case (if role s = LEADER then BecomeFollowerAfterDiskFailureLocked env (current_term s) s else Some s) of
             None \<Rightarrow> None
           | Some s1 \<Rightarrow>
             (case map_of (pending_proposals s1) idx of
                None \<Rightarrow> Some s1
              | Some pp \<Rightarrow>
                let s2 = s1\<lparr>pending_proposals := AList.delete idx (pending_proposals s1)\<rparr> in
                case pp_callback pp of
                  None \<Rightarrow> Some s2
                | Some c \<Rightarrow>
                    Some (emit (ProposalCallback c (ApplyResult_init\<lparr>ar_error_message := GetMessage status\<rparr>)) s2))
      else if \<not> IsRunning s then Some s
      else if role s \<noteq> LEADER then Some s
      else TryCommitLocked env (if flushed_index s < idx then s\<lparr>flushed_index := idx\<rparr> else s))"

text \<open>\<open>Inl\<close> is an immediate result, \<open>Inr\<close> the index to wait for; then the wait's outcome.\<close>

definition failed_with :: "string \<Rightarrow> ApplyResult" where
  "failed_with msg = ApplyResult_init\<lparr>ar_error_message := msg\<rparr>"

definition ProposeAndWaitLocked :: "Env \<Rightarrow> string \<Rightarrow> nat \<Rightarrow> RaftNode \<Rightarrow> (ApplyResult + Index) \<times> RaftNode" where
  "ProposeAndWaitLocked env command cb s =
     (case append_sync env command s of
        (Inl st, s1) \<Rightarrow> (Inl (failed_with (GetMessage st)), s1)
      | (Inr idx, s1) \<Rightarrow> (Inr idx, BroadcastAppendEntriesLocked env (register env idx (Some cb) s1)))"

definition ProposeAndWait_wake :: "Index \<Rightarrow> ApplyResult option \<Rightarrow> RaftNode \<Rightarrow> ApplyResult \<times> RaftNode" where
  "ProposeAndWait_wake idx r s =
     (case r of
        None \<Rightarrow> (failed_with ''Command execution timeout'',
                 s\<lparr>pending_proposals := AList.delete idx (pending_proposals s)\<rparr>)
      | Some result \<Rightarrow> (result, s))"

section \<open>What they leave alone\<close>

lemma RecordActivity_leader:
  assumes "RecordActivityLocked env True s = Some s'" and "role s = LEADER"
  shows "s' = s\<lparr>last_activity_time := env_steady env\<rparr>"
  using assms by (auto simp: RecordActivityLocked_def ExitQuiescedLocked_def Let_def split: if_splits)

lemma RecordActivity_keeps:
  assumes "RecordActivityLocked env held s = Some s'"
  shows "raft_log s' = raft_log s" "out s' = out s" "role s' = role s" "state s' = state s" "pending_proposals s' = pending_proposals s"
    "pending_reads s' = pending_reads s" "current_term s' = current_term s" "commit_index s' = commit_index s"
  using assms
  by (auto simp: RecordActivityLocked_def ExitQuiescedLocked_def Let_def StartHeartbeatTimerLocked_def
      StopHeartbeatTimerLocked_def split: if_splits)

lemma quiet_register [simp]: "quiet s (register env i cb t) = quiet s t"
  by (simp add: register_def)

lemma Propose_recedes:
  assumes "Propose env c cb sid seq s = Some (st, s')"
  shows "recedes s s'"
proof -
  obtain t where t: "RecordActivityLocked env True s = Some t" using assms by (auto simp: Propose_def split: option.splits)
  have "quiet t s'"
    using assms unfolding Propose_def t
    by (auto simp: Let_def split: prod.splits option.splits if_splits)
  then show ?thesis using RecordActivity_recedes [OF t] by (blast intro: recedes_quiet)
qed

lemma append_all_frame: "snd (append_all cs s) = s\<lparr>raft_log := raft_log (snd (append_all cs s))\<rparr>"
proof (induction cs arbitrary: s)
  case (Cons c cs)
  obtain idx l where a: "Append (current_term s) c (raft_log s) = (idx, l)" by fastforce
  obtain ixs u where u: "append_all cs (s\<lparr>raft_log := l\<rparr>) = (ixs, u)" by fastforce
  show ?case using Cons [of "s\<lparr>raft_log := l\<rparr>"] u a by simp
qed simp

lemma quiet_append_all [simp]: "quiet s t \<Longrightarrow> quiet s (snd (append_all cs t))"
  by (subst append_all_frame) simp

lemma quiet_register_all [simp]: "quiet s t \<Longrightarrow> quiet s (register_all env ics t)"
  by (induction env ics t rule: register_all.induct) (auto simp: Let_def split: option.splits)

lemma ProposeBatch_recedes:
  assumes "ProposeBatch env cs cbs s = Some (st, s')"
  shows "recedes s s'"
proof -
  obtain t where t: "RecordActivityLocked env True s = Some t" using assms by (auto simp: ProposeBatch_def split: option.splits)
  obtain ixs s1 where a: "append_all cs t = (ixs, s1)" by fastforce
  have q1: "quiet t s1" using quiet_append_all [of t t cs] a by simp
  define s2 where "s2 = register_all env (zip ixs cbs) s1"
  define s3 where "s3 = (if \<not> has_log_persister s2 then s2\<lparr>flushed_index := max (flushed_index s2) (last ixs)\<rparr> else s2)"
  have "s' = t \<or> TryCommitLocked env (BroadcastAppendEntriesLocked env s3) = Some s'"
    using assms a unfolding ProposeBatch_def t s3_def s2_def by (auto simp: Let_def split: if_splits)
  moreover have "quiet t (BroadcastAppendEntriesLocked env s3)" using q1 by (simp add: s3_def s2_def)
  ultimately have "quiet t s'" using quiet_TryCommit [of env "BroadcastAppendEntriesLocked env s3" s' t] by auto
  then show ?thesis using RecordActivity_recedes [OF t] by (blast intro: recedes_quiet)
qed

lemma OnLogEntryPersisted_recedes:
  assumes "OnLogEntryPersisted env i st s = Some s'"
  shows "recedes s s'"
proof (cases "ok st")
  case True
  then have "quiet s s'"
    using assms quiet_TryCommit [of env _ s' s] by (auto simp: OnLogEntryPersisted_def split: if_splits)
  then show ?thesis by (rule quiet_recedes)
next
  case False
  obtain t where t: "(if role s = LEADER then BecomeFollowerAfterDiskFailureLocked env (current_term s) s else Some s) = Some t"
    and q: "quiet t s'"
    using assms False by (auto simp: OnLogEntryPersisted_def Let_def split: option.splits)
  have "recedes s t"
    using t BecomeFollower_recedes(1) [of env "current_term s" False False s t]
    by (auto simp: BecomeFollowerAfterDiskFailureLocked_def split: if_splits)
  then show ?thesis using q by (rule recedes_quiet)
qed

lemma quiet_ProposeAndWait:
  "quiet s (snd (ProposeAndWaitLocked env c cb s))" "quiet s (snd (ProposeAndWait_wake i r s))"
  using quiet_append_sync [of s s env c]
  by (cases "append_sync env c s"; auto simp: ProposeAndWaitLocked_def split: sum.splits)
    (simp add: ProposeAndWait_wake_def split: option.split)

section \<open>Batches\<close>

text \<open>The completions posted when the callbacks run one after the other.\<close>

fun completions :: "(nat \<times> ApplyResult) list \<Rightarrow> Batch \<Rightarrow> ApplyResult list list" where
  "completions [] b = []"
| "completions ((i, r) # irs) b =
     (case batch_callback i r b of
        (Some rs, b') \<Rightarrow> rs # completions irs b'
      | (None, b') \<Rightarrow> completions irs b')"

lemma completions_last:
  assumes "irs \<noteq> []" and "remaining b = length irs"
  shows "completions irs b = [fold (\<lambda>(i, r) rs. rs[i := r]) irs (results b)]"
  using assms
proof (induction irs arbitrary: b)
  case (Cons ir irs)
  obtain i r where ir: "ir = (i, r)" by fastforce
  show ?case
  proof (cases irs)
    case Nil
    then show ?thesis using Cons.prems by (simp add: ir batch_callback_def Let_def)
  next
    case (Cons x xs)
    then show ?thesis
      using Cons.prems Cons.IH [of "snd (batch_callback i r b)"] by (simp add: ir batch_callback_def Let_def)
  qed
qed simp

lemma fold_updates:
  assumes "distinct ixs" and "set ixs \<subseteq> {..<length rs}"
  shows "fold (\<lambda>(i, r) rs. rs[i := r]) (map (\<lambda>i. (i, f i)) ixs) rs =
    map (\<lambda>i. if i \<in> set ixs then f i else rs ! i) [0..<length rs]"
  using assms
proof (induction ixs arbitrary: rs)
  case Nil
  then show ?case by (simp add: map_nth)
next
  case (Cons i ixs)
  then show ?case by (auto simp: Cons.IH [of "rs[i := f i]"] nth_list_update intro!: map_cong)
qed

text \<open>The two accepting branches of \<open>Propose\<close> on a leader that is not quiesced.\<close>

lemma Propose_leader:
  fixes sid seq :: nat
  assumes "RecordActivityLocked env True s = Some t" and "IsRunning t" and "role t = LEADER" and "log_wf (raft_log t)"
  defines "d \<equiv> (if sid = 0 then None else fst (IsDuplicate (env_steady env) sid seq (session_manager t)))"
  shows "d = Some r \<Longrightarrow> \<exists>s'. Propose env c cb sid seq s = Some (OK, s') \<and> raft_log s' = raft_log t \<and>
      pending_proposals s' = pending_proposals t \<and> (\<forall>k. cb = Some k \<longrightarrow> ProposalCallback k (cached_result r) \<in> set (out s'))"
    and "d = None \<Longrightarrow> \<exists>s'. Propose env c cb sid seq s = Some (OK, s') \<and>
      raft_log s' = AppendLogEntry (new_entry (raft_log t) (current_term t) c) (raft_log t) \<and>
      map_option pp_callback (map_of (pending_proposals s') (log_end (raft_log t))) = Some cb \<and>
      (sid \<noteq> 0 \<longrightarrow> proposal_sessions s' (log_end (raft_log t)) = Some (sid, seq)) \<and> core s' = core t \<and>
      (sid \<noteq> 0 \<longrightarrow> session_manager s' = snd (IsDuplicate (env_steady env) sid seq (session_manager t)))"
proof -
  define s1 where "s1 = (if sid = 0 then t else t\<lparr>session_manager := snd (IsDuplicate (env_steady env) sid seq (session_manager t))\<rparr>)"
  have p: "(if sid \<noteq> 0 then case IsDuplicate (env_steady env) sid seq (session_manager t) of (r, m) \<Rightarrow> (r, t\<lparr>session_manager := m\<rparr>)
      else (None, t)) = (d, s1)"
    by (simp add: d_def s1_def split: prod.split)
  have f: "raft_log s1 = raft_log t" "pending_proposals s1 = pending_proposals t" "current_term s1 = current_term t"
    by (simp_all add: s1_def)
  show "\<exists>s'. Propose env c cb sid seq s = Some (OK, s') \<and> raft_log s' = raft_log t \<and>
      pending_proposals s' = pending_proposals t \<and> (\<forall>k. cb = Some k \<longrightarrow> ProposalCallback k (cached_result r) \<in> set (out s'))"
    if "d = Some r"
    using assms(1-3) f that unfolding Propose_def assms(1) option.case p
    by (cases cb) (auto simp: emit_def)
  define e where "e = new_entry (raft_log t) (current_term t) c"
  define s2 where "s2 = (if sid \<noteq> 0 then s1\<lparr>raft_log := AppendLogEntry e (raft_log t),
      proposal_sessions := (proposal_sessions s1)(log_end (raft_log t) \<mapsto> (sid, seq))\<rparr> else s1\<lparr>raft_log := AppendLogEntry e (raft_log t)\<rparr>)"
  define s3 where "s3 = (if has_log_persister s2 then case GetEntry (AppendLogEntry e (raft_log t)) (log_end (raft_log t)) of
      Some x \<Rightarrow> emit (LogAppend x (Some (log_end (raft_log t)))) s2 | None \<Rightarrow> s2
      else s2\<lparr>flushed_index := max (flushed_index s2) (log_end (raft_log t))\<rparr>)"
  define s' where "s' = BroadcastAppendEntriesLocked env (register env (log_end (raft_log t)) cb s3)"
  have "Propose env c cb sid seq s = Some (OK, s')" if "d = None"
    using assms(1-3) f that Append_wf_eq [OF assms(4), of "current_term t" c] unfolding Propose_def assms(1) option.case p
    by (simp add: s'_def s3_def s2_def e_def Let_def split: option.split)
  moreover have "raft_log s3 = AppendLogEntry e (raft_log t)" "sid \<noteq> 0 \<Longrightarrow> proposal_sessions s3 (log_end (raft_log t)) = Some (sid, seq)"
    by (simp_all add: s3_def s2_def emit_def split: option.split)
  moreover note queue_view_eqD [OF queue_view_send [OF send_frame_Broadcast [of "register env (log_end (raft_log t)) cb s3" env]]]
    send_frameD(4) [OF send_frame_Broadcast [of "register env (log_end (raft_log t)) cb s3" env]]
  moreover have m: "session_manager s3 = session_manager s1" "core s3 = core t"
    by (simp_all add: s3_def s2_def s1_def emit_def split: option.split)
  moreover have "core s' = core t" "session_manager s' = session_manager s1"
    using send_frame_core [OF send_frame_Broadcast [of "register env (log_end (raft_log t)) cb s3" env]]
      send_frame_Broadcast [of "register env (log_end (raft_log t)) cb s3" env] m
    unfolding send_frame_iff s'_def by (auto simp: register_def)
  then have k: "core s' = core t" "sid \<noteq> 0 \<Longrightarrow> session_manager s' = snd (IsDuplicate (env_steady env) sid seq (session_manager t))"
    by (simp_all add: s1_def)
  ultimately show "\<exists>s'. Propose env c cb sid seq s = Some (OK, s') \<and>
      raft_log s' = AppendLogEntry (new_entry (raft_log t) (current_term t) c) (raft_log t) \<and>
      map_option pp_callback (map_of (pending_proposals s') (log_end (raft_log t))) = Some cb \<and>
      (sid \<noteq> 0 \<longrightarrow> proposal_sessions s' (log_end (raft_log t)) = Some (sid, seq)) \<and> core s' = core t \<and>
      (sid \<noteq> 0 \<longrightarrow> session_manager s' = snd (IsDuplicate (env_steady env) sid seq (session_manager t)))" if "d = None"
    using that k by (intro exI [of _ s']) (simp add: s'_def e_def register_def update_conv')
qed

section \<open>Properties\<close>

text \<open>
  C28: The callback of a batch runs exactly once. In whatever order the entries of a batch of \<open>n\<close> commands are
  applied or fail, no callback before the last one posts a completion, and the last one posts the
  results of all commands in the order in which the commands were proposed.
\<close>

theorem batch_completes_once:
  assumes "0 < n" and "distinct order" and "set order = {..<n}"
  shows "completions (map (\<lambda>i. (i, r i)) order) (new_batch n) = [map r [0..<n]]"
proof -
  let ?irs = "map (\<lambda>i. (i, r i)) order" and ?rs = "replicate n ApplyResult_init"
  have len: "length order = n" using assms(2,3) distinct_card [of order] by simp
  have "completions ?irs (new_batch n) = [fold (\<lambda>(i, r) rs. rs[i := r]) ?irs (results (new_batch n))]"
    using assms(1) len by (intro completions_last) (auto simp: new_batch_def)
  moreover have "fold (\<lambda>(i, r) rs. rs[i := r]) ?irs ?rs = map (\<lambda>i. if i \<in> set order then r i else ?rs ! i) [0..<length ?rs]"
    using assms(2,3) by (intro fold_updates) simp_all
  moreover have "\<dots> = map r [0..<n]" using assms(3) by simp
  ultimately show ?thesis by (simp add: new_batch_def)
qed

theorem batch_completes_once_witness:
  "completions (map (\<lambda>i. (i, config_result i)) [1, 0]) (new_batch 2) = [map config_result [0..<2]]"
  using batch_completes_once [of 2 "[1, 0]" config_result] by (simp add: lessThan_Suc numeral_2_eq_2 insert_commute)


lemma ex_propose:
  "\<exists>s'. Propose (ex_env 0) ''c'' (Some 7) 5 1 ex_chair = Some (OK, s')"
proof -
  have t: "RecordActivityLocked (ex_env 0) True ex_chair = Some (ex_chair\<lparr>last_activity_time := 0\<rparr>)"
    by (simp add: RecordActivityLocked_def Let_def) (simp add: ex_chair_def ex_group_def blank_node_def ex_env_def)
  have m: "fst (IsDuplicate (env_steady (ex_env 0)) 5 1 (session_manager (ex_chair\<lparr>last_activity_time := 0\<rparr>))) = None"
    by (simp add: ex_chair_def ex_group_def blank_node_def IsDuplicate_def mkSessionManager_def)
  show ?thesis
    using Propose_leader(2) [OF t, of 5 1 "''c''" "Some 7"] m ex_chair_fields by (auto simp: IsRunning_def)
qed


text \<open>
  The session cache does not make a retried command execute once. A command proposed again under the same
  session and sequence number before its first copy is applied is not recognised: the leader accepts it
  and its log holds the command twice.
\<close>

theorem retried_proposal_logged_twice:
  assumes "IsRunning s" and "role s = LEADER" and "\<not> quiesced s" and "log_wf (raft_log s)"
    and "log_end (raft_log s) + 2 < U32" and "sid \<noteq> 0" and "map_of (sessions (session_manager s)) sid = None"
  shows "\<exists>s1 s2. Propose env c cb sid seq s = Some (OK, s1) \<and> Propose env' c cb' sid seq s1 = Some (OK, s2) \<and>
    map_option e_data (log_map (raft_log s2) (log_end (raft_log s))) = Some c \<and>
    map_option e_data (log_map (raft_log s2) (Suc (log_end (raft_log s)))) = Some c"
proof -
  let ?t = "s\<lparr>last_activity_time := env_steady env\<rparr>"
  have d: "IsDuplicate x sid seq m = (None, m)" if "map_of (sessions m) sid = None" for x m
    using that by (simp add: IsDuplicate_def)
  have t: "RecordActivityLocked env True s = Some ?t" using assms(3) by (simp add: RecordActivityLocked_def Let_def)
  obtain s1 where s1: "Propose env c cb sid seq s = Some (OK, s1)" "core s1 = core s" "session_manager s1 = session_manager s"
    "raft_log s1 = AppendLogEntry (new_entry (raft_log s) (current_term s) c) (raft_log s)"
    using Propose_leader(2) [OF t, of sid seq c cb] assms d by (auto simp: IsRunning_def)
  have g: "IsRunning s1" "role s1 = LEADER" "\<not> quiesced s1" "current_term s1 = current_term s"
    using core_eqD(2,3,13,16) [OF s1(2)] assms(1-3) by (simp_all add: IsRunning_def)
  have w: "log_wf (raft_log s1)" using assms(4,5) s1(4) by (simp add: AppendLogEntry_wf new_entry_def)
  let ?u = "s1\<lparr>last_activity_time := env_steady env'\<rparr>"
  have u: "RecordActivityLocked env' True s1 = Some ?u" using g(3) by (simp add: RecordActivityLocked_def Let_def)
  obtain s2 where s2: "Propose env' c cb' sid seq s1 = Some (OK, s2)"
    "raft_log s2 = AppendLogEntry (new_entry (raft_log s1) (current_term s1) c) (raft_log s1)"
    using Propose_leader(2) [OF u, of sid seq c cb'] g w assms(6,7) s1(3) d by (auto simp: IsRunning_def)
  show ?thesis
    using s1(1,4) s2 by (intro exI [of _ s1] exI [of _ s2]) (simp add: AppendLogEntry_log_map new_entry_def)
qed

theorem retried_proposal_logged_twice_witness:
  "\<exists>s1 s2. Propose (ex_env 0) ''c'' (Some 7) 5 1 ex_chair = Some (OK, s1) \<and> Propose (ex_env 1) ''c'' (Some 8) 5 1 s1 = Some (OK, s2) \<and>
     map_option e_data (log_map (raft_log s2) 3) = Some ''c'' \<and> map_option e_data (log_map (raft_log s2) 4) = Some ''c''"
proof -
  have "\<not> quiesced ex_chair" "map_of (sessions (session_manager ex_chair)) 5 = None"
    by (simp_all add: ex_chair_def ex_group_def blank_node_def mkSessionManager_def)
  then show ?thesis
    using retried_proposal_logged_twice [of ex_chair 5 "ex_env 0" "''c''" "Some 7" 1 "ex_env 1" "Some 8"]
    by (simp add: ex_chair_fields U32_def)
qed

text \<open>
  A quiesced leader blocks for ever on the first client command: \<open>Propose\<close> and \<open>ProposeBatch\<close> lock
  \<open>replication_mtx_\<close> before they record the activity, and leaving quiesced mode locks it again.
\<close>

theorem quiesced_leader_blocks_on_proposal:
  assumes "quiesced s" and "role s = LEADER"
  shows "Propose env c cb sid seq s = None \<and> ProposeBatch env cs cbs s = None"
  using assms by (simp add: Propose_def ProposeBatch_def RecordActivityLocked_def ExitQuiescedLocked_def Let_def)

theorem quiesced_leader_blocks_on_proposal_witness:
  "Propose (ex_env 0) ''c'' None 0 0 (ex_chair\<lparr>quiesced := True\<rparr>) = None"
  using quiesced_leader_blocks_on_proposal [of "ex_chair\<lparr>quiesced := True\<rparr>"] by (simp add: ex_chair_fields)

text \<open>
  A former leader of term 1 whose proposal at index 3 was not committed, now follower of node 2 in
  term 2.
\<close>

definition ex_deposed :: RaftNode where
  "ex_deposed = (ex_follower ex_tail)\<lparr>commit_index := 2, last_enqueued := 2,
     pending_proposals := [(3, \<lparr>pp_index = 3, pp_callback = Some 9, pp_propose_time = 0\<rparr>)]\<rparr>"

definition ex_contacted_deposed :: RaftNode where
  "ex_contacted_deposed = ResetElectionTimerLocked (ex_env 0) (ex_deposed\<lparr>last_activity_time := 0,
     leader_id := 2, leader_addr := ''h:1'', last_leader_contact := 0, has_leader_contact := True\<rparr>)"

lemma ex_deposed_phase1:
  "append_election_phase (ex_env 0) (ex_append p t es c) ex_deposed =
     Some (True, \<lparr>aer_term = 2, aer_success = False, aer_conflict_index = 0, aer_entries_count = 0\<rparr>, ex_contacted_deposed)"
  by (simp add: append_election_phase_def RecordActivityLocked_def ex_contacted_deposed_def ex_deposed_def Let_def IsVoter_def)
     (simp add: ex_env_def)

lemma ex_deposed_fields [simp]:
  "raft_log ex_contacted_deposed = ex_tail" "commit_index ex_contacted_deposed = 2" "last_enqueued ex_contacted_deposed = 2"
  "last_snapshot_index ex_contacted_deposed = 0" "has_log_persister ex_contacted_deposed = False"
  "role ex_contacted_deposed = FOLLOWER" "proposal_sessions ex_contacted_deposed = Map.empty" "apply_queue ex_contacted_deposed = []"
  "pending_proposals ex_contacted_deposed = [(3, \<lparr>pp_index = 3, pp_callback = Some 9, pp_propose_time = 0\<rparr>)]"
  by (simp_all add: ex_contacted_deposed_def ResetElectionTimerLocked_def CancelElectionTimerLocked_def Let_def ex_deposed_def)
     (simp_all add: ex_follower_def ex_group_def blank_node_def)

lemma ex_deposed_log:
  defines "l \<equiv> AppendLogEntry (ex_entry 3 2 ''other'') (TruncateSuffix 3 ex_tail)"
  shows "append_new [ex_entry 3 2 ''other''] (truncate_conflict [ex_entry 3 2 ''other''] ex_contacted_deposed) =
      (None, ex_contacted_deposed\<lparr>raft_log := l\<rparr>)"
    and "log_wf l" "log_end l = 4" "log_map l 3 = Some (ex_entry 3 2 ''other'')"
proof -
  let ?t = "TruncateSuffix 3 ex_tail"
  have w: "log_wf ?t" "log_end ?t = 3" "start_index ?t = Suc 0"
    by (simp_all add: TruncateSuffix_wf TruncateSuffix_log_end)
  have m: "log_map ?t 3 = None" by (simp add: TruncateSuffix_log_map)
  have a: "Append 2 ''other'' ?t = (3, l)"
    using Append_wf_eq [OF w(1), of 2 "''other''"] w(2) by (simp add: l_def new_entry_def ex_entry_def)
  have e: "expected_index ?t = 3"
    using w expected_index_wf [of ?t] by simp
  have t3: "GetLogTermLocked ex_contacted_deposed 3 = 1"
    by (simp add: GetLogTermLocked_def GetLogTerm_def GetEntry_log_map)
  have t4: "GetLogTermLocked (ex_contacted_deposed\<lparr>raft_log := ?t\<rparr>) 3 = 0"
    using w m by (simp add: GetLogTermLocked_def GetLogTerm_def GetEntry_log_map)
  show "append_new [ex_entry 3 2 ''other''] (truncate_conflict [ex_entry 3 2 ''other''] ex_contacted_deposed) =
      (None, ex_contacted_deposed\<lparr>raft_log := l\<rparr>)"
    using t3 t4 a e w by (simp add: GetFirstIndex_def)
  show "log_wf l" using w by (simp add: l_def AppendLogEntry_wf U32_def)
  show "log_end l = 4" "log_map l 3 = Some (ex_entry 3 2 ''other'')"
    using w by (simp_all add: l_def AppendLogEntry_log_map)
qed

lemma stepping_down_keeps_proposals:
  "BecomeFollowerLockedImpl env t held persist s = Some s' \<Longrightarrow> pending_proposals s' = pending_proposals s"
  by (auto simp: BecomeFollowerLockedImpl_def Let_def publish_role_def SaveState_def emit_def ResetElectionTimerLocked_def
      CancelElectionTimerLocked_def StopHeartbeatTimerLocked_def StopSnapshotCheckTimerLocked_def
      split: if_splits prod.splits bool.splits)

text \<open>
  A proposal lost by a change of leader can be reported as applied. The proposals a leader has registered
  survive its step down and are found again by index alone: here a former leader of term 1, whose
  proposal at index 3 was never committed, replaces its entry 3 by the new leader's and, when that is
  committed, queues the new leader's command with the callback of the lost proposal.
\<close>

theorem lost_proposal_reported_applied:
  "\<exists>resp s' task. HandleAppendEntries (ex_env 0) (ex_append 2 1 [ex_entry 3 2 ''other''] 3) ex_deposed = Some (resp, s') \<and>
     GetEntry (raft_log ex_deposed) 3 = Some (ex_entry 3 1 ''stale'') \<and>
     map_option pp_callback (map_of (pending_proposals ex_deposed) 3) = Some (Some 9) \<and>
     apply_queue s' = [task] \<and> at_index task = 3 \<and> at_data task = ''other'' \<and> at_callback task = Some 9"
proof -
  let ?s = ex_contacted_deposed and ?req = "ex_append 2 1 [ex_entry 3 2 ''other''] 3"
  define l where "l = AppendLogEntry (ex_entry 3 2 ''other'') (TruncateSuffix 3 ex_tail)"
  note l = ex_deposed_log [folded l_def]
  have last: "fst (GetLastLogInfo l) = 3" by (simp add: l_def AppendLogEntry_def GetLastLogInfo_def)
  have g: "GetEntry l 3 = Some (ex_entry 3 2 ''other'')" using l by (simp add: GetEntry_log_map)
  have p: "u32_add 2 1 = 3" by (simp add: u32_add_def U32_def)
  have t: "GetLogTermLocked ?s 2 = 1" by (simp add: GetLogTermLocked_def GetLogTerm_def GetEntry_log_map)
  define s' where "s' = enqueue_command (ex_entry 3 2 ''other'') (?s\<lparr>raft_log := l, commit_index := 3, last_enqueued := 3\<rparr>)"
  have "apply_next (ex_env 0) (?s\<lparr>raft_log := l, commit_index := 3\<rparr>) = Some s'"
    using g p by (simp add: apply_next_def s'_def is_config_entry_def starts_with_def)
  then have "ApplyCommittedLocked (ex_env 0) (?s\<lparr>raft_log := l, commit_index := 3\<rparr>) = Some s'"
    by (simp add: ApplyCommittedLocked_def numeral_eq_Suc)
  then have "append_commit (ex_env 0) ?req r (?s\<lparr>raft_log := l\<rparr>) = Some (r\<lparr>aer_success := True\<rparr>, s')" for r
    using last by (simp add: append_commit_def)
  then obtain resp where "HandleAppendEntries (ex_env 0) ?req ex_deposed = Some (resp, s')"
    using l(1) t p by (simp add: HandleAppendEntries_def ex_deposed_phase1 append_replication_phase_def GetFirstIndex_def Let_def)
  moreover obtain task where "apply_queue s' = [task]" "at_index task = 3" "at_data task = ''other''" "at_callback task = Some 9"
    by (simp add: s'_def enqueue_command_def push_task_def Let_def)
  moreover have "GetEntry (raft_log ex_deposed) 3 = Some (ex_entry 3 1 ''stale'')"
    "map_option pp_callback (map_of (pending_proposals ex_deposed) 3) = Some (Some 9)"
    by (simp_all add: ex_deposed_def GetEntry_log_map)
  ultimately show ?thesis by blast
qed

end
