(* ===== verification/Reads.thy ===== *)
theory Reads
  imports Proposals
begin

text \<open>
  Linearizable reads and the apply thread: \<open>ReadIndex\<close> of \<open>src/raft_node_core.cpp\<close>, \<open>ApplyLoop\<close> and the
  ReadIndex functions of \<open>src/state_machine_applier.cpp\<close>, \<open>HandleReadIndexRequest\<close> and
  \<open>HandleClientRequest\<close> of \<open>src/rpc_handlers.cpp\<close>. A function that waits, for a remote answer or for a
  promise, is one definition up to the wait and one for what follows; other handlers may run between.
\<close>

section \<open>Pending reads\<close>

definition read_ready :: "RaftNode \<Rightarrow> PendingReadIndex \<Rightarrow> bool" where
  "read_ready s r \<longleftrightarrow>
     (if pr_heartbeats_sent r then QuorumSatisfied (cluster_config s) (pr_acks r) else True) \<and>
     pr_read_index r \<le> last_applied s"

definition complete_read :: "nat \<Rightarrow> RaftNode \<Rightarrow> RaftNode" where
  "complete_read i s =
     (case map_of (pending_reads s) i of
        None \<Rightarrow> s
      | Some r \<Rightarrow> emit (ReadCallback (pr_callback r)) (s\<lparr>pending_reads := AList.delete i (pending_reads s)\<rparr>))"

definition ProcessPendingReadsLocked :: "RaftNode \<Rightarrow> RaftNode" where
  "ProcessPendingReadsLocked s = fold complete_read (map fst (filter (\<lambda>(i, r). read_ready s r) (pending_reads s))) s"

definition HandleReadIndexAckLocked :: "NodeId \<Rightarrow> nat \<Rightarrow> RaftNode \<Rightarrow> RaftNode" where
  "HandleReadIndexAckLocked peer read_id s =
     (case map_of (pending_reads s) read_id of
        None \<Rightarrow> s
      | Some r0 \<Rightarrow>
        let r = r0\<lparr>pr_acks := insert peer (pr_acks r0)\<rparr>;
            s1 = s\<lparr>pending_reads := AList.update read_id r (pending_reads s)\<rparr>
        in if \<not> pr_heartbeats_sent r
           then if pr_read_index r \<le> last_applied s1 then ProcessPendingReadsLocked s1 else s1
           else if QuorumSatisfied (cluster_config s1) (pr_acks r)
           then if pr_read_index r \<le> last_applied s1
                then emit (ReadCallback (pr_callback r)) (s1\<lparr>pending_reads := AList.delete read_id (pending_reads s1)\<rparr>)
                else s1
           else s1)"

definition OnReadIndexHeartbeatResponse :: "NodeId \<Rightarrow> nat \<Rightarrow> bool \<Rightarrow> AppendEntriesResponse \<Rightarrow> RaftNode \<Rightarrow> RaftNode" where
  "OnReadIndexHeartbeatResponse peer read_id success resp s =
     (if \<not> success then s
      else if aer_success resp then HandleReadIndexAckLocked peer read_id s else s)"

section \<open>Asking for acknowledgements\<close>

definition recently_sent :: "Env \<Rightarrow> RaftNode \<Rightarrow> NodeId \<Rightarrow> bool" where
  "recently_sent env s peer =
     (case last_heartbeat_sent s peer of
        None \<Rightarrow> False
      | Some t \<Rightarrow> within_ms (env_now env) t (heartbeat_interval_ms (cfg s)))"

definition read_majority :: "RaftNode \<Rightarrow> nat" where
  "read_majority s =
     (let c = cluster_config s in
      if cc_is_joint c then max (GetMajority c) (GetOldMajority c) else GetMajority c)"

definition read_targets :: "Env \<Rightarrow> RaftNode \<Rightarrow> NodeId list" where
  "read_targets env s =
     (let peers = map fst (peer_map s);
          skip = filter (recently_sent env s) peers;
          send = filter (\<lambda>p. \<not> recently_sent env s p) peers
      in if length send + 1 < read_majority s \<and> skip \<noteq> []
         then send @ take (read_majority s - 1 - length send) skip
         else send)"

definition send_read_heartbeat :: "Env \<Rightarrow> nat \<Rightarrow> NodeId \<Rightarrow> RaftNode \<Rightarrow> RaftNode" where
  "send_read_heartbeat env read_id peer s0 =
     (let s = touch_next peer s0;
          prev = u32_sub (at0 (next_index s) peer) 1;
          req = \<lparr>ae_correlation_id = next_correlation_id s, ae_group_id = group_id s,
                 ae_term = current_term s, ae_leader_id = server_id s, ae_prev_log_index = prev,
                 ae_prev_log_term = GetLogTermLocked s prev, ae_entries = [], ae_leader_commit = commit_index s\<rparr>;
          s1 = take_correlation_id s
      in if \<not> env_serialize_ok env (AppendEntries req) then s1
         else case map_of (peer_map s1) peer of
                None \<Rightarrow> s1
              | Some addr \<Rightarrow>
                  emit (SendRpc peer addr (AppendEntries req) (rpc_timeout_ms (cfg s1)) (OnReadIndexHeartbeat read_id)) s1)"

definition BroadcastReadIndexHeartbeatsLocked :: "Env \<Rightarrow> nat \<Rightarrow> RaftNode \<Rightarrow> RaftNode" where
  "BroadcastReadIndexHeartbeatsLocked env read_id s =
     (let s1 = fold (send_read_heartbeat env read_id) (read_targets env s) s in
      case map_of (pending_reads s1) read_id of
        None \<Rightarrow> s1
      | Some r \<Rightarrow> s1\<lparr>pending_reads := AList.update read_id (r\<lparr>pr_heartbeats_sent := True\<rparr>) (pending_reads s1)\<rparr>)"

section \<open>ReadIndex\<close>

definition add_read :: "Env \<Rightarrow> Index \<Rightarrow> nat \<Rightarrow> NodeId set \<Rightarrow> bool \<Rightarrow> RaftNode \<Rightarrow> RaftNode" where
  "add_read env idx cb acks sent s =
     s\<lparr>next_read_id := u64_add (next_read_id s) 1,
       pending_reads := AList.update (next_read_id s)
         \<lparr>pr_read_index = idx, pr_callback = cb, pr_start_time = env_steady env, pr_acks = acks,
          pr_heartbeats_sent = sent\<rparr> (pending_reads s)\<rparr>"

text \<open>\<open>Inr\<close> is a follower that forwards to the leader it knows and waits for the answer.\<close>

definition ReadIndex :: "Env \<Rightarrow> nat \<Rightarrow> RaftNode \<Rightarrow> ((Status + NodeId \<times> NodeAddr) \<times> RaftNode) option" where
  "ReadIndex env cb s0 =
     (case RecordActivityLocked env False s0 of
        None \<Rightarrow> None
      | Some s \<Rightarrow>
        if \<not> IsRunning s then Some (Inl (Error ''Node not running'' []), s)
        else if role s \<noteq> LEADER
        then if leader_id s < 0 \<or> leader_addr s = []
             then Some (Inl (NotLeader (leader_id s) (leader_addr s)), s)
             else Some (Inr (leader_id s, leader_addr s), s)
        else
          let read_id = next_read_id s;
              lease_valid = (leader_lease_enabled (cfg s) \<and> env_now env < leader_lease_expiry s)
          in Some (Inl OK,
               if lease_valid then ProcessPendingReadsLocked (add_read env (commit_index s) cb {} False s)
               else BroadcastReadIndexHeartbeatsLocked env read_id
                      (add_read env (commit_index s) cb {server_id s} True s)))"

definition ReadIndex_forwarded ::
  "Env \<Rightarrow> (nat \<Rightarrow> string) \<Rightarrow> nat \<Rightarrow> NodeId \<times> NodeAddr \<Rightarrow> Status \<times> ReadIndexResponse \<Rightarrow> RaftNode \<Rightarrow> (Status \<times> RaftNode) option" where
  "ReadIndex_forwarded env unknown cb leader answer s =
     (let (status, resp) = answer in
      if \<not> ok status
      then Some (Error ''READINDEX_FORWARD'' (''Failed to forward ReadIndex to leader: '' @ ToString unknown status), s)
      else if \<not> rir_leader_valid resp then Some (NotLeader (fst leader) (snd leader), s)
      else if current_term s < rir_term resp
      then map_option (\<lambda>s1. (NotLeader (leader_id s1) (leader_addr s1), s1)) (BecomeFollowerLocked env (rir_term resp) s)
      else Some (OK, ProcessPendingReadsLocked (add_read env (rir_read_index resp) cb {} False s)))"

definition HandleReadIndexRequest :: "Env \<Rightarrow> RaftNode \<Rightarrow> (ReadIndexResponse \<times> RaftNode) option" where
  "HandleReadIndexRequest env s0 =
     (case RecordActivityLocked env False s0 of
        None \<Rightarrow> None
      | Some s \<Rightarrow>
          Some (if role s = LEADER
                then \<lparr>rir_term = current_term s, rir_read_index = commit_index s, rir_leader_valid = True\<rparr>
                else \<lparr>rir_term = current_term s, rir_read_index = 0, rir_leader_valid = False\<rparr>, s))"

section \<open>The apply thread\<close>

text \<open>
  One round of the loop is two definitions: taking a batch and reading the applied index, and
  working through the batch and publishing the new one.
\<close>

definition kBatchSize :: nat where
  "kBatchSize = 64"

definition ApplyLoop_take :: "RaftNode \<Rightarrow> (ApplyTask list \<times> Index) \<times> RaftNode" where
  "ApplyLoop_take s =
     ((take kBatchSize (apply_queue s), last_applied s), s\<lparr>apply_queue := drop kBatchSize (apply_queue s)\<rparr>)"

definition run_callback :: "callback \<Rightarrow> ApplyResult \<Rightarrow> RaftNode \<Rightarrow> RaftNode" where
  "run_callback cb r s = (case cb of None \<Rightarrow> s | Some c \<Rightarrow> emit (ProposalCallback c r) s)"

definition apply_result :: "Env \<Rightarrow> ApplyTask \<Rightarrow> ApplyResult" where
  "apply_result env t =
     (case env_apply env (at_data t) (at_index t) of
        Inr r \<Rightarrow> r
      | Inl what \<Rightarrow> ApplyResult_init\<lparr>ar_error_message := ''state machine exception: '' @ what,
                                     ar_applied_index := at_index t\<rparr>)"

definition session_result :: "ApplyResult \<Rightarrow> SessionResult" where
  "session_result r =
     \<lparr>sr_success = ar_success r, sr_response = ar_response r, sr_applied_index = u32 (ar_applied_index r),
      sr_applied_term = 0, sr_error_message = ar_error_message r\<rparr>"

definition apply_task :: "Env \<Rightarrow> ApplyTask \<Rightarrow> Index \<times> RaftNode \<Rightarrow> Index \<times> RaftNode" where
  "apply_task env t st =
     (let (applied, s) = st in
      if at_index t \<le> applied
      then (applied, run_callback (at_callback t)
                       (ApplyResult_init\<lparr>ar_success := True, ar_applied_index := at_index t\<rparr>) s)
      else if at_is_config_change t then (at_index t, s)
      else let r = apply_result env t;
               s1 = emit (ApplyCommand (at_index t) (at_data t)) s;
               s2 = (if at_session_id t \<noteq> 0
                     then s1\<lparr>session_manager := RecordResult (env_steady env) (at_session_id t) (at_seq_num t)
                               (session_result r) (session_manager s1)\<rparr>
                     else s1)
           in (at_index t, run_callback (at_callback t) r s2))"

definition ApplyLoop_run :: "Env \<Rightarrow> ApplyTask list \<times> Index \<Rightarrow> RaftNode \<Rightarrow> RaftNode" where
  "ApplyLoop_run env batch s =
     (let (applied, s1) = fold (apply_task env) (fst batch) (snd batch, s)
      in ProcessPendingReadsLocked (s1\<lparr>last_applied := applied\<rparr>))"

definition ApplyLoop_round :: "Env \<Rightarrow> RaftNode \<Rightarrow> RaftNode" where
  "ApplyLoop_round env s =
     (if \<not> apply_running s \<or> apply_queue s = [] then s
      else let (batch, s1) = ApplyLoop_take s in ApplyLoop_run env batch s1)"

section \<open>Client requests\<close>

text \<open>How far \<open>HandleClientRequest\<close> gets: an answer, or a wait for a read, a forwarded read or a command.\<close>

datatype client_step =
    Reply ClientResponse
  | WaitRead
  | WaitForward NodeId NodeAddr
  | WaitCommand Index

definition ClientSession_init :: ClientSession where
  "ClientSession_init = \<lparr>cs_last_seq = 0, cs_last_response = [], cs_last_index = 0, cs_last_term = 0, cs_last_active = 0\<rparr>"

definition session_at :: "RaftNode \<Rightarrow> nat \<Rightarrow> ClientSession" where
  "session_at s i = (case client_sessions s i of None \<Rightarrow> ClientSession_init | Some c \<Rightarrow> c)"

definition leader_response :: "RaftNode \<Rightarrow> ClientResponse" where
  "leader_response s = ClientResponse_init\<lparr>crr_leader_id := server_id s, crr_leader_addr := nc_listen_addr (config s)\<rparr>"

definition client_write_done :: "ClientRequest \<Rightarrow> ApplyResult \<Rightarrow> RaftNode \<Rightarrow> ClientResponse \<times> RaftNode" where
  "client_write_done req r s =
     (let c = session_at s (cr_client_id req);
          c1 = (if ar_success r
                then c\<lparr>cs_last_seq := cr_seq req, cs_last_response := ar_response r,
                       cs_last_index := u32 (ar_applied_index r), cs_last_term := current_term s\<rparr>
                else c)
      in ((leader_response s)\<lparr>crr_success := ar_success r, crr_response := ar_response r, crr_error := ar_error_message r,
             crr_last_applied_index := u32 (ar_applied_index r)\<rparr>,
          s\<lparr>client_sessions := (client_sessions s)(cr_client_id req \<mapsto> c1)\<rparr>))"

definition client_read_failed :: "Status \<Rightarrow> RaftNode \<Rightarrow> ClientResponse" where
  "client_read_failed status s =
     (let r = ClientResponse_init\<lparr>crr_error := GetMessage status\<rparr> in
      if IsCode kNotLeader status then r\<lparr>crr_leader_id := leader_id s, crr_leader_addr := leader_addr s\<rparr> else r)"

definition client_read_done :: "ApplyResult option \<Rightarrow> RaftNode \<Rightarrow> ClientResponse" where
  "client_read_done query s =
     (case query of
        None \<Rightarrow> ClientResponse_init\<lparr>crr_error := ''ReadIndex timeout''\<rparr>
      | Some q \<Rightarrow> (leader_response s)\<lparr>crr_success := ar_success q, crr_response := ar_response q,
                    crr_error := ar_error_message q, crr_last_applied_index := u32 (ar_applied_index q)\<rparr>)"

definition HandleClientRequest :: "Env \<Rightarrow> ClientRequest \<Rightarrow> nat \<Rightarrow> RaftNode \<Rightarrow> (client_step \<times> RaftNode) option" where
  "HandleClientRequest env req cb s0 =
     (case RecordActivityLocked env True s0 of
        None \<Rightarrow> None
      | Some s \<Rightarrow>
        if role s \<noteq> LEADER
        then Some (Reply (ClientResponse_init\<lparr>crr_error := ''Not leader'', crr_leader_id := leader_id s,
                            crr_leader_addr := leader_addr s\<rparr>), s)
        else if cr_read_only req
        then case ReadIndex env cb s of
               None \<Rightarrow> None
             | Some (Inr (i, addr), s1) \<Rightarrow> Some (WaitForward i addr, s1)
             | Some (Inl status, s1) \<Rightarrow>
                 if \<not> ok status then Some (Reply (client_read_failed status s1), s1) else Some (WaitRead, s1)
        else
          let c = (session_at s (cr_client_id req))\<lparr>cs_last_active := env_steady env\<rparr>;
              s1 = s\<lparr>client_sessions := (client_sessions s)(cr_client_id req \<mapsto> c)\<rparr>
          in if cr_seq req \<le> cs_last_seq c
             then Some (Reply ((leader_response s1)\<lparr>crr_success := True, crr_response := cs_last_response c,
                          crr_last_applied_index := cs_last_index c\<rparr>), s1)
             else case ProposeAndWaitLocked env (cr_command req) cb s1 of
                    (Inl r, s2) \<Rightarrow> (let (resp, s3) = client_write_done req r s2 in Some (Reply resp, s3))
                  | (Inr idx, s2) \<Rightarrow> Some (WaitCommand idx, s2))"

section \<open>What they leave alone\<close>

lemma quiet_complete_read [simp]: "quiet s t \<Longrightarrow> quiet s (complete_read i t)"
  by (simp add: complete_read_def split: option.split)

lemma quiet_ProcessPendingReads [simp]: "quiet s t \<Longrightarrow> quiet s (ProcessPendingReadsLocked t)"
proof -
  have "quiet s (fold complete_read ids u)" if "quiet s u" for ids u
    using that by (induction ids arbitrary: u) simp_all
  then show "quiet s t \<Longrightarrow> ?thesis" by (simp add: ProcessPendingReadsLocked_def)
qed

lemma quiet_ReadIndexAck [simp]: "quiet s t \<Longrightarrow> quiet s (HandleReadIndexAckLocked p i t)"
  by (simp add: HandleReadIndexAckLocked_def Let_def split: option.split)

lemma quiet_OnReadIndexHeartbeat: "quiet s (OnReadIndexHeartbeatResponse p i b r s)"
  by (simp add: OnReadIndexHeartbeatResponse_def)

lemma quiet_send_read [simp]: "quiet s t \<Longrightarrow> quiet s (send_read_heartbeat env i p t)"
  by (simp add: send_read_heartbeat_def Let_def touch_next_def take_correlation_id_def split: option.split)

lemma quiet_BroadcastReadIndex [simp]: "quiet s t \<Longrightarrow> quiet s (BroadcastReadIndexHeartbeatsLocked env i t)"
proof -
  have "quiet s (fold (send_read_heartbeat env i) ps u)" if "quiet s u" for ps u
    using that by (induction ps arbitrary: u) simp_all
  then show "quiet s t \<Longrightarrow> ?thesis" by (simp add: BroadcastReadIndexHeartbeatsLocked_def Let_def split: option.split)
qed

lemma quiet_add_read [simp]: "quiet s (add_read env i cb a b t) = quiet s t"
  by (simp add: add_read_def)

lemma ReadIndex_recedes:
  assumes "ReadIndex env cb s = Some (r, s')"
  shows "recedes s s'"
proof -
  obtain t where t: "RecordActivityLocked env False s = Some t" using assms by (auto simp: ReadIndex_def split: option.splits)
  have "quiet t s'" using assms t by (auto simp: ReadIndex_def Let_def split: if_splits)
  then show ?thesis using RecordActivity_recedes [OF t] by (blast intro: recedes_quiet)
qed

lemma ReadIndex_forwarded_recedes:
  assumes "ReadIndex_forwarded env u cb l a s = Some (st, s')"
  shows "recedes s s'"
proof -
  obtain status resp where a: "a = (status, resp)" by fastforce
  have "quiet s s' \<or> BecomeFollowerLocked env (rir_term resp) s = Some s' \<and> current_term s < rir_term resp"
    using assms by (auto simp: ReadIndex_forwarded_def a split: if_splits)
  then show ?thesis
    using quiet_recedes [of s s'] BecomeFollower_recedes(1) [of env "rir_term resp" False True s s']
    by (auto simp: BecomeFollowerLocked_def)
qed

lemma HandleReadIndexRequest_recedes: "HandleReadIndexRequest env s = Some (r, s') \<Longrightarrow> recedes s s'"
  using RecordActivity_recedes [of env False s] by (auto simp: HandleReadIndexRequest_def split: option.splits)

lemma quiet_run_callback [simp]: "quiet s (run_callback cb r t) = quiet s t"
  by (simp add: run_callback_def split: option.split)

lemma quiet_apply_task: "quiet s (snd st) \<Longrightarrow> quiet s (snd (apply_task env t st))"
  by (cases st) (simp add: apply_task_def Let_def)

lemma quiet_ApplyLoop_run [simp]:
  assumes "quiet s t"
  shows "quiet s (ApplyLoop_run env b t)"
proof -
  have "quiet s (snd (fold (apply_task env) ts st))" if "quiet s (snd st)" for ts st
    using that by (induction ts arbitrary: st) (simp_all add: quiet_apply_task)
  from this [of "(snd b, t)" "fst b"] assms show ?thesis
    by (cases "fold (apply_task env) (fst b) (snd b, t)") (simp add: ApplyLoop_run_def)
qed

lemma quiet_ApplyLoop_round: "quiet s (ApplyLoop_round env s)"
  by (simp add: ApplyLoop_round_def ApplyLoop_take_def)

lemma HandleClientRequest_recedes:
  assumes "HandleClientRequest env req cb s = Some (step, s')"
  shows "recedes s s'"
proof -
  obtain t where t: "RecordActivityLocked env True s = Some t" using assms by (auto simp: HandleClientRequest_def split: option.splits)
  define c where "c = (session_at t (cr_client_id req))\<lparr>cs_last_active := env_steady env\<rparr>"
  define t1 where "t1 = t\<lparr>client_sessions := (client_sessions t)(cr_client_id req \<mapsto> c)\<rparr>"
  obtain r t2 where p: "ProposeAndWaitLocked env (cr_command req) cb t1 = (r, t2)" by fastforce
  have q: "quiet t t2" using quiet_trans [of t t1 t2] quiet_ProposeAndWait(1) [of t1 env "cr_command req" cb] p by (simp add: t1_def)
  have "(\<exists>x. ReadIndex env cb t = Some (x, s')) \<or> quiet t s'"
  proof (cases "cr_read_only req \<and> role t = LEADER")
    case True
    then show ?thesis using assms t by (auto simp: HandleClientRequest_def split: option.splits sum.splits if_splits)
  next
    case False
    then show ?thesis
      using assms q p unfolding HandleClientRequest_def t option.case c_def [symmetric] t1_def [symmetric] Let_def
      by (cases r) (auto simp: client_write_done_def Let_def t1_def split: if_splits)
  qed
  then have "recedes t s'" using ReadIndex_recedes quiet_recedes by blast
  then show ?thesis by (rule recedes_trans [OF RecordActivity_recedes [OF t]])
qed

fun is_apply :: "effect \<Rightarrow> bool" where
  "is_apply (ApplyCommand _ _) = True"
| "is_apply _ = False"

section \<open>Completing reads\<close>

lemma complete_reads:
  assumes "distinct (map fst (pending_reads s))" and "distinct ids" and "set ids \<subseteq> set (map fst (pending_reads s))"
  shows "fold complete_read ids s =
    s\<lparr>pending_reads := filter (\<lambda>(i, r). i \<notin> set ids) (pending_reads s),
      out := out s @ map (\<lambda>i. ReadCallback (pr_callback (the (map_of (pending_reads s) i)))) ids\<rparr>"
  using assms
proof (induction ids arbitrary: s)
  case Nil
  then show ?case by simp
next
  case (Cons i ids)
  let ?s = "s\<lparr>pending_reads := AList.delete i (pending_reads s), out := out s @ [ReadCallback (pr_callback (the (map_of (pending_reads s) i)))]\<rparr>"
  have c: "complete_read i s = ?s"
    using Cons.prems(3) by (auto simp: complete_read_def emit_def split: option.split dest: map_of_eq_None_iff [THEN iffD1])
  have d: "distinct (map fst (pending_reads ?s))" using Cons.prems(1) by (simp add: distinct_delete)
  have sub: "set ids \<subseteq> set (map fst (pending_reads ?s))" using Cons.prems(2,3) by (auto simp: delete_keys)
  have m: "map_of (AList.delete i (pending_reads s)) j = map_of (pending_reads s) j" if "j \<in> set ids" for j
    using that Cons.prems(2) by (auto simp: delete_conv)
  have "filter (\<lambda>(j, r). j \<notin> set ids) (AList.delete i (pending_reads s)) = filter (\<lambda>(j, r). j \<notin> set (i # ids)) (pending_reads s)"
    by (auto simp: AList.delete_eq intro: filter_cong)
  then show ?case
    using Cons.IH [OF d _ sub] Cons.prems(2) m by (simp add: c cong: map_cong)
qed

lemma reads_keep [simp]:
  "filter is_apply (out (ProcessPendingReadsLocked s)) = filter is_apply (out s)"
  "last_applied (ProcessPendingReadsLocked s) = last_applied s"
proof -
  have "filter is_apply (out (fold complete_read ids t)) = filter is_apply (out t) \<and> last_applied (fold complete_read ids t) = last_applied t"
    for ids t
    by (induction ids arbitrary: t) (simp_all add: complete_read_def emit_def split: option.split)
  then show "filter is_apply (out (ProcessPendingReadsLocked s)) = filter is_apply (out s)"
    "last_applied (ProcessPendingReadsLocked s) = last_applied s"
    by (simp_all add: ProcessPendingReadsLocked_def)
qed

lemma apply_task_out:
  "filter is_apply (out (snd (apply_task env t (applied, s)))) = filter is_apply (out s) @
     (if applied < at_index t \<and> \<not> at_is_config_change t then [ApplyCommand (at_index t) (at_data t)] else [])"
  "fst (apply_task env t (applied, s)) = max applied (at_index t)"
  by (auto simp: apply_task_def Let_def run_callback_def split: option.split)

lemma fold_apply_task:
  assumes "sorted_wrt (<) (map at_index ts)"
  shows "filter is_apply (out (snd (fold (apply_task env) ts (applied, s)))) = filter is_apply (out s) @
      map (\<lambda>t. ApplyCommand (at_index t) (at_data t)) (filter (\<lambda>t. applied < at_index t \<and> \<not> at_is_config_change t) ts)"
    and "fst (fold (apply_task env) ts (applied, s)) = (if ts = [] then applied else max applied (at_index (last ts)))"
  using assms
proof (atomize (full), induction ts arbitrary: applied s)
  case (Cons t ts)
  obtain a u where u: "apply_task env t (applied, s) = (a, u)" by fastforce
  have a: "a = max applied (at_index t)" "filter is_apply (out u) = filter is_apply (out s) @
     (if applied < at_index t \<and> \<not> at_is_config_change t then [ApplyCommand (at_index t) (at_data t)] else [])"
    using apply_task_out [of env t applied s] u by simp_all
  have gt: "at_index t < at_index x" if "x \<in> set ts" for x using that Cons.prems by simp
  have "filter (\<lambda>x. max applied (at_index t) < at_index x \<and> \<not> at_is_config_change x) ts =
      filter (\<lambda>x. applied < at_index x \<and> \<not> at_is_config_change x) ts"
    using gt by (auto intro!: filter_cong)
  moreover have "ts = [] \<or> at_index t < at_index (last ts)" by (cases "ts = []") (simp_all add: gt)
  ultimately show ?case
    using Cons.IH [of a u] Cons.prems u a by (auto simp: max_def)
qed simp

section \<open>Properties\<close>

text \<open>
  Pending reads complete exactly when they may. \<open>ProcessPendingReads\<close> runs the callback of every read whose
  index is applied and that is either a lease read or acknowledged by a quorum of the current
  configuration, once and in the table's order, removes those reads, and changes nothing else.
\<close>

theorem process_reads_completes_ready:
  assumes "distinct (map fst (pending_reads s))"
  shows "ProcessPendingReadsLocked s =
    s\<lparr>pending_reads := filter (\<lambda>(i, r). \<not> read_ready s r) (pending_reads s),
      out := out s @ map (\<lambda>(i, r). ReadCallback (pr_callback r)) (filter (\<lambda>(i, r). read_ready s r) (pending_reads s))\<rparr>"
proof -
  let ?ids = "map fst (filter (\<lambda>(i, r). read_ready s r) (pending_reads s))"
  have ids: "distinct ?ids" "set ?ids \<subseteq> set (map fst (pending_reads s))"
    using assms by (auto simp: distinct_map_filter)
  have val: "map_of (pending_reads s) i = Some r" if "(i, r) \<in> set (pending_reads s)" for i r
    using that assms by simp
  have "filter (\<lambda>(i, r). i \<notin> set ?ids) (pending_reads s) = filter (\<lambda>(i, r). \<not> read_ready s r) (pending_reads s)"
  proof (rule filter_cong [OF refl])
    fix x
    assume x: "x \<in> set (pending_reads s)"
    obtain i r where ir: "x = (i, r)" by fastforce
    have r: "r' = r" if "(i, r') \<in> set (pending_reads s)" for r' using val [OF that] val [of i r] x ir by simp
    have "i \<in> set ?ids \<longleftrightarrow> read_ready s r"
    proof
      assume "i \<in> set ?ids"
      then obtain r' where "(i, r') \<in> set (pending_reads s)" "read_ready s r'" by auto
      then show "read_ready s r" using r by simp
    qed (use x ir in force)
    then show "(case x of (i, r) \<Rightarrow> i \<notin> set ?ids) = (case x of (i, r) \<Rightarrow> \<not> read_ready s r)" using ir by simp
  qed
  moreover have "map (\<lambda>i. ReadCallback (pr_callback (the (map_of (pending_reads s) i)))) ?ids =
      map (\<lambda>(i, r). ReadCallback (pr_callback r)) (filter (\<lambda>(i, r). read_ready s r) (pending_reads s))"
    using val by (auto intro!: map_cong)
  ultimately show ?thesis
    using complete_reads [OF assms ids] by (simp add: ProcessPendingReadsLocked_def)
qed

theorem process_reads_completes_ready_witness:
  "\<exists>s. distinct (map fst (pending_reads s)) \<and> pending_reads s \<noteq> [] \<and> pending_reads (ProcessPendingReadsLocked s) = []"
proof -
  let ?s = "(ex_group [2])\<lparr>pending_reads := [(1, \<lparr>pr_read_index = 0, pr_callback = 4, pr_start_time = 0, pr_acks = {}, pr_heartbeats_sent = False\<rparr>)]\<rparr>"
  have "distinct (map fst (pending_reads ?s))" by simp
  from process_reads_completes_ready [OF this] have "pending_reads (ProcessPendingReadsLocked ?s) = []"
    by (simp add: read_ready_def)
  then show ?thesis by (intro exI [of _ ?s]) simp
qed



text \<open>
  The apply thread undoes what a snapshot installed during its batch has done. A batch taken before the
  installation keeps its own copy of the applied index: it applies its commands to the restored state
  machine, which already contains them, and then moves the applied index back.
\<close>

theorem apply_batch_overrides_snapshot:
  assumes "ApplyLoop_take s = ((ts, applied), s1)" and "ts \<noteq> []" and "sorted_wrt (<) (map at_index ts)"
    and "HandleInstallSnapshot env req s1 = Some (resp, s2)" and "at_index (last ts) < last_applied s2"
    and "\<forall>t \<in> set ts. applied < at_index t"
  shows "last_applied (ApplyLoop_run env' (ts, applied) s2) < last_applied s2 \<and>
    filter is_apply (out (ApplyLoop_run env' (ts, applied) s2)) = filter is_apply (out s2) @
      map (\<lambda>t. ApplyCommand (at_index t) (at_data t)) (filter (\<lambda>t. \<not> at_is_config_change t) ts)"
proof -
  have "filter (\<lambda>t. applied < at_index t \<and> \<not> at_is_config_change t) ts = filter (\<lambda>t. \<not> at_is_config_change t) ts"
    using assms(6) by (intro filter_cong) auto
  moreover have "applied < at_index (last ts)" using assms(2,6) by simp
  ultimately show ?thesis
    using fold_apply_task [OF assms(3), of env' applied s2] assms(2,5)
    by (cases "fold (apply_task env') ts (applied, s2)") (simp add: ApplyLoop_run_def)
qed

definition ex_task :: ApplyTask where
  "ex_task = \<lparr>at_index = 1, at_data = ''a'', at_callback = None, at_is_config_change = False, at_propose_time = None,
     at_session_id = 0, at_seq_num = 0\<rparr>"

theorem apply_batch_overrides_snapshot_witness:
  "\<exists>resp s2. HandleInstallSnapshot (ex_env 0) (ex_install 5 1 ''abc'') ex_receiver = Some (resp, s2) \<and>
     last_applied (ApplyLoop_run (ex_env 0) ([ex_task], 0) s2) < last_applied s2"
proof -
  obtain s1 where s1: "HandleInstallSnapshot (ex_env 0) (ex_install 5 1 ''abc'') ex_receiver =
      Some (\<lparr>isr_term = 2\<rparr>, install_finish (ex_env 0) (temp_path 5 1 ex_receiver, 5, 1) s1)"
    "install_view s1 = install_view ex_receiver" using ex_install_returns [of 5 1] .
  have l: "last_applied (install_finish (ex_env 0) (temp_path 5 1 ex_receiver, 5, 1) s1) = 5"
    using install_view_eqD(8,10) [OF s1(2)] ex_transfer(12,13) by (simp add: install_finish_indexes(3)) (simp add: ex_env_def)
  have t: "ApplyLoop_take (ex_receiver\<lparr>apply_queue := [ex_task]\<rparr>) = (([ex_task], 0), ex_receiver)"
    by (simp add: ApplyLoop_take_def kBatchSize_def ex_receiver_def ex_follower_def ex_group_def blank_node_def)
  show ?thesis
    using apply_batch_overrides_snapshot [OF t _ _ s1(1), of "ex_env 0"] s1(1) l by (simp add: ex_task_def)
qed

lemma read_targets_enough:
  assumes "distinct (map fst (peer_map s))"
  shows "distinct (read_targets env s)" "set (read_targets env s) \<subseteq> set (map fst (peer_map s))"
    "read_majority s \<le> Suc (length (peer_map s)) \<Longrightarrow> read_majority s \<le> Suc (length (read_targets env s))"
proof -
  define skip where "skip = filter (recently_sent env s) (map fst (peer_map s))"
  define send where "send = filter (\<lambda>p. \<not> recently_sent env s p) (map fst (peer_map s))"
  have len: "length send + length skip = length (peer_map s)"
    unfolding skip_def send_def using sum_length_filter_compl [of "recently_sent env s" "map fst (peer_map s)"] by simp
  have d: "distinct skip" "distinct send" "set skip \<inter> set send = {}" "set skip \<union> set send \<subseteq> set (map fst (peer_map s))"
    using assms by (auto simp: skip_def send_def)
  have t: "read_targets env s = (if length send + 1 < read_majority s \<and> skip \<noteq> []
      then send @ take (read_majority s - 1 - length send) skip else send)"
    unfolding read_targets_def Let_def skip_def send_def by simp
  show "distinct (read_targets env s)"
    unfolding t using d(1-3) by (auto dest!: in_set_takeD)
  show "set (read_targets env s) \<subseteq> set (map fst (peer_map s))"
    unfolding t using d(4) by (auto dest!: in_set_takeD)
  show "read_majority s \<le> Suc (length (read_targets env s))" if "read_majority s \<le> Suc (length (peer_map s))"
    unfolding t using len that by (auto simp: min_def)
qed

lemma send_read_keeps [simp]:
  "pending_reads (send_read_heartbeat env i p s) = pending_reads s" "peer_map (send_read_heartbeat env i p s) = peer_map s"
  "set (out s) \<subseteq> set (out (send_read_heartbeat env i p s))"
  by (auto simp: send_read_heartbeat_def Let_def touch_next_def take_correlation_id_def emit_def split: option.split)

lemma fold_send_read:
  assumes "\<forall>m. env_serialize_ok env m" and "set ps \<subseteq> set (map fst (peer_map s))"
  shows "pending_reads (fold (send_read_heartbeat env i) ps s) = pending_reads s \<and>
    set (out s) \<subseteq> set (out (fold (send_read_heartbeat env i) ps s)) \<and>
    (\<forall>p \<in> set ps. \<exists>a req t. SendRpc p a req t (OnReadIndexHeartbeat i) \<in> set (out (fold (send_read_heartbeat env i) ps s)))"
  using assms(2)
proof (induction ps arbitrary: s)
  case (Cons p ps)
  let ?s = "send_read_heartbeat env i p s"
  have "map_of (peer_map s) p \<noteq> None" using Cons.prems by (auto simp: map_of_eq_None_iff)
  then have "\<exists>a req t. out ?s = out s @ [SendRpc p a req t (OnReadIndexHeartbeat i)]"
    using assms(1) by (auto simp: send_read_heartbeat_def Let_def touch_next_def take_correlation_id_def emit_def)
  then have "\<exists>a req t. SendRpc p a req t (OnReadIndexHeartbeat i) \<in> set (out ?s)" by fastforce
  then show ?case using Cons.IH [of ?s] Cons.prems send_read_keeps(3) [of s env i p] by fastforce
qed simp

lemma finite_sent: "finite {p. \<exists>a req t. SendRpc p a req t c \<in> set xs}" (is "finite ?P")
proof -
  let ?f = "\<lambda>e. case e of SendRpc p _ _ _ _ \<Rightarrow> p | _ \<Rightarrow> 0"
  have "?P \<subseteq> ?f ` set xs"
  proof
    fix p
    assume "p \<in> ?P"
    then obtain a req t where "SendRpc p a req t c \<in> set xs" by blast
    then show "p \<in> ?f ` set xs" by (rule rev_image_eqI) simp
  qed
  then show ?thesis by (rule finite_subset) simp
qed


text \<open>A leader without lease, of three nodes or alone.\<close>

definition ex_reader :: RaftNode where
  "ex_reader = ex_chair\<lparr>runtime_config := mkRuntimeConfig (default_values\<lparr>leader_lease_enabled := False\<rparr>)\<rparr>"

definition ex_alone :: RaftNode where
  "ex_alone = ex_reader\<lparr>peer_map := [], cluster_config := ex_cc [1] [] False\<rparr>"

lemma ex_reader_fields:
  "IsRunning ex_reader" "role ex_reader = LEADER" "\<not> leader_lease_enabled (cfg ex_reader)" "\<not> quiesced ex_reader"
  "map fst (peer_map ex_reader) = [2, 3]" "read_majority ex_reader = 2" "length (peer_map ex_reader) = 2"
  "IsRunning ex_alone" "role ex_alone = LEADER" "\<not> leader_lease_enabled (cfg ex_alone)" "\<not> quiesced ex_alone"
  "peer_map ex_alone = []" "cluster_config ex_alone = ex_cc [server_id ex_alone] [] False" "commit_index ex_alone = 0"
  by (simp_all add: ex_reader_def ex_alone_def cfg_def mkRuntimeConfig_def read_majority_def GetMajority_def u32_def U32_def
      IsRunning_def ex_chair_fields ex_chair_fields(1) [unfolded IsRunning_def])
     (simp_all add: ex_chair_def ex_group_def blank_node_def ex_config_def)


text \<open>
  On a single-node cluster without leader lease a read is never answered by itself: the leader is its own
  quorum and everything is applied, but \<open>ReadIndex\<close> only registers the read, sends nothing, and runs no
  callback.
\<close>

theorem single_node_read_waits:
  assumes "\<not> quiesced s" and "IsRunning s" and "role s = LEADER" and "\<not> leader_lease_enabled (cfg s)"
    and "peer_map s = []" and "cluster_config s = ex_cc [server_id s] [] False" and "commit_index s \<le> last_applied s"
  shows "\<exists>s' rd. ReadIndex env cb s = Some (Inl OK, s') \<and> out s' = out s \<and>
    map_of (pending_reads s') (next_read_id s) = Some rd \<and> pr_callback rd = cb \<and> read_ready s' rd"
proof -
  let ?s = "s\<lparr>last_activity_time := env_steady env\<rparr>"
  let ?rd = "\<lparr>pr_read_index = commit_index s, pr_callback = cb, pr_start_time = env_steady env, pr_acks = {server_id s}, pr_heartbeats_sent = True\<rparr>"
  have t: "RecordActivityLocked env False s = Some ?s" using assms(1) by (simp add: RecordActivityLocked_def Let_def)
  have "read_targets env (add_read env (commit_index s) cb {server_id s} True ?s) = []"
    using assms(5) by (simp add: read_targets_def add_read_def)
  then have r: "ReadIndex env cb s = Some (Inl OK, (add_read env (commit_index s) cb {server_id s} True ?s)
      \<lparr>pending_reads := AList.update (next_read_id s) ?rd (pending_reads (add_read env (commit_index s) cb {server_id s} True ?s))\<rparr>)"
    using t assms(2-4) by (simp add: ReadIndex_def BroadcastReadIndexHeartbeatsLocked_def cfg_def IsRunning_def Let_def)
      (simp add: add_read_def update_conv')
  have "QuorumSatisfied (cluster_config s) {server_id s}"
    using assms(6) by (simp add: QuorumSatisfied_iff config_ok_def ex_cc_def U32_def majority_of_def)
  then show ?thesis using r assms(7) by (simp add: add_read_def update_conv' read_ready_def)
qed

theorem single_node_read_waits_witness:
  "\<exists>s' rd. ReadIndex (ex_env 0) 4 ex_alone = Some (Inl OK, s') \<and> out s' = out ex_alone \<and>
     map_of (pending_reads s') (next_read_id ex_alone) = Some rd"
  using single_node_read_waits [OF ex_reader_fields(11,8,9,10,12,13), of "ex_env 0" 4] ex_reader_fields(14) by auto

text \<open>
  The first write of a client that numbers its requests from 0 is not executed: the session created for it
  has last sequence number 0, so the request counts as a repetition, and the client is told success with an empty response.
\<close>

theorem first_write_with_seq_0_is_dropped:
  assumes "\<not> quiesced s" and "role s = LEADER" and "\<not> cr_read_only req" and "cr_seq req = 0"
    and "client_sessions s (cr_client_id req) = None"
  shows "\<exists>resp s'. HandleClientRequest env req cb s = Some (Reply resp, s') \<and> crr_success resp \<and> crr_response resp = [] \<and>
    raft_log s' = raft_log s"
  using assms
  by (simp add: HandleClientRequest_def RecordActivityLocked_def session_at_def ClientSession_init_def Let_def)

theorem first_write_with_seq_0_is_dropped_witness:
  "\<exists>resp s'. HandleClientRequest (ex_env 0) \<lparr>cr_group_id = 0, cr_command = ''c'', cr_client_id = 1, cr_seq = 0, cr_read_only = False\<rparr> 4 ex_chair =
     Some (Reply resp, s') \<and> crr_success resp"
proof -
  have "\<not> quiesced ex_chair" "client_sessions ex_chair 1 = None" by (simp_all add: ex_chair_def ex_group_def blank_node_def)
  then show ?thesis
    using first_write_with_seq_0_is_dropped [of ex_chair "\<lparr>cr_group_id = 0, cr_command = ''c'', cr_client_id = 1, cr_seq = 0, cr_read_only = False\<rparr>" "ex_env 0" 4]
    by (auto simp: ex_chair_fields)
qed

end
