(* ===== verification/Lifecycle.thy ===== *)
theory Lifecycle
  imports Reads
begin

text \<open>
  Starting, ticking and stopping a node: \<open>Start\<close>, \<open>DoGracefulShutdown\<close>, \<open>ForceShutdown\<close> and \<open>Stop\<close> of
  \<open>src/raft_node_core.cpp\<close> and \<open>OnStoreTick\<close> of \<open>src/election_manager.cpp\<close>. What the persister, the log
  persister, the transport and the state machine answer during \<open>Start\<close> is the record \<open>Boot\<close>; the wiring of
  metrics and HTTP handlers is left out. \<open>None\<close> is an abort or an exception that leaves a thread.
\<close>

section \<open>Start\<close>

record Boot =
  boot_open :: Status
  boot_state :: "PersistentState option"
  boot_has_snapshot :: bool
  boot_load :: Status
  boot_data :: string
  boot_index :: nat
  boot_term :: nat
  boot_restore_ok :: "string \<Rightarrow> bool"
  boot_entries :: "Index \<Rightarrow> RaftLogEntry list"
  boot_manage_network :: bool
  boot_supports_auth :: bool
  boot_net_init :: Status
  boot_net_start :: Status

definition restore_state :: "PersistentState option \<Rightarrow> RaftNode \<Rightarrow> RaftNode" where
  "restore_state p s =
     (case p of
        None \<Rightarrow> s
      | Some st \<Rightarrow>
        let s1 = s\<lparr>current_term := ps_current_term st, voted_for := ps_voted_for st\<rparr> in
        if 0 < ps_cluster_version st
        then s1\<lparr>cluster_config := \<lparr>cc_nodes = ps_cluster_nodes st, cc_old_nodes = ps_cluster_old_nodes st,
                 cc_learners = ps_cluster_learners st, cc_version = ps_cluster_version st,
                 cc_is_joint = ps_cluster_is_joint st\<rparr>\<rparr>
        else s1)"

text \<open>The stored snapshot: \<open>Inl\<close> is the error that ends \<open>Start\<close>.\<close>

definition restore_snapshot :: "Boot \<Rightarrow> RaftNode \<Rightarrow> Status \<times> RaftNode" where
  "restore_snapshot b s =
     (if \<not> boot_has_snapshot b then (OK, s)
      else if ok (boot_load b) \<and> boot_data b \<noteq> []
      then let s1 = emit (RestoreStateMachine (boot_data b)) s in
           if boot_restore_ok b (boot_data b)
           then (OK, s1\<lparr>last_snapshot_index := u32 (boot_index b), last_snapshot_term := u32 (boot_term b),
                       raft_log := SetStartIndex (u32 (boot_index b + 1)) (raft_log s1),
                       commit_index := u32 (boot_index b), last_applied := u32 (boot_index b),
                       last_enqueued := u32 (boot_index b)\<rparr>)
           else (Error ''Failed to restore snapshot from persister'' [], s1)
      else (Error (''Failed to load snapshot: '' @
              (if ok (boot_load b) then ''snapshot data is empty'' else GetMessage (boot_load b))) [], s))"

definition restore_log :: "Boot \<Rightarrow> RaftNode \<Rightarrow> RaftNode" where
  "restore_log b s =
     (let es = boot_entries b (GetFirstIndex (raft_log s));
          l = (if es \<noteq> [] \<and> e_index (hd es) \<noteq> GetFirstIndex (raft_log s)
               then SetStartIndex (e_index (hd es)) (raft_log s) else raft_log s);
          l' = fold AppendLogEntry es l
      in s\<lparr>raft_log := l', flushed_index := LastLogIndex l', has_log_persister := True\<rparr>)"

definition temp_prefix :: "RaftNode \<Rightarrow> string" where
  "temp_prefix s =
     (if nc_data_dir (config s) = [] then ''/tmp'' else nc_data_dir (config s)) @ ''/rollingraft_snapshot_'' @
     to_string (server_id s) @ ''_g'' @ to_string (int (group_id s)) @ ''_''"

definition remove_temp_files :: "RaftNode \<Rightarrow> RaftNode" where
  "remove_temp_files s =
     s\<lparr>temp_files := (\<lambda>p. if starts_with (temp_prefix s) p \<and> CHR ''/'' \<notin> set (drop (length (temp_prefix s)) p) then None
                          else temp_files s p)\<rparr>"

definition start_network :: "Boot \<Rightarrow> RaftNode \<Rightarrow> Status" where
  "start_network b s =
     (if \<not> boot_manage_network b then OK
      else if nc_client_auth_enabled (config s) \<and> \<not> boot_supports_auth b
      then Error ''CONFIG_INVALID'' ''client authentication requires authenticated transport support''
      else if \<not> ok (boot_net_init b) then boot_net_init b
      else boot_net_start b)"

definition Start :: "Env \<Rightarrow> Boot \<Rightarrow> RaftNode \<Rightarrow> (Status \<times> RaftNode) option" where
  "Start env b s0 =
     (if state s0 \<noteq> kInitialized then Some (Error ''Already started or stopped'' [], s0)
      else
        let s = s0\<lparr>state := kRunning\<rparr>;
            fail = (\<lambda>st t. Some (st, t\<lparr>state := kInitialized\<rparr>));
            (status, s1) =
              (if has_persister s
               then if \<not> ok (boot_open b) then (boot_open b, s)
                    else case restore_snapshot b (restore_state (boot_state b) s) of
                           (st, t) \<Rightarrow> if ok st then (OK, restore_log b t) else (st, t)
               else (OK, s))
        in if \<not> ok status then fail status s1
           else
             let s2 = remove_temp_files s1; net = start_network b s2 in
             if \<not> ok net then fail net s2
             else map_option (\<lambda>s3. (OK, emit (LifecycleEvent True) (s3\<lparr>apply_running := True\<rparr>)))
                    (BecomeFollowerLocked env (current_term s2) s2))"

section \<open>Ticks\<close>

definition OnStoreTick :: "Env \<Rightarrow> RaftNode \<Rightarrow> RaftNode option" where
  "OnStoreTick env s =
     (if \<not> IsRunning s then Some s
      else case (if election_timer_enabled s \<and> election_deadline s \<le> env_now env then OnElectionTimeoutLocked env s
                 else Some s) of
             None \<Rightarrow> None
           | Some s1 \<Rightarrow> map_option (CheckSnapshotTimeoutLocked env) (CheckHeartbeatTimeoutLocked env s1))"

section \<open>Stop\<close>

definition stopped_result :: ApplyResult where
  "stopped_result = ApplyResult_init\<lparr>ar_error_message := ''Node stopped''\<rparr>"

definition stop_timers :: "RaftNode \<Rightarrow> RaftNode" where
  "stop_timers s = StopSnapshotCheckTimerLocked (StopHeartbeatTimerLocked (CancelElectionTimerLocked s))"

definition fail_tasks :: "ApplyTask list \<Rightarrow> RaftNode \<Rightarrow> RaftNode" where
  "fail_tasks ts s = fold (\<lambda>t. run_callback (at_callback t) stopped_result) ts s"

text \<open>Calling an empty \<open>std::function\<close> throws; the loop has no test.\<close>

fun fail_proposals :: "(Index \<times> PendingProposal) list \<Rightarrow> RaftNode \<Rightarrow> RaftNode option" where
  "fail_proposals [] s = Some s"
| "fail_proposals ((i, pp) # pps) s =
     (case pp_callback pp of
        None \<Rightarrow> None
      | Some c \<Rightarrow> fail_proposals pps (emit (ProposalCallback c stopped_result) s))"

definition DoGracefulShutdown :: "RaftNode \<Rightarrow> RaftNode option" where
  "DoGracefulShutdown s0 =
     (let s = (stop_timers s0)\<lparr>apply_running := False\<rparr>;
          s1 = fail_tasks (apply_queue s) (s\<lparr>apply_queue := []\<rparr>)
      in map_option (\<lambda>s2. emit (LifecycleEvent False) (s2\<lparr>state := kStopped\<rparr>))
           (fail_proposals (pending_proposals s1) (s1\<lparr>pending_proposals := []\<rparr>)))"

definition ForceShutdown :: "RaftNode \<Rightarrow> RaftNode" where
  "ForceShutdown s =
     emit (LifecycleEvent False) ((stop_timers (s\<lparr>state := kStopped\<rparr>))\<lparr>pending_proposals := []\<rparr>)"

text \<open>
  \<open>timed_out\<close> is whether the graceful shutdown misses its deadline; without a timeout the call waits for it.
\<close>

definition Stop :: "nat \<Rightarrow> bool \<Rightarrow> RaftNode \<Rightarrow> (Status \<times> RaftNode) option" where
  "Stop shutdown_timeout_ms timed_out s =
     (if state s \<noteq> kRunning
      then Some (if state s = kStopped then OK else Error ''Node not running'' [], s)
      else let s1 = s\<lparr>state := kStopping\<rparr> in
           if shutdown_timeout_ms \<noteq> 0 \<and> timed_out then Some (Error ''Shutdown timeout'' [], ForceShutdown s1)
           else map_option (\<lambda>s2. (OK, s2)) (DoGracefulShutdown s1))"

section \<open>What a restart restores\<close>

lemma ok_simps [simp]: "ok OK" "ok st \<longleftrightarrow> st = OK" "\<not> ok (Error a b)" "Error a b \<noteq> OK"
  by (simp_all add: ok_def OK_def Error_def mkStatus_def Let_def)

lemma Start_OK:
  assumes "Start env b s = Some (OK, s')" and "has_persister s"
  obtains t r u where "state s = kInitialized"
    and "restore_snapshot b (restore_state (boot_state b) (s\<lparr>state := kRunning\<rparr>)) = (OK, t)"
    and "r = remove_temp_files (restore_log b t)"
    and "BecomeFollowerLockedImpl env (current_term r) False True r = Some u"
    and "s' = emit (LifecycleEvent True) (u\<lparr>apply_running := True\<rparr>)"
  using assms
  by (auto simp: Start_def Let_def BecomeFollowerLocked_def split: if_splits prod.splits)

lemma BecomeFollower_saves:
  assumes "BecomeFollowerLockedImpl env (current_term s) held True s = Some s'" and "has_persister s"
  shows "CurrentPersistentStateLocked s' = CurrentPersistentStateLocked s"
    and "durable s' = Some (CurrentPersistentStateLocked s)"
  using assms
  by (auto simp: BecomeFollowerLockedImpl_def Let_def SaveState_def publish_role_def emit_def
      CurrentPersistentStateLocked_def ResetElectionTimerLocked_def CancelElectionTimerLocked_def StopHeartbeatTimerLocked_def
      StopSnapshotCheckTimerLocked_def split: if_splits)

lemma restore_snapshot_ballot:
  assumes "restore_snapshot b s = (st, t)"
  shows "CurrentPersistentStateLocked t = CurrentPersistentStateLocked s" "has_persister t = has_persister s"
  using assms
  by (auto simp: restore_snapshot_def Let_def emit_def CurrentPersistentStateLocked_def split: if_splits)

lemma restore_log_ballot [simp]:
  "CurrentPersistentStateLocked (restore_log b s) = CurrentPersistentStateLocked s"
  "has_persister (restore_log b s) = has_persister s"
  by (simp_all add: restore_log_def CurrentPersistentStateLocked_def Let_def)

lemma remove_temp_files_ballot [simp]:
  "CurrentPersistentStateLocked (remove_temp_files s) = CurrentPersistentStateLocked s"
  "has_persister (remove_temp_files s) = has_persister s"
  by (simp_all add: remove_temp_files_def CurrentPersistentStateLocked_def)

lemma restore_state_ballot:
  "0 < ps_cluster_version p \<Longrightarrow> CurrentPersistentStateLocked (restore_state (Some p) s) = p"
  "has_persister (restore_state q s) = has_persister s"
  by (simp_all add: restore_state_def CurrentPersistentStateLocked_def Let_def split: option.split)

text \<open>
  C5: A node that starts over the state an earlier run saved comes back as a follower with exactly that term,
  vote and membership, in memory and on disk, so a vote cast before a crash still binds it.
\<close>

theorem restart_keeps_ballot:
  assumes "Start env b s = Some (OK, s')" and "has_persister s"
    and "boot_state b = Some p" and "0 < ps_cluster_version p"
  shows "CurrentPersistentStateLocked s' = p \<and> durable s' = Some p \<and> role s' = FOLLOWER \<and>
    votes_received s' = {} \<and> IsRunning s'"
proof -
  obtain t r u where st: "state s = kInitialized"
    and t: "restore_snapshot b (restore_state (boot_state b) (s\<lparr>state := kRunning\<rparr>)) = (OK, t)"
    and r: "r = remove_temp_files (restore_log b t)"
    and u: "BecomeFollowerLockedImpl env (current_term r) False True r = Some u"
    and s': "s' = emit (LifecycleEvent True) (u\<lparr>apply_running := True\<rparr>)"
    by (rule Start_OK [OF assms(1,2)])
  have pr: "CurrentPersistentStateLocked r = p" "has_persister r"
    using restore_snapshot_ballot [OF t] assms(2-4) by (simp_all add: r restore_state_ballot)
  have "state r = kRunning"
    using t by (auto simp: r remove_temp_files_def restore_log_def restore_snapshot_def restore_state_def Let_def
        emit_def split: if_splits option.splits)
  moreover have "core u = core (stepped_down (current_term r) r)"
    by (rule quiet_coreD [OF BecomeFollower_quiet [OF u]])
  ultimately have "role u = FOLLOWER" "votes_received u = {}" "state u = kRunning"
    by (simp_all add: core_def stepped_down_def)
  then show ?thesis
    using BecomeFollower_saves [OF u pr(2)] pr(1)
    by (simp add: s' emit_def IsRunning_def CurrentPersistentStateLocked_def)
qed

text \<open>What the witnesses start: an empty node, and a persister holding two entries, term 2 and a vote for node 3.\<close>

definition ex_boot :: Boot where
  "ex_boot =
     \<lparr>boot_open = OK,
      boot_state = Some \<lparr>ps_current_term = 2, ps_voted_for = 3, ps_cluster_nodes = [1, 2, 3],
        ps_cluster_old_nodes = [], ps_cluster_learners = [], ps_cluster_version = 1, ps_cluster_is_joint = False\<rparr>,
      boot_has_snapshot = False, boot_load = OK, boot_data = [], boot_index = 0, boot_term = 0,
      boot_restore_ok = (\<lambda>_. True), boot_entries = (\<lambda>_. entries ex_log2), boot_manage_network = True,
      boot_supports_auth = False, boot_net_init = OK, boot_net_start = OK\<rparr>"

definition ex_fresh :: RaftNode where
  "ex_fresh = (ex_group [2, 3])\<lparr>state := kInitialized\<rparr>"

lemma ex_fresh_simps [simp]:
  "state ex_fresh = kInitialized" "has_persister ex_fresh" "raft_log ex_fresh = RaftLog_init"
  "nc_client_auth_enabled (config ex_fresh) = False" "current_term ex_fresh = 0" "out ex_fresh = []"
  by (simp_all add: ex_fresh_def ex_group_def ex_config_def blank_node_def)

lemma BecomeFollower_defined: "env_save_ok env = (\<lambda>_. True) \<Longrightarrow> \<exists>u. BecomeFollowerLockedImpl env t h p s = Some u"
  by (simp add: BecomeFollowerLockedImpl_def Let_def SaveState_def)

lemma config_restore [simp]:
  "config (restore_log b s) = config s" "config (remove_temp_files s) = config s"
  "config (restore_state q s) = config s"
  by (simp_all add: restore_log_def remove_temp_files_def restore_state_def Let_def split: option.split)

lemma ex_start_any:
  assumes "state s = kInitialized" and "has_persister s" and "\<not> nc_client_auth_enabled (config s)"
  shows "\<exists>s'. Start (ex_env 0) ex_boot s = Some (OK, s')"
proof -
  have "env_save_ok (ex_env 0) = (\<lambda>_. True)" by (simp add: ex_env_def)
  then show ?thesis
    using BecomeFollower_defined assms
    by (auto simp: Start_def Let_def ex_boot_def restore_snapshot_def start_network_def BecomeFollowerLocked_def)
qed

lemma ex_start: "\<exists>s'. Start (ex_env 0) ex_boot ex_fresh = Some (OK, s')"
  by (rule ex_start_any) simp_all

theorem restart_keeps_ballot_witness:
  "\<exists>s'. Start (ex_env 0) ex_boot ex_fresh = Some (OK, s') \<and> current_term s' = 2 \<and> voted_for s' = 3 \<and>
     role s' = FOLLOWER"
proof -
  obtain s' where s': "Start (ex_env 0) ex_boot ex_fresh = Some (OK, s')" using ex_start by blast
  have "CurrentPersistentStateLocked s' = the (boot_state ex_boot) \<and> role s' = FOLLOWER"
    using restart_keeps_ballot [OF s', of "the (boot_state ex_boot)"] by (simp add: ex_boot_def)
  then show ?thesis using s' by (auto simp: ex_boot_def CurrentPersistentStateLocked_def)
qed

lemma fold_AppendLogEntry:
  "entries (fold AppendLogEntry es l) = entries l @ es"
  "start_index (fold AppendLogEntry es l) = start_index l"
  "estimated_bytes (fold AppendLogEntry es l) = estimated_bytes l + sum_list (map EstimateEntryBytes es)"
  by (induction es arbitrary: l) (simp_all add: AppendLogEntry_def)

lemma log_view_Start:
  assumes "BecomeFollowerLockedImpl env t h p r = Some u"
  shows "raft_log u = raft_log r" "last_snapshot_index u = last_snapshot_index r" "commit_index u = commit_index r"
  using log_view_BecomeFollower [OF assms] by (simp_all add: log_view_def)

text \<open>
  C24: A new node that starts over a persister whose log entries have consecutive indices, with or without a
  stored snapshot, has exactly those entries in a well-formed log, and its commit index is the snapshot's.
\<close>

theorem restart_restores_log:
  assumes "Start env b s = Some (OK, s')" and "has_persister s" and "raft_log s = RaftLog_init"
    and "commit_index s = 0" and "boot_index b + 1 < U32"
    and "first = (if boot_has_snapshot b then boot_index b + 1 else 1)"
    and "es = boot_entries b first" and "es \<noteq> []"
    and "map e_index es = [e_index (hd es) ..< e_index (hd es) + length es]"
    and "0 < e_index (hd es)" and "e_index (hd es) + length es < U32"
  shows "log_wf (raft_log s') \<and> entries (raft_log s') = es \<and> GetFirstIndex (raft_log s') = e_index (hd es) \<and>
    commit_index s' = (if boot_has_snapshot b then boot_index b else 0)"
proof -
  obtain t r u where st: "state s = kInitialized"
    and t: "restore_snapshot b (restore_state (boot_state b) (s\<lparr>state := kRunning\<rparr>)) = (OK, t)"
    and r: "r = remove_temp_files (restore_log b t)"
    and u: "BecomeFollowerLockedImpl env (current_term r) False True r = Some u"
    and s': "s' = emit (LifecycleEvent True) (u\<lparr>apply_running := True\<rparr>)"
    by (rule Start_OK [OF assms(1,2)])
  have l0: "raft_log (restore_state (boot_state b) (s\<lparr>state := kRunning\<rparr>)) = RaftLog_init"
      "commit_index (restore_state (boot_state b) (s\<lparr>state := kRunning\<rparr>)) = 0"
    using assms(3,4) by (simp_all add: restore_state_def Let_def split: option.split)
  have t1: "entries (raft_log t) = [] \<and> estimated_bytes (raft_log t) = 0 \<and> start_index (raft_log t) = first \<and>
      commit_index t = (if boot_has_snapshot b then boot_index b else 0)"
    using t l0 assms(5,6)
    by (auto simp: restore_snapshot_def Let_def emit_def SetStartIndex_def RaftLog_init_def u32_def split: if_splits)
  have "entries (raft_log r) = es" "start_index (raft_log r) = e_index (hd es)"
      "estimated_bytes (raft_log r) = sum_list (map EstimateEntryBytes es)" "commit_index r = commit_index t"
    using t1 assms(7,8)
    by (simp_all add: r remove_temp_files_def restore_log_def Let_def fold_AppendLogEntry SetStartIndex_def
        GetFirstIndex_def)
  then show ?thesis
    using t1 assms(9-11) log_view_Start [OF u] unfolding s' emit_def
    by (simp add: log_wf_def log_end_def GetFirstIndex_def)
qed

theorem restart_restores_log_witness:
  "\<exists>s'. Start (ex_env 0) ex_boot ex_fresh = Some (OK, s') \<and> raft_log s' = ex_log2"
proof -
  obtain s' where s': "Start (ex_env 0) ex_boot ex_fresh = Some (OK, s')" using ex_start by blast
  have c: "commit_index ex_fresh = 0" by (simp add: ex_fresh_def ex_group_def blank_node_def)
  have "log_wf (raft_log s') \<and> entries (raft_log s') = entries ex_log2 \<and> GetFirstIndex (raft_log s') = 1"
    using restart_restores_log [OF s' _ _ c, of 1 "entries ex_log2"]
    by (simp add: ex_boot_def ex_entry_def U32_def upt_rec)
  then have "raft_log s' = ex_log2"
    using ex_log2_wf by (auto simp: log_wf_def GetFirstIndex_def intro: RaftLog.equality)
  then show ?thesis using s' by blast
qed

text \<open>
  A failed \<open>Start\<close> puts the node back to \<open>kInitialized\<close>, so that it can be called again, but leaves the restored
  entries in the log: when the transport cannot start at first and the call is repeated, every stored entry is in
  the log twice and the log is not well formed.
\<close>

theorem retried_start_duplicates_log:
  "\<exists>st s1 s2. Start (ex_env 0) (ex_boot\<lparr>boot_net_start := Error ''bind'' []\<rparr>) ex_fresh = Some (st, s1) \<and> st \<noteq> OK \<and>
     Start (ex_env 0) ex_boot s1 = Some (OK, s2) \<and> entries (raft_log s2) = entries ex_log2 @ entries ex_log2 \<and>
     \<not> log_wf (raft_log s2)"
proof -
  define s1 where "s1 = (remove_temp_files (restore_log ex_boot (restore_state (boot_state ex_boot)
      (ex_fresh\<lparr>state := kRunning\<rparr>))))\<lparr>state := kInitialized\<rparr>"
  have b: "restore_log (ex_boot\<lparr>boot_net_start := e\<rparr>) = restore_log ex_boot" for e
    by (simp add: restore_log_def fun_eq_iff)
  have a: "Start (ex_env 0) (ex_boot\<lparr>boot_net_start := Error ''bind'' []\<rparr>) ex_fresh = Some (Error ''bind'' [], s1)"
    by (simp add: Start_def Let_def restore_snapshot_def start_network_def s1_def b) (simp add: ex_boot_def)
  have fs: "state s1 = kInitialized" "has_persister s1" "raft_log s1 = fold AppendLogEntry (entries ex_log2) RaftLog_init"
      "nc_client_auth_enabled (config s1) = False"
    by (simp_all add: s1_def restore_state_ballot)
      (simp_all add: remove_temp_files_def restore_log_def Let_def restore_state_def ex_boot_def GetFirstIndex_def RaftLog_init_def ex_entry_def)
  obtain s2 where s2: "Start (ex_env 0) ex_boot s1 = Some (OK, s2)"
    using ex_start_any [OF fs(1,2)] fs(4) by blast
  obtain t r u where t: "restore_snapshot ex_boot (restore_state (boot_state ex_boot) (s1\<lparr>state := kRunning\<rparr>)) = (OK, t)"
    and r: "r = remove_temp_files (restore_log ex_boot t)"
    and u: "BecomeFollowerLockedImpl (ex_env 0) (current_term r) False True r = Some u"
    and s2u: "s2 = emit (LifecycleEvent True) (u\<lparr>apply_running := True\<rparr>)"
    using Start_OK [OF s2 fs(2)] by metis
  have "raft_log t = raft_log s1"
    using t by (simp add: restore_snapshot_def ex_boot_def restore_state_def Let_def split: if_splits)
      (auto simp: ex_boot_def)
  then have es: "entries (raft_log s2) = entries ex_log2 @ entries ex_log2"
    using log_view_Start(1) [OF u]
    by (simp add: s2u emit_def r remove_temp_files_def restore_log_def Let_def ex_boot_def fold_AppendLogEntry fs(3)
        GetFirstIndex_def RaftLog_init_def ex_entry_def AppendLogEntry_def)
  then have "\<not> distinct (map e_index (entries (raft_log s2)))" by simp
  then have "\<not> log_wf (raft_log s2)" by (metis log_wf_def distinct_upt)
  then show ?thesis using a s2 es ok_simps(4) [of "''bind''" "[]"] by blast
qed

text \<open>
  \<open>Start\<close> takes any failure of \<open>LoadState\<close> for an empty persister: the node runs in the term its memory has and
  overwrites the state on disk with it, and a vote cast before can be cast again.
\<close>

lemma unreadable_state_is_overwritten:
  assumes "Start env b s = Some (OK, s')" and "has_persister s" and "boot_state b = None"
  shows "durable s' = Some (CurrentPersistentStateLocked s)" "current_term s' = current_term s"
    "voted_for s' = voted_for s"
proof -
  obtain t r u where st: "state s = kInitialized"
    and t: "restore_snapshot b (restore_state (boot_state b) (s\<lparr>state := kRunning\<rparr>)) = (OK, t)"
    and r: "r = remove_temp_files (restore_log b t)"
    and u: "BecomeFollowerLockedImpl env (current_term r) False True r = Some u"
    and s': "s' = emit (LifecycleEvent True) (u\<lparr>apply_running := True\<rparr>)"
    by (rule Start_OK [OF assms(1,2)])
  have "CurrentPersistentStateLocked (s\<lparr>state := kRunning\<rparr>) = CurrentPersistentStateLocked s"
    by (simp add: CurrentPersistentStateLocked_def)
  then have pr: "CurrentPersistentStateLocked r = CurrentPersistentStateLocked s" "has_persister r"
    using restore_snapshot_ballot [OF t] assms(2,3) by (simp_all add: r restore_state_def)
  have "durable s' = Some (CurrentPersistentStateLocked s) \<and> CurrentPersistentStateLocked s' = CurrentPersistentStateLocked s"
    using BecomeFollower_saves [OF u pr(2)] pr(1) by (simp add: s' emit_def CurrentPersistentStateLocked_def)
  then show "durable s' = Some (CurrentPersistentStateLocked s)" "current_term s' = current_term s"
    "voted_for s' = voted_for s"
    by (simp_all add: CurrentPersistentStateLocked_def)
qed

section \<open>What stopping answers\<close>

fun answer :: "callback \<Rightarrow> effect list" where
  "answer None = []"
| "answer (Some c) = [ProposalCallback c stopped_result]"

lemma fail_tasks_eq:
  "fail_tasks ts s = s\<lparr>out := out s @ concat (map (\<lambda>t. answer (at_callback t)) ts)\<rparr>"
proof (induction ts arbitrary: s)
  case (Cons t ts)
  then show ?case
    by (cases "at_callback t") (simp_all add: fail_tasks_def run_callback_def emit_def)
qed (simp add: fail_tasks_def)

lemma fail_proposals_eq:
  "fail_proposals ps s =
     (if \<exists>p\<in>set ps. pp_callback (snd p) = None then None
      else Some (s\<lparr>out := out s @ concat (map (\<lambda>p. answer (pp_callback (snd p))) ps)\<rparr>))"
  by (induction ps s rule: fail_proposals.induct) (auto simp: emit_def split: option.split)

lemma stop_timers_simps [simp]:
  "apply_queue (stop_timers s) = apply_queue s" "pending_proposals (stop_timers s) = pending_proposals s"
  "out (stop_timers s) = out s"
  by (simp_all add: stop_timers_def StopSnapshotCheckTimerLocked_def StopHeartbeatTimerLocked_def
    CancelElectionTimerLocked_def)

lemma DoGracefulShutdown_eq:
  "DoGracefulShutdown s =
     (if \<exists>p\<in>set (pending_proposals s). pp_callback (snd p) = None then None
      else Some ((stop_timers s)\<lparr>apply_running := False, apply_queue := [], pending_proposals := [], state := kStopped,
        out := out s @ concat (map (\<lambda>t. answer (at_callback t)) (apply_queue s)) @
          concat (map (\<lambda>p. answer (pp_callback (snd p))) (pending_proposals s)) @ [LifecycleEvent False]\<rparr>))"
  by (simp add: DoGracefulShutdown_def Let_def fail_tasks_eq fail_proposals_eq emit_def)


definition ex_proposing :: RaftNode where
  "ex_proposing = (ex_group [2, 3])\<lparr>pending_proposals :=
     [(1, \<lparr>pp_index = 1, pp_callback = Some 7, pp_propose_time = 0\<rparr>)]\<rparr>"


text \<open>
  \<open>Propose\<close> accepts an empty callback and the applier tests for it, but the shutdown loop does not: one such
  proposal makes the graceful shutdown throw.
\<close>

lemma stop_throws_on_empty_callback:
  "state s = kRunning \<Longrightarrow> (i, pp) \<in> set (pending_proposals s) \<Longrightarrow> pp_callback pp = None \<Longrightarrow>
     Stop 0 timed_out s = None"
  by (auto simp: Stop_def Let_def DoGracefulShutdown_eq intro!: bexI [of _ "(i, pp)"])

end
