(* ===== verification/Election_Safety.thy ===== *)
theory Election_Safety
  imports Lifecycle
begin

text \<open>
  The nodes of a cluster together. Every handler of a node may run at any time and with any message, except that
  a vote request has been sent by its candidate and that the answer to a request reaches the candidate that sent
  it; messages may be lost, delayed, duplicated and reordered, and a node may crash at any time and start again
  over what it has saved. In every reachable state at most one node has led a term.
\<close>

section \<open>Handlers that cast no vote\<close>

inductive handles :: "RaftNode \<Rightarrow> RaftNode \<Rightarrow> bool" where
  "HandleAppendEntries env areq s = Some (aresp, s') \<Longrightarrow> handles s s'"
| "HandleAppendEntriesResponse env p aresp s = Some s' \<Longrightarrow> handles s s'"
| "HandleHeartbeatResponse env p aresp s = Some s' \<Longrightarrow> handles s s'"
| "HandleInstallSnapshot env ireq s = Some (iresp, s') \<Longrightarrow> handles s s'"
| "HandleInstallSnapshotResponse env p iresp rpc_ok s = Some s' \<Longrightarrow> handles s s'"
| "CheckHeartbeatTimeoutLocked env s = Some s' \<Longrightarrow> handles s s'"
| "handles s (OnPreVoteTimeout env s)"
| "ScheduleAppendEntriesRetryLocked p s = Some s' \<Longrightarrow> handles s s'"
| "handles s (OnRetryAppendEntries env p s)"
| "handles s (CheckSnapshotTimeoutLocked env s)"
| "handles s (PrepareSnapshotForPeer env p s)"
| "handles s (OnRetrySnapshotChunk env p s)"
| "handles s (snd (TriggerSnapshot env s))"
| "handles s (snd (AddNode env i a s))"
| "handles s (snd (AddLearner env i a s))"
| "handles s (snd (PromoteLearner env i s))"
| "RemoveNode env i s = Some (st, s') \<Longrightarrow> handles s s'"
| "TransferLeadershipTo env i s = Some (st, s') \<Longrightarrow> handles s s'"
| "Propose env c cb sid seq s = Some (st, s') \<Longrightarrow> handles s s'"
| "ProposeBatch env cs cbs s = Some (st, s') \<Longrightarrow> handles s s'"
| "OnLogEntryPersisted env k st s = Some s' \<Longrightarrow> handles s s'"
| "handles s (snd (ProposeAndWaitLocked env c ccb s))"
| "handles s (snd (ProposeAndWait_wake k r s))"
| "ReadIndex env ccb s = Some (rr, s') \<Longrightarrow> handles s s'"
| "ReadIndex_forwarded env u ccb l a s = Some (st, s') \<Longrightarrow> handles s s'"
| "HandleReadIndexRequest env s = Some (ri, s') \<Longrightarrow> handles s s'"
| "handles s (OnReadIndexHeartbeatResponse p n b aresp s)"
| "handles s (ApplyLoop_round env s)"
| "HandleClientRequest env creq ccb s = Some (cstep, s') \<Longrightarrow> handles s s'"

lemma handles_recedes: "handles s s' \<Longrightarrow> recedes s s'"
  by (induction rule: handles.induct)
    (erule HandleAppendEntries_recedes HandleAppendEntriesResponse_recedes HandleHeartbeatResponse_recedes
      HandleInstallSnapshot_recedes HandleInstallSnapshotResponse_recedes CheckHeartbeatTimeout_recedes
      RemoveNode_recedes TransferLeadership_recedes Propose_recedes ProposeBatch_recedes OnLogEntryPersisted_recedes
      ReadIndex_recedes ReadIndex_forwarded_recedes HandleReadIndexRequest_recedes HandleClientRequest_recedes
    | rule OnPreVoteTimeout_recedes
    | rule quiet_recedes, rule quiet_OnRetry quiet_CheckSnapshotTimeout quiet_PrepareSnapshot
        quiet_OnRetrySnapshotChunk quiet_TriggerSnapshot quiet_membership quiet_ProposeAndWait
        quiet_OnReadIndexHeartbeat quiet_ApplyLoop_round
    | rule quiet_recedes, erule quiet_ScheduleRetryLocked, rule quiet_refl)+

inductive stands_for_election :: "RaftNode \<Rightarrow> RaftNode \<Rightarrow> bool" where
  "OnElectionTimeoutLocked env s = Some s' \<Longrightarrow> stands_for_election s s'"
| "HandlePreVoteResponse env p resp t s = Some s' \<Longrightarrow> stands_for_election s s'"

lemma stands_for_election_outcome:
  "stands_for_election s s' \<Longrightarrow> has_persister s \<Longrightarrow> recedes s s' \<or> stands s s'"
  by (induction rule: stands_for_election.induct)
    (erule (1) OnElectionTimeout_outcome HandlePreVoteResponse_outcome)+

section \<open>The cluster\<close>

text \<open>
  \<open>cast\<close> and \<open>led\<close> record every vote that was ever on a disk and every term a node has led; no step reads them.
\<close>

record Cluster =
  nodes :: "NodeId \<Rightarrow> RaftNode"
  sent :: "(NodeId \<times> effect) set"
  answers :: "(NodeId \<times> NodeId \<times> Term \<times> RequestVoteResponse) set"
  cast :: "(NodeId \<times> Term \<times> NodeId) set"
  led :: "(NodeId \<times> Term) set"

definition ballot :: "NodeId \<Rightarrow> RaftNode \<Rightarrow> (NodeId \<times> Term \<times> NodeId) set" where
  "ballot i s = {(i, t, v) |t v. dur s = Some (t, v) \<and> v \<noteq> -1}"

definition leads :: "NodeId \<Rightarrow> RaftNode \<Rightarrow> (NodeId \<times> Term) set" where
  "leads i s = {(i, t) |t. role s = LEADER \<and> current_term s = t}"

definition put :: "NodeId \<Rightarrow> RaftNode \<Rightarrow> Cluster \<Rightarrow> Cluster" where
  "put i s n =
     n\<lparr>nodes := (nodes n)(i := s), sent := sent n \<union> Pair i ` set (vote_sends s),
       cast := cast n \<union> ballot i s, led := led n \<union> leads i s\<rparr>"

text \<open>A crash loses everything but the files; the new process starts over them.\<close>

definition restarts :: "RaftNode \<Rightarrow> RaftNode \<Rightarrow> bool" where
  "restarts s s' \<longleftrightarrow>
     (\<exists>env b f. mkRaftNode (config s) (group_id s) True = Inr f \<and> nc_node_id (config s) = server_id s \<and>
        boot_state b = durable s \<and>
        Start env b (f\<lparr>durable := durable s, temp_files := temp_files s\<rparr>) = Some (OK, s'))"

inductive cluster_step :: "ClusterConfig set \<Rightarrow> NodeId set \<Rightarrow> Cluster \<Rightarrow> Cluster \<Rightarrow> bool" for Cs I where
  local: "i \<in> I \<Longrightarrow> cluster_config (nodes n i) \<in> Cs \<Longrightarrow> handles (nodes n i) s' \<Longrightarrow>
    cluster_step Cs I n (put i s' n)"
| stand: "i \<in> I \<Longrightarrow> cluster_config (nodes n i) \<in> Cs \<Longrightarrow> Suc (current_term (nodes n i)) < U32 \<Longrightarrow>
    stands_for_election (nodes n i) s' \<Longrightarrow> cluster_step Cs I n (put i s' n)"
| vote: "j \<in> I \<Longrightarrow> (i, SendRpc j a (RequestVote req) tm (OnRequestVoteResponse t)) \<in> sent n \<Longrightarrow>
    HandleRequestVote env req (nodes n j) = Some (resp, s') \<Longrightarrow>
    cluster_step Cs I n ((put j s' n)\<lparr>answers := insert (j, i, t, resp) (answers n)\<rparr>)"
| tally: "i \<in> I \<Longrightarrow> cluster_config (nodes n i) \<in> Cs \<Longrightarrow> (j, i, t, resp) \<in> answers n \<Longrightarrow>
    HandleRequestVoteResponse env j resp t (nodes n i) = Some s' \<Longrightarrow> cluster_step Cs I n (put i s' n)"
| restart: "i \<in> I \<Longrightarrow> restarts (nodes n i) s' \<Longrightarrow> cluster_step Cs I n (put i s' n)"

definition fresh_cluster :: "NodeId set \<Rightarrow> Cluster \<Rightarrow> bool" where
  "fresh_cluster I n \<longleftrightarrow>
     (\<forall>i\<in>I. \<exists>c gid. nc_node_id c = i \<and> mkRaftNode c gid True = Inr (nodes n i)) \<and>
     sent n = {} \<and> answers n = {} \<and> cast n = {} \<and> led n = {}"

inductive reachable :: "ClusterConfig set \<Rightarrow> NodeId set \<Rightarrow> Cluster \<Rightarrow> bool" for Cs I where
  start: "fresh_cluster I n \<Longrightarrow> reachable Cs I n"
| step: "reachable Cs I n \<Longrightarrow> cluster_step Cs I n n' \<Longrightarrow> reachable Cs I n'"

section \<open>Ballots only move forward\<close>

definition older :: "Term \<times> NodeId \<Rightarrow> Term \<times> NodeId \<Rightarrow> bool" where
  "older b c \<longleftrightarrow> fst b < fst c \<or> fst b = fst c \<and> (snd b = snd c \<or> snd b = -1)"

abbreviation mem :: "RaftNode \<Rightarrow> Term \<times> NodeId" where
  "mem s \<equiv> (current_term s, voted_for s)"

definition moves :: "RaftNode \<Rightarrow> RaftNode \<Rightarrow> bool" where
  "moves s s' \<longleftrightarrow> older (mem s) (mem s') \<and>
     (dur s' = dur s \<or> (\<exists>b. dur s' = Some b \<and> older (mem s) b \<and> older b (mem s')))"

lemma older_refl [simp]: "older b b"
  by (simp add: older_def)

lemma older_trans: "older a b \<Longrightarrow> older b c \<Longrightarrow> older a c"
  by (auto simp: older_def)

lemma recedes_moves: "recedes s s' \<Longrightarrow> moves s s'"
proof -
  assume r: "recedes s s'"
  have "older (mem s) (mem s')" using r by (auto simp: recedes_def older_def)
  moreover have "older (mem s) (t, v) \<and> older (t, v) (mem s')"
    if "current_term s \<le> t" "t \<le> current_term s'" "v = (if current_term s < t then -1 else voted_for s)" for t v
    using r that by (cases "current_term s < t") (auto simp: recedes_def older_def)
  ultimately show ?thesis using r unfolding recedes_def saved_between_def moves_def by blast
qed

lemma stands_moves: "stands s s' \<Longrightarrow> Suc (current_term s) < U32 \<Longrightarrow> moves s s'"
  by (auto simp: stands_def moves_def older_def u32_add_def)

lemma tallies_moves: "tallies p s s' \<Longrightarrow> moves s s'"
  by (auto simp: tallies_def moves_def older_def)

lemma votes_for_moves: "votes_for c s s' \<Longrightarrow> moves s s'"
  by (auto simp: votes_for_def moves_def older_def)

lemma moves_trans: "moves s t \<Longrightarrow> moves t u \<Longrightarrow> moves s u"
proof -
  assume a: "moves s t" and b: "moves t u"
  have o: "older (mem s) (mem t)" "older (mem t) (mem u)" using a b by (simp_all add: moves_def)
  consider "dur u = dur s" | c where "dur u = Some c" "older (mem s) c" "older c (mem t)"
    | c where "dur u = Some c" "older (mem t) c" "older c (mem u)"
    using a b unfolding moves_def by auto
  then have "dur u = dur s \<or> (\<exists>c. dur u = Some c \<and> older (mem s) c \<and> older c (mem u))"
    by cases (blast intro: older_trans o)+
  then show ?thesis using older_trans [OF o] by (simp add: moves_def)
qed

section \<open>The invariant\<close>

definition disk_ok :: "(NodeId \<times> Term \<times> NodeId) set \<Rightarrow> NodeId \<Rightarrow> RaftNode \<Rightarrow> bool" where
  "disk_ok V i s \<longleftrightarrow>
     (\<forall>t c. (i, t, c) \<in> V \<longrightarrow> c \<noteq> -1 \<and> (\<exists>b. dur s = Some b \<and> older (t, c) b)) \<and>
     (\<forall>b. dur s = Some b \<longrightarrow> older b (mem s))"

definition node_ok :: "(NodeId \<times> Term \<times> NodeId) set \<Rightarrow> (NodeId \<times> Term) set \<Rightarrow> NodeId \<Rightarrow> RaftNode \<Rightarrow> bool" where
  "node_ok V L i s \<longleftrightarrow>
     server_id s = i \<and> has_persister s \<and> disk_ok V i s \<and>
     (role s \<noteq> FOLLOWER \<longrightarrow> finite (votes_received s) \<and> (\<forall>v\<in>votes_received s. (v, current_term s, i) \<in> V)) \<and>
     (role s = LEADER \<longrightarrow> (i, current_term s) \<in> L) \<and>
     (\<forall>e\<in>set (vote_sends s). \<exists>t. asks_for i t e)"

definition backed :: "ClusterConfig set \<Rightarrow> (NodeId \<times> Term \<times> NodeId) set \<Rightarrow> NodeId \<Rightarrow> Term \<Rightarrow> bool" where
  "backed Cs V i t \<longleftrightarrow> (\<exists>C\<in>Cs. \<exists>Q. finite Q \<and> QuorumSatisfied C Q \<and> (\<forall>v\<in>Q. (v, t, i) \<in> V))"

definition cluster_ok :: "ClusterConfig set \<Rightarrow> NodeId set \<Rightarrow> Cluster \<Rightarrow> bool" where
  "cluster_ok Cs I n \<longleftrightarrow>
     (\<forall>i\<in>I. node_ok (cast n) (led n) i (nodes n i)) \<and>
     (\<forall>(i, e)\<in>sent n. i \<in> I \<and> (\<exists>t. asks_for i t e)) \<and>
     (\<forall>(v, c, t, r)\<in>answers n. rvr_vote_granted r \<longrightarrow> (v, t, c) \<in> cast n) \<and>
     (\<forall>(v, t, c)\<in>cast n. v \<in> I) \<and>
     (\<forall>v t c d. (v, t, c) \<in> cast n \<longrightarrow> (v, t, d) \<in> cast n \<longrightarrow> c = d) \<and>
     (\<forall>(i, t)\<in>led n. backed Cs (cast n) i t)"

lemma disk_moves:
  assumes "disk_ok V i s" and "moves s s'"
  shows "disk_ok (V \<union> ballot i s') i s'"
proof -
  have c: "older b (mem s)" if "dur s = Some b" for b using that assms(1) by (simp add: disk_ok_def)
  have m: "older (mem s) (mem s')"
    and w: "dur s' = dur s \<or> (\<exists>b. dur s' = Some b \<and> older (mem s) b \<and> older b (mem s'))"
    using assms(2) by (simp_all add: moves_def)
  have d: "\<exists>b'. dur s' = Some b' \<and> older b b'" if "dur s = Some b" for b
    using w older_trans [OF c [OF that]] older_refl [of b] that by (cases "dur s' = dur s") (simp, blast)
  have e: "older b (mem s')" if "dur s' = Some b" for b
    using w older_trans [OF c [of b] m] that by (cases "dur s' = dur s") auto
  have "c \<noteq> -1 \<and> (\<exists>b. dur s' = Some b \<and> older (t, c) b)" if "(i, t, c) \<in> V \<union> ballot i s'" for t c
  proof (cases "(i, t, c) \<in> V")
    case True
    then obtain b where "c \<noteq> -1" "dur s = Some b" "older (t, c) b"
      using assms(1) unfolding disk_ok_def by blast
    then show ?thesis using d [of b] older_trans [of "(t, c)" b] by blast
  next
    case False
    then show ?thesis using that by (simp add: ballot_def)
  qed
  then show ?thesis using e by (simp add: disk_ok_def)
qed

lemma backed_mono: "backed Cs V i t \<Longrightarrow> V \<subseteq> W \<Longrightarrow> backed Cs W i t"
  unfolding backed_def by blast

lemma one_vote:
  assumes "disk_ok (V \<union> ballot i s) i s" and "(i, t, c) \<in> V \<union> ballot i s" and "(i, t, d) \<in> V \<union> ballot i s"
    and "(i, t, c) \<in> ballot i s \<or> (i, t, d) \<in> ballot i s"
  shows "c = d"
proof -
  obtain v where v: "dur s = Some (t, v)" using assms(4) by (auto simp: ballot_def)
  have "x = v" if "(i, t, x) \<in> V \<union> ballot i s" for x
    using assms(1) that v unfolding disk_ok_def by (auto simp: older_def)
  then show ?thesis using assms(2,3) by blast
qed

text \<open>What a step must show of the node it changes.\<close>

lemma cluster_okI:
  assumes "\<And>i. i \<in> I \<Longrightarrow> node_ok (cast n) (led n) i (nodes n i)"
    and "\<And>i e. (i, e) \<in> sent n \<Longrightarrow> i \<in> I \<and> (\<exists>t. asks_for i t e)"
    and "\<And>v c t r. (v, c, t, r) \<in> answers n \<Longrightarrow> rvr_vote_granted r \<Longrightarrow> (v, t, c) \<in> cast n"
    and "\<And>v t c. (v, t, c) \<in> cast n \<Longrightarrow> v \<in> I"
    and "\<And>v t c d. (v, t, c) \<in> cast n \<Longrightarrow> (v, t, d) \<in> cast n \<Longrightarrow> c = d"
    and "\<And>i t. (i, t) \<in> led n \<Longrightarrow> backed Cs (cast n) i t"
  shows "cluster_ok Cs I n"
  unfolding cluster_ok_def by (intro conjI; use assms in fast)

lemma cluster_okD:
  assumes "cluster_ok Cs I n"
  shows "i \<in> I \<Longrightarrow> node_ok (cast n) (led n) i (nodes n i)"
    and "(i, e) \<in> sent n \<Longrightarrow> i \<in> I \<and> (\<exists>t. asks_for i t e)"
    and "(v, c, t, r) \<in> answers n \<Longrightarrow> rvr_vote_granted r \<Longrightarrow> (v, t, c) \<in> cast n"
    and "(v, t, c) \<in> cast n \<Longrightarrow> v \<in> I"
    and "(v, t, c) \<in> cast n \<Longrightarrow> (v, t, d) \<in> cast n \<Longrightarrow> c = d"
    and "(i, t) \<in> led n \<Longrightarrow> backed Cs (cast n) i t"
  using assms unfolding cluster_ok_def by fast+

lemma cluster_ok_put:
  assumes "cluster_ok Cs I n" and "i \<in> I" and "node_ok (cast n \<union> ballot i s') (led n \<union> leads i s') i s'"
    and "role s' = LEADER \<Longrightarrow> backed Cs (cast n \<union> ballot i s') i (current_term s')"
  shows "cluster_ok Cs I (put i s' n)"
proof -
  have p: "nodes (put i s' n) = (nodes n)(i := s')" "sent (put i s' n) = sent n \<union> Pair i ` set (vote_sends s')"
      "answers (put i s' n) = answers n" "cast (put i s' n) = cast n \<union> ballot i s'" "led (put i s' n) = led n \<union> leads i s'"
    by (simp_all add: put_def)
  show ?thesis
  proof (rule cluster_okI, unfold p)
    fix j assume j: "j \<in> I"
    show "node_ok (cast n \<union> ballot i s') (led n \<union> leads i s') j (((nodes n)(i := s')) j)"
    proof (cases "j = i")
      case False
      have "node_ok (cast n) (led n) j (nodes n j)" by (rule cluster_okD(1) [OF assms(1) j])
      then show ?thesis using False by (auto simp: node_ok_def disk_ok_def ballot_def)
    qed (simp add: assms(3))
  next
    fix j e assume "(j, e) \<in> sent n \<union> Pair i ` set (vote_sends s')"
    then show "j \<in> I \<and> (\<exists>t. asks_for j t e)"
      using cluster_okD(2) [OF assms(1), of j e] assms(2,3) by (auto simp: node_ok_def)
  next
    fix v c t r assume "(v, c, t, r) \<in> answers n" "rvr_vote_granted r"
    then show "(v, t, c) \<in> cast n \<union> ballot i s'" using cluster_okD(3) [OF assms(1)] by blast
  next
    fix v t c assume "(v, t, c) \<in> cast n \<union> ballot i s'"
    then show "v \<in> I" using cluster_okD(4) [OF assms(1), of v t c] assms(2) by (auto simp: ballot_def)
  next
    fix v t c d assume a: "(v, t, c) \<in> cast n \<union> ballot i s'" "(v, t, d) \<in> cast n \<union> ballot i s'"
    show "c = d"
    proof (cases "(v, t, c) \<in> ballot i s' \<or> (v, t, d) \<in> ballot i s'")
      case True
      then have "v = i" by (auto simp: ballot_def)
      then show ?thesis using one_vote [of "cast n" i s' t c d] assms(3) a True by (simp add: node_ok_def)
    next
      case False
      then show ?thesis using a cluster_okD(5) [OF assms(1)] by blast
    qed
  next
    fix j t assume "(j, t) \<in> led n \<union> leads i s'"
    then show "backed Cs (cast n \<union> ballot i s') j t"
      using assms(4) backed_mono [of Cs "cast n" j t "cast n \<union> ballot i s'"] cluster_okD(6) [OF assms(1), of j t]
      by (auto simp: leads_def)
  qed
qed

lemma node_recedes:
  assumes "node_ok V L i s" and "recedes s s'"
  shows "node_ok (V \<union> ballot i s') (L \<union> leads i s') i s'"
proof -
  have "disk_ok (V \<union> ballot i s') i s'"
    using disk_moves [OF _ recedes_moves [OF assms(2)]] assms(1) by (simp add: node_ok_def)
  moreover have "role s' = FOLLOWER \<or> role s' = role s \<and> current_term s' = current_term s \<and>
      votes_received s' = votes_received s"
    using assms(2) by (simp add: recedes_def)
  ultimately show ?thesis
    using assms by (auto simp: node_ok_def recedes_def leads_def)
qed

lemma still_backed:
  assumes "cluster_ok Cs I n" and "i \<in> I" and "role s' = FOLLOWER \<or> role s' = role (nodes n i) \<and>
      current_term s' = current_term (nodes n i) \<and> votes_received s' = votes_received (nodes n i)"
    and "role s' = LEADER"
  shows "backed Cs (cast n \<union> ballot i s') i (current_term s')"
proof -
  have "role (nodes n i) = LEADER" "current_term s' = current_term (nodes n i)"
    using assms(3,4) by auto
  then have "(i, current_term s') \<in> led n" using cluster_okD(1) [OF assms(1,2)] by (simp add: node_ok_def)
  then have "backed Cs (cast n) i (current_term s')" by (rule cluster_okD(6) [OF assms(1)])
  then show ?thesis by (rule backed_mono) simp
qed

lemma step_recedes:
  assumes "cluster_ok Cs I n" and "i \<in> I" and "recedes (nodes n i) s'"
  shows "cluster_ok Cs I (put i s' n)"
proof (rule cluster_ok_put [OF assms(1,2)])
  have "node_ok (cast n) (led n) i (nodes n i)" by (rule cluster_okD(1) [OF assms(1,2)])
  then show "node_ok (cast n \<union> ballot i s') (led n \<union> leads i s') i s'" using assms(3) by (rule node_recedes)
qed (use still_backed [OF assms(1,2)] assms(3) in \<open>simp add: recedes_def\<close>)

lemma step_stands:
  assumes "cluster_ok Cs I n" and "i \<in> I" and "-1 \<notin> I" and "cluster_config (nodes n i) \<in> Cs"
    and "stands (nodes n i) s'" and "Suc (current_term (nodes n i)) < U32"
  shows "cluster_ok Cs I (put i s' n)"
proof (rule cluster_ok_put [OF assms(1,2)])
  have k: "node_ok (cast n) (led n) i (nodes n i)" by (rule cluster_okD(1) [OF assms(1,2)])
  then have i: "server_id (nodes n i) = i" by (simp add: node_ok_def)
  have s: "server_id s' = i" "has_persister s' = has_persister (nodes n i)" "votes_received s' = {i}"
      "dur s' = Some (current_term s', i)"
    using assms(5) by (simp_all add: stands_def i)
  have b: "(i, current_term s', i) \<in> ballot i s'" using s(4) assms(2,3) by (auto simp: ballot_def)
  obtain vs where "vote_sends s' = vote_sends (nodes n i) @ vs" "\<forall>e\<in>set vs. asks_for i (current_term s') e"
    using assms(5) i by (auto simp: stands_def)
  then have v: "\<forall>e\<in>set (vote_sends s'). \<exists>t. asks_for i t e" using k by (auto simp: node_ok_def)
  have "disk_ok (cast n \<union> ballot i s') i s'"
    using disk_moves [OF _ stands_moves [OF assms(5,6)]] k by (simp add: node_ok_def)
  then show "node_ok (cast n \<union> ballot i s') (led n \<union> leads i s') i s'"
    using s b v k by (simp add: node_ok_def leads_def)
  show "backed Cs (cast n \<union> ballot i s') i (current_term s')" if "role s' = LEADER"
    using assms(4,5) that b i by (auto simp: stands_def backed_def intro!: bexI [of _ "cluster_config (nodes n i)"] exI [of _ "{i}"])
qed

lemma step_tallies:
  assumes "cluster_ok Cs I n" and "i \<in> I" and "cluster_config (nodes n i) \<in> Cs"
    and "tallies j (nodes n i) s'" and "(j, current_term (nodes n i), i) \<in> cast n"
  shows "cluster_ok Cs I (put i s' n)"
proof (rule cluster_ok_put [OF assms(1,2)])
  have k: "node_ok (cast n) (led n) i (nodes n i)" by (rule cluster_okD(1) [OF assms(1,2)])
  have t: "role (nodes n i) = CANDIDATE" "votes_received s' = insert j (votes_received (nodes n i))"
      "current_term s' = current_term (nodes n i)" "server_id s' = server_id (nodes n i)"
      "has_persister s' = has_persister (nodes n i)" "vote_sends s' = vote_sends (nodes n i)"
    using assms(4) by (simp_all add: tallies_def)
  have v: "finite (votes_received s')" "\<forall>v\<in>votes_received s'. (v, current_term s', i) \<in> cast n"
    using k t assms(5) by (auto simp: node_ok_def)
  have "disk_ok (cast n \<union> ballot i s') i s'"
    using disk_moves [OF _ tallies_moves [OF assms(4)]] k by (simp add: node_ok_def)
  then show "node_ok (cast n \<union> ballot i s') (led n \<union> leads i s') i s'"
    using k t v by (auto simp: node_ok_def leads_def)
  show "backed Cs (cast n \<union> ballot i s') i (current_term s')" if "role s' = LEADER"
    using assms(3,4) that v by (auto simp: tallies_def backed_def intro!: bexI [of _ "cluster_config (nodes n i)"])
qed

lemma step_vote:
  assumes "cluster_ok Cs I n" and "j \<in> I" and "(i, SendRpc j a (RequestVote req) tm (OnRequestVoteResponse t)) \<in> sent n"
    and "-1 \<notin> I" and "HandleRequestVote env req (nodes n j) = Some (resp, s')"
  shows "cluster_ok Cs I (put j s' n)" and "rvr_vote_granted resp \<Longrightarrow> (j, t, i) \<in> ballot j s'"
proof -
  have k: "node_ok (cast n) (led n) j (nodes n j)" by (rule cluster_okD(1) [OF assms(1,2)])
  have q: "rv_candidate_id req = i" "rv_term req = t" "i \<noteq> -1"
    using cluster_okD(2) [OF assms(1,3)] assms(4) by auto
  obtain r where r: "recedes (nodes n j) r" and o: "\<not> rvr_vote_granted resp \<and> s' = r \<or>
      votes_for i r s' \<and> current_term r = t \<and> rvr_term resp = t \<and>
      (rvr_vote_granted resp \<longrightarrow> has_persister r \<longrightarrow> dur s' = Some (t, i))"
    using HandleRequestVote_outcome [OF assms(5)] q by metis
  have p: "has_persister r" using r k by (simp add: recedes_def node_ok_def)
  show "(j, t, i) \<in> ballot j s'" if "rvr_vote_granted resp"
    using o p q(3) that by (auto simp: ballot_def)
  show "cluster_ok Cs I (put j s' n)"
  proof (cases "s' = r")
    case True
    then show ?thesis using step_recedes [OF assms(1,2) r] by simp
  next
    case False
    then have v: "votes_for i r s'" using o by blast
    have "moves (nodes n j) s'" by (rule moves_trans [OF recedes_moves [OF r] votes_for_moves [OF v]])
    then have d: "disk_ok (cast n \<union> ballot j s') j s'" using disk_moves [of "cast n" j "nodes n j"] k by (simp add: node_ok_def)
    have same: "role s' = FOLLOWER \<or> role s' = role (nodes n j) \<and> current_term s' = current_term (nodes n j) \<and>
        votes_received s' = votes_received (nodes n j)"
      using r v by (auto simp: recedes_def votes_for_def)
    have rest: "server_id s' = j" "has_persister s'" "vote_sends s' = vote_sends (nodes n j)"
      using r v k by (simp_all add: recedes_def votes_for_def node_ok_def)
    show ?thesis
    proof (rule cluster_ok_put [OF assms(1,2)])
      show "node_ok (cast n \<union> ballot j s') (led n \<union> leads j s') j s'"
        using d same rest k by (auto simp: node_ok_def leads_def)
      show "backed Cs (cast n \<union> ballot j s') j (current_term s')" if "role s' = LEADER"
        by (rule still_backed [OF assms(1,2) same that])
    qed
  qed
qed

section \<open>Restarts\<close>

lemma Start_ballot:
  assumes "Start env b s = Some (OK, s')" and "has_persister s"
  shows "mem s' = (case boot_state b of None \<Rightarrow> mem s | Some p \<Rightarrow> (ps_current_term p, ps_voted_for p))"
    and "dur s' = Some (mem s')" and "role s' = FOLLOWER" and "server_id s' = server_id s" and "has_persister s'"
    and "vote_sends s' = vote_sends s"
proof -
  obtain t r u where t: "restore_snapshot b (restore_state (boot_state b) (s\<lparr>state := kRunning\<rparr>)) = (OK, t)"
    and r: "r = remove_temp_files (restore_log b t)"
    and u: "BecomeFollowerLockedImpl env (current_term r) False True r = Some u"
    and s': "s' = emit (LifecycleEvent True) (u\<lparr>apply_running := True\<rparr>)"
    using Start_OK [OF assms] by metis
  have f: "mem r = mem (restore_state (boot_state b) (s\<lparr>state := kRunning\<rparr>))" "has_persister r" "server_id r = server_id s"
      "vote_sends r = vote_sends s"
    using t assms(2)
    by (auto simp: r remove_temp_files_def restore_log_def restore_snapshot_def restore_state_def Let_def emit_def
        vote_sends_def split: if_splits option.splits)
  have q: "quiet (stepped_down (current_term r) r) u" by (rule BecomeFollower_quiet [OF u])
  note c = core_eqD(1-4,11) [OF quiet_coreD [OF q]]
  show "mem s' = (case boot_state b of None \<Rightarrow> mem s | Some p \<Rightarrow> (ps_current_term p, ps_voted_for p))"
    using c f(1) by (simp add: s' emit_def stepped_down_def restore_state_def Let_def split: option.splits if_splits)
  show "role s' = FOLLOWER" "server_id s' = server_id s" "has_persister s'" "vote_sends s' = vote_sends s"
    using c f q by (simp_all add: s' emit_def stepped_down_def quiet_def vote_sends_def)
  show "dur s' = Some (mem s')"
    using BecomeFollower_saves [OF u f(2)] c(3,4)
    by (simp add: s' emit_def stepped_down_def dur_def CurrentPersistentStateLocked_def)
qed

lemma fresh_fields:
  assumes "mkRaftNode c gid p = Inr f"
  shows "server_id f = nc_node_id c" "mem f = (0, -1)" "has_persister f = p" "role f = FOLLOWER" "out f = []"
    "durable f = None"
  using assms by (auto simp: mkRaftNode_def blank_node_def Let_def split: if_splits option.splits)

lemma step_restart:
  assumes "cluster_ok Cs I n" and "i \<in> I" and "restarts (nodes n i) s'"
  shows "cluster_ok Cs I (put i s' n)"
proof (rule cluster_ok_put [OF assms(1,2)])
  have k: "node_ok (cast n) (led n) i (nodes n i)" by (rule cluster_okD(1) [OF assms(1,2)])
  obtain env b f where f: "mkRaftNode (config (nodes n i)) (group_id (nodes n i)) True = Inr f"
    and id: "nc_node_id (config (nodes n i)) = server_id (nodes n i)" and b: "boot_state b = durable (nodes n i)"
    and st: "Start env b (f\<lparr>durable := durable (nodes n i), temp_files := temp_files (nodes n i)\<rparr>) = Some (OK, s')"
    using assms(3) by (auto simp: restarts_def)
  note r = Start_ballot [OF st] fresh_fields [OF f]
  have m: "mem s' = (case dur (nodes n i) of None \<Rightarrow> (0, -1) | Some x \<Rightarrow> x)"
    using r b by (auto simp: dur_def split: option.split)
  then have "disk_ok (cast n \<union> ballot i s') i s'"
    using k r(2,9) by (auto simp: disk_ok_def node_ok_def ballot_def split: option.splits)
  then show "node_ok (cast n \<union> ballot i s') (led n \<union> leads i s') i s'"
    using k r id by (simp add: node_ok_def vote_sends_def)
  show "backed Cs (cast n \<union> ballot i s') i (current_term s')" if "role s' = LEADER"
    using r that by simp
qed

section \<open>At most one leader per term\<close>

lemma cluster_ok_step:
  assumes "cluster_step Cs I n n'" and "cluster_ok Cs I n" and "-1 \<notin> I"
  shows "cluster_ok Cs I n'"
  using assms(1)
proof cases
  case (local i s')
  then show ?thesis using step_recedes [OF assms(2)] handles_recedes by simp
next
  case (stand i s')
  then have "has_persister (nodes n i)" using cluster_okD(1) [OF assms(2)] by (simp add: node_ok_def)
  then show ?thesis
    using stand step_recedes [OF assms(2)] step_stands [OF assms(2) _ assms(3)] stands_for_election_outcome by blast
next
  case (vote j i a req tm t env resp s')
  note v = step_vote [OF assms(2) vote(2,3) assms(3) vote(4)]
  have "rvr_vote_granted resp \<longrightarrow> (j, t, i) \<in> cast (put j s' n)" using v(2) by (simp add: put_def)
  moreover have "answers (put j s' n) = answers n" by (simp add: put_def)
  ultimately show ?thesis
    using cluster_okD [OF v(1)] unfolding vote(1) by (intro cluster_okI) auto
next
  case (tally i j t resp env s')
  consider "recedes (nodes n i) s'" | "tallies j (nodes n i) s'" "rvr_vote_granted resp" "t = current_term (nodes n i)"
    using HandleRequestVoteResponse_outcome [OF tally(5)] by blast
  then show ?thesis
  proof cases
    case 1
    then show ?thesis using step_recedes [OF assms(2) tally(2)] by (simp add: tally(1))
  next
    case 2
    have "(j, t, i) \<in> cast n" by (rule cluster_okD(3) [OF assms(2) tally(4) 2(2)])
    then show ?thesis using step_tallies [OF assms(2) tally(2,3) 2(1)] 2(3) by (simp add: tally(1))
  qed
next
  case (restart i s')
  then show ?thesis using step_restart [OF assms(2)] by simp
qed

lemma cluster_ok_fresh: "fresh_cluster I n \<Longrightarrow> cluster_ok Cs I n"
proof -
  assume f: "fresh_cluster I n"
  have "node_ok {} {} i (nodes n i)" if "i \<in> I" for i
    using f that fresh_fields [of _ _ True "nodes n i"]
    by (fastforce simp: fresh_cluster_def node_ok_def disk_ok_def dur_def vote_sends_def)
  then show ?thesis using f by (simp add: fresh_cluster_def cluster_ok_def)
qed

lemma reachable_ok: "reachable Cs I n \<Longrightarrow> -1 \<notin> I \<Longrightarrow> cluster_ok Cs I n"
  by (induction rule: reachable.induct) (auto intro: cluster_ok_fresh cluster_ok_step)

text \<open>
  C1: In every state the cluster can reach, whatever was lost, repeated, reordered or restarted, no two nodes
  have ever been leader of the same term, as long as the configurations in use have quorums that meet.
\<close>

theorem at_most_one_leader_per_term:
  assumes "reachable Cs I n" and "-1 \<notin> I" and "\<forall>c\<in>Cs. \<forall>d\<in>Cs. quorums_meet c d"
    and "(i, t) \<in> led n" and "(j, t) \<in> led n"
  shows "i = j"
proof -
  have k: "cluster_ok Cs I n" by (rule reachable_ok [OF assms(1,2)])
  obtain C Q where C: "C \<in> Cs" "finite Q" "QuorumSatisfied C Q" "\<forall>v\<in>Q. (v, t, i) \<in> cast n"
    using cluster_okD(6) [OF k assms(4)] by (auto simp: backed_def)
  obtain D R where D: "D \<in> Cs" "finite R" "QuorumSatisfied D R" "\<forall>v\<in>R. (v, t, j) \<in> cast n"
    using cluster_okD(6) [OF k assms(5)] by (auto simp: backed_def)
  have "Q \<inter> R \<noteq> {}"
    using assms(3) C(1-3) D(1-3) unfolding quorums_meet_def by blast
  then obtain v where "v \<in> Q" "v \<in> R" by blast
  then have "(v, t, i) \<in> cast n" "(v, t, j) \<in> cast n" using C(4) D(4) by simp_all
  then show ?thesis by (rule cluster_okD(5) [OF k])
qed

section \<open>An election\<close>

text \<open>A run of three nodes: nodes 1 and 2 start, node 1 stands, node 2 votes for it and node 1 leads term 1.\<close>

definition ex_member :: "NodeId \<Rightarrow> RaftNode" where
  "ex_member i =
     (case mkRaftNode ((ex_config i [''h:1'', ''h:1''] (remove1 i [1, 2, 3]))\<lparr>nc_pre_vote_enabled := False\<rparr>) 0 True of
        Inr s \<Rightarrow> s | Inl _ \<Rightarrow> blank_node (ex_config i [] []) 0)"

definition ex_empty_boot :: Boot where
  "ex_empty_boot = ex_boot\<lparr>boot_state := None, boot_entries := \<lambda>_. []\<rparr>"

definition ex_up :: "NodeId \<Rightarrow> RaftNode" where
  "ex_up i = snd (the (Start (ex_env 0) ex_empty_boot (ex_member i)))"

definition ex_standing :: RaftNode where
  "ex_standing = the (OnElectionTimeoutLocked (ex_env 0) (ex_up 1))"

definition ex_ask :: RequestVoteRequest where
  "ex_ask = \<lparr>rv_correlation_id = 1, rv_group_id = 0, rv_term = 1, rv_candidate_id = 1, rv_last_log_index = 0,
     rv_last_log_term = 0\<rparr>"

lemma ex_member_made:
  "i \<in> {1, 2, 3} \<Longrightarrow>
   mkRaftNode ((ex_config i [''h:1'', ''h:1''] (remove1 i [1, 2, 3]))\<lparr>nc_pre_vote_enabled := False\<rparr>) 0 True = Inr (ex_member i)"
  by (auto simp: ex_member_def mkRaftNode_def peer_ids_def ex_config_def)

lemma ex_member_fields [simp]:
  assumes "i \<in> {1, 2, 3}"
  shows "state (ex_member i) = kInitialized" "config (ex_member i) = (ex_config i [''h:1'', ''h:1''] (remove1 i [1, 2, 3]))\<lparr>nc_pre_vote_enabled := False\<rparr>"
    "raft_log (ex_member i) = RaftLog_init" "group_id (ex_member i) = 0" "quiesced (ex_member i) = False"
    "pre_vote_enabled (ex_member i) = False" "has_leader_contact (ex_member i) = False"
    "cc_nodes (cluster_config (ex_member i)) = i # remove1 i [1, 2, 3]" "cc_is_joint (cluster_config (ex_member i)) = False"
    "peer_map (ex_member i) = map (\<lambda>j. (j, ''h:1'')) (remove1 i [1, 2, 3])" "next_correlation_id (ex_member i) = 1"
    "temp_files (ex_member i) = Map.empty" "durable (ex_member i) = None"
  using assms by (auto simp: ex_member_def mkRaftNode_def peer_ids_def ex_config_def blank_node_def)

lemma ex_save_ok [simp]: "env_save_ok (ex_env t) p" "env_serialize_ok (ex_env t) r"
  by (simp_all add: ex_env_def)

lemma BecomeFollower_frame:
  assumes "BecomeFollowerLockedImpl env t h p s = Some s'"
  shows "cluster_config s' = cluster_config s" "peer_map s' = peer_map s" "has_leader_contact s' = has_leader_contact s"
    "next_correlation_id s' = next_correlation_id s"
  using assms
  by (auto simp: BecomeFollowerLockedImpl_def Let_def SaveState_def publish_role_def emit_def
      ResetElectionTimerLocked_def CancelElectionTimerLocked_def StopHeartbeatTimerLocked_def
      StopSnapshotCheckTimerLocked_def split: if_splits)

lemma ex_up_fields:
  assumes "i \<in> {1, 2, 3}"
  shows "Start (ex_env 0) ex_empty_boot (ex_member i) = Some (OK, ex_up i)" "cluster_config (ex_up i) = cluster_config (ex_member i)"
    "peer_map (ex_up i) = peer_map (ex_member i)" "\<not> has_leader_contact (ex_up i)" "next_correlation_id (ex_up i) = 1"
    "raft_log (ex_up i) = RaftLog_init" "server_id (ex_up i) = i" "role (ex_up i) = FOLLOWER" "mem (ex_up i) = (0, -1)"
    "IsRunning (ex_up i)" "\<not> quiesced (ex_up i)" "\<not> pre_vote_enabled (ex_up i)" "group_id (ex_up i) = 0"
    "has_persister (ex_up i)" "cfg (ex_up i) = cfg (ex_member i)" "vote_sends (ex_up i) = []"
proof -
  have p: "has_persister (ex_member i)" "mem (ex_member i) = (0, -1)" "server_id (ex_member i) = i" "out (ex_member i) = []"
    using fresh_fields [OF ex_member_made [OF assms]] by (simp_all add: ex_config_def)
  have "\<exists>s'. Start (ex_env 0) ex_empty_boot (ex_member i) = Some (OK, s')"
    using BecomeFollower_defined [of "ex_env 0"] assms p(1)
    by (auto simp: Start_def Let_def ex_empty_boot_def ex_boot_def restore_snapshot_def start_network_def restore_state_def
        BecomeFollowerLocked_def ex_config_def ex_env_def)
  then show st: "Start (ex_env 0) ex_empty_boot (ex_member i) = Some (OK, ex_up i)" by (auto simp: ex_up_def)
  obtain t r u where t: "restore_snapshot ex_empty_boot (restore_state (boot_state ex_empty_boot) ((ex_member i)\<lparr>state := kRunning\<rparr>)) = (OK, t)"
    and r: "r = remove_temp_files (restore_log ex_empty_boot t)"
    and u: "BecomeFollowerLockedImpl (ex_env 0) (current_term r) False True r = Some u"
    and s': "ex_up i = emit (LifecycleEvent True) (u\<lparr>apply_running := True\<rparr>)"
    using Start_OK [OF st p(1)] by metis
  have tm: "t = (ex_member i)\<lparr>state := kRunning\<rparr>"
    using t by (simp add: restore_snapshot_def ex_empty_boot_def ex_boot_def restore_state_def)
  have rm: "cluster_config r = cluster_config (ex_member i)" "peer_map r = peer_map (ex_member i)" "\<not> has_leader_contact r"
      "next_correlation_id r = 1" "raft_log r = RaftLog_init" "state r = kRunning" "\<not> quiesced r" "\<not> pre_vote_enabled r"
      "group_id r = 0" "cfg r = cfg (ex_member i)"
    using assms by (simp_all add: r tm remove_temp_files_def restore_log_def ex_empty_boot_def ex_boot_def Let_def cfg_def)
  note c = core_eqD [OF quiet_coreD [OF BecomeFollower_quiet [OF u]]]
  show "cluster_config (ex_up i) = cluster_config (ex_member i)" "peer_map (ex_up i) = peer_map (ex_member i)"
    "\<not> has_leader_contact (ex_up i)" "next_correlation_id (ex_up i) = 1"
    using BecomeFollower_frame [OF u] rm(1-4) unfolding s' emit_def by simp_all
  show "raft_log (ex_up i) = RaftLog_init" using log_view_Start(1) [OF u] rm(5) unfolding s' emit_def by simp
  show "IsRunning (ex_up i)" "\<not> quiesced (ex_up i)" "\<not> pre_vote_enabled (ex_up i)" "group_id (ex_up i) = 0" "cfg (ex_up i) = cfg (ex_member i)"
    using c rm(6-10) by (simp_all add: s' emit_def IsRunning_def stepped_down_def cfg_def)
  note b = Start_ballot [OF st p(1)]
  show "server_id (ex_up i) = i" "role (ex_up i) = FOLLOWER" "mem (ex_up i) = (0, -1)" "has_persister (ex_up i)" "vote_sends (ex_up i) = []"
    using b p by (simp_all add: ex_empty_boot_def vote_sends_def)
qed

lemma ex_config1:
  "cc_nodes (cluster_config (ex_member 1)) = [1, 2, 3]" "\<not> cc_is_joint (cluster_config (ex_member 1))"
  "peer_map (ex_member 1) = [(2, ''h:1''), (3, ''h:1'')]"
  "config_ok (cluster_config (ex_member 1))"
  by (simp_all add: config_ok_def U32_def)
    (simp add: ex_member_def mkRaftNode_def peer_ids_def ex_config_def)

lemma ex_standing_facts:
  "OnElectionTimeoutLocked (ex_env 0) (ex_up 1) = Some ex_standing" "role ex_standing = CANDIDATE"
  "mem ex_standing = (1, 1)" "votes_received ex_standing = {1}" "server_id ex_standing = 1" "IsRunning ex_standing"
  "cluster_config ex_standing = cluster_config (ex_member 1)"
  "\<exists>tm. SendRpc 2 ''h:1'' (RequestVote ex_ask) tm (OnRequestVoteResponse 1) \<in> set (vote_sends ex_standing)"
proof -
  define s2 where "s2 = (ex_up 1)\<lparr>role := CANDIDATE, current_term := 1, voted_for := 1, vote_count := 1, votes_received := {1}\<rparr>"
  define s3 where "s3 = publish_role FOLLOWER (s2\<lparr>durable := Some (CurrentPersistentStateLocked s2)\<rparr>)"
  define u where "u = ResetElectionTimerLocked (ex_env 0) (BroadcastRequestVoteLocked (ex_env 0) s3)"
  have one: "(1::int) \<in> {1, 2, 3}" by simp
  note f = ex_up_fields [OF one]
  have k: "core s3 = core s2" "cluster_config s3 = cluster_config (ex_member 1)" "peer_map s3 = [(2, ''h:1''), (3, ''h:1'')]"
      "raft_log s3 = RaftLog_init" "next_correlation_id s3 = 1"
    using f ex_config1(3) by (simp_all add: s3_def s2_def core_def publish_role_def emit_def Let_def)
  have c: "server_id s3 = 1" "role s3 = CANDIDATE" "current_term s3 = 1" "voted_for s3 = 1" "votes_received s3 = {1}"
      "IsRunning s3" "group_id s3 = 0"
    using core_eqD [OF k(1)] f by (simp_all add: s2_def IsRunning_def)
  have nq: "\<not> ElectionQuorumSatisfiedLocked s3 (votes_received s3)"
    using ex_config1 by (simp add: c k(2) ElectionQuorumSatisfiedLocked_def QuorumSatisfied_iff majority_of_def GetMajority_def)
  have "OnElectionTimeoutLocked (ex_env 0) (ex_up 1) = Some u"
    using f nq by (simp add: OnElectionTimeoutLocked_def BecomeCandidateLocked_def SaveState_def Let_def u32_add_def U32_def
        u_def s3_def s2_def)
  then show "OnElectionTimeoutLocked (ex_env 0) (ex_up 1) = Some ex_standing" by (simp add: ex_standing_def)
  have e: "ex_standing = u" using \<open>OnElectionTimeoutLocked (ex_env 0) (ex_up 1) = Some u\<close> by (simp add: ex_standing_def)
  have b: "core u = core s3" "cluster_config u = cluster_config s3"
    by (simp_all add: u_def BroadcastRequestVoteLocked_def k(3) SendRequestVoteToPeerLocked_def Let_def)
      (simp add: emit_def take_correlation_id_def)
  show "role ex_standing = CANDIDATE" "mem ex_standing = (1, 1)" "votes_received ex_standing = {1}"
      "server_id ex_standing = 1" "IsRunning ex_standing" "cluster_config ex_standing = cluster_config (ex_member 1)"
    using core_eqD [OF b(1)] b(2) c k(2) by (simp_all add: e)
  have "vote_request s3 = ex_ask"
    by (simp add: vote_request_def ex_ask_def k c GetLastLogInfo_def RaftLog_init_def)
  then have e1: "SendRpc 2 ''h:1'' (RequestVote ex_ask) (rpc_timeout_ms (cfg (take_correlation_id s3))) (OnRequestVoteResponse 1)
      \<in> set (vote_sends (SendRequestVoteToPeerLocked (ex_env 0) (2, ''h:1'') s3))"
    using c(3) core_eqD(3) [OF core_take_correlation_id [of s3]] by (simp add: SendRequestVoteToPeerLocked_def Let_def)
  have sub: "set (vote_sends s) \<subseteq> set (vote_sends (SendRequestVoteToPeerLocked (ex_env 0) p s))" for p s
    by (auto simp: SendRequestVoteToPeerLocked_def Let_def)
  have ev: "vote_sends ex_standing = vote_sends (SendRequestVoteToPeerLocked (ex_env 0) (3, ''h:1'')
      (SendRequestVoteToPeerLocked (ex_env 0) (2, ''h:1'') s3))"
    by (simp add: e u_def BroadcastRequestVoteLocked_def k(3))
  show "\<exists>tm. SendRpc 2 ''h:1'' (RequestVote ex_ask) tm (OnRequestVoteResponse 1) \<in> set (vote_sends ex_standing)"
    unfolding ev by (rule exI, rule subsetD [OF sub e1])
qed

lemma ex_granted:
  "\<exists>s'. HandleRequestVote (ex_env 0) ex_ask (ex_up 2) = Some (\<lparr>rvr_term = 1, rvr_vote_granted = True\<rparr>, s')"
proof -
  have two: "(2::int) \<in> {1, 2, 3}" by simp
  note f = ex_up_fields [OF two]
  obtain u where u: "BecomeFollowerLockedImpl (ex_env 0) 1 False True (ex_up 2) = Some u"
    using BecomeFollower_defined [OF ext [OF ex_save_ok(1) [THEN eqTrueI]]] by blast
  have c: "cluster_config u = cluster_config (ex_member 2)" "\<not> has_leader_contact u" "raft_log u = RaftLog_init"
      "mem u = (1, -1)" "has_persister u"
    using BecomeFollower_frame [OF u] log_view_Start(1) [OF u] core_eqD [OF quiet_coreD [OF BecomeFollower_quiet [OF u]]] f
    by (simp_all add: stepped_down_def)
  have v: "IsVoter (cluster_config u) 1" by (simp add: c IsVoter_def)
  have "has_persister (ResetElectionTimerLocked (ex_env 0) (u\<lparr>voted_for := 1\<rparr>))"
    using c(5) by (simp add: ResetElectionTimerLocked_def CancelElectionTimerLocked_def Let_def)
  then show ?thesis
    using f u v c by (simp add: HandleRequestVote_def BecomeFollowerLocked_def ex_ask_def consider_vote_def Let_def
        log_is_up_to_date_def leader_is_recent_def GetLastLogInfo_def RaftLog_init_def SaveState_def)
qed

lemma ex_elected:
  "\<exists>s'. HandleRequestVoteResponse (ex_env 0) 2 \<lparr>rvr_term = 1, rvr_vote_granted = True\<rparr> 1 ex_standing = Some s' \<and>
     role s' = LEADER \<and> current_term s' = 1"
proof -
  have "QuorumSatisfied (cluster_config (ex_member 1)) {1, 2}"
    using ex_config1 by (simp add: QuorumSatisfied_iff majority_of_def GetMajority_def insert_commute)
  then show ?thesis
    using ex_standing_facts(2-7)
    by (simp add: HandleRequestVoteResponse_def Let_def ElectionQuorumSatisfiedLocked_def BecomeLeader_ballot insert_commute)
qed

definition ex_cluster :: Cluster where
  "ex_cluster = \<lparr>nodes = ex_member, sent = {}, answers = {}, cast = {}, led = {}\<rparr>"

lemma ex_fresh_cluster: "fresh_cluster {1, 2, 3} ex_cluster"
proof -
  have "\<exists>c gid. nc_node_id c = i \<and> mkRaftNode c gid True = Inr (ex_member i)" if "i \<in> {1, 2, 3}" for i
    by (rule exI, rule exI, rule conjI [OF _ ex_member_made [OF that]]) (simp add: ex_config_def)
  then show ?thesis by (simp add: fresh_cluster_def ex_cluster_def)
qed

lemma ex_restarts:
  assumes "i \<in> {1, 2, 3}"
  shows "restarts (ex_member i) (ex_up i)"
proof -
  have "mkRaftNode (config (ex_member i)) (group_id (ex_member i)) True = Inr (ex_member i)"
    using ex_member_made [OF assms] ex_member_fields [OF assms] by simp
  moreover have "(ex_member i)\<lparr>durable := durable (ex_member i), temp_files := temp_files (ex_member i)\<rparr> = ex_member i" by simp
  moreover have "boot_state ex_empty_boot = durable (ex_member i)" using assms by (simp add: ex_empty_boot_def)
  moreover have "nc_node_id (config (ex_member i)) = server_id (ex_member i)"
    using fresh_fields(1) [OF ex_member_made [OF assms]] ex_member_fields(2) [OF assms] by simp
  ultimately show ?thesis
    unfolding restarts_def using ex_up_fields(1) [OF assms] by (intro exI conjI) (assumption | simp)+
qed

lemma put_nodes [simp]: "nodes (put i s n) = (nodes n)(i := s)"
  by (simp add: put_def)

lemma ex_cluster_elects:
  "\<exists>n. reachable {cluster_config (ex_member 1)} {1, 2, 3} n \<and> (1, 1) \<in> led n"
proof -
  let ?R = "reachable {cluster_config (ex_member 1)} {1, 2, 3}"
  let ?yes = "\<lparr>rvr_term = 1, rvr_vote_granted = True\<rparr>"
  have i: "(1::int) \<in> {1, 2, 3}" "(2::int) \<in> {1, 2, 3}" by simp_all
  define n1 where "n1 = put 1 (ex_up 1) ex_cluster"
  define n2 where "n2 = put 2 (ex_up 2) n1"
  define n3 where "n3 = put 1 ex_standing n2"
  have nd: "nodes ex_cluster 1 = ex_member 1" "nodes n1 2 = ex_member 2" "nodes n2 1 = ex_up 1" "nodes n3 2 = ex_up 2"
      "nodes n3 1 = ex_standing"
    by (simp_all add: n1_def n2_def n3_def ex_cluster_def)
  have r1: "?R n1" unfolding n1_def
    by (rule reachable.step [OF reachable.start [OF ex_fresh_cluster] cluster_step.restart [OF i(1)]])
      (simp add: nd ex_restarts [OF i(1)])
  have r2: "?R n2" unfolding n2_def
    by (rule reachable.step [OF r1 cluster_step.restart [OF i(2)]]) (simp add: nd ex_restarts [OF i(2)])
  have r3: "?R n3" unfolding n3_def
    by (rule reachable.step [OF r2 cluster_step.stand [OF i(1)]])
      (use ex_up_fields(2,9) [OF i(1)] in \<open>simp_all add: nd U32_def stands_for_election.intros(1) [OF ex_standing_facts(1)]\<close>)
  obtain tm where q: "(1, SendRpc 2 ''h:1'' (RequestVote ex_ask) tm (OnRequestVoteResponse 1)) \<in> sent n3"
    using ex_standing_facts(8) by (auto simp: n3_def put_def)
  obtain s' where v: "HandleRequestVote (ex_env 0) ex_ask (nodes n3 2) = Some (?yes, s')"
    using ex_granted nd by auto
  define n4 where "n4 = (put 2 s' n3)\<lparr>answers := insert (2, 1, 1, ?yes) (answers n3)\<rparr>"
  have r4: "?R n4" unfolding n4_def by (rule reachable.step [OF r3 cluster_step.vote [OF i(2) q v]])
  obtain w where w: "HandleRequestVoteResponse (ex_env 0) 2 ?yes 1 ex_standing = Some w" "role w = LEADER" "current_term w = 1"
    using ex_elected by blast
  have n4: "nodes n4 1 = ex_standing" "(2, 1, 1, ?yes) \<in> answers n4" by (simp_all add: n4_def nd)
  have "?R (put 1 w n4)"
    by (rule reachable.step [OF r4 cluster_step.tally [OF i(1) _ n4(2)]]) (use w(1) ex_standing_facts(7) n4(1) in simp_all)
  moreover have "(1, 1) \<in> led (put 1 w n4)" using w(2,3) by (simp add: put_def leads_def)
  ultimately show ?thesis by blast
qed

theorem at_most_one_leader_per_term_witness:
  "\<exists>n. reachable {cluster_config (ex_member 1)} {1, 2, 3} n \<and> {i. (i, 1) \<in> led n} = {1}"
proof -
  obtain n where n: "reachable {cluster_config (ex_member 1)} {1, 2, 3} n" "(1, 1) \<in> led n"
    using ex_cluster_elects by blast
  have "i = 1" if "(i, 1) \<in> led n" for i
    using at_most_one_leader_per_term [OF n(1) _ _ that n(2)] quorums_meet_refl [OF ex_config1(4)] by simp
  then show ?thesis using n by blast
qed

end
