(* ===== verification/Json_Protocol.thy ===== *)
theory Json_Protocol
  imports Rpc_Messages Status_Model Text_Model "HOL-Library.Monad_Syntax"
begin

text \<open>
  \<open>src/json_protocol.cpp\<close>: the requests and responses as JSON. The JSON library is a parameter, \<open>JsonLib\<close>: its
  parser and its printer on texts, and the texts of the exceptions it throws. What the code does with a JSON
  value, including the library's checked conversions to C++ types, is written out on the values \<open>json\<close>; a thrown
  \<open>type_error\<close> is \<open>None\<close>. Numbers with a fraction are not represented.
\<close>

section \<open>JSON values\<close>

datatype json =
    JNull
  | JBool bool
  | JInt int
  | JString string
  | JArray "json list"
  | JObject "string \<rightharpoonup> json"

record JsonLib =
  jl_parse :: "string \<Rightarrow> string + json"
  jl_dump :: "json \<Rightarrow> string + string"
  jl_type_error :: "json \<Rightarrow> string"

fun json_contains :: "json \<Rightarrow> string \<Rightarrow> bool" where
  "json_contains (JObject m) k = (m k \<noteq> None)"
| "json_contains _ _ = False"

fun json_at :: "json \<Rightarrow> string \<Rightarrow> json option" where
  "json_at (JObject m) k = m k"
| "json_at _ _ = None"

text \<open>
  The conversions of the library: integers are cast to the target type, which also takes a Boolean unless it is
  one of the library's own number types.
\<close>

definition i8 :: "int \<Rightarrow> int" where
  "i8 i = (i + 128) mod 256 - 128"

fun get_int :: "json \<Rightarrow> int option" where
  "get_int (JInt n) = Some n"
| "get_int (JBool b) = Some (if b then 1 else 0)"
| "get_int _ = None"

definition get_i32 :: "json \<Rightarrow> int option" where
  "get_i32 j = map_option i32 (get_int j)"

definition get_u32 :: "json \<Rightarrow> nat option" where
  "get_u32 j = map_option (\<lambda>n. nat (n mod 2 ^ 32)) (get_int j)"

fun get_u64 :: "json \<Rightarrow> nat option" where
  "get_u64 (JInt n) = Some (nat (n mod 2 ^ 64))"
| "get_u64 _ = None"

fun get_bool :: "json \<Rightarrow> bool option" where
  "get_bool (JBool b) = Some b"
| "get_bool _ = None"

fun get_string :: "json \<Rightarrow> string option" where
  "get_string (JString s) = Some s"
| "get_string _ = None"

text \<open>\<open>j["k"]\<close> read into a member of the type of \<open>get\<close>.\<close>

definition req_field :: "(json \<Rightarrow> 'a option) \<Rightarrow> json \<Rightarrow> string \<Rightarrow> 'a option" where
  "req_field get j k = Option.bind (json_at j k) get"

definition opt_field :: "(json \<Rightarrow> 'a option) \<Rightarrow> 'a \<Rightarrow> json \<Rightarrow> string \<Rightarrow> 'a option" where
  "opt_field get d j k = (if json_contains j k then req_field get j k else Some d)"

text \<open>\<open>j.value("k", 0)\<close> has the type of its default, \<open>int\<close>, before it is stored as a \<open>uint64_t\<close>.\<close>

definition value_id :: "json \<Rightarrow> string \<Rightarrow> nat option" where
  "value_id j k = map_option (\<lambda>n. nat (n mod 2 ^ 64)) (opt_field get_i32 0 j k)"

definition contains_all :: "json \<Rightarrow> string list \<Rightarrow> bool" where
  "contains_all j ks = list_all (json_contains j) ks"

section \<open>Message types\<close>

datatype RaftMessageType =
    KInvalid | KRequestVoteRequest | KRequestVoteResponse | KAppendEntriesRequest | KAppendEntriesResponse
  | KInstallSnapshotRequest | KInstallSnapshotResponse | KClientRequest | KClientResponse | KConfigChangeRequest
  | KConfigChangeResponse | KPreVoteRequest | KPreVoteResponse | KReadIndexRequest | KReadIndexResponse

definition message_types :: "RaftMessageType list" where
  "message_types = [KRequestVoteRequest, KRequestVoteResponse, KAppendEntriesRequest, KAppendEntriesResponse,
     KInstallSnapshotRequest, KInstallSnapshotResponse, KClientRequest, KClientResponse, KConfigChangeRequest,
     KConfigChangeResponse, KPreVoteRequest, KPreVoteResponse, KReadIndexRequest, KReadIndexResponse]"

text \<open>The enumeration has the underlying type \<open>int8_t\<close>; a number without an enumerator is \<open>None\<close>.\<close>

definition IntToMessageType :: "int \<Rightarrow> RaftMessageType option" where
  "IntToMessageType n =
     (let k = i8 n in
      if k = -1 then Some KInvalid
      else if 0 \<le> k \<and> nat k < length message_types then Some (message_types ! nat k)
      else None)"

datatype RaftRequest =
    Rpc rpc_request
  | Client nat ClientRequest
  | ReadIndexReq nat nat

datatype response_body =
    VoteResp RequestVoteResponse
  | AppendResp AppendEntriesResponse
  | SnapshotResp InstallSnapshotResponse
  | ClientResp ClientResponse
  | PreVoteResp PreVoteResponse
  | ReadIndexResp ReadIndexResponse

record RaftResponse =
  res_correlation_id :: nat
  res_group_id :: nat
  res_body :: response_body

section \<open>Requests\<close>

definition entry_json :: "RaftLogEntry \<Rightarrow> json" where
  "entry_json e = JObject [''index'' \<mapsto> JInt (int (e_index e)), ''term'' \<mapsto> JInt (int (e_term e)),
     ''data'' \<mapsto> JString (e_data e), ''command'' \<mapsto> JString (e_command e), ''checksum'' \<mapsto> JInt (int (e_checksum e))]"

definition SerializeEntries :: "RaftLogEntry list \<Rightarrow> json" where
  "SerializeEntries es = JArray (map entry_json es)"

text \<open>\<open>Inl\<close> is a returned error, \<open>None\<close> a thrown one.\<close>

fun entry_list :: "json list \<Rightarrow> (Status + RaftLogEntry list) option" where
  "entry_list [] = Some (Inr [])"
| "entry_list (j # js) =
     (if \<not> contains_all j [''index'', ''term'']
      then Some (Inl (mkStatus kDeSerializeError ''Missing entry fields'' []))
      else do {
        i \<leftarrow> req_field get_u32 j ''index'';
        t \<leftarrow> req_field get_u32 j ''term'';
        d \<leftarrow> opt_field get_string [] j ''data'';
        c \<leftarrow> opt_field get_string [] j ''command'';
        k \<leftarrow> opt_field get_u32 0 j ''checksum'';
        r \<leftarrow> entry_list js;
        Some (map_sum id (Cons \<lparr>e_index = i, e_term = t, e_data = d, e_command = c, e_checksum = k\<rparr>) r)
      })"

definition DeserializeEntries :: "json \<Rightarrow> (Status + RaftLogEntry list) option" where
  "DeserializeEntries j =
     (case json_at j ''entries'' of Some (JArray js) \<Rightarrow> entry_list js | _ \<Rightarrow> Some (Inr []))"

definition header_json :: "nat \<Rightarrow> nat \<Rightarrow> int \<Rightarrow> string \<rightharpoonup> json" where
  "header_json cid gid ty = [''correlation_id'' \<mapsto> JInt (int cid), ''group_id'' \<mapsto> JInt (int gid), ''type'' \<mapsto> JInt ty]"

fun request_json :: "RaftRequest \<Rightarrow> json" where
  "request_json (Rpc (RequestVote r)) =
     JObject (header_json (rv_correlation_id r) (rv_group_id r) 0 ++
       [''term'' \<mapsto> JInt (int (rv_term r)), ''candidate_id'' \<mapsto> JInt (rv_candidate_id r),
        ''last_log_index'' \<mapsto> JInt (int (rv_last_log_index r)), ''last_log_term'' \<mapsto> JInt (int (rv_last_log_term r))])"
| "request_json (Rpc (AppendEntries r)) =
     JObject (header_json (ae_correlation_id r) (ae_group_id r) 2 ++
       [''term'' \<mapsto> JInt (int (ae_term r)), ''leader_id'' \<mapsto> JInt (ae_leader_id r),
        ''prev_log_index'' \<mapsto> JInt (int (ae_prev_log_index r)), ''prev_log_term'' \<mapsto> JInt (int (ae_prev_log_term r)),
        ''leader_commit'' \<mapsto> JInt (int (ae_leader_commit r)), ''entries'' \<mapsto> SerializeEntries (ae_entries r)])"
| "request_json (Rpc (InstallSnapshot r)) =
     JObject (header_json (is_correlation_id r) (is_group_id r) 4 ++
       [''term'' \<mapsto> JInt (int (is_term r)), ''leader_id'' \<mapsto> JInt (is_leader_id r),
        ''last_included_index'' \<mapsto> JInt (int (is_last_included_index r)),
        ''last_included_term'' \<mapsto> JInt (int (is_last_included_term r)), ''offset'' \<mapsto> JInt (int (is_offset r)),
        ''data'' \<mapsto> JString (is_data r), ''done'' \<mapsto> JBool (is_done r)])"
| "request_json (Client cid r) =
     JObject (header_json cid (cr_group_id r) 6 ++
       [''command'' \<mapsto> JString (cr_command r), ''client_id'' \<mapsto> JInt (int (cr_client_id r)),
        ''seq'' \<mapsto> JInt (int (cr_seq r)), ''read_only'' \<mapsto> JBool (cr_read_only r)])"
| "request_json (Rpc (PreVote r)) =
     JObject (header_json (pv_correlation_id r) (pv_group_id r) 10 ++
       [''term'' \<mapsto> JInt (int (pv_term r)), ''candidate_id'' \<mapsto> JInt (pv_candidate_id r),
        ''last_log_index'' \<mapsto> JInt (int (pv_last_log_index r)), ''last_log_term'' \<mapsto> JInt (int (pv_last_log_term r))])"
| "request_json (ReadIndexReq cid gid) = JObject (header_json cid gid 12)"

definition SerializeRequest :: "JsonLib \<Rightarrow> RaftRequest \<Rightarrow> Status + string" where
  "SerializeRequest lib req =
     (case jl_dump lib (request_json req) of
        Inr s \<Rightarrow> Inr s
      | Inl what \<Rightarrow> Inl (mkStatus kSerializeError (''Failed to serialize request: '' @ what) []))"

text \<open>The switch of \<open>DeserializeRequest\<close>, one definition per message.\<close>

definition missing :: "string \<Rightarrow> (Status + 'a) option" where
  "missing name = Some (Inl (mkStatus kDeSerializeError (''Missing required fields for '' @ name) []))"

definition read_vote :: "nat \<Rightarrow> nat \<Rightarrow> json \<Rightarrow> (Status + RaftRequest) option" where
  "read_vote cid gid j =
     (if \<not> contains_all j [''term'', ''candidate_id'', ''last_log_index'', ''last_log_term''] then missing ''RequestVote''
      else do {
        t \<leftarrow> req_field get_u32 j ''term'';
        c \<leftarrow> req_field get_i32 j ''candidate_id'';
        i \<leftarrow> req_field get_u32 j ''last_log_index'';
        l \<leftarrow> req_field get_u32 j ''last_log_term'';
        Some (Inr (Rpc (RequestVote \<lparr>rv_correlation_id = cid, rv_group_id = gid, rv_term = t, rv_candidate_id = c,
          rv_last_log_index = i, rv_last_log_term = l\<rparr>)))
      })"

definition read_append :: "nat \<Rightarrow> nat \<Rightarrow> json \<Rightarrow> (Status + RaftRequest) option" where
  "read_append cid gid j =
     (if \<not> contains_all j [''term'', ''leader_id'', ''prev_log_index'', ''prev_log_term'', ''leader_commit'']
      then missing ''AppendEntries''
      else do {
        t \<leftarrow> req_field get_u32 j ''term'';
        l \<leftarrow> req_field get_i32 j ''leader_id'';
        pi \<leftarrow> req_field get_u32 j ''prev_log_index'';
        pt \<leftarrow> req_field get_u32 j ''prev_log_term'';
        c \<leftarrow> req_field get_u32 j ''leader_commit'';
        r \<leftarrow> DeserializeEntries j;
        Some (map_sum id (\<lambda>es. Rpc (AppendEntries \<lparr>ae_correlation_id = cid, ae_group_id = gid, ae_term = t,
          ae_leader_id = l, ae_prev_log_index = pi, ae_prev_log_term = pt, ae_entries = es, ae_leader_commit = c\<rparr>)) r)
      })"

definition read_snapshot_chunk :: "nat \<Rightarrow> nat \<Rightarrow> json \<Rightarrow> (Status + RaftRequest) option" where
  "read_snapshot_chunk cid gid j =
     (if \<not> contains_all j [''term'', ''leader_id'', ''last_included_index'', ''last_included_term'', ''offset'',
           ''data'', ''done'']
      then missing ''InstallSnapshot''
      else do {
        t \<leftarrow> req_field get_u32 j ''term'';
        l \<leftarrow> req_field get_i32 j ''leader_id'';
        i \<leftarrow> req_field get_u32 j ''last_included_index'';
        it \<leftarrow> req_field get_u32 j ''last_included_term'';
        off \<leftarrow> req_field get_u32 j ''offset'';
        fin \<leftarrow> req_field get_bool j ''done'';
        d \<leftarrow> req_field get_string j ''data'';
        Some (Inr (Rpc (InstallSnapshot \<lparr>is_correlation_id = cid, is_group_id = gid, is_term = t, is_leader_id = l,
          is_last_included_index = i, is_last_included_term = it, is_offset = off, is_data = d, is_done = fin\<rparr>)))
      })"

definition read_client :: "nat \<Rightarrow> nat \<Rightarrow> json \<Rightarrow> (Status + RaftRequest) option" where
  "read_client cid gid j =
     (if \<not> contains_all j [''command'', ''client_id'', ''seq''] then missing ''ClientRequest''
      else do {
        c \<leftarrow> req_field get_string j ''command'';
        i \<leftarrow> req_field get_u64 j ''client_id'';
        q \<leftarrow> req_field get_u64 j ''seq'';
        ro \<leftarrow> opt_field get_bool False j ''read_only'';
        Some (Inr (Client cid \<lparr>cr_group_id = gid, cr_command = c, cr_client_id = i, cr_seq = q, cr_read_only = ro\<rparr>))
      })"

definition read_pre_vote :: "nat \<Rightarrow> nat \<Rightarrow> json \<Rightarrow> (Status + RaftRequest) option" where
  "read_pre_vote cid gid j =
     (if \<not> contains_all j [''term'', ''candidate_id'', ''last_log_index'', ''last_log_term''] then missing ''PreVote''
      else do {
        t \<leftarrow> req_field get_u32 j ''term'';
        c \<leftarrow> req_field get_i32 j ''candidate_id'';
        i \<leftarrow> req_field get_u32 j ''last_log_index'';
        l \<leftarrow> req_field get_u32 j ''last_log_term'';
        Some (Inr (Rpc (PreVote \<lparr>pv_correlation_id = cid, pv_group_id = gid, pv_term = t, pv_candidate_id = c,
          pv_last_log_index = i, pv_last_log_term = l\<rparr>)))
      })"

definition read_request :: "json \<Rightarrow> (Status + RaftRequest) option" where
  "read_request j =
     (if \<not> json_contains j ''type'' then Some (Inl (mkStatus kDeSerializeError ''Missing 'type' field in request'' []))
      else do {
        n \<leftarrow> req_field get_i32 j ''type'';
        if IntToMessageType n = Some KInvalid
        then Some (Inl (mkStatus kProtocolError (''Unknown request type: '' @ to_string n) []))
        else do {
          cid \<leftarrow> value_id j ''correlation_id'';
          gid \<leftarrow> value_id j ''group_id'';
          (case IntToMessageType n of
             Some KRequestVoteRequest \<Rightarrow> read_vote cid gid j
           | Some KAppendEntriesRequest \<Rightarrow> read_append cid gid j
           | Some KInstallSnapshotRequest \<Rightarrow> read_snapshot_chunk cid gid j
           | Some KClientRequest \<Rightarrow> read_client cid gid j
           | Some KPreVoteRequest \<Rightarrow> read_pre_vote cid gid j
           | Some KReadIndexRequest \<Rightarrow> Some (Inr (ReadIndexReq cid gid))
           | _ \<Rightarrow> Some (Inl (mkStatus kProtocolError ''Unsupported request type'' [])))
        }
      })"

text \<open>The two \<open>catch\<close> clauses around both readers.\<close>

definition with_json :: "JsonLib \<Rightarrow> (json \<Rightarrow> (Status + 'a) option) \<Rightarrow> string \<Rightarrow> Status + 'a" where
  "with_json lib read input =
     (case jl_parse lib input of
        Inl what \<Rightarrow> Inl (mkStatus kDeSerializeError (''JSON parse error: '' @ what) [])
      | Inr j \<Rightarrow>
        (case read j of
           None \<Rightarrow> Inl (mkStatus kDeSerializeError (''Deserialization error: '' @ jl_type_error lib j) [])
         | Some r \<Rightarrow> r))"

definition DeserializeRequest :: "JsonLib \<Rightarrow> string \<Rightarrow> Status + RaftRequest" where
  "DeserializeRequest lib input = with_json lib read_request input"

section \<open>Responses\<close>

fun body_json :: "response_body \<Rightarrow> int \<times> (string \<rightharpoonup> json)" where
  "body_json (VoteResp r) =
     (1, [''term'' \<mapsto> JInt (int (rvr_term r)), ''vote_granted'' \<mapsto> JBool (rvr_vote_granted r)])"
| "body_json (AppendResp r) =
     (3, [''term'' \<mapsto> JInt (int (aer_term r)), ''success'' \<mapsto> JBool (aer_success r),
          ''conflict_index'' \<mapsto> JInt (int (aer_conflict_index r)), ''entries_count'' \<mapsto> JInt (int (aer_entries_count r))])"
| "body_json (SnapshotResp r) = (5, [''term'' \<mapsto> JInt (int (isr_term r))])"
| "body_json (ClientResp r) =
     (7, [''success'' \<mapsto> JBool (crr_success r), ''response'' \<mapsto> JString (crr_response r), ''error'' \<mapsto> JString (crr_error r)] ++
         (if crr_error_code r = [] then Map.empty else [''error_code'' \<mapsto> JString (crr_error_code r)]) ++
         [''last_applied_index'' \<mapsto> JInt (int (crr_last_applied_index r)), ''leader_id'' \<mapsto> JInt (crr_leader_id r),
          ''leader_addr'' \<mapsto> JString (crr_leader_addr r)])"
| "body_json (PreVoteResp r) =
     (11, [''term'' \<mapsto> JInt (int (pvr_term r)), ''vote_granted'' \<mapsto> JBool (pvr_vote_granted r)])"
| "body_json (ReadIndexResp r) =
     (13, [''term'' \<mapsto> JInt (int (rir_term r)), ''read_index'' \<mapsto> JInt (int (rir_read_index r)),
           ''leader_valid'' \<mapsto> JBool (rir_leader_valid r)])"

definition response_json :: "RaftResponse \<Rightarrow> json" where
  "response_json res =
     (case body_json (res_body res) of
        (ty, m) \<Rightarrow> JObject (header_json (res_correlation_id res) (res_group_id res) ty ++ m))"

definition SerializeResponse :: "JsonLib \<Rightarrow> RaftResponse \<Rightarrow> Status + string" where
  "SerializeResponse lib res =
     (case jl_dump lib (response_json res) of
        Inr s \<Rightarrow> Inr s
      | Inl what \<Rightarrow> Inl (mkStatus kSerializeError (''Failed to serialize response: '' @ what) []))"

definition read_vote_response :: "json \<Rightarrow> (Status + response_body) option" where
  "read_vote_response j =
     (if \<not> contains_all j [''term'', ''vote_granted''] then missing ''RequestVoteResponse''
      else do {
        t \<leftarrow> req_field get_u32 j ''term'';
        g \<leftarrow> req_field get_bool j ''vote_granted'';
        Some (Inr (VoteResp \<lparr>rvr_term = t, rvr_vote_granted = g\<rparr>))
      })"

definition read_append_response :: "json \<Rightarrow> (Status + response_body) option" where
  "read_append_response j =
     (if \<not> contains_all j [''term'', ''success''] then missing ''AppendEntriesResponse''
      else do {
        t \<leftarrow> req_field get_u32 j ''term'';
        s \<leftarrow> req_field get_bool j ''success'';
        c \<leftarrow> opt_field get_u32 0 j ''conflict_index'';
        n \<leftarrow> opt_field get_u32 0 j ''entries_count'';
        Some (Inr (AppendResp \<lparr>aer_term = t, aer_success = s, aer_conflict_index = c, aer_entries_count = n\<rparr>))
      })"

definition read_snapshot_response :: "json \<Rightarrow> (Status + response_body) option" where
  "read_snapshot_response j =
     (if \<not> contains_all j [''term''] then missing ''InstallSnapshotResponse''
      else do {
        t \<leftarrow> req_field get_u32 j ''term'';
        Some (Inr (SnapshotResp \<lparr>isr_term = t\<rparr>))
      })"

definition read_client_response :: "json \<Rightarrow> (Status + response_body) option" where
  "read_client_response j =
     (if \<not> contains_all j [''success''] then missing ''ClientResponse''
      else do {
        s \<leftarrow> req_field get_bool j ''success'';
        r \<leftarrow> opt_field get_string [] j ''response'';
        e \<leftarrow> opt_field get_string [] j ''error'';
        c \<leftarrow> opt_field get_string [] j ''error_code'';
        a \<leftarrow> opt_field get_u32 0 j ''last_applied_index'';
        l \<leftarrow> opt_field get_i32 (-1) j ''leader_id'';
        la \<leftarrow> opt_field get_string [] j ''leader_addr'';
        Some (Inr (ClientResp \<lparr>crr_success = s, crr_response = r, crr_error = e, crr_error_code = c,
          crr_last_applied_index = a, crr_leader_id = l, crr_leader_addr = la\<rparr>))
      })"

definition read_pre_vote_response :: "json \<Rightarrow> (Status + response_body) option" where
  "read_pre_vote_response j =
     (if \<not> contains_all j [''term'', ''vote_granted''] then missing ''PreVoteResponse''
      else do {
        t \<leftarrow> req_field get_u32 j ''term'';
        g \<leftarrow> req_field get_bool j ''vote_granted'';
        Some (Inr (PreVoteResp \<lparr>pvr_term = t, pvr_vote_granted = g\<rparr>))
      })"

definition read_index_response :: "json \<Rightarrow> (Status + response_body) option" where
  "read_index_response j =
     (if \<not> contains_all j [''term'', ''read_index'', ''leader_valid''] then missing ''ReadIndexResponse''
      else do {
        t \<leftarrow> req_field get_u32 j ''term'';
        i \<leftarrow> req_field get_u32 j ''read_index'';
        v \<leftarrow> req_field get_bool j ''leader_valid'';
        Some (Inr (ReadIndexResp \<lparr>rir_term = t, rir_read_index = i, rir_leader_valid = v\<rparr>))
      })"

definition read_response :: "json \<Rightarrow> (Status + RaftResponse) option" where
  "read_response j =
     (if \<not> json_contains j ''type'' then Some (Inl (mkStatus kDeSerializeError ''Missing 'type' field in response'' []))
      else do {
        n \<leftarrow> req_field get_i32 j ''type'';
        if IntToMessageType n = Some KInvalid
        then Some (Inl (mkStatus kProtocolError (''Unknown response type: '' @ to_string n) []))
        else do {
          cid \<leftarrow> value_id j ''correlation_id'';
          gid \<leftarrow> value_id j ''group_id'';
          map_option (map_sum id (\<lambda>b. \<lparr>res_correlation_id = cid, res_group_id = gid, res_body = b\<rparr>))
          (case IntToMessageType n of
             Some KRequestVoteResponse \<Rightarrow> read_vote_response j
           | Some KAppendEntriesResponse \<Rightarrow> read_append_response j
           | Some KInstallSnapshotResponse \<Rightarrow> read_snapshot_response j
           | Some KClientResponse \<Rightarrow> read_client_response j
           | Some KPreVoteResponse \<Rightarrow> read_pre_vote_response j
           | Some KReadIndexResponse \<Rightarrow> read_index_response j
           | _ \<Rightarrow> Some (Inl (mkStatus kProtocolError ''Unsupported response type'' [])))
        }
      })"

definition DeserializeResponse :: "JsonLib \<Rightarrow> string \<Rightarrow> Status + RaftResponse" where
  "DeserializeResponse lib input = with_json lib read_response input"

section \<open>What survives the wire\<close>

text \<open>What the library documents: what it prints, it parses back to the same value.\<close>

definition json_lib_ok :: "JsonLib \<Rightarrow> bool" where
  "json_lib_ok lib \<longleftrightarrow> (\<forall>j s. jl_dump lib j = Inr s \<longrightarrow> jl_parse lib s = Inr j)"

definition fits_u32 :: "nat \<Rightarrow> bool" where
  "fits_u32 n \<longleftrightarrow> n < 2 ^ 32"

definition fits_u64 :: "nat \<Rightarrow> bool" where
  "fits_u64 n \<longleftrightarrow> n < 2 ^ 64"

definition entry_fits :: "RaftLogEntry \<Rightarrow> bool" where
  "entry_fits e \<longleftrightarrow> fits_u32 (e_index e) \<and> fits_u32 (e_term e) \<and> fits_u32 (e_checksum e)"

text \<open>The members are values of their C++ types, and the two identifiers are below \<open>2^31\<close>.\<close>

definition ids_fit :: "nat \<Rightarrow> nat \<Rightarrow> bool" where
  "ids_fit cid gid \<longleftrightarrow> cid < 2 ^ 31 \<and> gid < 2 ^ 31"

fun request_fits :: "RaftRequest \<Rightarrow> bool" where
  "request_fits (Rpc (RequestVote r)) =
     (ids_fit (rv_correlation_id r) (rv_group_id r) \<and> fits_u32 (rv_term r) \<and> is_i32 (rv_candidate_id r) \<and>
      fits_u32 (rv_last_log_index r) \<and> fits_u32 (rv_last_log_term r))"
| "request_fits (Rpc (AppendEntries r)) =
     (ids_fit (ae_correlation_id r) (ae_group_id r) \<and> fits_u32 (ae_term r) \<and> is_i32 (ae_leader_id r) \<and>
      fits_u32 (ae_prev_log_index r) \<and> fits_u32 (ae_prev_log_term r) \<and> fits_u32 (ae_leader_commit r) \<and>
      list_all entry_fits (ae_entries r))"
| "request_fits (Rpc (InstallSnapshot r)) =
     (ids_fit (is_correlation_id r) (is_group_id r) \<and> fits_u32 (is_term r) \<and> is_i32 (is_leader_id r) \<and>
      fits_u32 (is_last_included_index r) \<and> fits_u32 (is_last_included_term r) \<and> fits_u32 (is_offset r))"
| "request_fits (Client cid r) = (ids_fit cid (cr_group_id r) \<and> fits_u64 (cr_client_id r) \<and> fits_u64 (cr_seq r))"
| "request_fits (Rpc (PreVote r)) =
     (ids_fit (pv_correlation_id r) (pv_group_id r) \<and> fits_u32 (pv_term r) \<and> is_i32 (pv_candidate_id r) \<and>
      fits_u32 (pv_last_log_index r) \<and> fits_u32 (pv_last_log_term r))"
| "request_fits (ReadIndexReq cid gid) = ids_fit cid gid"

fun body_fits :: "response_body \<Rightarrow> bool" where
  "body_fits (VoteResp r) = fits_u32 (rvr_term r)"
| "body_fits (AppendResp r) = (fits_u32 (aer_term r) \<and> fits_u32 (aer_conflict_index r) \<and> fits_u32 (aer_entries_count r))"
| "body_fits (SnapshotResp r) = fits_u32 (isr_term r)"
| "body_fits (ClientResp r) = (fits_u32 (crr_last_applied_index r) \<and> is_i32 (crr_leader_id r))"
| "body_fits (PreVoteResp r) = fits_u32 (pvr_term r)"
| "body_fits (ReadIndexResp r) = (fits_u32 (rir_term r) \<and> fits_u32 (rir_read_index r))"

lemma nat_mod_id: "n < 2 ^ w \<Longrightarrow> nat (int n mod 2 ^ w) = n"
  by (simp add: nat_mod_distrib nat_power_eq)

lemma get_fits [simp]:
  "fits_u32 n \<Longrightarrow> get_u32 (JInt (int n)) = Some n" "is_i32 i \<Longrightarrow> get_i32 (JInt i) = Some i"
  "fits_u64 n \<Longrightarrow> get_u64 (JInt (int n)) = Some n"
proof -
  show "fits_u32 n \<Longrightarrow> get_u32 (JInt (int n)) = Some n"
    unfolding get_u32_def fits_u32_def using nat_mod_id [of n 32] by (simp only: get_int.simps option.map)
  show "fits_u64 n \<Longrightarrow> get_u64 (JInt (int n)) = Some n"
    unfolding fits_u64_def using nat_mod_id [of n 64] by (simp only: get_u64.simps)
qed (simp add: get_i32_def)

lemma value_id_fits [simp]:
  assumes "n < 2 ^ 31" and "m k = Some (JInt (int n))"
  shows "value_id (JObject m) k = Some n"
proof -
  have "get_i32 (JInt (int n)) = Some (int n)" using assms(1) by (intro get_fits) (simp add: is_i32_def)
  moreover have "nat (int n mod 2 ^ 64) = n" using assms(1) by (intro nat_mod_id) simp
  ultimately show ?thesis using assms(2) by (simp add: value_id_def opt_field_def req_field_def)
qed

lemma field_simps_at [simp]:
  "m k = Some v \<Longrightarrow> req_field get (JObject m) k = get v"
  "m k = Some v \<Longrightarrow> opt_field get d (JObject m) k = get v"
  "m k = None \<Longrightarrow> opt_field get d (JObject m) k = Some d"
  by (simp_all add: req_field_def opt_field_def)

lemma entry_list_fits:
  "list_all entry_fits es \<Longrightarrow> entry_list (map entry_json es) = Some (Inr es)"
  by (induction es) (simp_all add: entry_json_def contains_all_def entry_fits_def)

lemma type_ids [simp]:
  "get_i32 (JInt 0) = Some 0" "get_i32 (JInt 1) = Some 1" "get_i32 (JInt (numeral k)) = Some (i32 (numeral k))"
  by (simp_all add: get_i32_def i32_def)

lemma message_type_ids:
  "IntToMessageType 0 = Some KRequestVoteRequest" "IntToMessageType 1 = Some KRequestVoteResponse"
  "IntToMessageType 2 = Some KAppendEntriesRequest" "IntToMessageType 3 = Some KAppendEntriesResponse"
  "IntToMessageType 4 = Some KInstallSnapshotRequest" "IntToMessageType 5 = Some KInstallSnapshotResponse"
  "IntToMessageType 6 = Some KClientRequest" "IntToMessageType 7 = Some KClientResponse"
  "IntToMessageType 10 = Some KPreVoteRequest" "IntToMessageType 11 = Some KPreVoteResponse"
  "IntToMessageType 12 = Some KReadIndexRequest" "IntToMessageType 13 = Some KReadIndexResponse"
  by (simp_all add: IntToMessageType_def i8_def Let_def message_types_def)


declare get_u64.simps(1) [simp del]

lemma header_at [simp]:
  "header_json c g t ''type'' = Some (JInt t)"
  "header_json c g t ''correlation_id'' = Some (JInt (int c))"
  "header_json c g t ''group_id'' = Some (JInt (int g))"
  "header_json c g t ''error_code'' = None"
  by (simp_all add: header_json_def)

text \<open>The common part of the readers.\<close>

definition has_header :: "(string \<rightharpoonup> json) \<Rightarrow> nat \<Rightarrow> nat \<Rightarrow> int \<Rightarrow> bool" where
  "has_header m cid gid ty \<longleftrightarrow>
     m ''type'' = Some (JInt ty) \<and> m ''correlation_id'' = Some (JInt (int cid)) \<and> m ''group_id'' = Some (JInt (int gid))"

lemma has_headerD:
  assumes "has_header m cid gid ty" and "ids_fit cid gid" and "is_i32 ty"
  shows "json_contains (JObject m) ''type''" "req_field get_i32 (JObject m) ''type'' = Some ty"
    "value_id (JObject m) ''correlation_id'' = Some cid" "value_id (JObject m) ''group_id'' = Some gid"
  using assms by (auto simp: has_header_def ids_fit_def)

lemma has_header_header [simp]: "has_header (header_json cid gid ty) cid gid ty"
  by (simp add: has_header_def)

lemma has_header_upd [simp]:
  "k \<noteq> ''type'' \<Longrightarrow> k \<noteq> ''correlation_id'' \<Longrightarrow> k \<noteq> ''group_id'' \<Longrightarrow> has_header (m(k \<mapsto> v)) cid gid ty = has_header m cid gid ty"
  by (simp add: has_header_def)

lemma read_request_header:
  assumes "has_header m cid gid ty" and "ids_fit cid gid" and "is_i32 ty" and "IntToMessageType ty = Some t"
  shows "t = KRequestVoteRequest \<Longrightarrow> read_request (JObject m) = read_vote cid gid (JObject m)"
    "t = KAppendEntriesRequest \<Longrightarrow> read_request (JObject m) = read_append cid gid (JObject m)"
    "t = KInstallSnapshotRequest \<Longrightarrow> read_request (JObject m) = read_snapshot_chunk cid gid (JObject m)"
    "t = KClientRequest \<Longrightarrow> read_request (JObject m) = read_client cid gid (JObject m)"
    "t = KPreVoteRequest \<Longrightarrow> read_request (JObject m) = read_pre_vote cid gid (JObject m)"
    "t = KReadIndexRequest \<Longrightarrow> read_request (JObject m) = Some (Inr (ReadIndexReq cid gid))"
  using has_headerD [OF assms(1-3)] assms(4) by (simp_all add: read_request_def)

lemma small_ids [simp]: "is_i32 0" "is_i32 1" "numeral k < (2147483648 :: int) \<Longrightarrow> is_i32 (numeral k)"
  by (simp_all add: is_i32_def)

lemma read_request_json: "request_fits r \<Longrightarrow> read_request (request_json r) = Some (Inr r)"
proof (induction r rule: request_json.induct)
  case (1 r)
  have "read_request (request_json (Rpc (RequestVote r))) =
      read_vote (rv_correlation_id r) (rv_group_id r) (request_json (Rpc (RequestVote r)))"
    unfolding request_json.simps by (rule read_request_header(1) [OF _ _ _ message_type_ids(1) refl]) (use 1 in simp_all)
  with 1 show ?case by (simp add: read_vote_def contains_all_def)
next
  case (2 r)
  have "read_request (request_json (Rpc (AppendEntries r))) =
      read_append (ae_correlation_id r) (ae_group_id r) (request_json (Rpc (AppendEntries r)))"
    unfolding request_json.simps by (rule read_request_header(2) [OF _ _ _ message_type_ids(3) refl]) (use 2 in simp_all)
  with 2 show ?case
    by (simp add: read_append_def contains_all_def DeserializeEntries_def SerializeEntries_def entry_list_fits)
next
  case (3 r)
  have "read_request (request_json (Rpc (InstallSnapshot r))) =
      read_snapshot_chunk (is_correlation_id r) (is_group_id r) (request_json (Rpc (InstallSnapshot r)))"
    unfolding request_json.simps by (rule read_request_header(3) [OF _ _ _ message_type_ids(5) refl]) (use 3 in simp_all)
  with 3 show ?case by (simp add: read_snapshot_chunk_def contains_all_def)
next
  case (4 cid r)
  have "read_request (request_json (Client cid r)) = read_client cid (cr_group_id r) (request_json (Client cid r))"
    unfolding request_json.simps by (rule read_request_header(4) [OF _ _ _ message_type_ids(7) refl]) (use 4 in simp_all)
  with 4 show ?case by (simp add: read_client_def contains_all_def)
next
  case (5 r)
  have "read_request (request_json (Rpc (PreVote r))) =
      read_pre_vote (pv_correlation_id r) (pv_group_id r) (request_json (Rpc (PreVote r)))"
    unfolding request_json.simps by (rule read_request_header(5) [OF _ _ _ message_type_ids(9) refl]) (use 5 in simp_all)
  with 5 show ?case by (simp add: read_pre_vote_def contains_all_def)
next
  case (6 cid gid)
  show ?case
    unfolding request_json.simps by (rule read_request_header(6) [OF _ _ _ message_type_ids(11) refl]) (use 6 in simp_all)
qed

lemma read_response_header:
  assumes "has_header m cid gid ty" and "ids_fit cid gid" and "is_i32 ty" and "IntToMessageType ty = Some t"
  shows "t = KRequestVoteResponse \<Longrightarrow> read_vote_response (JObject m) = Some (Inr b) \<Longrightarrow>
      read_response (JObject m) = Some (Inr \<lparr>res_correlation_id = cid, res_group_id = gid, res_body = b\<rparr>)"
    "t = KAppendEntriesResponse \<Longrightarrow> read_append_response (JObject m) = Some (Inr b) \<Longrightarrow>
      read_response (JObject m) = Some (Inr \<lparr>res_correlation_id = cid, res_group_id = gid, res_body = b\<rparr>)"
    "t = KInstallSnapshotResponse \<Longrightarrow> read_snapshot_response (JObject m) = Some (Inr b) \<Longrightarrow>
      read_response (JObject m) = Some (Inr \<lparr>res_correlation_id = cid, res_group_id = gid, res_body = b\<rparr>)"
    "t = KClientResponse \<Longrightarrow> read_client_response (JObject m) = Some (Inr b) \<Longrightarrow>
      read_response (JObject m) = Some (Inr \<lparr>res_correlation_id = cid, res_group_id = gid, res_body = b\<rparr>)"
    "t = KPreVoteResponse \<Longrightarrow> read_pre_vote_response (JObject m) = Some (Inr b) \<Longrightarrow>
      read_response (JObject m) = Some (Inr \<lparr>res_correlation_id = cid, res_group_id = gid, res_body = b\<rparr>)"
    "t = KReadIndexResponse \<Longrightarrow> read_index_response (JObject m) = Some (Inr b) \<Longrightarrow>
      read_response (JObject m) = Some (Inr \<lparr>res_correlation_id = cid, res_group_id = gid, res_body = b\<rparr>)"
  using has_headerD [OF assms(1-3)] assms(4) by (simp_all add: read_response_def)

lemma read_response_json:
  assumes "ids_fit cid gid" and "body_fits b"
  shows "read_response (response_json \<lparr>res_correlation_id = cid, res_group_id = gid, res_body = b\<rparr>) =
    Some (Inr \<lparr>res_correlation_id = cid, res_group_id = gid, res_body = b\<rparr>)"
  using assms(2)
proof (induction b rule: body_json.induct)
  case (1 r)
  show ?case unfolding response_json_def RaftResponse.simps body_json.simps prod.case
    by (rule read_response_header(1) [OF _ assms(1) _ message_type_ids(2) refl])
      (use 1 in \<open>simp_all add: read_vote_response_def contains_all_def\<close>)
next
  case (2 r)
  show ?case unfolding response_json_def RaftResponse.simps body_json.simps prod.case
    by (rule read_response_header(2) [OF _ assms(1) _ message_type_ids(4) refl])
      (use 2 in \<open>simp_all add: read_append_response_def contains_all_def\<close>)
next
  case (3 r)
  show ?case unfolding response_json_def RaftResponse.simps body_json.simps prod.case
    by (rule read_response_header(3) [OF _ assms(1) _ message_type_ids(6) refl])
      (use 3 in \<open>simp_all add: read_snapshot_response_def contains_all_def\<close>)
next
  case (4 r)
  show ?case unfolding response_json_def RaftResponse.simps body_json.simps prod.case
    by (rule read_response_header(4) [OF _ assms(1) _ message_type_ids(8) refl])
      (use 4 in \<open>simp_all add: read_client_response_def contains_all_def\<close>)
next
  case (5 r)
  show ?case unfolding response_json_def RaftResponse.simps body_json.simps prod.case
    by (rule read_response_header(5) [OF _ assms(1) _ message_type_ids(10) refl])
      (use 5 in \<open>simp_all add: read_pre_vote_response_def contains_all_def\<close>)
next
  case (6 r)
  show ?case unfolding response_json_def RaftResponse.simps body_json.simps prod.case
    by (rule read_response_header(6) [OF _ assms(1) _ message_type_ids(12) refl])
      (use 6 in \<open>simp_all add: read_index_response_def contains_all_def\<close>)
qed


text \<open>A library that knows a single value.\<close>

definition ex_lib :: "json \<Rightarrow> JsonLib" where
  "ex_lib v =
     \<lparr>jl_parse = (\<lambda>s. if s = ''v'' then Inr v else Inl ''parse_error''),
      jl_dump = (\<lambda>j. if j = v then Inr ''v'' else Inl ''type_error''), jl_type_error = (\<lambda>_. ''type_error'')\<rparr>"

definition ex_wire_append :: RaftRequest where
  "ex_wire_append = Rpc (AppendEntries \<lparr>ae_correlation_id = 9, ae_group_id = 1, ae_term = 3, ae_leader_id = 2,
     ae_prev_log_index = 0, ae_prev_log_term = 0,
     ae_entries = [\<lparr>e_index = 1, e_term = 3, e_data = ''x'', e_command = [], e_checksum = 7\<rparr>], ae_leader_commit = 1\<rparr>)"

lemma ex_lib_ok [simp]: "json_lib_ok (ex_lib v)"
  by (simp add: json_lib_ok_def ex_lib_def)


text \<open>
  A group identifier from \<open>2^31\<close> on, which \<open>uint64_t\<close> allows, is read back as another group's: the reader
  takes the type of the default value, \<open>int\<close>, and the result is sign-extended.
\<close>

theorem large_group_id_is_misread:
  assumes "json_lib_ok lib" and "cid < 2 ^ 31" and "2 ^ 31 \<le> gid" and "gid < 2 ^ 32"
    and "SerializeRequest lib (ReadIndexReq cid gid) = Inr s"
  shows "DeserializeRequest lib s = Inr (ReadIndexReq cid (gid + 2 ^ 64 - 2 ^ 32))"
proof -
  let ?m = "header_json cid gid 12"
  have "(int gid + 2147483648) mod 4294967296 = (int gid + 2147483648 - 4294967296) mod 4294967296"
    by (rule minus_mod_self2 [symmetric])
  also have "\<dots> = int gid + 2147483648 - 4294967296"
    by (rule mod_pos_pos_trivial) (use assms(3,4) in simp_all)
  finally have i: "i32 (int gid) = int gid - 4294967296" by (simp add: i32_def)
  have "(int gid - 4294967296) mod 18446744073709551616 = (int gid - 4294967296 + 18446744073709551616) mod 18446744073709551616"
    by (rule mod_add_self2 [symmetric])
  also have "\<dots> = int gid - 4294967296 + 18446744073709551616"
    by (rule mod_pos_pos_trivial) (use assms(3,4) in simp_all)
  finally have n: "nat ((int gid - 4294967296) mod 18446744073709551616) = gid + 2 ^ 64 - 2 ^ 32"
    using assms(3) by simp
  have "value_id (JObject ?m) ''group_id'' = Some (nat (i32 (int gid) mod 18446744073709551616))"
    by (simp add: value_id_def opt_field_def req_field_def get_i32_def)
  then have "value_id (JObject ?m) ''group_id'' = Some (gid + 2 ^ 64 - 2 ^ 32)" unfolding i n .
  moreover have "value_id (JObject ?m) ''correlation_id'' = Some cid" using assms(2) by simp
  ultimately have "read_request (JObject ?m) = Some (Inr (ReadIndexReq cid (gid + 2 ^ 64 - 2 ^ 32)))"
    by (simp add: read_request_def message_type_ids i32_def)
  then show ?thesis
    using assms(1,5) by (auto simp: SerializeRequest_def DeserializeRequest_def with_json_def json_lib_ok_def split: sum.splits)
qed

theorem large_group_id_is_misread_witness:
  "DeserializeRequest (ex_lib (request_json (ReadIndexReq 0 2147483648))) ''v'' = Inr (ReadIndexReq 0 18446744071562067968)"
  using large_group_id_is_misread [of "ex_lib (request_json (ReadIndexReq 0 2147483648))" 0 2147483648 "''v''"]
  by (simp add: SerializeRequest_def ex_lib_def json_lib_ok_def)

section \<open>Binary payloads\<close>

text \<open>The library documents that it refuses to print a string that is not valid UTF-8.\<close>

inductive json_has_string :: "string \<Rightarrow> json \<Rightarrow> bool" where
  "json_has_string s (JString s)"
| "j \<in> set js \<Longrightarrow> json_has_string s j \<Longrightarrow> json_has_string s (JArray js)"
| "m k = Some j \<Longrightarrow> json_has_string s j \<Longrightarrow> json_has_string s (JObject m)"

definition json_lib_checks_utf8 :: "(string \<Rightarrow> bool) \<Rightarrow> JsonLib \<Rightarrow> bool" where
  "json_lib_checks_utf8 utf8 lib \<longleftrightarrow>
     (\<forall>s j. json_has_string s j \<longrightarrow> \<not> utf8 s \<longrightarrow> (\<exists>what. jl_dump lib j = Inl what))"

text \<open>
  The log entry's and the snapshot's payloads are declared as binary data, but they are printed as JSON strings: a
  payload that is not UTF-8 cannot be sent.
\<close>

lemma binary_entry_not_sent:
  assumes "json_lib_checks_utf8 utf8 lib" and "e \<in> set (ae_entries r)" and "\<not> utf8 (e_data e)"
  shows "\<exists>st. SerializeRequest lib (Rpc (AppendEntries r)) = Inl st"
proof -
  have "json_has_string (e_data e) (entry_json e)"
    unfolding entry_json_def by (rule json_has_string.intros(3) [of _ "''data''" "JString (e_data e)"]) (simp_all add: json_has_string.intros(1))
  then have "json_has_string (e_data e) (SerializeEntries (ae_entries r))"
    unfolding SerializeEntries_def using assms(2) by (intro json_has_string.intros(2) [of "entry_json e"]) simp_all
  then have "json_has_string (e_data e) (request_json (Rpc (AppendEntries r)))"
    unfolding request_json.simps by (intro json_has_string.intros(3) [of _ "''entries''" "SerializeEntries (ae_entries r)"]) simp_all
  then obtain what where "jl_dump lib (request_json (Rpc (AppendEntries r))) = Inl what"
    using assms(1,3) unfolding json_lib_checks_utf8_def by blast
  then show ?thesis by (simp add: SerializeRequest_def)
qed

end
