(* ===== verification/Rpc_Dispatch.thy ===== *)
theory Rpc_Dispatch
  imports Election_Safety Json_Protocol
begin

text \<open>
  Incoming messages: \<open>src/client_authorization.cpp\<close> and both \<open>HandleIncomingRpc\<close> of \<open>src/rpc_handlers.cpp\<close>, which
  check who is calling, read the message and pass it to its handler. A handler that has to wait for the apply
  thread leaves the dispatcher in \<open>Pending\<close>; an empty response is what the caller sends for a refused message.
\<close>

section \<open>Authorization\<close>

datatype RpcPeerKind = ANONYMOUS | NODE | CLIENT

record RpcPeerIdentity =
  peer_kind :: RpcPeerKind
  peer_node_id :: NodeId
  client_identity :: string

datatype ClientPermission = READ_ONLY | READ_WRITE

record ClientAuthorizationRule =
  rule_identity :: string
  rule_permission :: ClientPermission
  rule_allowed_groups :: "nat list option"

text \<open>\<open>emplace\<close> keeps the first rule of an identity.\<close>

definition ClientAuthorizationPolicy :: "ClientAuthorizationRule list \<Rightarrow> string \<rightharpoonup> ClientAuthorizationRule" where
  "ClientAuthorizationPolicy rules =
     fold (\<lambda>r m. if m (rule_identity r) = None then m(rule_identity r \<mapsto> r) else m) rules Map.empty"

definition AuthorizeClientRequest ::
  "(string \<rightharpoonup> ClientAuthorizationRule) \<Rightarrow> RpcPeerIdentity \<Rightarrow> bool \<Rightarrow> nat \<Rightarrow> Status" where
  "AuthorizeClientRequest rules peer read_only gid =
     (if peer_kind peer \<noteq> CLIENT
      then Unauthenticated ''A client certificate is required for client requests'' []
      else case rules (client_identity peer) of
             None \<Rightarrow> PermissionDenied ''Client identity is not authorized'' []
           | Some rule \<Rightarrow>
             if (case rule_allowed_groups rule of None \<Rightarrow> False | Some gs \<Rightarrow> gid \<notin> set gs)
             then PermissionDenied ''Client identity is not authorized for this group'' []
             else if \<not> read_only \<and> rule_permission rule \<noteq> READ_WRITE
             then PermissionDenied ''Client identity is not authorized to write'' []
             else OK)"

fun IsRaftProtocolRequest :: "RaftMessageType option \<Rightarrow> bool" where
  "IsRaftProtocolRequest (Some KRequestVoteRequest) = True"
| "IsRaftProtocolRequest (Some KAppendEntriesRequest) = True"
| "IsRaftProtocolRequest (Some KInstallSnapshotRequest) = True"
| "IsRaftProtocolRequest (Some KPreVoteRequest) = True"
| "IsRaftProtocolRequest (Some KReadIndexRequest) = True"
| "IsRaftProtocolRequest _ = False"

definition SenderIdentityMatches :: "NodeId \<Rightarrow> NodeId \<Rightarrow> bool" where
  "SenderIdentityMatches authenticated claimed \<longleftrightarrow> authenticated < 0 \<or> authenticated = claimed"

section \<open>The dispatcher\<close>

datatype dispatch =
    Answer string
  | Pending nat nat client_step

text \<open>The identifiers of the request come back in the response; a response that cannot be printed is empty.\<close>

definition reply :: "JsonLib \<Rightarrow> nat \<Rightarrow> nat \<Rightarrow> response_body \<Rightarrow> dispatch" where
  "reply lib cid gid b =
     (case SerializeResponse lib \<lparr>res_correlation_id = cid, res_group_id = gid, res_body = b\<rparr> of
        Inr text \<Rightarrow> Answer text
      | Inl _ \<Rightarrow> Answer [])"

definition dispatch_client ::
  "JsonLib \<Rightarrow> (string \<rightharpoonup> ClientAuthorizationRule) \<Rightarrow> Env \<Rightarrow> nat \<Rightarrow> RpcPeerIdentity \<Rightarrow> nat \<Rightarrow> ClientRequest \<Rightarrow> RaftNode \<Rightarrow>
     (dispatch \<times> RaftNode) option" where
  "dispatch_client lib rules env cb peer cid r s =
     (let st = (if nc_client_auth_enabled (config s) then AuthorizeClientRequest rules peer (cr_read_only r) (group_id s)
                else OK)
      in if \<not> ok st
         then Some (reply lib cid (cr_group_id r)
                (ClientResp (ClientResponse_init\<lparr>crr_error := GetMessage st, crr_error_code := CodeName st\<rparr>)), s)
         else case HandleClientRequest env r cb s of
                None \<Rightarrow> None
              | Some (Reply resp, s') \<Rightarrow> Some (reply lib cid (cr_group_id r) (ClientResp resp), s')
              | Some (step, s') \<Rightarrow> Some (Pending cid (cr_group_id r) step, s'))"

fun dispatch_request ::
  "JsonLib \<Rightarrow> (string \<rightharpoonup> ClientAuthorizationRule) \<Rightarrow> Env \<Rightarrow> nat \<Rightarrow> RpcPeerIdentity \<Rightarrow> NodeId \<Rightarrow> RaftRequest \<Rightarrow> RaftNode \<Rightarrow>
     (dispatch \<times> RaftNode) option" where
  "dispatch_request lib rules env cb peer from_id (Rpc (RequestVote r)) s =
     (if \<not> SenderIdentityMatches from_id (rv_candidate_id r) then Some (Answer [], s)
      else map_option (\<lambda>(resp, s'). (reply lib (rv_correlation_id r) (rv_group_id r) (VoteResp resp), s'))
             (HandleRequestVote env r s))"
| "dispatch_request lib rules env cb peer from_id (Rpc (AppendEntries r)) s =
     (if \<not> SenderIdentityMatches from_id (ae_leader_id r) then Some (Answer [], s)
      else map_option (\<lambda>(resp, s'). (reply lib (ae_correlation_id r) (ae_group_id r) (AppendResp resp), s'))
             (HandleAppendEntries env r s))"
| "dispatch_request lib rules env cb peer from_id (Rpc (InstallSnapshot r)) s =
     (if \<not> SenderIdentityMatches from_id (is_leader_id r) then Some (Answer [], s)
      else map_option (\<lambda>(resp, s'). (reply lib (is_correlation_id r) (is_group_id r) (SnapshotResp resp), s'))
             (HandleInstallSnapshot env r s))"
| "dispatch_request lib rules env cb peer from_id (Client cid r) s = dispatch_client lib rules env cb peer cid r s"
| "dispatch_request lib rules env cb peer from_id (Rpc (PreVote r)) s =
     (if \<not> SenderIdentityMatches from_id (pv_candidate_id r) then Some (Answer [], s)
      else Some (reply lib (pv_correlation_id r) (pv_group_id r) (PreVoteResp (HandlePreVote env r s)), s))"
| "dispatch_request lib rules env cb peer from_id (ReadIndexReq cid gid) s =
     map_option (\<lambda>(resp, s'). (reply lib cid gid (ReadIndexResp resp), s')) (HandleReadIndexRequest env s)"

definition handled_types :: "RaftMessageType option list" where
  "handled_types = map Some [KRequestVoteRequest, KAppendEntriesRequest, KInstallSnapshotRequest, KClientRequest,
     KPreVoteRequest, KReadIndexRequest]"

definition HandleIncomingRpc ::
  "JsonLib \<Rightarrow> (string \<rightharpoonup> ClientAuthorizationRule) \<Rightarrow> Env \<Rightarrow> nat \<Rightarrow> RpcPeerIdentity \<Rightarrow> string \<Rightarrow> RaftNode \<Rightarrow>
     (dispatch \<times> RaftNode) option" where
  "HandleIncomingRpc lib rules env cb peer data s =
     (case jl_parse lib data of
        Inl _ \<Rightarrow> Some (Answer [], s)
      | Inr j \<Rightarrow>
        (case req_field get_i32 j ''type'' of
           None \<Rightarrow> Some (Answer [], s)
         | Some type_id \<Rightarrow>
           let message_type = IntToMessageType type_id;
               from_id = (if peer_kind peer = NODE then peer_node_id peer else -1)
           in if nc_client_auth_enabled (config s) \<and> IsRaftProtocolRequest message_type \<and> peer_kind peer \<noteq> NODE
              then Some (Answer [], s)
              else if message_type \<notin> set handled_types then Some (Answer [], s)
              else case DeserializeRequest lib data of
                     Inl _ \<Rightarrow> Some (Answer [], s)
                   | Inr req \<Rightarrow> dispatch_request lib rules env cb peer from_id req s))"

text \<open>The overload for transports that know a node id only.\<close>

definition HandleIncomingRpc_from ::
  "JsonLib \<Rightarrow> (string \<rightharpoonup> ClientAuthorizationRule) \<Rightarrow> Env \<Rightarrow> nat \<Rightarrow> NodeId \<Rightarrow> string \<Rightarrow> RaftNode \<Rightarrow>
     (dispatch \<times> RaftNode) option" where
  "HandleIncomingRpc_from lib rules env cb from_id data s =
     HandleIncomingRpc lib rules env cb
       (if nc_client_auth_enabled (config s) then \<lparr>peer_kind = ANONYMOUS, peer_node_id = -1, client_identity = []\<rparr>
        else \<lparr>peer_kind = NODE, peer_node_id = from_id, client_identity = []\<rparr>) data s"

section \<open>Who can change the node\<close>

lemma policy_first_rule:
  "ClientAuthorizationPolicy rules i = find (\<lambda>r. rule_identity r = i) rules"
proof -
  have "fold (\<lambda>r m. if m (rule_identity r) = None then m(rule_identity r \<mapsto> r) else m) rules m i =
      (case m i of None \<Rightarrow> find (\<lambda>r. rule_identity r = i) rules | Some r \<Rightarrow> Some r)" for m
    by (induction rules arbitrary: m) (auto split: option.splits)
  then show ?thesis by (simp add: ClientAuthorizationPolicy_def)
qed

text \<open>What a configured rule grants.\<close>

definition rule_grants :: "ClientAuthorizationRule list \<Rightarrow> RpcPeerIdentity \<Rightarrow> bool \<Rightarrow> nat \<Rightarrow> bool" where
  "rule_grants rules peer read_only gid \<longleftrightarrow> peer_kind peer = CLIENT \<and>
     (\<exists>r. find (\<lambda>r. rule_identity r = client_identity peer) rules = Some r \<and>
        (\<forall>gs. rule_allowed_groups r = Some gs \<longrightarrow> gid \<in> set gs) \<and> (read_only \<or> rule_permission r = READ_WRITE))"

lemma denials_not_OK [simp]: "Unauthenticated a b \<noteq> OK" "PermissionDenied a b \<noteq> OK"
  by (simp_all add: OK_def Unauthenticated_def PermissionDenied_def mkStatus_def Let_def)

lemma authorize_iff:
  "AuthorizeClientRequest (ClientAuthorizationPolicy rules) peer read_only gid = OK \<longleftrightarrow> rule_grants rules peer read_only gid"
  by (auto simp: AuthorizeClientRequest_def policy_first_rule rule_grants_def split: option.splits)

fun claimed_id :: "RaftRequest \<Rightarrow> NodeId option" where
  "claimed_id (Rpc (RequestVote r)) = Some (rv_candidate_id r)"
| "claimed_id (Rpc (AppendEntries r)) = Some (ae_leader_id r)"
| "claimed_id (Rpc (InstallSnapshot r)) = Some (is_leader_id r)"
| "claimed_id (Rpc (PreVote r)) = Some (pv_candidate_id r)"
| "claimed_id _ = None"

text \<open>Which requests may act on a node with client authentication.\<close>

fun permitted :: "ClientAuthorizationRule list \<Rightarrow> RpcPeerIdentity \<Rightarrow> nat \<Rightarrow> RaftRequest \<Rightarrow> bool" where
  "permitted rules peer gid (Client _ r) = rule_grants rules peer (cr_read_only r) gid"
| "permitted rules peer gid req =
     (peer_kind peer = NODE \<and> (\<forall>i. claimed_id req = Some i \<longrightarrow> 0 \<le> peer_node_id peer \<longrightarrow> i = peer_node_id peer))"

lemma read_request_type:
  assumes "read_request j = Some (Inr req)" and "req_field get_i32 j ''type'' = Some n"
  shows "(\<exists>cid r. req = Client cid r) \<or> IsRaftProtocolRequest (IntToMessageType n)"
proof (cases "IntToMessageType n")
  case None
  then show ?thesis
    using assms by (auto simp: read_request_def bind_eq_Some_conv split: if_splits)
next
  case (Some t)
  then show ?thesis
    using assms by (cases t) (auto simp: read_request_def read_client_def missing_def bind_eq_Some_conv split: if_splits)
qed

lemma dispatch_request_permitted:
  assumes "dispatch_request lib (ClientAuthorizationPolicy rules) env cb peer
      (if peer_kind peer = NODE then peer_node_id peer else -1) req s = Some (d, s')"
    and "s' \<noteq> s" and "nc_client_auth_enabled (config s)"
    and "(\<exists>cid r. req = Client cid r) \<or> peer_kind peer = NODE"
  shows "permitted rules peer (group_id s) req"
proof (cases "\<exists>cid r. req = Client cid r")
  case True
  then obtain cid r where req: "req = Client cid r" by blast
  then have "AuthorizeClientRequest (ClientAuthorizationPolicy rules) peer (cr_read_only r) (group_id s) = OK"
    using assms(1-3) by (auto simp: dispatch_client_def Let_def split: if_splits)
  then show ?thesis by (simp add: req authorize_iff)
next
  case False
  then show ?thesis
    using assms by (cases req rule: claimed_id.cases) (auto simp: SenderIdentityMatches_def split: if_splits)
qed

text \<open>
  C18: On a node with client authentication, a message can only change the node's state when it is a protocol
  message from a certified node that does not claim to be another node, or a client request whose certified
  identity has a rule for this group and this kind of access.
\<close>

theorem only_permitted_requests_act:
  assumes "HandleIncomingRpc lib (ClientAuthorizationPolicy rules) env cb peer data s = Some (d, s')"
    and "nc_client_auth_enabled (config s)" and "s' \<noteq> s"
  shows "\<exists>req. DeserializeRequest lib data = Inr req \<and> permitted rules peer (group_id s) req"
proof -
  obtain j where j: "jl_parse lib data = Inr j"
    using assms(1,3) by (cases "jl_parse lib data") (auto simp: HandleIncomingRpc_def)
  obtain n where n: "req_field get_i32 j ''type'' = Some n"
    using assms(1,3) j by (cases "req_field get_i32 j ''type''") (auto simp: HandleIncomingRpc_def)
  obtain req where req: "DeserializeRequest lib data = Inr req"
    using assms(1,3) j n by (cases "DeserializeRequest lib data") (auto simp: HandleIncomingRpc_def Let_def split: if_splits)
  have d: "dispatch_request lib (ClientAuthorizationPolicy rules) env cb peer
      (if peer_kind peer = NODE then peer_node_id peer else -1) req s = Some (d, s')"
    and k: "IsRaftProtocolRequest (IntToMessageType n) \<longrightarrow> peer_kind peer = NODE"
    using assms j n req by (auto simp: HandleIncomingRpc_def Let_def split: if_splits)
  have "read_request j = Some (Inr req)"
    using req j by (auto simp: DeserializeRequest_def with_json_def split: option.splits)
  then have "permitted rules peer (group_id s) req"
    using dispatch_request_permitted [OF d assms(3,2)] read_request_type [OF _ n] k by blast
  then show ?thesis using req by blast
qed

text \<open>A guarded follower and a request from node 2.\<close>

definition ex_guarded :: RaftNode where
  "ex_guarded = (let s = ex_group [2, 3] in s\<lparr>config := (config s)\<lparr>nc_client_auth_enabled := True\<rparr>\<rparr>)"

definition ex_peer2 :: RpcPeerIdentity where
  "ex_peer2 = \<lparr>peer_kind = NODE, peer_node_id = 2, client_identity = []\<rparr>"

theorem only_permitted_requests_act_witness:
  "\<exists>d s'. HandleIncomingRpc (ex_lib (request_json (ReadIndexReq 1 0))) (ClientAuthorizationPolicy []) (ex_env 5) 0 ex_peer2
      ''v'' ex_guarded = Some (d, s') \<and> s' \<noteq> ex_guarded \<and> permitted [] ex_peer2 0 (ReadIndexReq 1 0)"
proof -
  let ?lib = "ex_lib (request_json (ReadIndexReq 1 0))"
  have lib: "jl_parse ?lib ''v'' = Inr (request_json (ReadIndexReq 1 0))" by (simp add: ex_lib_def)
  have "read_request (request_json (ReadIndexReq 1 0)) = Some (Inr (ReadIndexReq 1 0))"
    by (rule read_request_json) (simp add: ids_fit_def)
  then have q: "DeserializeRequest ?lib ''v'' = Inr (ReadIndexReq 1 0)"
    unfolding DeserializeRequest_def with_json_def lib by simp
  have g: "\<not> quiesced ex_guarded" "last_activity_time ex_guarded = 0" "nc_client_auth_enabled (config ex_guarded)" "group_id ex_guarded = 0"
    by (simp_all add: ex_guarded_def ex_group_def ex_config_def blank_node_def)
  have "\<exists>resp. HandleReadIndexRequest (ex_env 5) ex_guarded = Some (resp, ex_guarded\<lparr>last_activity_time := 5\<rparr>)"
    using g by (simp add: HandleReadIndexRequest_def RecordActivityLocked_def ex_env_def)
  then obtain resp where "HandleReadIndexRequest (ex_env 5) ex_guarded = Some (resp, ex_guarded\<lparr>last_activity_time := 5\<rparr>)"
    by blast
  then have "\<exists>d. HandleIncomingRpc ?lib (ClientAuthorizationPolicy []) (ex_env 5) 0 ex_peer2 ''v'' ex_guarded =
      Some (d, ex_guarded\<lparr>last_activity_time := 5\<rparr>)"
    using q lib by (simp add: HandleIncomingRpc_def ex_peer2_def i32_def message_type_ids handled_types_def Let_def)
  then obtain d where h: "HandleIncomingRpc ?lib (ClientAuthorizationPolicy []) (ex_env 5) 0 ex_peer2 ''v'' ex_guarded =
      Some (d, ex_guarded\<lparr>last_activity_time := 5\<rparr>)"
    by blast
  have "last_activity_time (ex_guarded\<lparr>last_activity_time := 5\<rparr>) \<noteq> last_activity_time ex_guarded" using g by simp
  then have ne: "ex_guarded\<lparr>last_activity_time := 5\<rparr> \<noteq> ex_guarded" by metis
  have "permitted [] ex_peer2 0 (ReadIndexReq 1 0)"
    using only_permitted_requests_act [OF h g(3) ne] q g(4) by simp
  then show ?thesis using h ne by blast
qed

section \<open>From a sender to a handler and back\<close>

lemma req_type_of_request:
  assumes "json_lib_ok lib" and "SerializeRequest lib req = Inr data"
  shows "jl_parse lib data = Inr (request_json req)"
  using assms by (auto simp: SerializeRequest_def json_lib_ok_def split: sum.splits)

lemma incoming_is_dispatched:
  assumes "json_lib_ok lib" and "SerializeRequest lib req = Inr data" and "request_fits req"
    and "peer_kind peer = NODE"
  shows "HandleIncomingRpc lib rules env cb peer data s =
    dispatch_request lib rules env cb peer (peer_node_id peer) req s"
proof -
  have p: "jl_parse lib data = Inr (request_json req)" by (rule req_type_of_request [OF assms(1,2)])
  have "DeserializeRequest lib data = Inr req"
    by (simp add: DeserializeRequest_def with_json_def p read_request_json [OF assms(3)])
  moreover obtain n where "req_field get_i32 (request_json req) ''type'' = Some n" "IntToMessageType n \<in> set handled_types"
    by (cases req rule: request_json.cases) (auto simp: i32_def message_type_ids handled_types_def)
  ultimately show ?thesis using assms(4) by (simp add: HandleIncomingRpc_def p Let_def)
qed


definition ex_lib2 :: "json \<Rightarrow> json \<Rightarrow> JsonLib" where
  "ex_lib2 v w =
     \<lparr>jl_parse = (\<lambda>s. if s = ''v'' then Inr v else if s = ''w'' then Inr w else Inl ''parse_error''),
      jl_dump = (\<lambda>j. if j = v then Inr ''v'' else if j = w then Inr ''w'' else Inl ''type_error''),
      jl_type_error = (\<lambda>_. ''type_error'')\<rparr>"

lemma ex_lib2_prints: "\<exists>a. SerializeResponse (ex_lib2 v (response_json res)) res = Inr a"
  by (simp add: SerializeResponse_def ex_lib2_def)


end
