(* ===== verification/Tls_Identity.thy ===== *)
theory Tls_Identity
  imports Rpc_Dispatch
begin

text \<open>
  The identity of a peer in its certificate: \<open>src/tls_identity.cpp\<close>. A certificate is its subject alternative names, as
  OpenSSL returns them; reading and parsing the file is a parameter. The result is the identity that
  \<open>HandleIncomingRpc\<close> checks requests against.
\<close>

section \<open>The code\<close>

text \<open>A name of the type \<open>GEN_URI\<close>, or any other; a certificate without the extension is \<open>None\<close>.\<close>

datatype general_name = Uri string | Other_name

type_synonym certificate = "general_name list option"

definition kRaftNodeSanPrefix :: string where "kRaftNodeSanPrefix = ''rollingraft-node:''"
definition kRaftClientSanPrefix :: string where "kRaftClientSanPrefix = ''rollingraft-client:''"

definition IsAsciiAlphaNumeric :: "char \<Rightarrow> bool" where
  "IsAsciiAlphaNumeric c \<longleftrightarrow> (let n = of_char c :: nat in 97 \<le> n \<and> n \<le> 122 \<or> 65 \<le> n \<and> n \<le> 90 \<or> 48 \<le> n \<and> n \<le> 57)"

definition IsValidClientIdentity :: "string \<Rightarrow> bool" where
  "IsValidClientIdentity identity \<longleftrightarrow>
     \<not> (identity = [] \<or> 128 < length identity \<or> \<not> IsAsciiAlphaNumeric (hd identity)) \<and>
     list_all (\<lambda>c. IsAsciiAlphaNumeric c \<or> c = CHR ''.'' \<or> c = CHR ''_'' \<or> c = CHR ''-'') identity"

text \<open>\<open>std::from_chars\<close> for \<open>int64_t\<close>: the value and the number of characters read.\<close>

definition from_chars :: "string \<Rightarrow> (int \<times> nat) option" where
  "from_chars s =
     (let neg = (case s of c # _ \<Rightarrow> c = CHR ''-'' | [] \<Rightarrow> False);
          ds = takeWhile is_digit (if neg then tl s else s);
          v = (if neg then - int (digits_val ds) else int (digits_val ds))
      in if ds = [] \<or> \<not> is_i64 v then None else Some (v, (if neg then 1 else 0) + length ds))"

definition node_of_uri :: "string \<Rightarrow> NodeId option" where
  "node_of_uri uri =
     (let id_text = drop (length kRaftNodeSanPrefix) uri in
      case from_chars id_text of
        None \<Rightarrow> None
      | Some (candidate, n) \<Rightarrow>
          if n \<noteq> length id_text \<or> candidate < 0 \<or> 2147483647 < candidate then None else Some candidate)"

definition no_identity :: RpcPeerIdentity where
  "no_identity = \<lparr>peer_kind = ANONYMOUS, peer_node_id = -1, client_identity = []\<rparr>"

text \<open>The loop over the names: the identity found so far.\<close>

fun scan_names :: "general_name list \<Rightarrow> RpcPeerIdentity option \<Rightarrow> Status + RpcPeerIdentity option" where
  "scan_names [] found = Inr found"
| "scan_names (Other_name # names) found = scan_names names found"
| "scan_names (Uri uri # names) found =
     (let is_node = starts_with kRaftNodeSanPrefix uri; is_client = starts_with kRaftClientSanPrefix uri in
      if uri = [] then scan_names names found
      else if \<not> is_node \<and> \<not> is_client then scan_names names found
      else if found \<noteq> None
      then Inl (Error ''TLS_IDENTITY_INVALID'' ''Certificate contains multiple RollingRaft identities'')
      else if is_node
      then (case node_of_uri uri of
              None \<Rightarrow> Inl (Error ''TLS_IDENTITY_INVALID'' (''Invalid rollingraft-node URI SAN: '' @ uri))
            | Some n \<Rightarrow> scan_names names (Some (no_identity\<lparr>peer_kind := NODE, peer_node_id := n\<rparr>)))
      else let client = drop (length kRaftClientSanPrefix) uri in
           if \<not> IsValidClientIdentity client
           then Inl (Error ''TLS_IDENTITY_INVALID'' (''Invalid rollingraft-client URI SAN: '' @ uri))
           else scan_names names (Some (no_identity\<lparr>peer_kind := CLIENT, client_identity := client\<rparr>)))"

definition ExtractCertificatePeerIdentity :: "certificate option \<Rightarrow> Status + RpcPeerIdentity" where
  "ExtractCertificatePeerIdentity cert =
     (case cert of
        None \<Rightarrow> Inl (Error ''TLS_IDENTITY_MISSING'' ''Peer certificate is missing'')
      | Some None \<Rightarrow> Inl (Error ''TLS_IDENTITY_MISSING'' ''Certificate has no subjectAltName extension'')
      | Some (Some names) \<Rightarrow>
          (case scan_names names None of
             Inl st \<Rightarrow> Inl st
           | Inr None \<Rightarrow> Inl (Error ''TLS_IDENTITY_MISSING'' ''Certificate has no RollingRaft URI SAN'')
           | Inr (Some identity) \<Rightarrow> Inr identity))"

definition ExtractCertificateNodeId :: "certificate option \<Rightarrow> Status + NodeId" where
  "ExtractCertificateNodeId cert =
     (case ExtractCertificatePeerIdentity cert of
        Inl st \<Rightarrow> Inl st
      | Inr identity \<Rightarrow>
          if peer_kind identity \<noteq> NODE
          then Inl (Error ''TLS_IDENTITY_MISSING'' ''Certificate has no rollingraft-node URI SAN'')
          else Inr (peer_node_id identity))"

text \<open>What reading a certificate file gives.\<close>

datatype cert_file = Unreadable | Unparsable | Parsed certificate

definition load_certificate :: "string \<Rightarrow> cert_file \<Rightarrow> Status + certificate" where
  "load_certificate path file =
     (case file of
        Unreadable \<Rightarrow> Inl (Error ''TLS_CERT_LOAD_FAILED'' (''Failed to open certificate: '' @ path))
      | Unparsable \<Rightarrow> Inl (Error ''TLS_CERT_LOAD_FAILED'' (''Failed to parse certificate: '' @ path))
      | Parsed cert \<Rightarrow> Inr cert)"

definition ValidateCertificateNodeId :: "string \<Rightarrow> cert_file \<Rightarrow> NodeId \<Rightarrow> Status" where
  "ValidateCertificateNodeId path file expected_node_id =
     (case load_certificate path file of
        Inl st \<Rightarrow> st
      | Inr cert \<Rightarrow>
          (case ExtractCertificateNodeId (Some cert) of
             Inl st \<Rightarrow> st
           | Inr n \<Rightarrow>
               if n \<noteq> expected_node_id
               then Error ''TLS_IDENTITY_MISMATCH'' (''Certificate identity '' @ to_string n @
                      '' does not match configured node_id '' @ to_string expected_node_id)
               else OK))"

definition ValidateCertificateClientIdentity :: "string \<Rightarrow> cert_file \<Rightarrow> Status" where
  "ValidateCertificateClientIdentity path file =
     (case load_certificate path file of
        Inl st \<Rightarrow> st
      | Inr cert \<Rightarrow>
          (case ExtractCertificatePeerIdentity (Some cert) of
             Inl st \<Rightarrow> st
           | Inr identity \<Rightarrow>
               if peer_kind identity \<noteq> CLIENT
               then Error ''TLS_IDENTITY_MISMATCH'' ''Certificate does not contain a rollingraft-client URI SAN''
               else OK))"

section \<open>A certificate has one identity\<close>

text \<open>The RollingRaft names of a certificate, and the identity a name stands for.\<close>

fun raft_uri :: "general_name \<Rightarrow> bool" where
  "raft_uri (Uri uri) \<longleftrightarrow> starts_with kRaftNodeSanPrefix uri \<or> starts_with kRaftClientSanPrefix uri"
| "raft_uri Other_name \<longleftrightarrow> False"

fun uri_identity :: "general_name \<Rightarrow> RpcPeerIdentity option" where
  "uri_identity (Uri uri) =
     (if starts_with kRaftNodeSanPrefix uri
      then map_option (\<lambda>n. no_identity\<lparr>peer_kind := NODE, peer_node_id := n\<rparr>) (node_of_uri uri)
      else let client = drop (length kRaftClientSanPrefix) uri in
           if IsValidClientIdentity client then Some (no_identity\<lparr>peer_kind := CLIENT, client_identity := client\<rparr>) else None)"
| "uri_identity Other_name = None"

lemma empty_not_raft [simp]: "\<not> raft_uri (Uri [])"
  by (simp add: starts_with_def kRaftNodeSanPrefix_def kRaftClientSanPrefix_def)

lemma scan_names_skip: "\<not> raft_uri x \<Longrightarrow> scan_names (x # names) found = scan_names names found"
  by (cases x) (auto simp: Let_def)

lemma scan_names_raft:
  assumes "raft_uri x"
  shows "scan_names (x # names) None = Inr r \<longleftrightarrow> (\<exists>i. uri_identity x = Some i \<and> scan_names names (Some i) = Inr r)"
    and "\<exists>st. scan_names (x # names) (Some j) = Inl st"
proof -
  obtain uri where x: "x = Uri uri" "uri \<noteq> []" using assms empty_not_raft by (cases x) auto
  show "scan_names (x # names) None = Inr r \<longleftrightarrow> (\<exists>i. uri_identity x = Some i \<and> scan_names names (Some i) = Inr r)"
    using assms x by (auto simp: Let_def split: option.splits if_splits)
  show "\<exists>st. scan_names (x # names) (Some j) = Inl st" using assms x by (auto simp: Let_def)
qed

lemma scan_names_found: "scan_names names (Some i) = Inr r \<longleftrightarrow> filter raft_uri names = [] \<and> r = Some i"
proof (induction names)
  case (Cons x names)
  then show ?case using scan_names_skip [of x names "Some i"] scan_names_raft(2) [of x names i] by (cases "raft_uri x") auto
qed auto

lemma scan_names_identity:
  "scan_names names None = Inr (Some i) \<longleftrightarrow> (\<exists>x. filter raft_uri names = [x] \<and> uri_identity x = Some i)"
proof (induction names)
  case (Cons x names)
  show ?case
  proof (cases "raft_uri x")
    case True
    then show ?thesis using scan_names_raft(1) [OF True, of names "Some i"] by (auto simp: scan_names_found)
  next
    case False
    then show ?thesis using Cons.IH scan_names_skip [OF False] by simp
  qed
qed simp

lemma scan_names_error: "scan_names names found = Inl st \<Longrightarrow> \<not> ok st"
  by (induction names found rule: scan_names.induct)
     (auto simp: Let_def ok_eq_OK split: if_splits option.splits)

lemma identity_error: "ExtractCertificatePeerIdentity cert = Inl st \<Longrightarrow> st \<noteq> OK"
  by (auto simp: ExtractCertificatePeerIdentity_def ok_eq_OK dest: scan_names_error split: option.splits sum.splits)

text \<open>
  The identity of a certificate is unambiguous: it is accepted exactly when one of its URI names, and only one, is a
  RollingRaft name, and that name is a node name with a number that fits or a client name of the allowed form.
\<close>

lemma certificate_identity_iff:
  "ExtractCertificatePeerIdentity (Some (Some names)) = Inr identity \<longleftrightarrow>
     (\<exists>x. filter raft_uri names = [x] \<and> uri_identity x = Some identity)"
  using scan_names_identity [of names identity]
  by (auto simp: ExtractCertificatePeerIdentity_def split: sum.splits option.splits)

text \<open>
  A node certificate is valid for one node: a configured node id is accepted exactly when the certificate's only
  RollingRaft name is the node name of that id.
\<close>

lemma validate_node_iff:
  "ok (ValidateCertificateNodeId path (Parsed (Some names)) n) \<longleftrightarrow>
     (\<exists>uri. filter raft_uri names = [Uri uri] \<and> starts_with kRaftNodeSanPrefix uri \<and> node_of_uri uri = Some n)"
proof -
  have k: "peer_kind i = NODE \<and> peer_node_id i = n \<longleftrightarrow>
      (\<exists>uri. x = Uri uri \<and> starts_with kRaftNodeSanPrefix uri \<and> node_of_uri uri = Some n)" if "uri_identity x = Some i" for x i
    using that by (cases x) (auto simp: Let_def split: if_splits)
  have "ok (ValidateCertificateNodeId path (Parsed (Some names)) n) \<longleftrightarrow>
      (\<exists>i. ExtractCertificatePeerIdentity (Some (Some names)) = Inr i \<and> peer_kind i = NODE \<and> peer_node_id i = n)"
    by (auto simp: ValidateCertificateNodeId_def load_certificate_def ExtractCertificateNodeId_def ok_eq_OK
        dest: identity_error split: sum.splits if_splits)
  also have "\<dots> \<longleftrightarrow> (\<exists>x i. filter raft_uri names = [x] \<and> uri_identity x = Some i \<and> peer_kind i = NODE \<and> peer_node_id i = n)"
    by (auto simp: certificate_identity_iff)
  finally show ?thesis using k by (fastforce split: option.splits)
qed

end
