(* ===== verification/Client.thy ===== *)
theory Client
  imports Tls_Identity "HOL-Library.Multiset"
begin

text \<open>
  The library's client: \<open>src/client.cpp\<close>, \<open>src/client/leader_tracker.cpp\<close> and \<open>src/client/retry_policy.cpp\<close>. What
  is outside the client is a state \<open>'w\<close> of the world and operations on it, the record \<open>world\<close>: \<open>RpcCall\<close> (a blocking
  exchange over a socket), the steady clock, sleeping, the random jitter, and the back-off computed on doubles. A call is
  modelled from its start to its return; calls of different threads are not interleaved.
\<close>

section \<open>The outside\<close>

text \<open>
  \<open>backoff n\<close> is \<open>static_cast<int>(initial_delay * pow(multiplier, n))\<close>, a computation on doubles.
\<close>

record 'w world =
  RpcCall :: "string \<Rightarrow> ClientRequest \<Rightarrow> int \<Rightarrow> 'w \<Rightarrow> (Status \<times> ClientResponse) \<times> 'w"
  steady_now :: "'w \<Rightarrow> time \<times> 'w"
  sleep_for :: "int \<Rightarrow> 'w \<Rightarrow> 'w"
  uniform :: "int \<Rightarrow> 'w \<Rightarrow> int \<times> 'w"
  backoff :: "int \<Rightarrow> int"

section \<open>The state\<close>

record ClientOptions =
  tls_enabled :: bool
  tls_cert_file :: string
  tls_key_file :: string
  tls_ca_file :: string
  max_retries :: int
  max_retry_delay :: int
  leader_cache_ttl :: int
  opt_client_id :: nat
  max_async_queue_size :: nat

text \<open>An empty \<open>std::function\<close> is \<open>None\<close>; a callback is a number.\<close>

record AsyncTask =
  task_command :: string
  task_callback :: "nat option"
  task_timeout :: int

record ClientImpl =
  servers :: "string list"
  options :: ClientOptions
  client_id :: nat
  tracker_addr :: string
  tracker_update :: time
  seq_counter :: nat
  initialization_error :: "Status option"
  shutdown :: bool
  task_queue :: "AsyncTask list"

text \<open>A \<open>ClientResult\<close> is an error or a response.\<close>

type_synonym ClientResult = "Status + string"

section \<open>The leader cache\<close>

definition GetLeader :: "'w world \<Rightarrow> ClientImpl \<Rightarrow> 'w \<Rightarrow> string option \<times> 'w" where
  "GetLeader W c w =
     (if tracker_addr c = [] then (None, w)
      else if leader_cache_ttl (options c) = 0 then (None, w)
      else let (now, w1) = steady_now W w in
           if leader_cache_ttl (options c) * 1000000 < now - tracker_update c then (None, w1)
           else (Some (tracker_addr c), w1))"

definition UpdateLeader :: "'w world \<Rightarrow> string \<Rightarrow> ClientImpl \<Rightarrow> 'w \<Rightarrow> ClientImpl \<times> 'w" where
  "UpdateLeader W addr c w =
     (if addr = [] then (c\<lparr>tracker_addr := []\<rparr>, w)
      else let (now, w1) = steady_now W w in (c\<lparr>tracker_addr := addr, tracker_update := now\<rparr>, w1))"

definition ClearLeader :: "ClientImpl \<Rightarrow> ClientImpl" where
  "ClearLeader c = c\<lparr>tracker_addr := []\<rparr>"

definition IsLeaderStale :: "'w world \<Rightarrow> ClientImpl \<Rightarrow> 'w \<Rightarrow> bool \<times> 'w" where
  "IsLeaderStale W c w =
     (if tracker_addr c = [] then (True, w)
      else if leader_cache_ttl (options c) = 0 then (True, w)
      else let (now, w1) = steady_now W w in
           (leader_cache_ttl (options c) * 1000000 < now - tracker_update c, w1))"

definition GetLeaderAddr :: "'w world \<Rightarrow> ClientImpl \<Rightarrow> 'w \<Rightarrow> string \<times> 'w" where
  "GetLeaderAddr W c w = (case GetLeader W c w of (None, w1) \<Rightarrow> ([], w1) | (Some a, w1) \<Rightarrow> (a, w1))"

section \<open>The retry policy\<close>

fun contains :: "string \<Rightarrow> string \<Rightarrow> bool" where
  "contains p [] \<longleftrightarrow> p = []"
| "contains p (c # cs) \<longleftrightarrow> starts_with p (c # cs) \<or> contains p cs"

definition IsRetryableError :: "Status \<Rightarrow> bool" where
  "IsRetryableError err =
     (if IsCode kUnauthenticated err \<or> IsCode kPermissionDenied err then False
      else if IsCode kNotLeader err then True
      else if IsCode kRequestVoteError err \<or> IsCode kAppendEntriesError err \<or> IsCode kInstallSnapshotError err then True
      else let msg = GetMessage err in
           list_ex (\<lambda>p. contains p msg) [''network'', ''Network'', ''timeout'', ''Timeout'', ''connect'', ''Connect''])"

text \<open>Division of integers as in C++, rounding towards zero.\<close>

definition cdiv :: "int \<Rightarrow> int \<Rightarrow> int" where
  "cdiv a b = (if 0 \<le> a then a div b else - (- a div b))"

definition GetDelay :: "'w world \<Rightarrow> int \<Rightarrow> int \<Rightarrow> 'w \<Rightarrow> int \<times> 'w" where
  "GetDelay W max_delay attempt_count w =
     (let base_delay = min (backoff W attempt_count) max_delay;
          jitter_max = min (cdiv base_delay 2) (cdiv max_delay 4);
          (jitter, w1) = uniform W (if jitter_max < 1 then 1 else jitter_max) w
      in (min (base_delay + jitter) max_delay, w1))"

section \<open>A request\<close>

definition TryExecuteOnServer :: "'w world \<Rightarrow> string \<Rightarrow> ClientRequest \<Rightarrow> int \<Rightarrow> ClientImpl \<Rightarrow> 'w \<Rightarrow> ClientResult \<times> ClientImpl \<times> 'w" where
  "TryExecuteOnServer W server req timeout c w =
     (let ((status, resp), w1) = RpcCall W server req timeout w in
      if \<not> ok status then (Inl status, c, w1)
      else if crr_success resp then (Inr (crr_response resp), c, w1)
      else if crr_error_code resp = ''UNAUTHENTICATED'' then (Inl (Unauthenticated (crr_error resp) []), c, w1)
      else if crr_error_code resp = ''PERMISSION_DENIED'' then (Inl (PermissionDenied (crr_error resp) []), c, w1)
      else if crr_leader_addr resp \<noteq> []
      then let (c1, w2) = UpdateLeader W (crr_leader_addr resp) c w1 in
           (Inl (NotLeader (crr_leader_id resp) (crr_leader_addr resp)), c1, w2)
      else (Inl (Error (crr_error resp) []), c, w1))"

text \<open>The inner loop, over the servers: \<open>None\<close> when it runs to its end.\<close>

fun try_servers :: "'w world \<Rightarrow> ClientRequest \<Rightarrow> int \<Rightarrow> time \<Rightarrow> string list \<Rightarrow> ClientImpl \<Rightarrow> 'w \<Rightarrow>
    ClientResult option \<times> ClientImpl \<times> 'w" where
  "try_servers W req timeout deadline [] c w = (None, c, w)"
| "try_servers W req timeout deadline (server # rest) c w =
     (case TryExecuteOnServer W server req timeout c w of
        (Inr response, c1, w1) \<Rightarrow> (let (c2, w2) = UpdateLeader W server c1 w1 in (Some (Inr response), c2, w2))
      | (Inl status, c1, w1) \<Rightarrow>
          let (c2, w2) = (if IsCode kNotLeader status
                          then case GetLeader W c1 w1 of (None, w2) \<Rightarrow> (ClearLeader c1, w2) | (Some _, w2) \<Rightarrow> (c1, w2)
                          else (c1, w1))
          in if \<not> IsRetryableError status then (Some (Inl status), c2, w2)
             else let (now, w3) = steady_now W w2 in
                  if deadline \<le> now then (Some (Inl (Error ''Request timeout'' [])), c2, w3)
                  else try_servers W req timeout deadline rest c2 w3)"

text \<open>The wait after an attempt: \<open>False\<close> when the deadline has passed.\<close>

definition wait_before_retry :: "'w world \<Rightarrow> int \<Rightarrow> time \<Rightarrow> ClientImpl \<Rightarrow> 'w \<Rightarrow> bool \<times> 'w" where
  "wait_before_retry W attempt deadline c w =
     (if \<not> attempt < max_retries (options c) then (True, w)
      else let (delay, w1) = GetDelay W (max_retry_delay (options c)) attempt w;
               (now, w2) = steady_now W w1;
               remaining = elapsed_ms deadline now
           in if remaining \<le> 0 then (False, w2)
              else let d = min delay remaining in (True, if 0 < d then sleep_for W d w2 else w2))"

fun retry_loop :: "'w world \<Rightarrow> ClientRequest \<Rightarrow> int \<Rightarrow> time \<Rightarrow> int list \<Rightarrow> ClientImpl \<Rightarrow> 'w \<Rightarrow> ClientResult \<times> ClientImpl \<times> 'w" where
  "retry_loop W req timeout deadline [] c w = (Inl (Error ''Max retries exceeded'' []), c, w)"
| "retry_loop W req timeout deadline (attempt # rest) c w =
     (let (now, w1) = steady_now W w in
      if deadline \<le> now then (Inl (Error ''Request timeout'' []), c, w1)
      else case try_servers W req timeout deadline (servers c) c w1 of
             (Some r, c1, w2) \<Rightarrow> (r, c1, w2)
           | (None, c1, w2) \<Rightarrow>
               (case wait_before_retry W attempt deadline c1 w2 of
                  (False, w3) \<Rightarrow> (Inl (Error ''Request timeout'' []), c1, w3)
                | (True, w3) \<Rightarrow> retry_loop W req timeout deadline rest c1 w3))"

definition request_of :: "string \<Rightarrow> bool \<Rightarrow> ClientImpl \<Rightarrow> ClientRequest" where
  "request_of command read_only c =
     \<lparr>cr_group_id = 0, cr_command = command, cr_client_id = client_id c, cr_seq = seq_counter c, cr_read_only = read_only\<rparr>"

definition DoExecute :: "'w world \<Rightarrow> string \<Rightarrow> bool \<Rightarrow> int \<Rightarrow> ClientImpl \<Rightarrow> 'w \<Rightarrow> ClientResult \<times> ClientImpl \<times> 'w" where
  "DoExecute W command read_only timeout c0 w =
     (case initialization_error c0 of
        Some err \<Rightarrow> (Inl err, c0, w)
      | None \<Rightarrow>
          let req = request_of command read_only c0;
              c = c0\<lparr>seq_counter := u64_add (seq_counter c0) 1\<rparr>;
              (now, w1) = steady_now W w;
              deadline = now + timeout * 1000000;
              attempts = [0..max_retries (options c)]
          in case GetLeader W c w1 of
               (None, w2) \<Rightarrow> retry_loop W req timeout deadline attempts c w2
             | (Some leader, w2) \<Rightarrow>
                 (case TryExecuteOnServer W leader req timeout c w2 of
                    (Inr response, c1, w3) \<Rightarrow> (Inr response, c1, w3)
                  | (Inl status, c1, w3) \<Rightarrow>
                      if \<not> IsRetryableError status then (Inl status, c1, w3)
                      else retry_loop W req timeout deadline attempts (ClearLeader c1) w3))"

definition Execute :: "'w world \<Rightarrow> string \<Rightarrow> int \<Rightarrow> ClientImpl \<Rightarrow> 'w \<Rightarrow> ClientResult \<times> ClientImpl \<times> 'w" where
  "Execute W command timeout = DoExecute W command False timeout"

definition Query :: "'w world \<Rightarrow> string \<Rightarrow> int \<Rightarrow> ClientImpl \<Rightarrow> 'w \<Rightarrow> ClientResult \<times> ClientImpl \<times> 'w" where
  "Query W query timeout = DoExecute W query True timeout"

section \<open>Construction\<close>

text \<open>
  \<open>readable\<close> says which files can be opened, \<open>cert\<close> what reading the certificate gives, \<open>generated\<close> is the identifier
  \<open>GenerateClientId\<close> draws.
\<close>

definition tls_check :: "(string \<Rightarrow> bool) \<Rightarrow> cert_file \<Rightarrow> ClientOptions \<Rightarrow> Status option" where
  "tls_check readable cert opts =
     (if \<not> tls_enabled opts then None
      else if tls_cert_file opts = [] \<or> tls_key_file opts = [] \<or> tls_ca_file opts = []
      then Some (Error ''CONFIG_INVALID'' ''TLS client requires certificate, key, and node CA'')
      else let status = ValidateCertificateClientIdentity (tls_cert_file opts) cert in
           if \<not> ok status then Some (Error ''CONFIG_INVALID'' (GetMessage status))
           else if \<not> readable (tls_key_file opts) \<or> \<not> readable (tls_ca_file opts)
           then Some (Error ''CONFIG_INVALID'' ''TLS client key and node CA files must be readable'')
           else None)"

definition ClientImpl_init :: "(string \<Rightarrow> bool) \<Rightarrow> cert_file \<Rightarrow> nat \<Rightarrow> string list \<Rightarrow> ClientOptions \<Rightarrow> ClientImpl" where
  "ClientImpl_init readable cert generated srvs opts =
     \<lparr>servers = srvs, options = opts, client_id = (if opt_client_id opts = 0 then generated else opt_client_id opts),
      tracker_addr = [], tracker_update = 0, seq_counter = 0, initialization_error = tls_check readable cert opts,
      shutdown = False, task_queue = []\<rparr>"

section \<open>Asynchronous requests\<close>

text \<open>
  \<open>ExecuteAsync\<close> gives the callback it runs at once, if any; calling an empty \<open>std::function\<close> throws, which is \<open>None\<close>.
\<close>

definition reject_task :: "string \<Rightarrow> nat option \<Rightarrow> ClientImpl \<Rightarrow> ((nat \<times> ClientResult) list \<times> ClientImpl) option" where
  "reject_task msg callback c = (case callback of None \<Rightarrow> None | Some cb \<Rightarrow> Some ([(cb, Inl (Error msg []))], c))"

definition ExecuteAsync :: "string \<Rightarrow> nat option \<Rightarrow> int \<Rightarrow> ClientImpl \<Rightarrow> ((nat \<times> ClientResult) list \<times> ClientImpl) option" where
  "ExecuteAsync command callback timeout c =
     (if shutdown c then reject_task ''Client is shutdown'' callback c
      else if 0 < max_async_queue_size (options c) \<and> max_async_queue_size (options c) \<le> length (task_queue c)
      then reject_task ''Client async queue full'' callback c
      else Some ([], c\<lparr>task_queue := task_queue c @
             [\<lparr>task_command = command, task_callback = callback, task_timeout = timeout\<rparr>]\<rparr>))"

text \<open>One turn of \<open>WorkerLoop\<close>: it waits, leaves, or takes a task and runs it.\<close>

datatype worker_turn = Waits | Leaves | Ran "(nat \<times> ClientResult) list"

definition WorkerTurn :: "'w world \<Rightarrow> ClientImpl \<Rightarrow> 'w \<Rightarrow> worker_turn \<times> ClientImpl \<times> 'w" where
  "WorkerTurn W c w =
     (case task_queue c of
        [] \<Rightarrow> if shutdown c then (Leaves, c, w) else (Waits, c, w)
      | task # rest \<Rightarrow>
          let c1 = c\<lparr>task_queue := rest\<rparr> in
          case task_callback task of
            None \<Rightarrow> (Ran [], c1, w)
          | Some cb \<Rightarrow>
              (case Execute W (task_command task) (task_timeout task) c1 w of
                 (result, c2, w1) \<Rightarrow> (Ran [(cb, result)], c2, w1)))"

text \<open>The destructor up to the joins.\<close>

definition Shutdown :: "ClientImpl \<Rightarrow> ClientImpl" where
  "Shutdown c = c\<lparr>shutdown := True\<rparr>"

section \<open>Which errors are retried\<close>

text \<open>A generic error is retried when its message names the network, a timeout or a connection.\<close>

lemma retryable_Error:
  assumes "length msg < U32"
  shows "IsRetryableError (Error msg []) \<longleftrightarrow>
    list_ex (\<lambda>p. contains p msg) [''network'', ''Network'', ''timeout'', ''Timeout'', ''connect'', ''Connect'']"
proof -
  have "GetMessage (Error msg []) = msg"
    using status_roundtrip [of msg "[]" kGenericError] assms by (simp add: Error_def joined_def)
  then show ?thesis by (simp add: IsRetryableError_def IsCode_def Let_def) (simp add: Error_def)
qed

lemma Error_not_leader [simp]: "\<not> IsCode kNotLeader (Error msg msg2)"
  by (simp add: IsCode_def Error_def)

section \<open>The delay between attempts\<close>

lemma GetDelay_bounds:
  assumes "0 \<le> backoff W n" and "0 \<le> max_delay" and "\<And>m w. 1 \<le> m \<Longrightarrow> 0 \<le> fst (uniform W m w) \<and> fst (uniform W m w) \<le> m"
  shows "0 \<le> fst (GetDelay W max_delay n w)" and "fst (GetDelay W max_delay n w) \<le> max_delay"
    and "min (backoff W n) max_delay \<le> fst (GetDelay W max_delay n w)"
proof -
  define m where "m = (if min (cdiv (min (backoff W n) max_delay) 2) (cdiv max_delay 4) < 1 then 1
    else min (cdiv (min (backoff W n) max_delay) 2) (cdiv max_delay 4))"
  have "1 \<le> m" by (auto simp: m_def)
  then have j: "0 \<le> fst (uniform W m w)" using assms(3) [of m w] by simp
  have e: "fst (GetDelay W max_delay n w) = min (min (backoff W n) max_delay + fst (uniform W m w)) max_delay"
    by (simp add: GetDelay_def Let_def m_def split: prod.split)
  show "0 \<le> fst (GetDelay W max_delay n w)" "fst (GetDelay W max_delay n w) \<le> max_delay"
    "min (backoff W n) max_delay \<le> fst (GetDelay W max_delay n w)" unfolding e using assms(1,2) j by auto
qed

section \<open>What a request leaves alone\<close>

text \<open>Only the leader cache changes after the sequence number is taken.\<close>

definition settled :: "ClientImpl \<Rightarrow> ClientImpl" where
  "settled c = c\<lparr>tracker_addr := [], tracker_update := 0\<rparr>"

lemma settled_fields:
  assumes "settled c = settled d"
  shows "servers c = servers d" "options c = options d" "seq_counter c = seq_counter d" "task_queue c = task_queue d"
    "shutdown c = shutdown d" "client_id c = client_id d"
  using assms unfolding settled_def by (cases c; cases d; simp)+

lemma settled_UpdateLeader [simp]: "UpdateLeader W a c w = (c', w') \<Longrightarrow> settled c' = settled c"
  by (auto simp: UpdateLeader_def settled_def Let_def split: if_splits prod.splits)

lemma settled_ClearLeader [simp]: "settled (ClearLeader c) = settled c"
  by (simp add: ClearLeader_def settled_def)

lemma settled_Try: "TryExecuteOnServer W srv req t c w = (r, c', w') \<Longrightarrow> settled c' = settled c"
  by (auto simp: TryExecuteOnServer_def Let_def split: if_splits prod.splits)

lemma settled_try_servers: "try_servers W req t d srvs c w = (r, c', w') \<Longrightarrow> settled c' = settled c"
proof (induction srvs arbitrary: c w)
  case (Cons srv srvs)
  obtain r1 c1 w1 where t: "TryExecuteOnServer W srv req t c w = (r1, c1, w1)" by (metis prod_cases3)
  show ?case
  proof (cases r1)
    case (Inl st)
    obtain c2 w2 where l: "(if IsCode kNotLeader st
        then case GetLeader W c1 w1 of (None, w2) \<Rightarrow> (ClearLeader c1, w2) | (Some _, w2) \<Rightarrow> (c1, w2)
        else (c1, w1)) = (c2, w2)" by fastforce
    have s2: "settled c2 = settled c"
      using l settled_Try [OF t] by (auto split: if_splits prod.splits option.splits)
    show ?thesis using Cons.prems Cons.IH s2 by (auto simp: t Inl l Let_def split: if_splits prod.splits)
  next
    case (Inr a)
    then show ?thesis using Cons.prems settled_Try [OF t] by (auto simp: t split: prod.splits)
  qed
qed simp

lemma settled_retry_loop: "retry_loop W req t d ks c w = (r, c', w') \<Longrightarrow> settled c' = settled c"
proof (induction ks arbitrary: c w)
  case (Cons k ks)
  obtain now w1 where n: "steady_now W w = (now, w1)" by fastforce
  obtain r1 c1 w2 where t: "try_servers W req t d (servers c) c w1 = (r1, c1, w2)" by (metis prod_cases3)
  obtain b w3 where b: "wait_before_retry W k d c1 w2 = (b, w3)" by fastforce
  show ?case using Cons.prems Cons.IH [of c1 w3] settled_try_servers [OF t]
    by (auto simp: n t b Let_def split: if_splits option.splits bool.splits)
qed simp

text \<open>Each request takes the next sequence number, and keeps it over all its attempts.\<close>

lemma DoExecute_settled:
  assumes "DoExecute W cmd ro t c w = (r, c', w')" and "initialization_error c = None"
  shows "settled c' = settled (c\<lparr>seq_counter := u64_add (seq_counter c) 1\<rparr>)"
  using assms(1)
  by (auto simp: DoExecute_def assms(2) Let_def split: prod.splits option.splits sum.splits if_splits
      dest!: settled_Try settled_retry_loop)

section \<open>A success is an answer to the request\<close>

definition answered :: "'w world \<Rightarrow> ClientRequest \<Rightarrow> int \<Rightarrow> string \<Rightarrow> bool" where
  "answered W req t r \<longleftrightarrow> (\<exists>srv w1 st resp w2. RpcCall W srv req t w1 = ((st, resp), w2) \<and> ok st \<and> crr_success resp \<and>
     r = crr_response resp)"

lemma Try_answered: "TryExecuteOnServer W srv req t c w = (Inr r, c', w') \<Longrightarrow> answered W req t r"
  unfolding answered_def by (fastforce simp: TryExecuteOnServer_def Let_def split: if_splits prod.splits)

lemma try_servers_answered: "try_servers W req t d srvs c w = (Some (Inr r), c', w') \<Longrightarrow> answered W req t r"
proof (induction srvs arbitrary: c w)
  case (Cons srv srvs)
  obtain r1 c1 w1 where t: "TryExecuteOnServer W srv req t c w = (r1, c1, w1)" by (metis prod_cases3)
  show ?case using Cons.prems Cons.IH Try_answered [of W srv req t c w] t
    by (cases r1) (auto simp: Let_def split: if_splits prod.splits)
qed simp

lemma retry_loop_answered: "retry_loop W req t d ks c w = (Inr r, c', w') \<Longrightarrow> answered W req t r"
proof (induction ks arbitrary: c w)
  case (Cons k ks)
  obtain now w1 where n: "steady_now W w = (now, w1)" by fastforce
  obtain r1 c1 w2 where t: "try_servers W req t d (servers c) c w1 = (r1, c1, w2)" by (metis prod_cases3)
  obtain b w3 where b: "wait_before_retry W k d c1 w2 = (b, w3)" by fastforce
  show ?case using Cons.prems Cons.IH [of c1 w3] try_servers_answered [of W req t d "servers c" c w1] t
    by (auto simp: n b Let_def split: if_splits option.splits bool.splits)
qed simp

text \<open>
  A successful result of the client is the response of a successful answer that some server gave to this very request,
  with the request's own command and sequence number: no other error or failed exchange is turned into a success.
\<close>

theorem success_is_an_answer:
  assumes "DoExecute W command read_only timeout c w = (Inr r, c', w')"
  shows "\<exists>srv w1 st resp w2. RpcCall W srv (request_of command read_only c) timeout w1 = ((st, resp), w2) \<and> ok st \<and>
    crr_success resp \<and> r = crr_response resp"
proof -
  have "answered W (request_of command read_only c) timeout r"
    using assms
    by (auto simp: DoExecute_def Let_def split: prod.splits option.splits sum.splits if_splits
        dest: Try_answered retry_loop_answered)
  then show ?thesis by (simp add: answered_def)
qed

section \<open>The number of exchanges\<close>

text \<open>\<open>n\<close> counts the calls of \<open>RpcCall\<close>.\<close>

definition counts :: "'w world \<Rightarrow> ('w \<Rightarrow> nat) \<Rightarrow> bool" where
  "counts W n \<longleftrightarrow> (\<forall>srv req t w. n (snd (RpcCall W srv req t w)) = Suc (n w)) \<and> (\<forall>w. n (snd (steady_now W w)) = n w) \<and>
     (\<forall>d w. n (sleep_for W d w) = n w) \<and> (\<forall>m w. n (snd (uniform W m w)) = n w)"

lemma countsD:
  assumes "counts W n"
  shows "RpcCall W srv req t w = (a, w') \<Longrightarrow> n w' = Suc (n w)" and "steady_now W w = (b, w') \<Longrightarrow> n w' = n w"
    and "n (sleep_for W d w) = n w" and "uniform W m w = (e, w') \<Longrightarrow> n w' = n w"
  using assms unfolding counts_def by (metis snd_conv)+

lemma count_GetLeader: "counts W n \<Longrightarrow> GetLeader W c w = (r, w') \<Longrightarrow> n w' = n w"
  by (auto simp: GetLeader_def Let_def dest: countsD(2) split: if_splits prod.splits)

lemma count_UpdateLeader: "counts W n \<Longrightarrow> UpdateLeader W a c w = (c', w') \<Longrightarrow> n w' = n w"
  by (auto simp: UpdateLeader_def Let_def dest: countsD(2) split: if_splits prod.splits)

lemma count_Try:
  assumes n: "counts W n" and "TryExecuteOnServer W srv req t c w = (r, c', w')"
  shows "n w' = Suc (n w)"
  using assms(2)
  by (auto simp: TryExecuteOnServer_def Let_def dest!: countsD(1) [OF n] count_UpdateLeader [OF n] split: if_splits prod.splits)

lemma count_try_servers: "counts W n \<Longrightarrow> try_servers W req t d srvs c w = (r, c', w') \<Longrightarrow> n w' \<le> n w + length srvs"
proof (induction srvs arbitrary: c w)
  case (Cons srv srvs)
  obtain r1 c1 w1 where t: "TryExecuteOnServer W srv req t c w = (r1, c1, w1)" by (metis prod_cases3)
  note w1 = count_Try [OF Cons.prems(1) t]
  show ?case
  proof (cases r1)
    case (Inl st)
    obtain c2 w2 where l: "(if IsCode kNotLeader st
        then case GetLeader W c1 w1 of (None, w2) \<Rightarrow> (ClearLeader c1, w2) | (Some _, w2) \<Rightarrow> (c1, w2)
        else (c1, w1)) = (c2, w2)" by fastforce
    have w2: "n w2 = n w1"
      using l by (auto split: if_splits prod.splits option.splits dest: count_GetLeader [OF Cons.prems(1)])
    obtain now w3 where n3: "steady_now W w2 = (now, w3)" by fastforce
    note w3 = countsD(2) [OF Cons.prems(1) n3]
    show ?thesis using Cons.prems(2) Cons.IH [OF Cons.prems(1), of c2 w3] w1 w2 w3
      by (auto simp: t Inl l n3 Let_def split: if_splits)
  next
    case (Inr a)
    then show ?thesis using Cons.prems w1 by (auto simp: t dest: count_UpdateLeader split: prod.splits)
  qed
qed simp

lemma count_GetDelay: "counts W n \<Longrightarrow> GetDelay W m k w = (d, w') \<Longrightarrow> n w' = n w"
  by (auto simp: GetDelay_def Let_def dest: countsD(4) split: prod.splits)

lemma count_wait:
  assumes n: "counts W n" and "wait_before_retry W k d c w = (b, w')"
  shows "n w' = n w"
proof -
  obtain delay w1 where g: "GetDelay W (max_retry_delay (options c)) k w = (delay, w1)" by fastforce
  obtain now w2 where t: "steady_now W w1 = (now, w2)" by fastforce
  show ?thesis using assms(2) count_GetDelay [OF n g] countsD(2) [OF n t]
    by (auto simp: wait_before_retry_def g t Let_def countsD(3) [OF n] split: if_splits)
qed

lemma count_retry_loop:
  "counts W n \<Longrightarrow> retry_loop W req t d ks c w = (r, c', w') \<Longrightarrow> n w' \<le> n w + length ks * length (servers c)"
proof (induction ks arbitrary: c w)
  case (Cons k ks)
  obtain now w1 where n: "steady_now W w = (now, w1)" by fastforce
  obtain r1 c1 w2 where t: "try_servers W req t d (servers c) c w1 = (r1, c1, w2)" by (metis prod_cases3)
  obtain b w3 where b: "wait_before_retry W k d c1 w2 = (b, w3)" by fastforce
  note k = countsD(2) [OF Cons.prems(1) n] count_try_servers [OF Cons.prems(1) t] count_wait [OF Cons.prems(1) b]
    settled_fields(1) [OF settled_try_servers [OF t]]
  show ?case using Cons.prems(2) Cons.IH [OF Cons.prems(1), of c1 w3] k
    by (auto simp: n t b Let_def split: if_splits option.splits bool.splits)
qed simp

text \<open>
  C40: A request ends after a bounded number of exchanges with the servers: one with the cached leader, and one with each
  server in each of the \<open>max_retries + 1\<close> attempts.
\<close>

theorem exchanges_are_bounded:
  assumes "counts W n" and "DoExecute W command read_only timeout c w = (r, c', w')"
  shows "n w' \<le> n w + 1 + nat (max_retries (options c) + 1) * length (servers c)"
proof -
  have len: "length [0..max_retries (options c)] = nat (max_retries (options c) + 1)" by simp
  have srv: "servers c2 = servers c \<and> n w2 = Suc (n w1)"
    if "TryExecuteOnServer W l req t (c\<lparr>seq_counter := k\<rparr>) w1 = (x, c2, w2)" for l req t k w1 x c2 w2
    using settled_fields(1) [OF settled_Try [OF that]] count_Try [OF assms(1) that] by simp
  note cnt = countsD(2) [OF assms(1)] count_GetLeader [OF assms(1)] count_retry_loop [OF assms(1)]
  show ?thesis using assms(2)
    by (auto simp: DoExecute_def Let_def len ClearLeader_def split: prod.splits option.splits sum.splits if_splits
        dest!: srv cnt)
qed

text \<open>A world with a clock that stands still, in which the first exchanges fail: the state is the number of exchanges.\<close>

definition ex_world :: "nat world" where
  "ex_world = \<lparr>RpcCall = (\<lambda>srv req t w. (if w = 0 then (Error ''connect failed'' [], ClientResponse_init)
      else (OK, ClientResponse_init\<lparr>crr_success := True, crr_response := cr_command req\<rparr>), Suc w)),
    steady_now = (\<lambda>w. (0, w)), sleep_for = (\<lambda>d w. w), uniform = (\<lambda>m w. (0, w)), backoff = (\<lambda>k. 100)\<rparr>"

definition ex_options :: ClientOptions where
  "ex_options = \<lparr>tls_enabled = False, tls_cert_file = [], tls_key_file = [], tls_ca_file = [], max_retries = 3,
    max_retry_delay = 1000, leader_cache_ttl = 30000, opt_client_id = 7, max_async_queue_size = 10000\<rparr>"

definition ex_client :: ClientImpl where
  "ex_client = ClientImpl_init (\<lambda>_. True) Unreadable 1 [''a:1'', ''b:1''] ex_options"

lemma ex_connect_retryable: "IsRetryableError (Error ''connect failed'' [])"
  by (simp add: retryable_Error U32_def starts_with_def)

lemma ex_execute: "\<exists>c. DoExecute ex_world ''put'' False 5000 ex_client 0 = (Inr ''put'', c, 2)"
proof -
  define err where "err = Error ''connect failed'' []"
  have e: "\<not> ok err" "err \<noteq> OK" "IsRetryableError err" "\<not> IsCode kNotLeader err"
    using ex_connect_retryable by (simp_all add: err_def)
  have up: "[0..3] = [0, 1, 2, 3::int]" by code_simp
  have W: "steady_now ex_world w = (0, w)" "RpcCall ex_world srv req t 0 = ((err, ClientResponse_init), 1)"
    "RpcCall ex_world srv req t 1 = ((OK, ClientResponse_init\<lparr>crr_success := True, crr_response := cr_command req\<rparr>), 2)"
    for w srv req t
    by (simp_all add: ex_world_def err_def)
  have c: "initialization_error ex_client = None" "servers ex_client = [''a:1'', ''b:1'']" "tracker_addr ex_client = []"
    "max_retries (options ex_client) = 3"
    by (simp_all add: ex_client_def ClientImpl_init_def ex_options_def tls_check_def)
  have "cr_command (request_of ''put'' False ex_client) = ''put''" by (simp add: request_of_def)
  then show ?thesis
    by (simp add: DoExecute_def c GetLeader_def up Let_def W TryExecuteOnServer_def UpdateLeader_def e One_nat_def [symmetric]
        del: One_nat_def)
qed

theorem success_is_an_answer_witness:
  "\<exists>srv w1 st resp w2. RpcCall ex_world srv (request_of ''put'' False ex_client) 5000 w1 = ((st, resp), w2) \<and> ok st \<and>
    crr_success resp \<and> ''put'' = crr_response resp"
proof -
  obtain c where "DoExecute ex_world ''put'' False 5000 ex_client 0 = (Inr ''put'', c, 2)" using ex_execute by blast
  from success_is_an_answer [OF this] show ?thesis .
qed

theorem exchanges_are_bounded_witness: "\<exists>c w. DoExecute ex_world ''put'' False 5000 ex_client 0 = (Inr ''put'', c, w) \<and> w \<le> 9"
proof -
  obtain c where d: "DoExecute ex_world ''put'' False 5000 ex_client 0 = (Inr ''put'', c, 2)" using ex_execute by blast
  have "counts ex_world id" by (simp add: counts_def ex_world_def)
  from exchanges_are_bounded [OF this d] d show ?thesis by (auto simp: ex_client_def ClientImpl_init_def ex_options_def)
qed

section \<open>Asynchronous requests are answered once\<close>

definition queued :: "ClientImpl \<Rightarrow> nat multiset" where
  "queued c = mset (List.map_filter task_callback (task_queue c))"

text \<open>
  A run of the client: requests submitted with a callback, workers' turns, shutting down. The two lists are the
  callbacks handed over and those that have run.
\<close>

inductive client_run :: "'w world \<Rightarrow> ClientImpl \<Rightarrow> nat list \<Rightarrow> nat list \<Rightarrow> ClientImpl \<Rightarrow> bool" for W c0 where
  start: "client_run W c0 [] [] c0"
| submit: "client_run W c0 subs called c \<Longrightarrow> ExecuteAsync cmd (Some cb) t c = Some (rs, c') \<Longrightarrow>
    client_run W c0 (subs @ [cb]) (called @ map fst rs) c'"
| turn: "client_run W c0 subs called c \<Longrightarrow> WorkerTurn W c w = (Ran rs, c', w') \<Longrightarrow> client_run W c0 subs (called @ map fst rs) c'"
| shutting_down: "client_run W c0 subs called c \<Longrightarrow> client_run W c0 subs called (Shutdown c)"

lemma submit_once:
  assumes "ExecuteAsync cmd (Some cb) t c = Some (rs, c')"
  shows "mset (map fst rs) + queued c' = add_mset cb (queued c)"
  using assms by (auto simp: ExecuteAsync_def reject_task_def queued_def map_filter_def split: if_splits)

lemma DoExecute_queue:
  assumes "DoExecute W cmd ro t c w = (r, c', w')"
  shows "task_queue c' = task_queue c"
proof (cases "initialization_error c")
  case None
  then show ?thesis using settled_fields(4) [OF DoExecute_settled [OF assms None]] by simp
next
  case (Some st)
  then show ?thesis using assms by (simp add: DoExecute_def)
qed

lemma turn_once:
  assumes "WorkerTurn W c w = (Ran rs, c', w')"
  shows "mset (map fst rs) + queued c' = queued c"
  using assms
  by (auto simp: WorkerTurn_def Execute_def queued_def map_filter_def Let_def dest!: DoExecute_queue
      split: list.splits option.splits if_splits prod.splits)

text \<open>
  A callback handed to \<open>ExecuteAsync\<close> runs once: at every moment the callbacks that have run and those of the queued
  tasks are together the callbacks handed over; and a worker leaves its loop only when all of them have run.
\<close>

theorem async_callbacks_run_once:
  assumes "client_run W c0 subs called c" and "task_queue c0 = []"
  shows "mset called + queued c = mset subs \<and> (WorkerTurn W c w = (Leaves, c', w') \<longrightarrow> mset called = mset subs)"
proof -
  have i: "mset called + queued c = mset subs" using assms
  proof (induction rule: client_run.induct)
    case start
    then show ?case by (simp add: queued_def map_filter_def)
  next
    case (submit subs called c cmd cb t rs c')
    then show ?case using submit_once [OF submit.hyps(2)] by (simp add: ac_simps flip: submit.IH)
  next
    case (turn subs called c w rs c' w')
    then show ?case using turn_once [OF turn.hyps(2)] by (simp add: ac_simps flip: turn.IH)
  qed (simp add: queued_def Shutdown_def)
  moreover have "queued c = {#}" if "WorkerTurn W c w = (Leaves, c', w')"
    using that by (auto simp: WorkerTurn_def queued_def map_filter_def Let_def split: list.splits option.splits prod.splits)
  ultimately show ?thesis by auto
qed

section \<open>The first command of a new client\<close>

text \<open>The client with a node of the cluster: each exchange is the node's \<open>HandleClientRequest\<close>.\<close>

definition node_world :: "Env \<Rightarrow> nat \<Rightarrow> RaftNode world" where
  "node_world env cb = \<lparr>RpcCall = (\<lambda>srv req t s. case HandleClientRequest env req cb s of
        Some (Reply resp, s') \<Rightarrow> ((OK, resp), s') | _ \<Rightarrow> ((Error ''timeout'' [], ClientResponse_init), s)),
    steady_now = (\<lambda>s. (0, s)), sleep_for = (\<lambda>d s. s), uniform = (\<lambda>m s. (0, s)), backoff = (\<lambda>k. 100)\<rparr>"

text \<open>
  A new client numbers its commands from 0, and a new session of a node has 0 as its last number. So the first command
  that a client sends is taken for a repetition by the leader: the client is told success, and the log is unchanged.
\<close>

theorem first_command_is_lost:
  assumes "\<not> quiesced s" and "role s = LEADER" and "client_sessions s (client_id c) = None" and "0 < timeout"
    and "c = ClientImpl_init readable cert generated (srv # rest) opts" and "initialization_error c = None" and "0 \<le> max_retries opts"
  shows "\<exists>c' s'. Execute (node_world env cb) command timeout c s = (Inr [], c', s') \<and> raft_log s' = raft_log s"
proof -
  define req where "req = request_of command False c"
  obtain resp s' where h: "HandleClientRequest env req cb s = Some (Reply resp, s')" "crr_success resp" "crr_response resp = []"
      "raft_log s' = raft_log s"
    using assms(1-3)
    by (simp add: HandleClientRequest_def RecordActivityLocked_def session_at_def ClientSession_init_def Let_def req_def
        request_of_def assms(5) ClientImpl_init_def)
  have up: "[0..max_retries opts] = 0 # [1..max_retries opts]" using assms(7) by (simp add: upto_rec1)
  have c: "servers c = srv # rest" "tracker_addr c = []" "options c = opts" using assms(5) by (simp_all add: ClientImpl_init_def)
  show ?thesis
    using h assms(4)
    by (simp add: Execute_def DoExecute_def assms(6) GetLeader_def c up Let_def node_world_def TryExecuteOnServer_def
        UpdateLeader_def flip: req_def split: prod.splits)
qed

theorem first_command_is_lost_witness:
  "\<exists>c' s'. Execute (node_world (ex_env 0) 4) ''put'' 5000 ex_client ex_chair = (Inr [], c', s') \<and> raft_log s' = ex_log2"
proof -
  have "\<not> quiesced ex_chair" "client_sessions ex_chair (client_id ex_client) = None"
    by (simp_all add: ex_chair_def ex_group_def blank_node_def)
  moreover have "initialization_error ex_client = None" "0 \<le> max_retries ex_options"
    by (simp_all add: ex_client_def ClientImpl_init_def ex_options_def tls_check_def)
  ultimately show ?thesis
    using first_command_is_lost [of ex_chair ex_client 5000 "\<lambda>_. True" Unreadable 1 "''a:1''" "[''b:1'']" ex_options "ex_env 0" 4 "''put''"]
    by (simp add: ex_chair_fields ex_client_def)
qed

section \<open>An answer without a hint\<close>

lemma not_leader_text: "\<not> IsRetryableError (Error ''Not leader'' [])"
  by (simp add: retryable_Error U32_def starts_with_def)

text \<open>
  When the first server is not the leader and knows none, the request fails at once, whatever the other servers are: the
  answer becomes a generic error, which is not retried.
\<close>

theorem unhinted_answer_ends_request:
  assumes "initialization_error c = None" and "servers c = srv # rest" and "tracker_addr c = []" and "0 \<le> max_retries (options c)"
    and "\<And>w. fst (steady_now W w) = now" and "0 < timeout"
    and "\<And>w. fst (RpcCall W srv (request_of command read_only c) timeout w) =
      (OK, ClientResponse_init\<lparr>crr_error := ''Not leader'', crr_leader_addr := []\<rparr>)"
  shows "fst (DoExecute W command read_only timeout c w) = Inl (Error ''Not leader'' [])"
proof -
  define err where "err = Error ''Not leader'' []"
  define req where "req = request_of command read_only c"
  define resp where "resp = ClientResponse_init\<lparr>crr_error := ''Not leader'', crr_leader_addr := []\<rparr>"
  have r: "\<not> crr_success resp" "crr_error_code resp = []" "crr_leader_addr resp = []" "crr_error resp = ''Not leader''"
    by (simp_all add: resp_def ClientResponse_init_def)
  have n: "\<exists>w2. steady_now W w1 = (now, w2)" for w1 using assms(5) [of w1] by (metis prod.collapse)
  obtain w1 where w1: "steady_now W w = (now, w1)" using n by blast
  obtain w2 where w2: "steady_now W w1 = (now, w2)" using n by blast
  obtain w3 where w3: "RpcCall W srv req timeout w2 = ((OK, resp), w3)" using assms(7) [of w2] by (metis prod.collapse req_def resp_def)
  have k: "\<not> IsRetryableError err" "\<not> IsCode kNotLeader err" using not_leader_text by (simp_all add: err_def)
  have up: "[0..max_retries (options c)] = 0 # [1..max_retries (options c)]" using assms(4) by (simp add: upto_rec1)
  show ?thesis using assms(6)
    by (simp add: DoExecute_def assms(1) w1 GetLeader_def assms(3) up w2 assms(2) TryExecuteOnServer_def w3 r k flip: req_def err_def)
qed

end
