(* ===== verification/Crc32.thy ===== *)
theory Crc32
  imports Prelude "HOL-Library.Word"
begin

text \<open>
  The CRC-32 of \<open>src/wal_persister.cpp\<close> (\<open>kCRC32Table\<close>, \<open>ComputeCRC32\<close>), which guards every record of the write-ahead
  log and every checkpoint. The table-driven loop is proved equal to the bitwise definition of the checksum (polynomial
  \<open>0xEDB88320\<close>, reflected), and to detect every change confined to four adjacent bytes.
\<close>

unbundle bit_operations_syntax

section \<open>The table and the loop\<close>

definition kCRC32Table :: "32 word list" where
  "kCRC32Table = [
     0x00000000, 0x77073096, 0xee0e612c, 0x990951ba, 0x076dc419, 0x706af48f, 0xe963a535, 0x9e6495a3,
     0x0edb8832, 0x79dcb8a4, 0xe0d5e91e, 0x97d2d988, 0x09b64c2b, 0x7eb17cbd, 0xe7b82d07, 0x90bf1d91,
     0x1db71064, 0x6ab020f2, 0xf3b97148, 0x84be41de, 0x1adad47d, 0x6ddde4eb, 0xf4d4b551, 0x83d385c7,
     0x136c9856, 0x646ba8c0, 0xfd62f97a, 0x8a65c9ec, 0x14015c4f, 0x63066cd9, 0xfa0f3d63, 0x8d080df5,
     0x3b6e20c8, 0x4c69105e, 0xd56041e4, 0xa2677172, 0x3c03e4d1, 0x4b04d447, 0xd20d85fd, 0xa50ab56b,
     0x35b5a8fa, 0x42b2986c, 0xdbbbc9d6, 0xacbcf940, 0x32d86ce3, 0x45df5c75, 0xdcd60dcf, 0xabd13d59,
     0x26d930ac, 0x51de003a, 0xc8d75180, 0xbfd06116, 0x21b4f4b5, 0x56b3c423, 0xcfba9599, 0xb8bda50f,
     0x2802b89e, 0x5f058808, 0xc60cd9b2, 0xb10be924, 0x2f6f7c87, 0x58684c11, 0xc1611dab, 0xb6662d3d,
     0x76dc4190, 0x01db7106, 0x98d220bc, 0xefd5102a, 0x71b18589, 0x06b6b51f, 0x9fbfe4a5, 0xe8b8d433,
     0x7807c9a2, 0x0f00f934, 0x9609a88e, 0xe10e9818, 0x7f6a0dbb, 0x086d3d2d, 0x91646c97, 0xe6635c01,
     0x6b6b51f4, 0x1c6c6162, 0x856530d8, 0xf262004e, 0x6c0695ed, 0x1b01a57b, 0x8208f4c1, 0xf50fc457,
     0x65b0d9c6, 0x12b7e950, 0x8bbeb8ea, 0xfcb9887c, 0x62dd1ddf, 0x15da2d49, 0x8cd37cf3, 0xfbd44c65,
     0x4db26158, 0x3ab551ce, 0xa3bc0074, 0xd4bb30e2, 0x4adfa541, 0x3dd895d7, 0xa4d1c46d, 0xd3d6f4fb,
     0x4369e96a, 0x346ed9fc, 0xad678846, 0xda60b8d0, 0x44042d73, 0x33031de5, 0xaa0a4c5f, 0xdd0d7cc9,
     0x5005713c, 0x270241aa, 0xbe0b1010, 0xc90c2086, 0x5768b525, 0x206f85b3, 0xb966d409, 0xce61e49f,
     0x5edef90e, 0x29d9c998, 0xb0d09822, 0xc7d7a8b4, 0x59b33d17, 0x2eb40d81, 0xb7bd5c3b, 0xc0ba6cad,
     0xedb88320, 0x9abfb3b6, 0x03b6e20c, 0x74b1d29a, 0xead54739, 0x9dd277af, 0x04db2615, 0x73dc1683,
     0xe3630b12, 0x94643b84, 0x0d6d6a3e, 0x7a6a5aa8, 0xe40ecf0b, 0x9309ff9d, 0x0a00ae27, 0x7d079eb1,
     0xf00f9344, 0x8708a3d2, 0x1e01f268, 0x6906c2fe, 0xf762575d, 0x806567cb, 0x196c3671, 0x6e6b06e7,
     0xfed41b76, 0x89d32be0, 0x10da7a5a, 0x67dd4acc, 0xf9b9df6f, 0x8ebeeff9, 0x17b7be43, 0x60b08ed5,
     0xd6d6a3e8, 0xa1d1937e, 0x38d8c2c4, 0x4fdff252, 0xd1bb67f1, 0xa6bc5767, 0x3fb506dd, 0x48b2364b,
     0xd80d2bda, 0xaf0a1b4c, 0x36034af6, 0x41047a60, 0xdf60efc3, 0xa867df55, 0x316e8eef, 0x4669be79,
     0xcb61b38c, 0xbc66831a, 0x256fd2a0, 0x5268e236, 0xcc0c7795, 0xbb0b4703, 0x220216b9, 0x5505262f,
     0xc5ba3bbe, 0xb2bd0b28, 0x2bb45a92, 0x5cb36a04, 0xc2d7ffa7, 0xb5d0cf31, 0x2cd99e8b, 0x5bdeae1d,
     0x9b64c2b0, 0xec63f226, 0x756aa39c, 0x026d930a, 0x9c0906a9, 0xeb0e363f, 0x72076785, 0x05005713,
     0x95bf4a82, 0xe2b87a14, 0x7bb12bae, 0x0cb61b38, 0x92d28e9b, 0xe5d5be0d, 0x7cdcefb7, 0x0bdbdf21,
     0x86d3d2d4, 0xf1d4e242, 0x68ddb3f8, 0x1fda836e, 0x81be16cd, 0xf6b9265b, 0x6fb077e1, 0x18b74777,
     0x88085ae6, 0xff0f6a70, 0x66063bca, 0x11010b5c, 0x8f659eff, 0xf862ae69, 0x616bffd3, 0x166ccf45,
     0xa00ae278, 0xd70dd2ee, 0x4e048354, 0x3903b3c2, 0xa7672661, 0xd06016f7, 0x4969474d, 0x3e6e77db,
     0xaed16a4a, 0xd9d65adc, 0x40df0b66, 0x37d83bf0, 0xa9bcae53, 0xdebb9ec5, 0x47b2cf7f, 0x30b5ffe9,
     0xbdbdf21c, 0xcabac28a, 0x53b39330, 0x24b4a3a6, 0xbad03605, 0xcdd70693, 0x54de5729, 0x23d967bf,
     0xb3667a2e, 0xc4614ab8, 0x5d681b02, 0x2a6f2b94, 0xb40bbe37, 0xc30c8ea1, 0x5a05df1b, 0x2d02ef8d]"

definition crc_step :: "32 word \<Rightarrow> char \<Rightarrow> 32 word" where
  "crc_step crc c = drop_bit 8 crc XOR kCRC32Table ! unat ((crc XOR of_char c) AND 0xFF)"

definition ComputeCRC32 :: "string \<Rightarrow> 32 word" where
  "ComputeCRC32 data = NOT (foldl crc_step 0xFFFFFFFF data)"

text \<open>
  The reference: one division step by the reflected polynomial per bit, the input byte added to the low end of the
  register.
\<close>

definition crc_bit :: "32 word \<Rightarrow> 32 word" where
  "crc_bit r = (if bit r 0 then drop_bit 1 r XOR 0xEDB88320 else drop_bit 1 r)"

definition crc_byte :: "32 word \<Rightarrow> 32 word" where
  "crc_byte r = (crc_bit ^^ 8) r"

definition crc_bitwise :: "string \<Rightarrow> 32 word" where
  "crc_bitwise data = NOT (foldl (\<lambda>r c. crc_byte (r XOR of_char c)) 0xFFFFFFFF data)"

lemma pow8: "(f ^^ 8) x = f (f (f (f (f (f (f (f x)))))))"
  by (simp add: numeral_eq_Suc)

lemma crc_table: "kCRC32Table = map (\<lambda>i. crc_byte (of_nat i)) [0..<256]"
proof -
  have u: "[0..<256::nat] = 0 # 1 # [2..<256]" by (simp add: upt_rec)
  have "map (\<lambda>i. crc_byte (of_nat i)) [0..<256] = kCRC32Table"
    unfolding u by (simp add: upt_rec_numeral) (simp add: kCRC32Table_def crc_byte_def pow8 crc_bit_def)
  then show ?thesis by simp
qed

lemma crc_bit_xor: "crc_bit (x XOR y) = crc_bit x XOR crc_bit y"
  by (auto simp: crc_bit_def bit_xor_iff drop_bit_xor ac_simps)

lemma crc_byte_xor: "crc_byte (x XOR y) = crc_byte x XOR crc_byte y"
  by (simp add: crc_byte_def pow8 crc_bit_xor)

lemma crc_byte_high:
  assumes "\<And>k. k < 8 \<Longrightarrow> \<not> bit h k"
  shows "crc_byte h = drop_bit 8 h"
  using assms by (simp add: crc_byte_def pow8 crc_bit_def bit_drop_bit_eq) (simp add: numeral_eq_Suc)

lemma mask8: "(0xFF :: 32 word) = mask 8"
  by (simp add: mask_eq_exp_minus_1)

lemma crc_byte_split: "crc_byte r = drop_bit 8 r XOR crc_byte (r AND 0xFF)"
proof -
  have r: "r = (r AND NOT 0xFF) XOR (r AND 0xFF)"
    by (rule bit_word_eqI) (auto simp: bit_simps)
  have h: "crc_byte (r AND NOT 0xFF) = drop_bit 8 (r AND NOT 0xFF)"
    by (rule crc_byte_high) (simp add: mask8 bit_simps)
  have d: "drop_bit 8 (r AND NOT 0xFF) = drop_bit 8 r"
    by (rule bit_word_eqI) (auto simp: mask8 bit_simps dest: bit_imp_le_length)
  show ?thesis by (subst r) (simp only: crc_byte_xor h d)
qed

lemma of_char_bits: "bit (of_char c :: 32 word) k \<Longrightarrow> k < 8"
  by (cases c, simp only: of_char_Char bit_horner_sum_bit_word_iff) simp

lemma crc_step_byte: "crc_step crc c = crc_byte (crc XOR of_char c)"
proof -
  let ?w = "crc XOR of_char c"
  have d: "drop_bit 8 ?w = drop_bit 8 crc"
    using of_char_bits by (intro bit_word_eqI) (auto simp: bit_simps)
  have u: "unat (?w AND 0xFF) < 256"
    using word_and_le1 [of ?w "0xFF"] by (simp add: word_le_nat_alt unat_numeral)
  have t: "kCRC32Table ! unat (?w AND 0xFF) = crc_byte (?w AND 0xFF)"
    using u by (simp add: crc_table)
  show ?thesis by (simp only: crc_step_def t d [symmetric] crc_byte_split [of ?w, symmetric])
qed

text \<open>
  C31: The table-driven loop computes the CRC-32 of the bitwise definition on every input.
\<close>

theorem crc_table_eq_bitwise: "ComputeCRC32 data = crc_bitwise data"
proof -
  have "crc_step = (\<lambda>r c. crc_byte (r XOR of_char c))" by (intro ext) (rule crc_step_byte)
  then show ?thesis by (simp add: ComputeCRC32_def crc_bitwise_def)
qed

subsection \<open>What the checksum detects\<close>

lemma crc_bit_top: "bit (crc_bit r) 31 \<longleftrightarrow> bit r 0"
  by (auto simp: crc_bit_def bit_simps dest: bit_imp_le_length)

lemma xor_cancel: "x XOR k = y XOR k \<longleftrightarrow> x = (y :: 32 word)"
  by (metis xor.assoc xor_self_eq xor.right_neutral)

lemma inj_crc_bit: "inj crc_bit"
proof (rule injI)
  fix x y assume e: "crc_bit x = crc_bit y"
  then have b: "bit x 0 \<longleftrightarrow> bit y 0" by (metis crc_bit_top)
  have d: "drop_bit 1 x = drop_bit 1 y"
    using e b by (simp add: crc_bit_def xor_cancel split: if_splits)
  show "x = y"
  proof (rule bit_word_eqI)
    fix n assume "n < LENGTH(32)"
    show "bit x n \<longleftrightarrow> bit y n"
    proof (cases n)
      case (Suc k)
      then show ?thesis using arg_cong [OF d, of "\<lambda>w. bit w k"] by (simp add: bit_drop_bit_eq)
    qed (simp add: b)
  qed
qed

lemma inj_crc_byte: "inj crc_byte"
  using inj_fn [OF inj_crc_bit, of 8] by (simp add: crc_byte_def [abs_def])

lemma inj_crc_bytes: "inj (crc_byte ^^ n)"
  by (rule inj_fn [OF inj_crc_byte])

lemma crc_suffix_inj: "foldl crc_step r b = foldl crc_step r' b \<longleftrightarrow> r = r'"
  by (induction b arbitrary: r r') (simp_all add: crc_step_byte inj_eq [OF inj_crc_byte] xor_cancel)

text \<open>The register after up to four bytes is a bijective image of the register with the bytes added to it.\<close>

fun crc_word :: "string \<Rightarrow> 32 word" where
  "crc_word [] = 0"
| "crc_word (c # cs) = of_char c XOR push_bit 8 (crc_word cs)"

lemma crc_word_bits: "bit (crc_word cs) k \<Longrightarrow> k < 8 * length cs"
proof (induction cs arbitrary: k)
  case (Cons c cs)
  then show ?case using of_char_bits [of c k] by (fastforce simp: bit_simps)
qed simp

lemma crc_byte_push:
  assumes "length cs \<le> 3"
  shows "crc_byte (push_bit 8 (crc_word cs)) = crc_word cs"
proof -
  have "crc_byte (push_bit 8 (crc_word cs)) = drop_bit 8 (push_bit 8 (crc_word cs))"
    by (rule crc_byte_high) (simp add: bit_simps)
  also have "\<dots> = crc_word cs"
  proof (rule bit_word_eqI)
    fix n show "bit (drop_bit 8 (push_bit 8 (crc_word cs))) n \<longleftrightarrow> bit (crc_word cs) n"
      using crc_word_bits [of cs n] assms by (auto simp: bit_simps)
  qed
  finally show ?thesis .
qed

lemma crc_burst:
  assumes "length cs \<le> 4"
  shows "foldl crc_step r cs = (crc_byte ^^ length cs) (r XOR crc_word cs)"
  using assms
proof (induction cs arbitrary: r)
  case (Cons c cs)
  then show ?case
    using crc_byte_push [of cs]
    by (simp add: crc_step_byte funpow_swap1 crc_byte_xor [symmetric] ac_simps)
       (simp add: crc_byte_xor ac_simps)
qed simp

lemma crc_word_inj:
  assumes "length x = length y" and "length x \<le> 4" and "crc_word x = crc_word y"
  shows "x = y"
  using assms
proof (induction x y rule: list_induct2)
  case (Cons c cs d ds)
  have "of_char c = (of_char d :: 32 word)"
  proof (rule bit_word_eqI)
    fix n show "bit (of_char c :: 32 word) n \<longleftrightarrow> bit (of_char d :: 32 word) n"
      using of_char_bits [of c n] of_char_bits [of d n]
        arg_cong [OF Cons.prems(2), of "\<lambda>w. bit w n"] by (auto simp: bit_simps)
  qed
  moreover have "crc_word cs = crc_word ds"
  proof (rule bit_word_eqI)
    fix n
    have "n < 24" if "bit (crc_word cs) n \<or> bit (crc_word ds) n"
      using that crc_word_bits [of cs n] crc_word_bits [of ds n] Cons by auto
    then show "bit (crc_word cs) n \<longleftrightarrow> bit (crc_word ds) n"
      using arg_cong [OF Cons.prems(2), of "\<lambda>w. bit w (n + 8)"] of_char_bits [of c "n + 8"] of_char_bits [of d "n + 8"]
      by (auto simp: bit_simps)
  qed
  moreover have "c = d" if "of_char c = (of_char d :: 32 word)"
  proof -
    have "(of_char c :: nat) < 2 ^ LENGTH(32)" "(of_char d :: nat) < 2 ^ LENGTH(32)"
      by (rule less_trans [OF nat_of_char_less_256], simp)+
    moreover have "unat (of_nat (of_char c) :: 32 word) = unat (of_nat (of_char d) :: 32 word)"
      using that by (simp only: of_nat_of_char)
    ultimately have "(of_char c :: nat) = of_char d" by (simp only: unat_of_nat mod_less)
    then show ?thesis by simp
  qed
  ultimately show ?case using Cons by simp
qed simp

text \<open>
  A change of the data confined to four adjacent bytes changes the checksum.
\<close>

theorem crc_detects_burst:
  assumes "length x = length y" and "length x \<le> 4" and "x \<noteq> y"
  shows "ComputeCRC32 (a @ x @ b) \<noteq> ComputeCRC32 (a @ y @ b)"
proof
  assume "ComputeCRC32 (a @ x @ b) = ComputeCRC32 (a @ y @ b)"
  then have "foldl crc_step (foldl crc_step 0xFFFFFFFF a) x = foldl crc_step (foldl crc_step 0xFFFFFFFF a) y"
    by (simp add: ComputeCRC32_def crc_suffix_inj)
  then have "crc_word x = crc_word y"
    using assms(1,2) by (simp add: crc_burst inj_eq [OF inj_crc_bytes] xor.commute [of _ "crc_word _"] xor_cancel)
  then show False using crc_word_inj assms by blast
qed

end
