(* ===== verification/Wal_Codec.thy ===== *)
theory Wal_Codec
  imports Crc32 Text_Model
begin

text \<open>
  The text and integer codecs of \<open>src/wal_persister.cpp\<close>: the little-endian integers that \<open>memcpy\<close> and \<open>write\<close> put
  into the files, and the Base64 text of the legacy JSON records, which is proved to decode to what was encoded.
\<close>

unbundle bit_operations_syntax

section \<open>Integers in memory order\<close>

text \<open>\<open>memcpy\<close> of an unsigned integer of \<open>k\<close> bytes on a little-endian machine, and back.\<close>

fun le_bytes :: "nat \<Rightarrow> nat \<Rightarrow> string" where
  "le_bytes 0 n = []"
| "le_bytes (Suc k) n = char_of (n mod 256) # le_bytes k (n div 256)"

fun le_read :: "string \<Rightarrow> nat" where
  "le_read [] = 0"
| "le_read (c # cs) = of_char c + 256 * le_read cs"

lemma length_le_bytes [simp]: "length (le_bytes k n) = k"
  by (induction k arbitrary: n) simp_all

lemma le_read_bytes_mod: "le_read (le_bytes k n) = n mod 256 ^ k"
proof (induction k arbitrary: n)
  case (Suc k)
  have "n mod 256 + 256 * (n div 256 mod 256 ^ k) = n mod (256 * 256 ^ k)"
    by (simp add: mod_mult2_eq)
  then show ?case using Suc by simp
qed simp

lemma le_read_bytes [simp]: "n < 256 ^ k \<Longrightarrow> le_read (le_bytes k n) = n"
  by (simp add: le_read_bytes_mod)

lemma le_bytes_inj: "n < 256 ^ k \<Longrightarrow> m < 256 ^ k \<Longrightarrow> le_bytes k n = le_bytes k m \<longleftrightarrow> n = m"
  by (metis le_read_bytes)

section \<open>Base64\<close>

definition u8 :: "nat \<Rightarrow> nat" where
  "u8 n = n mod 256"

definition kBase64Chars :: string where
  "kBase64Chars = ''ABCDEFGHIJKLMNOPQRSTUVWXYZabcdefghijklmnopqrstuvwxyz0123456789+/''"

text \<open>\<open>array4\<close> from \<open>array3\<close>; the arithmetic is that of \<open>int\<close>, and each result is stored in a \<open>uint8_t\<close>.\<close>

definition b64_quad :: "nat \<Rightarrow> nat \<Rightarrow> nat \<Rightarrow> nat list" where
  "b64_quad a b c =
     [u8 (drop_bit 2 (a AND 0xfc)),
      u8 (push_bit 4 (a AND 0x03) + drop_bit 4 (b AND 0xf0)),
      u8 (push_bit 2 (b AND 0x0f) + drop_bit 6 (c AND 0xc0)),
      u8 (c AND 0x3f)]"

definition b64_chars :: "nat list \<Rightarrow> string" where
  "b64_chars ns = map (\<lambda>n. kBase64Chars ! n) ns"

definition b64_enc_step :: "string \<times> nat list \<Rightarrow> char \<Rightarrow> string \<times> nat list" where
  "b64_enc_step st c =
     (case st of (encoded, array3) \<Rightarrow>
        let array3' = array3 @ [of_char c] in
        if length array3' = 3
        then (encoded @ b64_chars (b64_quad (array3' ! 0) (array3' ! 1) (array3' ! 2)), [])
        else (encoded, array3'))"

definition b64_enc_rest :: "string \<times> nat list \<Rightarrow> string" where
  "b64_enc_rest st =
     (case st of (encoded, array3) \<Rightarrow>
        let i = length array3; full = array3 @ replicate (3 - i) 0 in
        if i = 0 then encoded
        else encoded @ b64_chars (take (i + 1) (b64_quad (full ! 0) (full ! 1) (full ! 2)))
               @ replicate (3 - i) (CHR ''=''))"

text \<open>
  The length is read into an \<open>int\<close>. The loop visits the last \<open>in_len\<close> characters; a negative length is read as out of
  range (\<open>None\<close>).
\<close>

definition Base64Encode :: "string \<Rightarrow> string option" where
  "Base64Encode input =
     (let in_len = i32 (int (length input)) in
      if in_len < 0 then None
      else Some (b64_enc_rest (foldl b64_enc_step ([], []) (drop (length input - nat in_len) input))))"

definition b64_lookup :: "char \<Rightarrow> int" where
  "b64_lookup c =
     (let n = of_char c :: nat in
      if 65 \<le> n \<and> n \<le> 90 then int n - 65
      else if 97 \<le> n \<and> n \<le> 122 then int n - 97 + 26
      else if 48 \<le> n \<and> n \<le> 57 then int n - 48 + 52
      else if c = CHR ''+'' then 62
      else if c = CHR ''/'' then 63
      else -1)"

definition b64_triple :: "nat \<Rightarrow> nat \<Rightarrow> nat \<Rightarrow> nat \<Rightarrow> string" where
  "b64_triple a b c d =
     map char_of
       [u8 (push_bit 2 a + drop_bit 4 (b AND 0x30)),
        u8 (push_bit 4 (b AND 0x0f) + drop_bit 2 (c AND 0x3c)),
        u8 (push_bit 6 (c AND 0x03) + d)]"

definition b64_dec_step :: "string \<times> nat list \<Rightarrow> char \<Rightarrow> string \<times> nat list" where
  "b64_dec_step st ch =
     (case st of (decoded, array4) \<Rightarrow>
        let val = b64_lookup ch in
        if val = -1 then st
        else let array4' = array4 @ [nat val] in
             if length array4' = 4
             then (decoded @ b64_triple (array4' ! 0) (array4' ! 1) (array4' ! 2) (array4' ! 3), [])
             else (decoded, array4'))"

definition b64_dec_rest :: "string \<times> nat list \<Rightarrow> string" where
  "b64_dec_rest st =
     (case st of (decoded, array4) \<Rightarrow>
        let i = length array4; full = array4 @ replicate (4 - i) 0 in
        if i = 0 then decoded
        else decoded @ take (i - 1) (b64_triple (full ! 0) (full ! 1) (full ! 2) (full ! 3)))"

definition Base64Decode :: "string \<Rightarrow> string" where
  "Base64Decode encoded =
     (if encoded = [] then []
      else b64_dec_rest (foldl b64_dec_step ([], []) (takeWhile (\<lambda>c. c \<noteq> CHR ''='') encoded)))"

subsection \<open>Decoding what was encoded\<close>

lemma nat_masks:
  fixes n :: nat
  shows "n AND 0x3f = n mod 64" and "n AND 0x0f = n mod 16" and "n AND 0x03 = n mod 4"
  using take_bit_eq_mask [of 6 n] take_bit_eq_mask [of 4 n] take_bit_eq_mask [of 2 n]
  by (simp_all add: take_bit_eq_mod mask_eq_exp_minus_1)

lemma nat_fields:
  fixes n :: nat
  shows "drop_bit 2 (n AND 0xfc) = n div 4 mod 64" and "drop_bit 4 (n AND 0xf0) = n div 16 mod 16"
    and "drop_bit 6 (n AND 0xc0) = n div 64 mod 4" and "drop_bit 4 (n AND 0x30) = n div 16 mod 4"
    and "drop_bit 2 (n AND 0x3c) = n div 4 mod 16"
  by (simp_all add: drop_bit_and nat_masks) (simp_all add: drop_bit_eq_div)

lemma b64_quad_eq:
  assumes "a < 256" "b < 256" "c < 256"
  shows "b64_quad a b c = [a div 4, a mod 4 * 16 + b div 16, b mod 16 * 4 + c div 64, c mod 64]"
  using assms by (simp add: b64_quad_def nat_masks nat_fields u8_def push_bit_eq_mult del: drop_bit_and)

lemma b64_triple_eq:
  "b64_triple p q r t =
    map char_of [u8 (p * 4 + q div 16 mod 4), u8 (q mod 16 * 16 + r div 4 mod 16), u8 (r mod 4 * 64 + t)]"
  by (simp add: b64_triple_def nat_masks nat_fields push_bit_eq_mult del: drop_bit_and)

lemma b64_bytes:
  assumes "a < 256" "b < 256" "c < 256"
  defines "q \<equiv> a mod 4 * 16 + b div 16" and "r \<equiv> b mod 16 * 4 + c div 64"
  shows "u8 (a div 4 * 4 + q div 16 mod 4) = a" and "u8 (q mod 16 * 16 + r div 4 mod 16) = b"
    and "u8 (r mod 4 * 64 + c mod 64) = c"
proof -
  have b: "b div 16 < 16" and c: "c div 64 < 4" using assms(2,3) by auto
  have q: "q div 16 = a mod 4" "q mod 16 = b div 16" using b by (simp_all add: q_def)
  have r: "r div 4 = b mod 16" "r mod 4 = c div 64" using c by (simp_all add: r_def)
  show "u8 (a div 4 * 4 + q div 16 mod 4) = a" using assms(1) by (simp add: q u8_def)
  show "u8 (q mod 16 * 16 + r div 4 mod 16) = b" using assms(2) by (simp add: q r u8_def)
  show "u8 (r mod 4 * 64 + c mod 64) = c" using assms(3) by (simp add: r u8_def)
qed

lemma b64_alphabet:
  "map b64_lookup kBase64Chars = map int [0..<64]" "CHR ''='' \<notin> set kBase64Chars" "length kBase64Chars = 64"
proof -
  have u: "[0..<64::nat] = 0 # 1 # [2..<64]" by (simp add: upt_rec)
  show "map b64_lookup kBase64Chars = map int [0..<64]"
    unfolding u by (simp add: upt_rec_numeral) (simp add: kBase64Chars_def b64_lookup_def)
qed (simp_all add: kBase64Chars_def)

lemma b64_lookup_chars:
  assumes "n < 64"
  shows "b64_lookup (kBase64Chars ! n) = int n" and "kBase64Chars ! n \<noteq> CHR ''=''"
proof -
  have "map b64_lookup kBase64Chars ! n = map int [0..<64] ! n" by (simp only: b64_alphabet)
  then show "b64_lookup (kBase64Chars ! n) = int n" using assms by (simp add: b64_alphabet(3))
  show "kBase64Chars ! n \<noteq> CHR ''=''" using assms b64_alphabet(2,3) nth_mem [of n kBase64Chars] by metis
qed

lemma b64_dec_digit:
  "n < 64 \<Longrightarrow> b64_dec_step (d, ns) (kBase64Chars ! n) =
     (if length ns = 3 then (d @ b64_triple ((ns @ [n]) ! 0) ((ns @ [n]) ! 1) ((ns @ [n]) ! 2) ((ns @ [n]) ! 3), [])
      else (d, ns @ [n]))"
  by (simp add: b64_dec_step_def b64_lookup_chars Let_def)

lemma b64_dec_quad:
  assumes "a < 256" "b < 256" "c < 256"
  shows "foldl b64_dec_step (d, []) (b64_chars (b64_quad a b c)) = (d @ map char_of [a, b, c], [])"
proof -
  have "a div 4 < 64" "a mod 4 * 16 + b div 16 < 64" "b mod 16 * 4 + c div 64 < 64" "c mod 64 < 64"
    using assms by auto
  then show ?thesis
    using b64_bytes [OF assms] by (simp add: b64_quad_eq [OF assms] b64_chars_def b64_dec_digit b64_triple_eq)
qed

text \<open>What is left of the input when fewer than three bytes remain.\<close>

lemma b64_dec_tail:
  assumes "a < 256" "b < 256"
  shows "b64_dec_rest (foldl b64_dec_step (d, []) (b64_chars (take 2 (b64_quad a 0 0)))) = d @ map char_of [a]"
    and "b64_dec_rest (foldl b64_dec_step (d, []) (b64_chars (take 3 (b64_quad a b 0)))) = d @ map char_of [a, b]"
proof -
  have l: "a div 4 < 64" "a mod 4 * 16 < 64" "a mod 4 * 16 + b div 16 < 64" "b mod 16 * 4 < 64"
    using assms by auto
  have z: "b div 16 div 16 = 0" "b div 16 mod 16 = b div 16" using assms(2) by (simp_all flip: div_mult2_eq)
  show "b64_dec_rest (foldl b64_dec_step (d, []) (b64_chars (take 2 (b64_quad a 0 0)))) = d @ map char_of [a]"
    using l b64_bytes(1) [OF assms(1), of 0 0]
    by (simp add: b64_quad_eq assms b64_chars_def b64_dec_digit b64_dec_rest_def b64_triple_eq)
  show "b64_dec_rest (foldl b64_dec_step (d, []) (b64_chars (take 3 (b64_quad a b 0)))) = d @ map char_of [a, b]"
    using l assms by (simp add: z u8_def b64_quad_eq assms b64_chars_def b64_dec_digit b64_dec_rest_def b64_triple_eq)
qed

lemma b64_no_pad: "\<forall>n \<in> set ns. n < 64 \<Longrightarrow> CHR ''='' \<notin> set (b64_chars ns)"
  using b64_lookup_chars(2) by (fastforce simp: b64_chars_def)

lemma b64_quad_small:
  assumes "a < 256" "b < 256" "c < 256" "n \<in> set (b64_quad a b c)"
  shows "n < 64"
  using assms by (auto simp: b64_quad_eq)

fun b64_ref :: "string \<Rightarrow> string" where
  "b64_ref (a # b # c # cs) = b64_chars (b64_quad (of_char a) (of_char b) (of_char c)) @ b64_ref cs"
| "b64_ref [a, b] = b64_chars (take 3 (b64_quad (of_char a) (of_char b) 0)) @ ''=''"
| "b64_ref [a] = b64_chars (take 2 (b64_quad (of_char a) 0 0)) @ ''==''"
| "b64_ref [] = []"

lemma b64_enc_ref: "b64_enc_rest (foldl b64_enc_step (e, []) s) = e @ b64_ref s"
  by (induction s arbitrary: e rule: b64_ref.induct)
     (simp_all add: b64_enc_step_def b64_enc_rest_def Let_def numeral_2_eq_2 numeral_3_eq_3)

lemma takeWhile_b64:
  assumes "\<forall>n \<in> set ns. n < 64"
  shows "takeWhile (\<lambda>c. c \<noteq> CHR ''='') (b64_chars ns @ cs) = b64_chars ns @ takeWhile (\<lambda>c. c \<noteq> CHR ''='') cs"
  using b64_no_pad [OF assms] by (intro takeWhile_append2) auto

lemma b64_dec_ref:
  "b64_dec_rest (foldl b64_dec_step (d, []) (takeWhile (\<lambda>c. c \<noteq> CHR ''='') (b64_ref s))) = d @ s"
proof (induction s arbitrary: d rule: b64_ref.induct)
  case (1 a b c cs)
  have q: "\<forall>n \<in> set (b64_quad (of_char a) (of_char b) (of_char c)). n < 64"
    using b64_quad_small [of "of_char a" "of_char b" "of_char c"] by simp
  show ?case using 1 by (simp add: takeWhile_b64 [OF q] b64_dec_quad)
next
  case (2 a b)
  have q: "\<forall>n \<in> set (take 3 (b64_quad (of_char a) (of_char b) 0)). n < 64"
    using b64_quad_small [of "of_char a" "of_char b" 0] by (auto dest: in_set_takeD)
  show ?case using b64_dec_tail(2) by (simp add: takeWhile_b64 [OF q])
next
  case (3 a)
  have q: "\<forall>n \<in> set (take 2 (b64_quad (of_char a) 0 0)). n < 64"
    using b64_quad_small [of "of_char a" 0 0] by (auto dest: in_set_takeD)
  show ?case using b64_dec_tail(1) [of "of_char a" 0] by (simp add: takeWhile_b64 [OF q])
qed (simp add: b64_dec_rest_def)

text \<open>
  Base64 text decodes to the bytes that were encoded, for every input whose length an \<open>int\<close> can hold.
\<close>

theorem base64_roundtrip:
  assumes "length s < 2 ^ 31"
  shows "\<exists>t. Base64Encode s = Some t \<and> Base64Decode t = s"
proof -
  have "is_i32 (int (length s))" using assms by (simp add: is_i32_def)
  then have "Base64Encode s = Some (b64_ref s)"
    using b64_enc_ref [of "[]" s] by (simp add: Base64Encode_def Let_def)
  moreover have "Base64Decode (b64_ref s) = s"
    using b64_dec_ref [of "[]" s]
    by (cases "b64_ref s = []") (simp_all add: Base64Decode_def b64_dec_rest_def)
  ultimately show ?thesis by blast
qed

theorem base64_roundtrip_witness:
  "\<exists>t. Base64Encode ''raft'' = Some t \<and> Base64Decode t = ''raft''"
  using base64_roundtrip [of "''raft''"] by simp

end
