(* ===== verification/Wal_Index.thy ===== *)
theory Wal_Index
  imports Prelude
begin

text \<open>
  The in-memory index of the write-ahead log: \<open>WALPersister::DenseIndex\<close> of \<open>include/rollingraft/wal_persister.h\<close> and
  \<open>src/wal_persister.cpp\<close>, a vector of file positions with empty slots for gaps. It refines a partial map from log
  indexes to positions; the locale \<open>position_index\<close> states what the rest of the log relies on, and shows in
  particular that replaying a sequence of operations over the result of a part of it changes nothing, on which
  recovery from a checkpoint rests.
\<close>

section \<open>The dense index\<close>

record WALIndexEntry =
  wie_segment_id :: nat
  wie_file_offset :: nat
  wie_length :: nat

record DenseIndex =
  first_index :: nat
  slots :: "WALIndexEntry list"

definition empty_slot :: WALIndexEntry where
  "empty_slot = \<lparr>wie_segment_id = 0, wie_file_offset = 0, wie_length = 0\<rparr>"

definition di_Clear :: DenseIndex where
  "di_Clear = \<lparr>first_index = 0, slots = []\<rparr>"

definition LastIndex :: "DenseIndex \<Rightarrow> nat" where
  "LastIndex d = (if slots d = [] then 0 else first_index d + length (slots d) - 1)"

definition di_Get :: "DenseIndex \<Rightarrow> nat \<Rightarrow> WALIndexEntry option" where
  "di_Get d index =
     (if slots d = [] \<or> index < first_index d \<or> LastIndex d < index then None
      else let e = slots d ! (index - first_index d) in
           if wie_segment_id e = 0 then None else Some e)"

definition di_Put :: "nat \<Rightarrow> WALIndexEntry \<Rightarrow> DenseIndex \<Rightarrow> DenseIndex" where
  "di_Put index e d =
     (if slots d = [] then \<lparr>first_index = index, slots = [e]\<rparr>
      else let d1 = (if index < first_index d
                     then \<lparr>first_index = index, slots = replicate (first_index d - index) empty_slot @ slots d\<rparr>
                     else d);
               last = LastIndex d1;
               d2 = (if last < index then d1\<lparr>slots := slots d1 @ replicate (index - last) empty_slot\<rparr> else d1)
           in d2\<lparr>slots := (slots d2)[index - first_index d2 := e]\<rparr>)"

definition di_TruncatePrefix :: "nat \<Rightarrow> DenseIndex \<Rightarrow> DenseIndex" where
  "di_TruncatePrefix before d =
     (if slots d = [] \<or> before \<le> first_index d then d
      else if u64_add (LastIndex d) 1 < before then di_Clear
      else let remove = before - first_index d in
           if length (slots d) \<le> remove then di_Clear
           else \<lparr>first_index = first_index d + remove, slots = drop remove (slots d)\<rparr>)"

definition di_TruncateSuffix :: "nat \<Rightarrow> DenseIndex \<Rightarrow> DenseIndex" where
  "di_TruncateSuffix from_index d =
     (if slots d = [] \<or> u64_add (LastIndex d) 1 < from_index then d
      else if from_index \<le> first_index d then di_Clear
      else d\<lparr>slots := take (from_index - first_index d) (slots d)\<rparr>)"

section \<open>What users of the index rely on\<close>

datatype 'p index_op = Put nat 'p | Cut_prefix nat | Cut_suffix nat

locale position_index =
  fixes inv :: "'d \<Rightarrow> bool"
    and valid :: "'p index_op \<Rightarrow> bool"
    and lookup :: "'d \<Rightarrow> nat \<Rightarrow> 'p option"
    and put :: "nat \<Rightarrow> 'p \<Rightarrow> 'd \<Rightarrow> 'd"
    and cut_prefix :: "nat \<Rightarrow> 'd \<Rightarrow> 'd"
    and cut_suffix :: "nat \<Rightarrow> 'd \<Rightarrow> 'd"
  assumes lookup_put: "inv d \<Longrightarrow> valid (Put i p) \<Longrightarrow> lookup (put i p d) = (lookup d)(i \<mapsto> p)"
    and lookup_prefix: "inv d \<Longrightarrow> valid (Cut_prefix b) \<Longrightarrow> lookup (cut_prefix b d) = lookup d |` {b..}"
    and lookup_suffix: "inv d \<Longrightarrow> valid (Cut_suffix f) \<Longrightarrow> lookup (cut_suffix f d) = lookup d |` {..<f}"
    and inv_put: "inv d \<Longrightarrow> valid (Put i p) \<Longrightarrow> inv (put i p d)"
    and inv_prefix: "inv d \<Longrightarrow> valid (Cut_prefix b) \<Longrightarrow> inv (cut_prefix b d)"
    and inv_suffix: "inv d \<Longrightarrow> valid (Cut_suffix f) \<Longrightarrow> inv (cut_suffix f d)"
begin

fun op_step :: "'d \<Rightarrow> 'p index_op \<Rightarrow> 'd" where
  "op_step d (Put i p) = put i p d"
| "op_step d (Cut_prefix b) = cut_prefix b d"
| "op_step d (Cut_suffix f) = cut_suffix f d"

text \<open>The same operations on the map the index stands for.\<close>

fun map_step :: "(nat \<rightharpoonup> 'p) \<Rightarrow> 'p index_op \<Rightarrow> (nat \<rightharpoonup> 'p)" where
  "map_step m (Put i p) = m(i \<mapsto> p)"
| "map_step m (Cut_prefix b) = m |` {b..}"
| "map_step m (Cut_suffix f) = m |` {..<f}"

lemma lookup_step: "inv d \<Longrightarrow> valid op \<Longrightarrow> lookup (op_step d op) = map_step (lookup d) op"
  by (cases op) (simp_all add: lookup_put lookup_prefix lookup_suffix)

lemma inv_step: "inv d \<Longrightarrow> valid op \<Longrightarrow> inv (op_step d op)"
  by (cases op) (simp_all add: inv_put inv_prefix inv_suffix)

lemma inv_run: "inv d \<Longrightarrow> list_all valid ops \<Longrightarrow> inv (foldl op_step d ops)"
  by (induction ops arbitrary: d) (simp_all add: inv_step)

lemma lookup_run:
  "inv d \<Longrightarrow> list_all valid ops \<Longrightarrow> lookup (foldl op_step d ops) = foldl map_step (lookup d) ops"
  by (induction ops arbitrary: d) (simp_all add: inv_step lookup_step)

text \<open>An operation either decides a position, whatever it was, or leaves it.\<close>

fun decides :: "nat \<Rightarrow> 'p index_op \<Rightarrow> bool" where
  "decides i (Put j p) \<longleftrightarrow> i = j"
| "decides i (Cut_prefix b) \<longleftrightarrow> i < b"
| "decides i (Cut_suffix f) \<longleftrightarrow> f \<le> i"

lemma map_step_decides: "decides i op \<Longrightarrow> map_step m op i = map_step m' op i"
  by (cases op) (auto simp: restrict_map_def)

lemma map_step_leaves: "\<not> decides i op \<Longrightarrow> map_step m op i = m i"
  by (cases op) (auto simp: restrict_map_def)

lemma map_step_cong: "m i = m' i \<Longrightarrow> map_step m op i = map_step m' op i"
  by (cases op) (auto simp: restrict_map_def)

lemma map_run_cong: "m i = m' i \<Longrightarrow> foldl map_step m ops i = foldl map_step m' ops i"
proof (induction ops arbitrary: m m')
  case (Cons op ops)
  have "map_step m op i = map_step m' op i" by (rule map_step_cong) (rule Cons.prems)
  then show ?case unfolding foldl_Cons by (rule Cons.IH)
qed simp

lemma map_run_leaves: "list_all (\<lambda>op. \<not> decides i op) ops \<Longrightarrow> foldl map_step m ops i = m i"
  by (induction ops arbitrary: m) (simp_all add: map_step_leaves)

lemma map_run_decides: "list_ex (decides i) ops \<Longrightarrow> foldl map_step m ops i = foldl map_step m' ops i"
proof (induction ops arbitrary: m m')
  case (Cons op ops)
  show ?case
  proof (cases "decides i op")
    case True
    have "map_step m op i = map_step m' op i" by (rule map_step_decides) (rule True)
    then show ?thesis unfolding foldl_Cons by (rule map_run_cong)
  next
    case False
    then have "list_ex (decides i) ops" using Cons.prems by simp
    from Cons.IH [OF this] show ?thesis unfolding foldl_Cons .
  qed
qed simp

lemma map_replay: "foldl map_step (foldl map_step m (take k ops)) ops = foldl map_step m ops"
proof
  fix i
  show "foldl map_step (foldl map_step m (take k ops)) ops i = foldl map_step m ops i"
  proof (cases "list_ex (decides i) ops")
    case False
    then have "list_all (\<lambda>op. \<not> decides i op) (take k ops)"
      by (auto simp: list_ex_iff list_all_iff dest: in_set_takeD)
    then have "foldl map_step m (take k ops) i = m i" by (rule map_run_leaves)
    then show ?thesis by (rule map_run_cong)
  qed (rule map_run_decides)
qed

text \<open>Running a sequence again over the result of an initial part of it gives what running it once gives.\<close>

lemma replay_after_part:
  assumes "inv d" and "inv e" and "list_all valid ops" and "lookup e = lookup (foldl op_step d (take k ops))"
  shows "lookup (foldl op_step e ops) = lookup (foldl op_step d ops)"
proof -
  have "list_all valid (take k ops)" using assms(3) by (auto simp: list_all_iff dest: in_set_takeD)
  then show ?thesis using assms by (simp add: lookup_run map_replay)
qed

end

section \<open>The dense index is such an index\<close>

definition di_ok :: "DenseIndex \<Rightarrow> bool" where
  "di_ok d \<longleftrightarrow> (slots d = [] \<longrightarrow> first_index d = 0) \<and> first_index d + length (slots d) < U64"

fun di_valid :: "WALIndexEntry index_op \<Rightarrow> bool" where
  "di_valid (Put i e) \<longleftrightarrow> i + 1 < U64 \<and> wie_segment_id e \<noteq> 0"
| "di_valid (Cut_prefix b) \<longleftrightarrow> True"
| "di_valid (Cut_suffix f) \<longleftrightarrow> True"

lemma di_Get_slot:
  "di_Get d i = (if first_index d \<le> i \<and> i < first_index d + length (slots d) \<and>
      wie_segment_id (slots d ! (i - first_index d)) \<noteq> 0 then Some (slots d ! (i - first_index d)) else None)"
proof (cases "slots d = []")
  case False
  then have "LastIndex d < i \<longleftrightarrow> first_index d + length (slots d) \<le> i"
    by (cases "slots d") (auto simp: LastIndex_def)
  then show ?thesis using False by (auto simp: di_Get_def Let_def)
qed (simp add: di_Get_def)

lemma last_plus_1:
  "di_ok d \<Longrightarrow> slots d \<noteq> [] \<Longrightarrow> u64_add (LastIndex d) (Suc 0) = first_index d + length (slots d)"
  by (cases "slots d") (simp_all add: di_ok_def LastIndex_def u64_add_def)

lemma di_Clear_ok [simp]: "di_ok di_Clear" "di_Get di_Clear = Map.empty"
  by (auto simp: di_ok_def di_Clear_def U64_def di_Get_slot)

lemma di_Get_front:
  "n \<le> first_index d \<Longrightarrow>
    di_Get \<lparr>first_index = first_index d - n, slots = replicate n empty_slot @ slots d\<rparr> = di_Get d"
  by (rule ext) (auto simp: di_Get_slot nth_append empty_slot_def)

lemma di_Get_extend: "di_Get (d\<lparr>slots := slots d @ replicate n empty_slot\<rparr>) = di_Get d"
  by (rule ext) (auto simp: di_Get_slot nth_append empty_slot_def)

lemma di_Get_set:
  assumes "first_index d \<le> i" and "i < first_index d + length (slots d)" and "wie_segment_id e \<noteq> 0"
  shows "di_Get (d\<lparr>slots := (slots d)[i - first_index d := e]\<rparr>) = (di_Get d)(i \<mapsto> e)"
proof
  fix j
  show "di_Get (d\<lparr>slots := (slots d)[i - first_index d := e]\<rparr>) j = ((di_Get d)(i \<mapsto> e)) j"
  proof (cases "j = i")
    case False
    then have "first_index d \<le> j \<Longrightarrow> i - first_index d \<noteq> j - first_index d" using assms(1) by linarith
    then have "first_index d \<le> j \<Longrightarrow> (slots d)[i - first_index d := e] ! (j - first_index d) = slots d ! (j - first_index d)"
      by (rule nth_list_update_neq)
    then show ?thesis using False by (auto simp: di_Get_slot)
  qed (use assms in \<open>simp add: di_Get_slot\<close>)
qed

text \<open>\<open>Put\<close> first makes room on one side, then writes the slot.\<close>

definition di_reach :: "nat \<Rightarrow> DenseIndex \<Rightarrow> DenseIndex" where
  "di_reach i d =
     (if i < first_index d
      then \<lparr>first_index = first_index d - (first_index d - i),
            slots = replicate (first_index d - i) empty_slot @ slots d\<rparr>
      else d\<lparr>slots := slots d @ replicate (i + 1 - (first_index d + length (slots d))) empty_slot\<rparr>)"

lemma di_Put_reach:
  assumes "slots d \<noteq> []"
  shows "di_Put i e d = (di_reach i d)\<lparr>slots := (slots (di_reach i d))[i - first_index (di_reach i d) := e]\<rparr>"
proof (cases "i < first_index d")
  case False
  have "LastIndex d = first_index d + length (slots d) - 1" using assms by (simp add: LastIndex_def)
  moreover have "0 < length (slots d)" using assms by simp
  ultimately have "i - LastIndex d = i + 1 - (first_index d + length (slots d))" by linarith
  then show ?thesis using False assms by (simp add: di_Put_def di_reach_def Let_def)
next
  case True
  have "\<not> LastIndex \<lparr>first_index = i, slots = replicate (first_index d - i) empty_slot @ slots d\<rparr> < i"
    using assms by (cases "slots d") (simp_all add: LastIndex_def)
  then show ?thesis using True assms by (simp add: di_Put_def di_reach_def Let_def)
qed

lemma di_reach_range:
  assumes "slots d \<noteq> []"
  shows "first_index (di_reach i d) \<le> i" and "i < first_index (di_reach i d) + length (slots (di_reach i d))"
  using assms by (auto simp: di_reach_def)

lemma di_reach_Get: "di_Get (di_reach i d) = di_Get d"
proof (cases "i < first_index d")
  case True
  then show ?thesis using di_Get_front [of "first_index d - i" d] by (simp add: di_reach_def)
qed (simp add: di_reach_def di_Get_extend)

lemma di_Put_Get:
  assumes "di_valid (Put i e)"
  shows "di_Get (di_Put i e d) = (di_Get d)(i \<mapsto> e)"
proof (cases "slots d = []")
  case True
  then show ?thesis using assms by (auto simp: di_Put_def di_Get_slot fun_eq_iff)
next
  case False
  then show ?thesis using assms di_reach_range [OF False]
    by (simp add: di_Put_reach di_Get_set di_reach_Get)
qed

lemma di_Put_ok:
  assumes "di_ok d" "di_valid (Put i e)"
  shows "di_ok (di_Put i e d)"
proof (cases "slots d = []")
  case True
  then show ?thesis using assms by (simp add: di_Put_def di_ok_def)
next
  case False
  then show ?thesis using assms
    by (auto simp: di_Put_reach di_ok_def) (auto simp: di_reach_def split: if_splits)
qed

lemma di_TruncatePrefix_eq:
  assumes "di_ok d" and "slots d \<noteq> []"
  shows "di_TruncatePrefix b d =
    (if b \<le> first_index d then d
     else if first_index d + length (slots d) \<le> b then di_Clear
     else \<lparr>first_index = b, slots = drop (b - first_index d) (slots d)\<rparr>)"
  using assms by (auto simp: di_TruncatePrefix_def last_plus_1 Let_def)

lemma di_TruncatePrefix_Get:
  assumes "di_ok d"
  shows "di_Get (di_TruncatePrefix b d) = di_Get d |` {b..}"
proof (cases "slots d = []")
  case True
  then show ?thesis by (auto simp: di_TruncatePrefix_def di_Get_slot restrict_map_def fun_eq_iff)
next
  case False
  then show ?thesis using assms
    by (intro ext) (auto simp: di_TruncatePrefix_eq di_Get_slot di_Clear_def restrict_map_def)
qed

lemma di_TruncateSuffix_Get:
  assumes "di_ok d"
  shows "di_Get (di_TruncateSuffix f d) = di_Get d |` {..<f}"
proof (cases "slots d = []")
  case True
  then show ?thesis by (auto simp: di_TruncateSuffix_def di_Get_slot restrict_map_def fun_eq_iff)
next
  case False
  then show ?thesis using assms
    by (intro ext) (auto simp: di_TruncateSuffix_def last_plus_1 di_Get_slot di_Clear_def restrict_map_def)
qed

lemma di_Truncate_ok:
  assumes "di_ok d"
  shows "di_ok (di_TruncatePrefix b d)" and "di_ok (di_TruncateSuffix f d)"
proof -
  show "di_ok (di_TruncatePrefix b d)"
    using assms by (cases "slots d = []") (auto simp: di_TruncatePrefix_eq di_ok_def di_Clear_def U64_def, simp_all add: di_TruncatePrefix_def)
  show "di_ok (di_TruncateSuffix f d)"
    using assms by (auto simp: di_TruncateSuffix_def di_ok_def di_Clear_def U64_def)
qed

interpretation dense: position_index di_ok di_valid di_Get di_Put di_TruncatePrefix di_TruncateSuffix
  by unfold_locales (simp_all only: di_Put_Get di_TruncatePrefix_Get di_TruncateSuffix_Get di_Put_ok di_Truncate_ok)

text \<open>
  C33: The dense index stays well formed and implements a partial map: after any sequence of insertions, in or out of range,
  and cuts at either end, its slots are consistent with its first index and below \<open>2^64\<close>, and looking up an index gives
  what the same operations on a map give.
\<close>

theorem dense_index_well_formed:
  assumes "list_all di_valid ops"
  shows "di_ok (foldl dense.op_step di_Clear ops) \<and>
    di_Get (foldl dense.op_step di_Clear ops) = foldl dense.map_step Map.empty ops"
  using dense.inv_run [OF _ assms, of di_Clear] dense.lookup_run [OF _ assms, of di_Clear] by simp

theorem dense_index_well_formed_witness:
  "let pos = \<lparr>wie_segment_id = 1, wie_file_offset = 32, wie_length = 10\<rparr>;
       d = di_TruncateSuffix 6 (di_Put 4 pos (di_Put 6 pos di_Clear))
   in di_ok d \<and> di_Get d = [4 \<mapsto> pos]"
proof -
  define pos where "pos = \<lparr>wie_segment_id = 1, wie_file_offset = 32, wie_length = (10 :: nat)\<rparr>"
  have "list_all di_valid [Put 6 pos, Put 4 pos, Cut_suffix 6]" by (simp add: pos_def U64_def)
  from dense_index_well_formed [OF this] show ?thesis by (auto simp: Let_def pos_def restrict_map_def fun_eq_iff)
qed

end
