(* ===== verification/Wal_Records.thy ===== *)
theory Wal_Records
  imports Wal_Codec Wal_Index Json_Protocol
begin

text \<open>
  The bytes of a WAL segment, from \<open>include/rollingraft/wal_persister.h\<close> and \<open>src/wal_persister.cpp\<close>: the header, the
  records with their checksum, the trailer, the payloads of the three record types, and the loop of \<open>ScanSegment\<close> that
  rebuilds the index from them. Protobuf and the JSON library are parameters.
\<close>

section \<open>The format\<close>

definition kMagic :: nat where "kMagic = 0x57414C30"
definition kVersion :: nat where "kVersion = 1"
definition kHeaderSize :: nat where "kHeaderSize = 16"
definition kTrailerSize :: nat where "kTrailerSize = 8"
definition kMaxRecordSize :: nat where "kMaxRecordSize = 16 * 1024 * 1024"
definition kFormatVersionJson :: nat where "kFormatVersionJson = 1"
definition kFormatVersionProtobuf :: nat where "kFormatVersionProtobuf = 2"

text \<open>The numbers of \<open>WALRecordType\<close>; a record with another number is kept in the file and ignored.\<close>

definition kLogEntry :: nat where "kLogEntry = 1"
definition kTruncatePrefix :: nat where "kTruncatePrefix = 3"
definition kTruncateSuffix :: nat where "kTruncateSuffix = 4"

record WALRecord =
  wr_type :: nat
  wr_payload :: string

definition segment_header :: "nat \<Rightarrow> nat \<Rightarrow> string" where
  "segment_header segment_id format_version =
     le_bytes 4 kMagic @ le_bytes 2 kVersion @ le_bytes 2 format_version @ le_bytes 8 segment_id"

definition record_body :: "WALRecord \<Rightarrow> string" where
  "record_body r = le_bytes 4 (length (wr_payload r)) @ le_bytes 2 (wr_type r) @ wr_payload r"

definition record_bytes :: "WALRecord \<Rightarrow> string" where
  "record_bytes r = le_bytes 4 (unat (ComputeCRC32 (record_body r))) @ record_body r"

definition trailer_bytes :: "nat \<Rightarrow> string" where
  "trailer_bytes end_offset = le_bytes 8 end_offset"

definition ReadTrailer :: "string \<Rightarrow> Status + nat" where
  "ReadTrailer file =
     (if length file < kHeaderSize + kTrailerSize then Inl (Corruption ''Segment too small for trailer'' [])
      else let end_offset = le_read (drop (length file - kTrailerSize) file) in
           if length file - kTrailerSize < end_offset then Inl (Corruption ''Invalid trailer end_offset'' [])
           else Inr end_offset)"

section \<open>Payloads\<close>

record RaftLogEntryProto =
  pb_index :: nat
  pb_term :: nat
  pb_data :: string
  pb_command :: string
  pb_checksum :: nat

text \<open>
  \<open>SerializeToString\<close> and \<open>ParseFromString\<close>, with \<open>None\<close> for \<open>false\<close>; the JSON library; \<open>dump()\<close> and \<open>dump(2)\<close>, here
  only used on objects of numbers, for which they do not throw; and reading a value from a stream, with the text of the
  exception.
\<close>

record WalLib =
  wl_serialize :: "RaftLogEntryProto \<Rightarrow> string option"
  wl_parse :: "string \<Rightarrow> RaftLogEntryProto option"
  wl_json :: JsonLib
  wl_dump :: "json \<Rightarrow> string"
  wl_dump2 :: "json \<Rightarrow> string"
  wl_stream :: "string \<Rightarrow> string + json"

definition entry_proto :: "RaftLogEntry \<Rightarrow> RaftLogEntryProto" where
  "entry_proto e = \<lparr>pb_index = e_index e, pb_term = e_term e, pb_data = e_data e, pb_command = e_command e,
     pb_checksum = e_checksum e\<rparr>"

text \<open>\<open>j["k"].get<uint64_t>()\<close> inside a \<open>try\<close> block: \<open>Inl\<close> is the text of the exception.\<close>

definition json_u64 :: "JsonLib \<Rightarrow> string \<Rightarrow> string \<Rightarrow> string + nat" where
  "json_u64 lib pl k =
     (case jl_parse lib pl of
        Inl what \<Rightarrow> Inl what
      | Inr j \<Rightarrow> (case req_field get_u64 j k of None \<Rightarrow> Inl (jl_type_error lib j) | Some n \<Rightarrow> Inr n))"

definition ExtractLogIndexFromPayload :: "WalLib \<Rightarrow> string \<Rightarrow> nat \<Rightarrow> Status + nat" where
  "ExtractLogIndexFromPayload lib pl format_version =
     (let from_json = (case json_u64 (wl_json lib) pl ''index'' of
                         Inl what \<Rightarrow> Inl (Corruption (''Failed to parse log entry: '' @ what) [])
                       | Inr n \<Rightarrow> Inr n)
      in if format_version = kFormatVersionProtobuf
         then (case wl_parse lib pl of Some p \<Rightarrow> Inr (pb_index p) | None \<Rightarrow> from_json)
         else from_json)"

definition ParseJsonPayload :: "JsonLib \<Rightarrow> string \<Rightarrow> nat \<Rightarrow> Status + RaftLogEntry" where
  "ParseJsonPayload lib pl fallback_checksum =
     (case jl_parse lib pl of
        Inl what \<Rightarrow> Inl (Corruption (''Failed to parse log entry: '' @ what) [])
      | Inr j \<Rightarrow>
        (case do {
           i \<leftarrow> req_field get_u64 j ''index'';
           t \<leftarrow> req_field get_u64 j ''term'';
           d \<leftarrow> req_field get_string j ''data'';
           c \<leftarrow> opt_field get_string [] j ''command'';
           k \<leftarrow> opt_field get_i32 0 j ''checksum'';
           Some (\<lparr>e_index = u32 i, e_term = u32 t, e_data = Base64Decode d, e_command = Base64Decode c,
                 e_checksum = nat (k mod 2 ^ 32)\<rparr>)
         } of
           None \<Rightarrow> Inl (Corruption (''Failed to parse log entry: '' @ jl_type_error lib j) [])
         | Some e \<Rightarrow> Inr (if e_checksum e = 0 then e\<lparr>e_checksum := fallback_checksum\<rparr> else e)))"

definition ParseProtobufPayload :: "WalLib \<Rightarrow> string \<Rightarrow> nat \<Rightarrow> Status + RaftLogEntry" where
  "ParseProtobufPayload lib pl fallback_checksum =
     (case wl_parse lib pl of
        None \<Rightarrow> Inl (Corruption ''Failed to parse protobuf log entry'' [])
      | Some p \<Rightarrow>
        let e = \<lparr>e_index = u32 (pb_index p), e_term = u32 (pb_term p), e_data = pb_data p,
                 e_command = pb_command p, e_checksum = u32 (pb_checksum p)\<rparr>
        in Inr (if e_checksum e = 0 then e\<lparr>e_checksum := fallback_checksum\<rparr> else e))"

section \<open>Reading one record\<close>

text \<open>One round of the loop of \<open>ScanSegment\<close> up to the checksum; every \<open>Inl\<close> also reports the offset to cut at.\<close>

definition scan_record :: "nat \<Rightarrow> string \<Rightarrow> nat \<Rightarrow> nat \<Rightarrow> Status + WALRecord" where
  "scan_record segment_id file end_offset off =
     (let rest = drop off file in
      if length rest < 4 then Inl (Corruption ''Failed to read CRC (truncated tail)'' [])
      else if length rest < 8 then Inl (Corruption ''Failed to read length (truncated tail)'' [])
      else if length rest < 10 then Inl (Corruption ''Failed to read type (truncated tail)'' [])
      else let crc = le_read (take 4 rest);
               len = le_read (take 4 (drop 4 rest));
               ty = le_read (take 2 (drop 8 rest));
               pl = take len (drop 10 rest)
           in if end_offset < off + (10 + len) then Inl (Corruption ''Record extends beyond segment end'' [])
              else if kMaxRecordSize < len then Inl (Corruption ''Record too large'' [])
              else if length pl < len then Inl (Corruption ''Failed to read payload'' [])
              else if unat (ComputeCRC32 (le_bytes 4 len @ le_bytes 2 ty @ pl)) \<noteq> crc
              then Inl (Corruption (''CRC mismatch in segment '' @ nat_to_string segment_id) [])
              else Inr \<lparr>wr_type = ty, wr_payload = pl\<rparr>)"

text \<open>What a record does to the index.\<close>

definition index_record ::
  "WalLib \<Rightarrow> nat \<Rightarrow> nat \<Rightarrow> nat \<Rightarrow> WALRecord \<Rightarrow> DenseIndex \<Rightarrow> Status + DenseIndex" where
  "index_record lib format_version segment_id off r d =
     (if wr_type r = kLogEntry
      then (case ExtractLogIndexFromPayload lib (wr_payload r) format_version of
              Inl st \<Rightarrow> Inl st
            | Inr i \<Rightarrow> Inr (di_Put i \<lparr>wie_segment_id = segment_id, wie_file_offset = off,
                                       wie_length = 10 + length (wr_payload r)\<rparr> d))
      else if wr_type r = kTruncatePrefix
      then (case json_u64 (wl_json lib) (wr_payload r) ''before_index'' of
              Inl what \<Rightarrow> Inl (Corruption (''Failed to parse truncate prefix: '' @ what) [])
            | Inr b \<Rightarrow> Inr (di_TruncatePrefix b d))
      else if wr_type r = kTruncateSuffix
      then (case json_u64 (wl_json lib) (wr_payload r) ''from_index'' of
              Inl what \<Rightarrow> Inl (Corruption (''Failed to parse truncate suffix: '' @ what) [])
            | Inr f \<Rightarrow> Inr (di_TruncateSuffix f d))
      else Inr d)"

section \<open>The scan\<close>

record ScanResult =
  sr_status :: Status
  sr_truncate :: "nat option"
  sr_index :: DenseIndex
  sr_seen :: "WALRecord list"

text \<open>
  The loop of \<open>ScanSegment\<close>. A callback is a function of the records delivered so far, which says whether to go on;
  \<open>None\<close> is the null function. The result has the offset stored in \<open>out_truncate_offset\<close>, the index and the records
  delivered.
\<close>

function scan_records ::
  "WalLib \<Rightarrow> (WALRecord list \<Rightarrow> bool) option \<Rightarrow> nat \<Rightarrow> nat \<Rightarrow> string \<Rightarrow> nat \<Rightarrow> nat \<Rightarrow> WALRecord list \<Rightarrow>
   DenseIndex \<Rightarrow> ScanResult" where
  "scan_records lib cb fmt sid file end_offset off seen d =
     (if \<not> off < end_offset then \<lparr>sr_status = OK, sr_truncate = None, sr_index = d, sr_seen = seen\<rparr>
      else case scan_record sid file end_offset off of
             Inl st \<Rightarrow> \<lparr>sr_status = st, sr_truncate = Some off, sr_index = d, sr_seen = seen\<rparr>
           | Inr r \<Rightarrow>
             (case index_record lib fmt sid off r d of
                Inl st \<Rightarrow> \<lparr>sr_status = st, sr_truncate = None, sr_index = d, sr_seen = seen\<rparr>
              | Inr d' \<Rightarrow>
                let seen' = (case cb of None \<Rightarrow> seen | Some _ \<Rightarrow> seen @ [r]) in
                if (case cb of None \<Rightarrow> True | Some f \<Rightarrow> f seen')
                then scan_records lib cb fmt sid file end_offset (off + (10 + length (wr_payload r))) seen' d'
                else \<lparr>sr_status = OK, sr_truncate = None, sr_index = d', sr_seen = seen'\<rparr>))"
  by pat_completeness auto
termination
  by (relation "measure (\<lambda>(lib, cb, fmt, sid, file, end_offset, off, seen, d). end_offset - off)") auto

declare scan_records.simps [simp del]

section \<open>Reading back what was written\<close>

lemma le_bytes_read: "le_bytes (length cs) (le_read cs) = cs"
  by (induction cs) simp_all

lemma le_bytes_read_take: "length cs = k \<Longrightarrow> le_bytes k (le_read cs) = cs"
  using le_bytes_read by blast

lemma crc_fits: "unat (ComputeCRC32 data) < 256 ^ 4"
proof -
  have "unat (ComputeCRC32 data) < 2 ^ LENGTH(32)" by (rule unsigned_less)
  then show ?thesis by simp
qed

definition record_ok :: "WALRecord \<Rightarrow> bool" where
  "record_ok r \<longleftrightarrow> length (wr_payload r) \<le> kMaxRecordSize \<and> wr_type r < 65536"

lemma length_record_body [simp]: "length (record_body r) = 6 + length (wr_payload r)"
  by (simp add: record_body_def)

lemma length_record_bytes [simp]: "length (record_bytes r) = 10 + length (wr_payload r)"
  by (simp add: record_bytes_def)

lemma length_segment_header [simp]: "length (segment_header i f) = kHeaderSize"
  by (simp add: segment_header_def kHeaderSize_def)

lemma length_trailer [simp]: "length (trailer_bytes n) = kTrailerSize"
  by (simp add: trailer_bytes_def kTrailerSize_def)

text \<open>The fields of a record that starts at the given place, whatever the checksum and the body hold.\<close>

lemma record_fields:
  assumes "length crc = 4" and "length len = 4" and "length ty = 2"
  shows "take 4 (crc @ len @ ty @ rest) = crc" and "take 4 (drop 4 (crc @ len @ ty @ rest)) = len"
    and "take 2 (drop 8 (crc @ len @ ty @ rest)) = ty" and "drop 10 (crc @ len @ ty @ rest) = rest"
  using assms by simp_all

lemma scan_record_fields:
  assumes "drop off file = crc @ len @ ty @ rest" and "length crc = 4" and "length len = 4" and "length ty = 2"
    and "off + 10 + le_read len \<le> end_offset" and "le_read len \<le> kMaxRecordSize" and "le_read len \<le> length rest"
  shows "scan_record sid file end_offset off =
    (if unat (ComputeCRC32 (len @ ty @ take (le_read len) rest)) = le_read crc
     then Inr \<lparr>wr_type = le_read ty, wr_payload = take (le_read len) rest\<rparr>
     else Inl (Corruption (''CRC mismatch in segment '' @ nat_to_string sid) []))"
  using assms
  by (simp add: scan_record_def Let_def record_fields le_bytes_read_take)

lemma scan_record_here:
  assumes "record_ok r" and "drop off file = record_bytes r @ post" and "off + length (record_bytes r) \<le> end_offset"
  shows "scan_record sid file end_offset off = Inr r"
proof -
  have len: "length (wr_payload r) < 256 ^ 4" using assms(1) by (simp add: record_ok_def kMaxRecordSize_def)
  have ty: "wr_type r < 256 ^ 2" using assms(1) by (simp add: record_ok_def)
  have "drop off file = le_bytes 4 (unat (ComputeCRC32 (record_body r))) @ le_bytes 4 (length (wr_payload r)) @
      le_bytes 2 (wr_type r) @ (wr_payload r @ post)"
    using assms(2) by (simp add: record_bytes_def record_body_def)
  from scan_record_fields [OF this, of end_offset sid] show ?thesis
    using assms(1,3) len ty crc_fits [of "record_body r"]
    by (simp add: record_ok_def record_body_def)
qed

text \<open>
  A stored record in which up to four adjacent bytes of the type and the payload have changed is not accepted.
\<close>

theorem damaged_record_rejected:
  assumes "record_ok r" and "le_bytes 2 (wr_type r) @ wr_payload r = a @ x @ b"
    and "length x = length y" and "length x \<le> 4" and "x \<noteq> y"
    and "off + length (record_bytes r) \<le> end_offset"
    and "drop off file = take 8 (record_bytes r) @ (a @ y @ b) @ post"
  shows "scan_record sid file end_offset off =
    Inl (Corruption (''CRC mismatch in segment '' @ nat_to_string sid) [])"
proof -
  let ?len = "le_bytes 4 (length (wr_payload r))" and ?crc = "le_bytes 4 (unat (ComputeCRC32 (record_body r)))"
  define m where "m = a @ y @ b"
  have n: "length (wr_payload r) < 256 ^ 4" using assms(1) by (simp add: record_ok_def kMaxRecordSize_def)
  have l: "length m = 2 + length (wr_payload r)"
    using arg_cong [OF assms(2), of length] assms(3) by (simp add: m_def)
  have "drop off file = take 8 (record_bytes r) @ m @ post" using assms(7) by (simp add: m_def)
  then have "drop off file = ?crc @ ?len @ take 2 m @ (drop 2 m @ post)"
    by (simp add: record_bytes_def record_body_def)
  from scan_record_fields [OF this, of end_offset sid]
  have s: "scan_record sid file end_offset off =
      (if unat (ComputeCRC32 (?len @ m)) = unat (ComputeCRC32 (record_body r))
       then Inr \<lparr>wr_type = le_read (take 2 m), wr_payload = drop 2 m\<rparr>
       else Inl (Corruption (''CRC mismatch in segment '' @ nat_to_string sid) []))"
    using assms(1,6) n l crc_fits [of "record_body r"] by (simp add: record_ok_def)
  have "record_body r = (?len @ a) @ x @ b" using assms(2) by (simp add: record_body_def)
  then show ?thesis
    using s crc_detects_burst [OF assms(3-5), of "?len @ a" b] by (simp add: m_def flip: word_unat_eq_iff)
qed

section \<open>Scanning a run of records\<close>

fun index_records ::
  "WalLib \<Rightarrow> nat \<Rightarrow> nat \<Rightarrow> nat \<Rightarrow> WALRecord list \<Rightarrow> DenseIndex \<Rightarrow> Status + DenseIndex" where
  "index_records lib fmt sid off [] d = Inr d"
| "index_records lib fmt sid off (r # rs) d =
     (case index_record lib fmt sid off r d of
        Inl st \<Rightarrow> Inl st
      | Inr d' \<Rightarrow> index_records lib fmt sid (off + length (record_bytes r)) rs d')"

definition records_bytes :: "WALRecord list \<Rightarrow> string" where
  "records_bytes rs = concat (map record_bytes rs)"

lemma records_bytes_simps [simp]:
  "records_bytes [] = []" "records_bytes (r # rs) = record_bytes r @ records_bytes rs"
  "records_bytes (rs @ qs) = records_bytes rs @ records_bytes qs"
  by (simp_all add: records_bytes_def)

text \<open>The scan passes over complete records, adding them to the index, and goes on behind them.\<close>

lemma scan_records_run:
  assumes "list_all record_ok rs" and "drop off file = records_bytes rs @ post"
    and "off + length (records_bytes rs) \<le> end_offset"
    and "index_records lib fmt sid off rs d = Inr d'"
  shows "scan_records lib None fmt sid file end_offset off seen d =
    scan_records lib None fmt sid file end_offset (off + length (records_bytes rs)) seen d'"
  using assms
proof (induction rs arbitrary: off d)
  case (Cons r rs)
  obtain d1 where d1: "index_record lib fmt sid off r d = Inr d1"
    and rest: "index_records lib fmt sid (off + length (record_bytes r)) rs d1 = Inr d'"
    using Cons.prems(4) by (simp split: sum.splits)
  have here: "scan_record sid file end_offset off = Inr r"
    using Cons.prems by (intro scan_record_here [where post = "records_bytes rs @ post"]) simp_all
  have "drop (off + length (record_bytes r)) file = records_bytes rs @ post"
    using arg_cong [OF Cons.prems(2), of "drop (length (record_bytes r))"] by (simp add: add.commute)
  then have "scan_records lib None fmt sid file end_offset (off + length (record_bytes r)) seen d1 =
      scan_records lib None fmt sid file end_offset (off + length (record_bytes r) + length (records_bytes rs)) seen d'"
    using Cons rest by (intro Cons.IH) simp_all
  moreover have "off < end_offset" using Cons.prems(3) by simp
  ultimately show ?case
    using here d1 by (subst scan_records.simps) (simp add: add.assoc)
qed simp

lemma scan_records_end:
  "\<not> off < end_offset \<Longrightarrow> scan_records lib cb fmt sid file end_offset off seen d =
    \<lparr>sr_status = OK, sr_truncate = None, sr_index = d, sr_seen = seen\<rparr>"
  by (subst scan_records.simps) simp

lemma index_records_append:
  "index_records lib fmt sid off (rs @ qs) d =
    (case index_records lib fmt sid off rs d of
       Inl st \<Rightarrow> Inl st
     | Inr d' \<Rightarrow> index_records lib fmt sid (off + length (records_bytes rs)) qs d')"
  by (induction rs arbitrary: off d) (simp_all add: add.assoc split: sum.split)

text \<open>A record cut short by a crash ends the scan, which reports where it starts.\<close>

lemma scan_record_torn:
  assumes "record_ok r" and "drop off file = take k (record_bytes r)" and "k < length (record_bytes r)"
    and "end_offset \<le> length file" and "off \<le> length file"
  shows "\<exists>st. scan_record sid file end_offset off = Inl st \<and> \<not> ok st"
proof (cases "k < 10")
  case True
  then have "length (drop off file) < 10" using assms(2) by simp
  then show ?thesis by (auto simp: scan_record_def Let_def)
next
  case False
  have len: "length (wr_payload r) < 256 ^ 4" using assms(1) by (simp add: record_ok_def kMaxRecordSize_def)
  have "take 4 (drop 4 (drop off file)) = le_bytes 4 (length (wr_payload r))"
    using False assms(2) by (simp add: record_bytes_def record_body_def take_drop min_def)
  then have l: "le_read (take 4 (drop 4 (drop off file))) = length (wr_payload r)"
    using len by simp
  have "length file = off + k"
    using arg_cong [OF assms(2), of length] assms(3,5) by simp
  then have "end_offset < off + (10 + length (wr_payload r))"
    using assms(3,4) by simp
  then show ?thesis using l by (simp add: scan_record_def Let_def)
qed

end
