(* ===== verification/Wal_Persister.thy ===== *)
theory Wal_Persister
  imports Wal_Records
begin

text \<open>
  The write-ahead log: \<open>WALPersister\<close> of \<open>include/rollingraft/wal_persister.h\<close> and \<open>src/wal_persister.cpp\<close>. The state
  has the files of the WAL directory next to the members of the class; every private and public operation is a function
  on it, and \<open>WalIO\<close> says which system calls fail. A read fails only at the end of a file. The lock \<open>mtx_\<close> makes every
  public operation atomic.
\<close>

section \<open>State\<close>

datatype path_kind = Missing | Directory | Other_file

text \<open>
  \<open>io_room\<close> is the number of bytes an operation can write to a file before \<open>write\<close> fails, \<open>None\<close> for no limit.
\<close>

record WalIO =
  io_kind :: path_kind
  io_mkdir :: bool
  io_opendir :: bool
  io_open :: "string \<Rightarrow> bool"
  io_room :: "nat option"
  io_sync :: bool
  io_rename :: bool

record Segment =
  seg_id :: nat
  seg_fd :: bool
  seg_end_offset :: nat
  seg_entry_count :: nat
  seg_format_version :: nat

record WALPersister =
  w_dir :: string
  w_files :: "(string \<times> string) list"
  w_active :: Segment
  w_index :: DenseIndex
  w_formats :: "nat \<rightharpoonup> nat"
  w_cached :: "nat option"
  w_buf :: string

definition kMaxSegmentEntries :: nat where "kMaxSegmentEntries = 10000"
definition kMaxSegmentSize :: nat where "kMaxSegmentSize = 64 * 1024 * 1024"
definition kWriteBufferSize :: nat where "kWriteBufferSize = 1024 * 1024"
definition kCheckpointSegmentInterval :: nat where "kCheckpointSegmentInterval = 5"
definition kCheckpointEntryInterval :: nat where "kCheckpointEntryInterval = 50000"

definition no_segment :: Segment where
  "no_segment = \<lparr>seg_id = 0, seg_fd = False, seg_end_offset = 0, seg_entry_count = 0,
     seg_format_version = kFormatVersionProtobuf\<rparr>"

text \<open>A new object on a directory that has the given files.\<close>

definition new_wal :: "(string \<times> string) list \<Rightarrow> WALPersister" where
  "new_wal files = \<lparr>w_dir = [], w_files = files, w_active = no_segment, w_index = di_Clear, w_formats = Map.empty,
     w_cached = None, w_buf = []\<rparr>"

text \<open>\<open>if (!status.ok()) return status;\<close>\<close>

definition and_then :: "Status \<times> 'w \<Rightarrow> ('w \<Rightarrow> Status \<times> 'w) \<Rightarrow> Status \<times> 'w" where
  "and_then p f = (case p of (st, w) \<Rightarrow> if ok st then f w else (st, w))"

section \<open>Files\<close>

definition seg_file :: "nat \<Rightarrow> string" where
  "seg_file i = nat_to_string i @ ''.wal''"

definition seg_path :: "WALPersister \<Rightarrow> nat \<Rightarrow> string" where
  "seg_path w i = w_dir w @ ''/'' @ seg_file i"

definition contents :: "WALPersister \<Rightarrow> string \<Rightarrow> string" where
  "contents w name = (case map_of (w_files w) name of None \<Rightarrow> [] | Some c \<Rightarrow> c)"

definition put_file :: "string \<Rightarrow> string \<Rightarrow> WALPersister \<Rightarrow> WALPersister" where
  "put_file name c w = w\<lparr>w_files := AList.update name c (w_files w)\<rparr>"

definition unlink :: "string \<Rightarrow> WALPersister \<Rightarrow> WALPersister" where
  "unlink name w = w\<lparr>w_files := AList.delete name (w_files w)\<rparr>"

text \<open>\<open>write\<close> at an offset: it overwrites, and a gap reads as zeros.\<close>

definition write_at :: "nat \<Rightarrow> string \<Rightarrow> string \<Rightarrow> string" where
  "write_at off data file =
     take off file @ replicate (off - length file) (CHR 0x00) @ data @ drop (off + length data) file"

definition room_for :: "WalIO \<Rightarrow> nat \<Rightarrow> nat" where
  "room_for io n = (case io_room io of None \<Rightarrow> n | Some k \<Rightarrow> min k n)"

text \<open>The segment numbers of the directory, as \<open>readdir\<close> and \<open>std::stoull\<close> give them.\<close>

definition wal_name_id :: "string \<Rightarrow> nat option" where
  "wal_name_id name =
     (if 4 < length name \<and> drop (length name - 4) name = ''.wal'' then stoull (take (length name - 4) name) else None)"

definition segment_ids_on_disk :: "WalIO \<Rightarrow> WALPersister \<Rightarrow> nat list" where
  "segment_ids_on_disk io w =
     (if io_opendir io then List.map_filter wal_name_id (map fst (w_files w)) else [])"

section \<open>Segments\<close>

definition OpenSegment :: "WalIO \<Rightarrow> nat \<Rightarrow> WALPersister \<Rightarrow> Status \<times> WALPersister" where
  "OpenSegment io segment_id w =
     (let path = seg_path w segment_id in
      case map_of (w_files w) (seg_file segment_id) of
        None \<Rightarrow> (Error (''Failed to open segment: '' @ path) [], w)
      | Some file \<Rightarrow>
        if \<not> io_open io (seg_file segment_id) then (Error (''Failed to open segment: '' @ path) [], w)
        else if length file < kHeaderSize then (Error (''Failed to read segment header: '' @ path) [], w)
        else let magic = le_read (take 4 file);
                 version = le_read (take 2 (drop 4 file));
                 format_version = le_read (take 2 (drop 6 file));
                 stored_segment_id = le_read (take 8 (drop 8 file))
             in if magic \<noteq> kMagic then (Corruption (''Invalid magic in segment: '' @ path) [], w)
                else if version \<noteq> kVersion then (Corruption (''Unsupported version in segment: '' @ path) [], w)
                else if stored_segment_id \<noteq> segment_id then (Corruption (''Segment id mismatch: '' @ path) [], w)
                else (OK, w\<lparr>w_formats := (w_formats w)(segment_id \<mapsto>
                             (if format_version = 0 then kFormatVersionJson else format_version))\<rparr>))"

definition GetCachedSegmentFd :: "WalIO \<Rightarrow> nat \<Rightarrow> WALPersister \<Rightarrow> Status \<times> WALPersister" where
  "GetCachedSegmentFd io segment_id w =
     (if w_cached w = Some segment_id then (OK, w)
      else and_then (OpenSegment io segment_id (w\<lparr>w_cached := None\<rparr>))
             (\<lambda>w1. (OK, w1\<lparr>w_cached := Some segment_id\<rparr>)))"

definition meta_json :: "WALPersister \<Rightarrow> json" where
  "meta_json w = JObject [''last_segment_id'' \<mapsto> JInt (int (seg_id (w_active w))),
     ''first_index'' \<mapsto> JInt (int (first_index (w_index w))), ''last_index'' \<mapsto> JInt (int (LastIndex (w_index w)))]"

definition SaveMeta :: "WalLib \<Rightarrow> WalIO \<Rightarrow> WALPersister \<Rightarrow> Status \<times> WALPersister" where
  "SaveMeta lib io w =
     (if \<not> io_open io ''meta.json'' then (Error ''Failed to create meta file'' [], w)
      else let c = wl_dump2 lib (meta_json w) in (OK, put_file ''meta.json'' (take (room_for io (length c)) c) w))"

definition CreateSegment :: "WalLib \<Rightarrow> WalIO \<Rightarrow> nat \<Rightarrow> WALPersister \<Rightarrow> Status \<times> WALPersister" where
  "CreateSegment lib io segment_id w =
     (if \<not> io_open io (seg_file segment_id)
      then (Error (''Failed to create segment: '' @ seg_path w segment_id) [], w)
      else if room_for io kHeaderSize < kHeaderSize
      then (Error ''Failed to write segment header'' [], unlink (seg_file segment_id) w)
      else SaveMeta lib io
             (put_file (seg_file segment_id) (segment_header segment_id kFormatVersionProtobuf)
                (w\<lparr>w_active := \<lparr>seg_id = segment_id, seg_fd = True, seg_end_offset = kHeaderSize,
                     seg_entry_count = 0, seg_format_version = kFormatVersionProtobuf\<rparr>,
                   w_formats := (w_formats w)(segment_id \<mapsto> kFormatVersionProtobuf)\<rparr>)))"

section \<open>Appending\<close>

text \<open>
  The data goes to the end of the active segment, over its old trailer, and a new trailer behind it. When the data
  cannot be written completely the buffer and the end stay as they were.
\<close>

definition FlushWriteBufferLocked :: "WalIO \<Rightarrow> WALPersister \<Rightarrow> Status \<times> WALPersister" where
  "FlushWriteBufferLocked io w =
     (let a = w_active w; name = seg_file (seg_id a); file = contents w name; n = length (w_buf w) in
      if w_buf w = [] then (OK, w)
      else if \<not> seg_fd a then (Error ''No active segment'' [], w)
      else if room_for io n < n
      then (Error ''Failed to write WAL buffer'' [],
            put_file name (write_at (seg_end_offset a) (take (room_for io n) (w_buf w)) file) w)
      else let end_offset = seg_end_offset a + n;
               t = trailer_bytes end_offset;
               k = room_for io (n + kTrailerSize) - n;
               w1 = (put_file name (write_at end_offset (take k t) (write_at (seg_end_offset a) (w_buf w) file)) w)
                      \<lparr>w_active := a\<lparr>seg_end_offset := end_offset\<rparr>, w_buf := []\<rparr>
           in if k < kTrailerSize then (Error ''Failed to write trailer'' [], w1) else (OK, w1))"

definition RotateSegmentIfNeeded :: "WalLib \<Rightarrow> WalIO \<Rightarrow> WALPersister \<Rightarrow> Status \<times> WALPersister" where
  "RotateSegmentIfNeeded lib io w =
     (if kMaxSegmentEntries \<le> seg_entry_count (w_active w) \<or>
         kMaxSegmentSize \<le> seg_end_offset (w_active w) + length (w_buf w)
      then and_then (FlushWriteBufferLocked io w)
             (\<lambda>w1. CreateSegment lib io (u64_add (seg_id (w_active w1)) 1)
                     (w1\<lparr>w_active := (w_active w1)\<lparr>seg_fd := False\<rparr>\<rparr>))
      else (OK, w))"

text \<open>The outputs are the offset and the length of the record.\<close>

definition AppendRecordToBufferLocked ::
  "WalIO \<Rightarrow> WALRecord \<Rightarrow> WALPersister \<Rightarrow> (Status \<times> WALPersister) \<times> nat \<times> nat" where
  "AppendRecordToBufferLocked io r w =
     (if kMaxRecordSize < length (wr_payload r) then ((Error ''Payload too large'' [], w), 0, 0)
      else let w1 = w\<lparr>w_buf := w_buf w @ record_bytes r\<rparr>
           in (if kWriteBufferSize \<le> length (w_buf w1) then FlushWriteBufferLocked io w1 else (OK, w1),
               seg_end_offset (w_active w) + length (w_buf w), length (record_bytes r)))"

definition AppendLogEntry_wal :: "WalLib \<Rightarrow> WalIO \<Rightarrow> RaftLogEntry \<Rightarrow> WALPersister \<Rightarrow> Status \<times> WALPersister" where
  "AppendLogEntry_wal lib io e w =
     (case wl_serialize lib (entry_proto e) of
        None \<Rightarrow> (Error ''Failed to serialize log entry to protobuf'' [], w)
      | Some pl \<Rightarrow>
        and_then (RotateSegmentIfNeeded lib io w) (\<lambda>w1.
          case AppendRecordToBufferLocked io \<lparr>wr_type = kLogEntry, wr_payload = pl\<rparr> w1 of
            (p, off, len) \<Rightarrow> and_then p (\<lambda>w2.
              (OK, w2\<lparr>w_index := di_Put (e_index e) \<lparr>wie_segment_id = seg_id (w_active w2), wie_file_offset = off,
                                                    wie_length = len\<rparr> (w_index w2),
                      w_active := (w_active w2)\<lparr>seg_entry_count := seg_entry_count (w_active w2) + 1\<rparr>\<rparr>))))"

definition AppendTruncatePrefix :: "WalLib \<Rightarrow> WalIO \<Rightarrow> nat \<Rightarrow> WALPersister \<Rightarrow> Status \<times> WALPersister" where
  "AppendTruncatePrefix lib io before_index w =
     and_then (RotateSegmentIfNeeded lib io w) (\<lambda>w1.
       and_then (fst (AppendRecordToBufferLocked io
           \<lparr>wr_type = kTruncatePrefix,
            wr_payload = wl_dump lib (JObject [''before_index'' \<mapsto> JInt (int before_index)])\<rparr> w1)) (\<lambda>w2.
         (OK, w2\<lparr>w_index := di_TruncatePrefix before_index (w_index w2)\<rparr>)))"

definition AppendTruncateSuffix :: "WalLib \<Rightarrow> WalIO \<Rightarrow> nat \<Rightarrow> WALPersister \<Rightarrow> Status \<times> WALPersister" where
  "AppendTruncateSuffix lib io from_index w =
     and_then (RotateSegmentIfNeeded lib io w) (\<lambda>w1.
       and_then (fst (AppendRecordToBufferLocked io
           \<lparr>wr_type = kTruncateSuffix,
            wr_payload = wl_dump lib (JObject [''from_index'' \<mapsto> JInt (int from_index)])\<rparr> w1)) (\<lambda>w2.
         (OK, w2\<lparr>w_index := di_TruncateSuffix from_index (w_index w2)\<rparr>)))"

section \<open>Reading\<close>

text \<open>\<open>ReadLogEntryAt\<close> from the position of the record on.\<close>

definition read_entry :: "WalLib \<Rightarrow> nat \<Rightarrow> nat \<Rightarrow> string \<Rightarrow> Status + RaftLogEntry" where
  "read_entry lib format_version segment_id rest =
     (if length rest < 4 then Inl (Error ''Failed to read CRC'' [])
      else if length rest < 8 then Inl (Error ''Failed to read length'' [])
      else if length rest < 10 then Inl (Error ''Failed to read type'' [])
      else let crc = le_read (take 4 rest);
               len = le_read (take 4 (drop 4 rest));
               ty = le_read (take 2 (drop 8 rest));
               pl = take len (drop 10 rest);
               computed_crc = unat (ComputeCRC32 (le_bytes 4 len @ le_bytes 2 ty @ pl))
           in if kMaxRecordSize < len then Inl (Corruption ''Record too large'' [])
              else if length pl < len then Inl (Corruption ''Failed to read payload'' [])
              else if computed_crc \<noteq> crc
              then Inl (Corruption (''CRC mismatch in segment '' @ nat_to_string segment_id) [])
              else if ty \<noteq> kLogEntry then Inl (Error ''Not a log entry record'' [])
              else if format_version = kFormatVersionProtobuf
              then (case ParseProtobufPayload lib pl computed_crc of
                      Inr e \<Rightarrow> Inr e
                    | Inl _ \<Rightarrow> ParseJsonPayload (wl_json lib) pl computed_crc)
              else ParseJsonPayload (wl_json lib) pl computed_crc)"

definition ReadLogEntryAt ::
  "WalLib \<Rightarrow> WalIO \<Rightarrow> nat \<Rightarrow> nat \<Rightarrow> WALPersister \<Rightarrow> (Status + RaftLogEntry) \<times> WALPersister" where
  "ReadLogEntryAt lib io segment_id file_offset w =
     (case GetCachedSegmentFd io segment_id w of (st, w1) \<Rightarrow>
        if \<not> ok st then (Inl st, w1)
        else (read_entry lib (case w_formats w1 segment_id of None \<Rightarrow> kFormatVersionJson | Some f \<Rightarrow> f) segment_id
                (drop file_offset (contents w1 (seg_file segment_id))), w1))"

definition GetEntry_wal ::
  "WalLib \<Rightarrow> WalIO \<Rightarrow> nat \<Rightarrow> WALPersister \<Rightarrow> (Status + RaftLogEntry) \<times> WALPersister" where
  "GetEntry_wal lib io index w =
     (case FlushWriteBufferLocked io w of (st, w1) \<Rightarrow>
        if \<not> ok st then (Inl st, w1)
        else case di_Get (w_index w1) index of
               None \<Rightarrow> (Inl (Error ''Entry not found'' []), w1)
             | Some e \<Rightarrow> ReadLogEntryAt lib io (wie_segment_id e) (wie_file_offset e) w1)"

text \<open>The loop of \<open>GetEntries\<close> over the slots of the range; the entries read so far are returned with an error.\<close>

fun read_slots ::
  "WalLib \<Rightarrow> WalIO \<Rightarrow> WALIndexEntry list \<Rightarrow> RaftLogEntry list \<Rightarrow> WALPersister \<Rightarrow>
   (Status \<times> RaftLogEntry list) \<times> WALPersister" where
  "read_slots lib io [] got w = ((OK, got), w)"
| "read_slots lib io (e # es) got w =
     (if wie_segment_id e = 0 then read_slots lib io es got w
      else case ReadLogEntryAt lib io (wie_segment_id e) (wie_file_offset e) w of
             (Inl st, w1) \<Rightarrow> ((st, got), w1)
           | (Inr x, w1) \<Rightarrow> read_slots lib io es (got @ [x]) w1)"

definition GetEntries_wal ::
  "WalLib \<Rightarrow> WalIO \<Rightarrow> nat \<Rightarrow> nat \<Rightarrow> WALPersister \<Rightarrow> (Status \<times> RaftLogEntry list) \<times> WALPersister" where
  "GetEntries_wal lib io start stop w =
     (if stop \<le> start then ((OK, []), w)
      else case FlushWriteBufferLocked io w of (st, w1) \<Rightarrow>
        if \<not> ok st then ((st, []), w1)
        else let d = w_index w1; first = first_index d; last = LastIndex d in
             if slots d = [] \<or> last < start \<or> stop \<le> first then ((OK, []), w1)
             else let lo = max start first; hi = min stop (u64_add last 1)
                  in read_slots lib io (take (hi - lo) (drop (lo - first) (slots d))) [] w1)"

definition GetLogRange :: "WALPersister \<Rightarrow> nat \<times> nat" where
  "GetLogRange w = (first_index (w_index w), LastIndex (w_index w))"

section \<open>Scanning\<close>

text \<open>The status, the offset stored in \<open>out_truncate_offset\<close>, and the records delivered to the callback.\<close>

definition ScanSegment ::
  "WalLib \<Rightarrow> WalIO \<Rightarrow> (WALRecord list \<Rightarrow> bool) option \<Rightarrow> nat \<Rightarrow> WALRecord list \<Rightarrow> WALPersister \<Rightarrow>
   (Status \<times> nat option \<times> WALRecord list) \<times> WALPersister" where
  "ScanSegment lib io cb segment_id seen w =
     (case GetCachedSegmentFd io segment_id w of (st, w1) \<Rightarrow>
        if \<not> ok st then ((st, None, seen), w1)
        else let file = contents w1 (seg_file segment_id);
                 fmt = (case w_formats w1 segment_id of None \<Rightarrow> kFormatVersionJson | Some f \<Rightarrow> f);
                 scan = (\<lambda>end_offset.
                   let r = scan_records lib cb fmt segment_id file end_offset kHeaderSize seen (w_index w1)
                   in ((sr_status r, sr_truncate r, sr_seen r), w1\<lparr>w_index := sr_index r\<rparr>))
             in case ReadTrailer file of
                  Inr end_offset \<Rightarrow> scan end_offset
                | Inl _ \<Rightarrow> if length file \<le> kHeaderSize then ((OK, None, seen), w1) else scan (length file))"

fun replay_segments ::
  "WalLib \<Rightarrow> WalIO \<Rightarrow> (WALRecord list \<Rightarrow> bool) \<Rightarrow> nat list \<Rightarrow> WALRecord list \<Rightarrow> WALPersister \<Rightarrow>
   (Status \<times> WALRecord list) \<times> WALPersister" where
  "replay_segments lib io cb [] seen w = ((OK, seen), w)"
| "replay_segments lib io cb (i # ids) seen w =
     (case ScanSegment lib io (Some cb) i seen w of
        ((st, _, seen'), w1) \<Rightarrow> if ok st then replay_segments lib io cb ids seen' w1 else ((st, seen'), w1))"

text \<open>The segments of the index in the order of its slots, without immediate repetitions.\<close>

definition Replay ::
  "WalLib \<Rightarrow> WalIO \<Rightarrow> (WALRecord list \<Rightarrow> bool) \<Rightarrow> WALPersister \<Rightarrow> (Status \<times> WALRecord list) \<times> WALPersister" where
  "Replay lib io cb w =
     (case FlushWriteBufferLocked io w of (st, w1) \<Rightarrow>
        if \<not> ok st then ((st, []), w1)
        else let used = remdups_adj (filter (\<lambda>i. i \<noteq> 0) (map wie_segment_id (slots (w_index w1))));
                 ids = (if used = [] then sort (segment_ids_on_disk io w1) else used)
             in replay_segments lib io cb ids [] w1)"

section \<open>Checkpoints\<close>

definition kCheckpointMagic :: nat where "kCheckpointMagic = 0x57494458"
definition kCheckpointVersion :: nat where "kCheckpointVersion = 1"
definition kCheckpointHeaderSize :: nat where "kCheckpointHeaderSize = 40"
definition kCheckpointIndexEntrySize :: nat where "kCheckpointIndexEntrySize = 24"
definition kCheckpointFooterSize :: nat where "kCheckpointFooterSize = 4"

definition ckpt_file :: "nat \<Rightarrow> string" where
  "ckpt_file i = ''checkpoint.'' @ nat_to_string i @ ''.idx''"

definition is_ckpt_name :: "string \<Rightarrow> bool" where
  "is_ckpt_name name \<longleftrightarrow> 15 < length name \<and> take 11 name = ''checkpoint.'' \<and> drop (length name - 4) name = ''.idx''"

definition ckpt_name_id :: "string \<Rightarrow> nat option" where
  "ckpt_name_id name = stoull (take (length name - 15) (drop 11 name))"

definition ListCheckpointFilesLocked :: "WalIO \<Rightarrow> WALPersister \<Rightarrow> string list" where
  "ListCheckpointFilesLocked io w = (if io_opendir io then filter is_ckpt_name (map fst (w_files w)) else [])"

definition slot_bytes :: "WALIndexEntry \<Rightarrow> string" where
  "slot_bytes e = le_bytes 8 (wie_segment_id e) @ le_bytes 8 (wie_file_offset e) @ le_bytes 8 (wie_length e)"

definition checkpoint_data :: "DenseIndex \<Rightarrow> nat \<Rightarrow> string" where
  "checkpoint_data d last_covered_segment_id =
     le_bytes 4 kCheckpointMagic @ le_bytes 2 kCheckpointVersion @ le_bytes 2 0 @ le_bytes 8 (first_index d) @
     le_bytes 8 (LastIndex d) @ le_bytes 8 (length (slots d)) @ le_bytes 8 last_covered_segment_id @
     concat (map slot_bytes (slots d))"

definition checkpoint_bytes :: "DenseIndex \<Rightarrow> nat \<Rightarrow> string" where
  "checkpoint_bytes d last_covered_segment_id =
     (let data = checkpoint_data d last_covered_segment_id in data @ le_bytes 4 (unat (ComputeCRC32 data)))"

text \<open>
  The file is written under a temporary name, which every failure removes again, and renamed. The directory sync at
  the end has no influence on the result.
\<close>

definition SaveCheckpointLocked :: "WalIO \<Rightarrow> WALPersister \<Rightarrow> Status \<times> WALPersister" where
  "SaveCheckpointLocked io w =
     (let name = ckpt_file (seg_id (w_active w)); temp = name @ ''.tmp'';
          data = checkpoint_bytes (w_index w) (seg_id (w_active w)) in
      if slots (w_index w) = [] then (OK, w)
      else if \<not> io_open io temp then (Error ''Failed to create checkpoint temp file'' [], w)
      else if room_for io (length data) < length data then (Error ''Failed to write checkpoint'' [], unlink temp w)
      else if \<not> io_sync io then (Error ''Failed to fdatasync checkpoint'' [], unlink temp w)
      else if \<not> io_rename io then (Error ''Failed to rename checkpoint'' [], unlink temp w)
      else (OK, put_file name data (unlink temp w)))"

text \<open>
  The largest checkpoint whose segment exists, or number 0 for none: a file that is listed later replaces one with the
  same number only when its number is larger.
\<close>

definition best_checkpoint :: "WalIO \<Rightarrow> WALPersister \<Rightarrow> nat \<times> string" where
  "best_checkpoint io w =
     foldl (\<lambda>best name. case ckpt_name_id name of
              None \<Rightarrow> best
            | Some i \<Rightarrow> if fst best < i \<and> map_of (w_files w) (seg_file i) \<noteq> None then (i, name) else best)
       (0, []) (ListCheckpointFilesLocked io w)"

definition read_slot :: "string \<Rightarrow> WALIndexEntry" where
  "read_slot s = \<lparr>wie_segment_id = le_read (take 8 s), wie_file_offset = le_read (take 8 (drop 8 s)),
     wie_length = le_read (take 8 (drop 16 s))\<rparr>"

text \<open>The checks on a checkpoint file; the index it holds and the segment it covers.\<close>

definition parse_checkpoint :: "string \<Rightarrow> Status + DenseIndex \<times> nat" where
  "parse_checkpoint buf =
     (let file_size = length buf in
      if file_size < kCheckpointHeaderSize + kCheckpointFooterSize then Inl (Corruption ''Checkpoint file too small'' [])
      else let magic = le_read (take 4 buf);
               version = le_read (take 2 (drop 4 buf));
               first = le_read (take 8 (drop 8 buf));
               entry_count = le_read (take 8 (drop 24 buf));
               covered = le_read (take 8 (drop 32 buf));
               body = take (file_size - kCheckpointFooterSize) buf
           in if magic \<noteq> kCheckpointMagic then Inl (Corruption ''Invalid checkpoint magic'' [])
              else if version \<noteq> kCheckpointVersion then Inl (Corruption ''Unsupported checkpoint version'' [])
              else if file_size \<noteq> kCheckpointHeaderSize + entry_count * kCheckpointIndexEntrySize + kCheckpointFooterSize
              then Inl (Corruption ''Checkpoint size mismatch'' [])
              else if unat (ComputeCRC32 body) \<noteq> le_read (drop (file_size - kCheckpointFooterSize) buf)
              then Inl (Corruption ''Checkpoint CRC mismatch'' [])
              else Inr (foldl (\<lambda>d i. di_Put (u64_add first i)
                                 (read_slot (drop (kCheckpointHeaderSize + i * kCheckpointIndexEntrySize) buf)) d)
                          di_Clear [0..<entry_count], covered))"

text \<open>The segment covered is 0 when there is no checkpoint.\<close>

definition LoadLatestCheckpointLocked :: "WalIO \<Rightarrow> WALPersister \<Rightarrow> (Status \<times> nat) \<times> WALPersister" where
  "LoadLatestCheckpointLocked io w =
     (case best_checkpoint io w of (i, name) \<Rightarrow>
        if i = 0 then ((OK, 0), w)
        else if \<not> io_open io name then ((Error (''Failed to open checkpoint: '' @ w_dir w @ ''/'' @ name) [], 0), w)
        else case parse_checkpoint (contents w name) of
               Inl st \<Rightarrow> ((st, 0), w)
             | Inr (d, covered) \<Rightarrow> ((OK, covered), w\<lparr>w_index := d\<rparr>))"

definition ShouldCreateCheckpointLocked :: "WalIO \<Rightarrow> WALPersister \<Rightarrow> bool" where
  "ShouldCreateCheckpointLocked io w =
     (if slots (w_index w) = [] then False
      else let last_id = foldl max 0 (List.map_filter ckpt_name_id (ListCheckpointFilesLocked io w)) in
           if kCheckpointSegmentInterval \<le> (seg_id (w_active w) + (U64 - last_id)) mod U64 then True
           else if last_id = 0 then kCheckpointEntryInterval \<le> length (slots (w_index w))
           else kCheckpointEntryInterval \<le>
                  length (takeWhile (\<lambda>e. last_id < wie_segment_id e) (rev (slots (w_index w)))))"

definition RemoveOldCheckpointsLocked :: "WalIO \<Rightarrow> nat \<Rightarrow> WALPersister \<Rightarrow> WALPersister" where
  "RemoveOldCheckpointsLocked io first_retained w =
     foldl (\<lambda>w name. case ckpt_name_id name of
              None \<Rightarrow> w
            | Some i \<Rightarrow> if i < first_retained then unlink name w else w)
       w (ListCheckpointFilesLocked io w)"

section \<open>Sync, Close, GarbageCollect\<close>

definition SyncActiveSegmentLocked :: "WalIO \<Rightarrow> WALPersister \<Rightarrow> Status \<times> WALPersister" where
  "SyncActiveSegmentLocked io w =
     and_then (FlushWriteBufferLocked io w) (\<lambda>w1.
       if \<not> seg_fd (w_active w1) then (Error ''No active segment'' [], w1)
       else if \<not> io_sync io then (Error ''fdatasync failed'' [], w1)
       else (OK, w1))"

definition Sync_wal :: "WalIO \<Rightarrow> WALPersister \<Rightarrow> Status \<times> WALPersister" where
  "Sync_wal io w =
     and_then (SyncActiveSegmentLocked io w) (\<lambda>w1.
       (OK, if ShouldCreateCheckpointLocked io w1 then snd (SaveCheckpointLocked io w1) else w1))"

definition Close_wal :: "WalIO \<Rightarrow> WALPersister \<Rightarrow> WALPersister" where
  "Close_wal io w =
     (let w1 = (if seg_fd (w_active w)
                then let w2 = snd (FlushWriteBufferLocked io w)
                     in if ShouldCreateCheckpointLocked io w2 then snd (SaveCheckpointLocked io w2) else w2
                else w)
      in new_wal (w_files w1))"

text \<open>
  The first segment with an entry at or above the given index, or the segment in use; and the index without the leading
  slots of older segments.
\<close>

definition first_segment_to_keep :: "nat \<Rightarrow> WALPersister \<Rightarrow> nat" where
  "first_segment_to_keep before_log_index w =
     (let d = w_index w; no_seg = U64 - 1;
          placed = filter (\<lambda>(i, e). wie_segment_id e \<noteq> 0 \<and> before_log_index \<le> i)
                     (zip [first_index d..<first_index d + length (slots d)] (slots d));
          least = foldl min no_seg (map (\<lambda>(i, e). wie_segment_id e) placed)
      in if least = no_seg then seg_id (w_active w) else least)"

definition collected_index :: "nat \<Rightarrow> DenseIndex \<Rightarrow> DenseIndex" where
  "collected_index keep d =
     (let before = takeWhile (\<lambda>e. wie_segment_id e < keep) (slots d)
      in if length before < length (slots d) then di_TruncatePrefix (first_index d + length before) d else di_Clear)"

definition GarbageCollect :: "WalIO \<Rightarrow> nat \<Rightarrow> WALPersister \<Rightarrow> Status \<times> WALPersister" where
  "GarbageCollect io before_log_index w =
     (let keep = first_segment_to_keep before_log_index w;
          doomed = filter (\<lambda>i. i < keep) (segment_ids_on_disk io w);
          w1 = foldl (\<lambda>w i. unlink (seg_file i) w) (if doomed \<noteq> [] then w\<lparr>w_cached := None\<rparr> else w) doomed;
          w2 = w1\<lparr>w_index := collected_index keep (w_index w1)\<rparr>
      in (OK, if slots (w_index w2) \<noteq> []
              then RemoveOldCheckpointsLocked io (seg_id (w_active w2)) (snd (SaveCheckpointLocked io w2))
              else RemoveOldCheckpointsLocked io keep w2))"

section \<open>Open\<close>

definition LoadMeta :: "WalLib \<Rightarrow> WalIO \<Rightarrow> WALPersister \<Rightarrow> Status" where
  "LoadMeta lib io w =
     (if \<not> io_open io ''meta.json'' then Error ''Failed to open meta file'' []
      else case wl_stream lib (contents w ''meta.json'') of
             Inl what \<Rightarrow> Corruption (''Failed to parse meta file: '' @ what) []
           | Inr _ \<Rightarrow> OK)"

definition TruncateSegmentFile :: "WalIO \<Rightarrow> nat \<Rightarrow> nat \<Rightarrow> WALPersister \<Rightarrow> Status \<times> WALPersister" where
  "TruncateSegmentFile io segment_id truncate_offset w =
     (if map_of (w_files w) (seg_file segment_id) = None \<or> \<not> io_open io (seg_file segment_id)
      then (Error (''Failed to open segment for truncation: '' @ seg_path w segment_id) [], w)
      else let k = room_for io kTrailerSize;
               w1 = put_file (seg_file segment_id)
                      (write_at truncate_offset (take k (trailer_bytes truncate_offset))
                         (take truncate_offset (contents w (seg_file segment_id)))) w
           in if k < kTrailerSize then (Error ''Failed to write trailer'' [], w1) else (OK, w1))"

text \<open>The loop over the segments: a header check only for those a checkpoint covers, a scan for the others.\<close>

fun open_segments :: "WalLib \<Rightarrow> WalIO \<Rightarrow> nat \<Rightarrow> nat list \<Rightarrow> WALPersister \<Rightarrow> Status \<times> WALPersister" where
  "open_segments lib io covered [] w = (OK, w)"
| "open_segments lib io covered (i # ids) w =
     and_then (OpenSegment io i w) (\<lambda>w1.
       if i < covered then open_segments lib io covered ids w1
       else case ScanSegment lib io None i [] w1 of ((st, trunc, _), w2) \<Rightarrow>
         if ok st then open_segments lib io covered ids w2
         else case trunc of
                None \<Rightarrow> (st, w2)
              | Some off \<Rightarrow> if off = 0 then (st, w2)
                            else and_then (TruncateSegmentFile io i off w2) (open_segments lib io covered ids))"

definition open_active :: "WalIO \<Rightarrow> nat \<Rightarrow> WALPersister \<Rightarrow> Status \<times> WALPersister" where
  "open_active io active_id w =
     and_then (OpenSegment io active_id w) (\<lambda>w1.
       let file = contents w1 (seg_file active_id);
           go = (\<lambda>end_offset. (OK, w1\<lparr>w_active := \<lparr>seg_id = active_id, seg_fd = True, seg_end_offset = end_offset,
                   seg_entry_count = length (filter (\<lambda>e. wie_segment_id e = active_id) (slots (w_index w1))),
                   seg_format_version = (case w_formats w1 active_id of None \<Rightarrow> kFormatVersionJson | Some f \<Rightarrow> f)\<rparr>\<rparr>))
       in case ReadTrailer file of
            Inr end_offset \<Rightarrow> go end_offset
          | Inl st \<Rightarrow> if length file = kHeaderSize then go kHeaderSize else (st, w1\<lparr>w_active := no_segment\<rparr>))"

definition Open_wal :: "WalLib \<Rightarrow> WalIO \<Rightarrow> string \<Rightarrow> WALPersister \<Rightarrow> Status \<times> WALPersister" where
  "Open_wal lib io wal_dir w0 =
     (let w = w0\<lparr>w_dir := wal_dir\<rparr> in
      if io_kind io = Missing \<and> \<not> io_mkdir io then (Error (''Failed to create WAL directory: '' @ wal_dir) [], w)
      else if io_kind io = Other_file then (Error (''WAL path is not a directory: '' @ wal_dir) [], w)
      else and_then (if map_of (w_files w) ''meta.json'' \<noteq> None then LoadMeta lib io w else OK, w) (\<lambda>w.
        let ids = sort (segment_ids_on_disk io w) in
        if ids = [] then CreateSegment lib io 1 w
        else case LoadLatestCheckpointLocked io w of ((st, covered), w1) \<Rightarrow>
               let (w2, covered2) = (if ok st then (w1, covered) else (w1\<lparr>w_index := di_Clear\<rparr>, 0))
               in and_then (open_segments lib io covered2 ids w2) (open_active io (last ids))))"

end
