(* ===== verification/Wal_Invariant.thy ===== *)
theory Wal_Invariant
  imports Wal_Persister
begin

text \<open>
  The invariant of the write-ahead log. \<open>wal_inv\<close> says that the files, the write buffer and the index of a
  \<open>WALPersister\<close> represent a log, a partial map from indexes to entries; \<open>wal_shape\<close> names the records of every segment
  and of the buffer. Flushing, rotating, appending, truncating, reading, and writing checkpoints are shown to keep it.
\<close>

section \<open>Records as operations on the index\<close>

definition record_op :: "WalLib \<Rightarrow> nat \<Rightarrow> nat \<Rightarrow> nat \<Rightarrow> WALRecord \<Rightarrow> Status + WALIndexEntry index_op list" where
  "record_op lib fmt sid off r =
     (if wr_type r = kLogEntry
      then (case ExtractLogIndexFromPayload lib (wr_payload r) fmt of
              Inl st \<Rightarrow> Inl st
            | Inr i \<Rightarrow> Inr [Put i \<lparr>wie_segment_id = sid, wie_file_offset = off, wie_length = 10 + length (wr_payload r)\<rparr>])
      else if wr_type r = kTruncatePrefix
      then (case json_u64 (wl_json lib) (wr_payload r) ''before_index'' of
              Inl what \<Rightarrow> Inl (Corruption (''Failed to parse truncate prefix: '' @ what) [])
            | Inr b \<Rightarrow> Inr [Cut_prefix b])
      else if wr_type r = kTruncateSuffix
      then (case json_u64 (wl_json lib) (wr_payload r) ''from_index'' of
              Inl what \<Rightarrow> Inl (Corruption (''Failed to parse truncate suffix: '' @ what) [])
            | Inr f \<Rightarrow> Inr [Cut_suffix f])
      else Inr [])"

lemma index_record_op:
  "index_record lib fmt sid off r d =
    (case record_op lib fmt sid off r of Inl st \<Rightarrow> Inl st | Inr ops \<Rightarrow> Inr (foldl dense.op_step d ops))"
  by (simp add: index_record_def record_op_def split: sum.split)

fun records_ops :: "WalLib \<Rightarrow> nat \<Rightarrow> nat \<Rightarrow> nat \<Rightarrow> WALRecord list \<Rightarrow> (WALIndexEntry index_op list) option" where
  "records_ops lib fmt sid off [] = Some []"
| "records_ops lib fmt sid off (r # rs) =
     (case record_op lib fmt sid off r of
        Inl st \<Rightarrow> None
      | Inr ops \<Rightarrow> map_option (\<lambda>ops2. ops @ ops2) (records_ops lib fmt sid (off + length (record_bytes r)) rs))"

lemma index_records_ops:
  "records_ops lib fmt sid off rs = Some ops \<Longrightarrow> index_records lib fmt sid off rs d = Inr (foldl dense.op_step d ops)"
  by (induction rs arbitrary: off ops d) (auto simp: index_record_op split: sum.splits)

lemma map_option_append [simp]:
  "map_option ((@) []) x = x" "map_option (\<lambda>z. a @ b @ z) x = map_option ((@) (a @ b)) x"
  by (cases x; simp)+

lemma records_ops_append:
  "records_ops lib fmt sid off (rs @ qs) =
    (case records_ops lib fmt sid off rs of
       None \<Rightarrow> None
     | Some ops \<Rightarrow> map_option (\<lambda>ops2. ops @ ops2) (records_ops lib fmt sid (off + length (records_bytes rs)) qs))"
  by (induction rs arbitrary: off)
     (auto simp: add.assoc map_option.compositionality comp_def split: sum.splits option.splits)

text \<open>The operations of a list of segments numbered from \<open>i\<close> on.\<close>

fun log_ops :: "WalLib \<Rightarrow> nat \<Rightarrow> WALRecord list list \<Rightarrow> (WALIndexEntry index_op list) option" where
  "log_ops lib i [] = Some []"
| "log_ops lib i (rs # rss) =
     (case records_ops lib kFormatVersionProtobuf i kHeaderSize rs of
        None \<Rightarrow> None
      | Some ops \<Rightarrow> map_option (\<lambda>ops2. ops @ ops2) (log_ops lib (Suc i) rss))"

lemma log_ops_append:
  "log_ops lib i (rss @ qss) =
    (case log_ops lib i rss of
       None \<Rightarrow> None
     | Some ops \<Rightarrow> map_option (\<lambda>ops2. ops @ ops2) (log_ops lib (i + length rss) qss))"
  by (induction rss arbitrary: i)
     (auto simp: map_option.compositionality comp_def split: option.splits)

lemma log_ops_snoc:
  assumes "log_ops lib 1 (rss @ [rs]) = Some ops"
    and "record_op lib kFormatVersionProtobuf (Suc (length rss)) (kHeaderSize + length (records_bytes rs)) r = Inr ops2"
  shows "log_ops lib 1 (rss @ [rs @ [r]]) = Some (ops @ ops2)"
  using assms by (auto simp: log_ops_append records_ops_append split: option.splits)

lemma log_ops_new_segment: "log_ops lib 1 rss = Some ops \<Longrightarrow> log_ops lib 1 (rss @ [[]]) = Some ops"
  by (simp add: log_ops_append)

section \<open>File names\<close>

lemma seg_file_inj [simp]: "seg_file i = seg_file j \<longleftrightarrow> i = j"
  by (simp add: seg_file_def)

lemma wal_name_id_seg [simp]: "i < U64 \<Longrightarrow> wal_name_id (seg_file i) = Some i"
  using stoull_to_string [of i "[]"] by (simp add: wal_name_id_def seg_file_def)

lemma ends_with_4: "length b = 4 \<Longrightarrow> drop (length (a @ b) - 4) (a @ b) = b"
  by simp

lemma wal_name_id_other [simp]:
  "wal_name_id ''meta.json'' = None" "wal_name_id (ckpt_file i) = None" "wal_name_id (ckpt_file i @ ''.tmp'') = None"
  using ends_with_4 [of "''.idx''" "''checkpoint.'' @ nat_to_string i"] ends_with_4 [of "''.tmp''" "ckpt_file i"]
  by (simp_all add: wal_name_id_def ckpt_file_def)

lemma is_ckpt_name_seg [simp]: "\<not> is_ckpt_name (seg_file i)"
  using ends_with_4 [of "''.wal''" "nat_to_string i"] by (simp add: is_ckpt_name_def seg_file_def)

lemma is_ckpt_name_other [simp]:
  "\<not> is_ckpt_name ''meta.json''" "\<not> is_ckpt_name (ckpt_file i @ ''.tmp'')"
  using ends_with_4 [of "''.tmp''" "ckpt_file i"] by (simp_all add: is_ckpt_name_def)

lemma is_ckpt_name_ckpt [simp]: "is_ckpt_name (ckpt_file i)"
  using ends_with_4 [of "''.idx''" "''checkpoint.'' @ nat_to_string i"]
  by (cases "nat_to_string i") (simp_all add: is_ckpt_name_def ckpt_file_def)

lemma ckpt_name_id_ckpt [simp]: "i < U64 \<Longrightarrow> ckpt_name_id (ckpt_file i) = Some i"
  using stoull_to_string [of i "[]"] by (simp add: ckpt_name_id_def ckpt_file_def)

lemma ckpt_file_inj [simp]: "ckpt_file i = ckpt_file j \<longleftrightarrow> i = j"
  by (simp add: ckpt_file_def)

definition ext :: "string \<Rightarrow> string" where
  "ext name = drop (length name - 4) name"

lemma ext_names [simp]:
  "ext (seg_file i) = ''.wal''" "ext ''meta.json'' = ''json''" "ext (ckpt_file i) = ''.idx''"
  "ext (ckpt_file i @ ''.tmp'') = ''.tmp''"
  using ends_with_4 [of "''.wal''" "nat_to_string i"] ends_with_4 [of "''.tmp''" "ckpt_file i"]
    ends_with_4 [of "''.idx''" "''checkpoint.'' @ nat_to_string i"]
  by (simp_all add: ext_def seg_file_def ckpt_file_def)

lemma file_names_differ [simp]:
  "seg_file i \<noteq> ''meta.json''" "''meta.json'' \<noteq> seg_file i" "ckpt_file j \<noteq> seg_file i" "seg_file i \<noteq> ckpt_file j"
  "ckpt_file j \<noteq> ''meta.json''" "''meta.json'' \<noteq> ckpt_file j" "ckpt_file j \<noteq> ckpt_file i @ ''.tmp''"
  "ckpt_file i @ ''.tmp'' \<noteq> ckpt_file j" "seg_file i \<noteq> ckpt_file j @ ''.tmp''" "ckpt_file j @ ''.tmp'' \<noteq> seg_file i"
  "''meta.json'' \<noteq> ckpt_file j @ ''.tmp''" "ckpt_file j @ ''.tmp'' \<noteq> ''meta.json''"
  by (auto dest: arg_cong [where f = ext])

section \<open>The invariant\<close>

text \<open>
  What the libraries document: Protobuf and JSON read back what they wrote, an object with one short key and a number
  prints as a short text, and what \<open>dump(2)\<close> prints can be read from a stream.
\<close>

definition wal_lib_ok :: "WalLib \<Rightarrow> bool" where
  "wal_lib_ok lib \<longleftrightarrow>
     (\<forall>p s. wl_serialize lib p = Some s \<longrightarrow> wl_parse lib s = Some p) \<and>
     (\<forall>k \<in> {''before_index'', ''from_index''}. \<forall>n < U64.
        jl_parse (wl_json lib) (wl_dump lib (JObject [k \<mapsto> JInt (int n)])) = Inr (JObject [k \<mapsto> JInt (int n)])) \<and>
     (\<forall>n. n < U64 \<longrightarrow> length (wl_dump lib (JObject [''before_index'' \<mapsto> JInt (int n)])) \<le> 64 \<and>
        length (wl_dump lib (JObject [''from_index'' \<mapsto> JInt (int n)])) \<le> 64) \<and>
     (\<forall>j. \<exists>j'. wl_stream lib (wl_dump2 lib j) = Inr j')"

text \<open>System calls that succeed, but for \<open>fdatasync\<close> and \<open>rename\<close>.\<close>

definition io_fine :: "WalIO \<Rightarrow> bool" where
  "io_fine io \<longleftrightarrow> io_kind io = Directory \<and> io_opendir io \<and> (\<forall>n. io_open io n) \<and> io_room io = None"

text \<open>
  \<open>rss\<close> lists the records of the segments. A position holds an entry when the record there is its Protobuf form.
\<close>

definition stored :: "WalLib \<Rightarrow> WALRecord list list \<Rightarrow> WALIndexEntry \<Rightarrow> RaftLogEntry \<Rightarrow> bool" where
  "stored lib rss pos e \<longleftrightarrow>
     (\<exists>k rs1 r rs2. wie_segment_id pos = Suc k \<and> k < length rss \<and> rss ! k = rs1 @ r # rs2 \<and>
        wie_file_offset pos = kHeaderSize + length (records_bytes rs1) \<and> wr_type r = kLogEntry \<and>
        wl_serialize lib (entry_proto e) = Some (wr_payload r))"

definition segment_bytes :: "nat \<Rightarrow> WALRecord list \<Rightarrow> string \<Rightarrow> bool" where
  "segment_bytes i rs c \<longleftrightarrow>
     c = segment_header i kFormatVersionProtobuf @ records_bytes rs @ trailer_bytes (kHeaderSize + length (records_bytes rs)) \<or>
     rs = [] \<and> c = segment_header i kFormatVersionProtobuf"

definition slots_fit :: "DenseIndex \<Rightarrow> bool" where
  "slots_fit d \<longleftrightarrow>
     list_all (\<lambda>e. wie_segment_id e < U64 \<and> wie_file_offset e < U64 \<and> wie_length e < U64) (slots d)"

text \<open>A checkpoint is unreadable or holds the index as it was after some record of the segment it covers.\<close>

definition checkpoint_ok :: "WalLib \<Rightarrow> WALRecord list list \<Rightarrow> nat \<Rightarrow> string \<Rightarrow> bool" where
  "checkpoint_ok lib rss i c \<longleftrightarrow>
     (\<exists>st. parse_checkpoint c = Inl st) \<or>
     (\<exists>d before ops k. parse_checkpoint c = Inr (d, i) \<and> di_ok d \<and> slots_fit d \<and>
        log_ops lib 1 (take (i - 1) rss) = Some before \<and>
        records_ops lib kFormatVersionProtobuf i kHeaderSize (rss ! (i - 1)) = Some ops \<and>
        di_Get d = di_Get (foldl dense.op_step di_Clear (before @ take k ops)))"

definition seg_limit :: nat where
  "seg_limit = kMaxSegmentSize + kMaxRecordSize + 10"

definition records_fit :: "WALRecord list \<Rightarrow> bool" where
  "records_fit rs \<longleftrightarrow> list_all record_ok rs \<and> kHeaderSize + length (records_bytes rs) \<le> seg_limit"

definition disk_ok :: "WalLib \<Rightarrow> (string \<times> string) list \<Rightarrow> WALRecord list list \<Rightarrow> bool" where
  "disk_ok lib files rss \<longleftrightarrow>
     rss \<noteq> [] \<and> length rss < U64 \<and> distinct (keys files) \<and> list_all records_fit rss \<and>
     (\<forall>name. name \<in> set (keys files) \<longrightarrow> wal_name_id name \<noteq> None \<longrightarrow>
        (\<exists>i. 1 \<le> i \<and> i \<le> length rss \<and> name = seg_file i)) \<and>
     (\<forall>i. 1 \<le> i \<longrightarrow> i \<le> length rss \<longrightarrow>
        (\<exists>c. map_of files (seg_file i) = Some c \<and> segment_bytes i (rss ! (i - 1)) c)) \<and>
     (\<forall>c. map_of files ''meta.json'' = Some c \<longrightarrow> (\<exists>j. wl_stream lib c = Inr j)) \<and>
     (\<forall>name c. map_of files name = Some c \<longrightarrow> is_ckpt_name name \<longrightarrow>
        (\<exists>i. 1 \<le> i \<and> i \<le> length rss \<and> name = ckpt_file i \<and> checkpoint_ok lib rss i c))"

text \<open>The index \<open>d\<close> is what the segments \<open>lss\<close> give, and stands for the log \<open>m\<close>.\<close>

definition index_ok :: "WalLib \<Rightarrow> WALRecord list list \<Rightarrow> DenseIndex \<Rightarrow> (nat \<rightharpoonup> RaftLogEntry) \<Rightarrow> bool" where
  "index_ok lib lss d m \<longleftrightarrow>
     di_ok d \<and> slots_fit d \<and>
     (\<exists>ops. log_ops lib 1 lss = Some ops \<and> list_all di_valid ops \<and>
        di_Get d = di_Get (foldl dense.op_step di_Clear ops)) \<and>
     (\<forall>i. rel_option (stored lib lss) (di_Get d i) (m i))"

text \<open>The flushed records of the segments and the records in the buffer.\<close>

definition with_pending :: "WALRecord list list \<Rightarrow> WALRecord list \<Rightarrow> WALRecord list list" where
  "with_pending rss pend = butlast rss @ [last rss @ pend]"

definition wal_shape ::
  "WalLib \<Rightarrow> (nat \<rightharpoonup> RaftLogEntry) \<Rightarrow> WALRecord list list \<Rightarrow> WALRecord list \<Rightarrow> WALPersister \<Rightarrow> bool" where
  "wal_shape lib m rss pend w \<longleftrightarrow>
     disk_ok lib (w_files w) rss \<and> records_fit (last rss @ pend) \<and>
     index_ok lib (with_pending rss pend) (w_index w) m \<and>
     seg_id (w_active w) = length rss \<and> seg_fd (w_active w) \<and>
     seg_end_offset (w_active w) = kHeaderSize + length (records_bytes (last rss)) \<and>
     w_buf w = records_bytes pend \<and>
     (\<forall>i f. w_formats w i = Some f \<longrightarrow> f = kFormatVersionProtobuf) \<and>
     (\<forall>i. w_cached w = Some i \<longrightarrow> w_formats w i = Some kFormatVersionProtobuf)"

definition wal_inv :: "WalLib \<Rightarrow> (nat \<rightharpoonup> RaftLogEntry) \<Rightarrow> WALPersister \<Rightarrow> bool" where
  "wal_inv lib m w \<longleftrightarrow> (\<exists>rss pend. wal_shape lib m rss pend w)"

section \<open>Flushing\<close>

lemma with_pending_simps:
  assumes "rss \<noteq> []"
  shows "length (with_pending rss pend) = length rss" "with_pending rss pend \<noteq> []" "with_pending rss [] = rss"
    "last (with_pending rss pend) = last rss @ pend" "butlast (with_pending rss pend) = butlast rss"
    "with_pending (with_pending rss pend) qs = with_pending rss (pend @ qs)"
    "with_pending rss pend ! (length rss - Suc 0) = last rss @ pend"
    "k < length rss - Suc 0 \<Longrightarrow> with_pending rss pend ! k = rss ! k"
    "k < length rss \<Longrightarrow> take k (with_pending rss pend) = take k rss"
  using assms
  by (auto simp: with_pending_def nth_append nth_butlast take_butlast)

lemma write_at_end: "length t \<le> length data \<Longrightarrow> write_at (length a) data (a @ t) = a @ data"
  by (simp add: write_at_def)

lemma record_bytes_long: "pend \<noteq> [] \<Longrightarrow> kTrailerSize \<le> length (records_bytes pend)"
  by (cases pend) (simp_all add: kTrailerSize_def)

lemma records_ops_prefix:
  assumes "records_ops lib fmt sid off (rs @ qs) = Some ops"
  obtains ops1 ops2 where "records_ops lib fmt sid off rs = Some ops1" and "ops = ops1 @ ops2"
  using assms by (auto simp: records_ops_append split: option.splits)

lemma checkpoint_ok_pending:
  assumes "checkpoint_ok lib rss i c" and "1 \<le> i" and "i \<le> length rss" and "rss \<noteq> []"
    and "log_ops lib 1 (with_pending rss pend) = Some ops"
  shows "checkpoint_ok lib (with_pending rss pend) i c"
  using assms(1) unfolding checkpoint_ok_def
proof (elim disjE exE conjE, goal_cases)
  case (2 d before ops1 k)
  have t: "take (i - 1) (with_pending rss pend) = take (i - 1) rss"
    using assms(2-4) by (intro with_pending_simps(9)) simp_all
  show ?case
  proof (cases "i = length rss")
    case True
    have "records_ops lib kFormatVersionProtobuf (length rss) kHeaderSize (last rss @ pend) \<noteq> None"
      using assms(4,5) by (auto simp: with_pending_def log_ops_append length_greater_0_conv [symmetric] split: option.splits simp del: length_greater_0_conv)
    then obtain ops2 where o: "records_ops lib kFormatVersionProtobuf i kHeaderSize (last rss @ pend) = Some ops2"
      using True by auto
    moreover have "rss ! (i - 1) = last rss" using True assms(4) by (simp add: last_conv_nth)
    ultimately obtain ops3 where "ops2 = ops1 @ ops3"
      using 2(5) records_ops_prefix [OF o] by (metis option.inject)
    then have "take k ops1 = take (min k (length ops1)) ops2" by (simp add: min_def)
    then have "di_Get d = di_Get (foldl dense.op_step di_Clear (before @ take (min k (length ops1)) ops2))"
      using 2(6) by (simp only:)
    moreover have "with_pending rss pend ! (i - 1) = last rss @ pend" using True assms(4) by (simp add: with_pending_simps)
    ultimately show ?thesis using 2 o t by metis
  next
    case False
    then have "with_pending rss pend ! (i - 1) = rss ! (i - 1)"
      using assms(2-4) by (simp add: with_pending_simps)
    then show ?thesis using 2 t by metis
  qed
qed blast

lemma disk_ok_flushed:
  assumes d: "disk_ok lib files rss" and "records_fit (last rss @ pend)"
    and "segment_bytes (length rss) (last rss @ pend) c" and "log_ops lib 1 (with_pending rss pend) = Some ops"
  shows "disk_ok lib (AList.update (seg_file (length rss)) c files) (with_pending rss pend)"
proof -
  have r: "rss \<noteq> []" using d by (simp add: disk_ok_def)
  note [simp] = with_pending_simps [OF r]
  have f: "list_all records_fit (with_pending rss pend)"
    using d assms(2) by (auto simp: with_pending_def disk_ok_def list_all_iff dest: in_set_butlastD)
  have s: "\<exists>c'. map_of (AList.update (seg_file (length rss)) c files) (seg_file i) = Some c' \<and>
      segment_bytes i (with_pending rss pend ! (i - 1)) c'" if "1 \<le> i" "i \<le> length rss" for i
  proof (cases "i = length rss")
    case False
    then have "with_pending rss pend ! (i - 1) = rss ! (i - 1)" using that by simp
    then show ?thesis using d that False by (auto simp: disk_ok_def)
  qed (use assms(3) in simp)
  have k: "\<exists>i. 1 \<le> i \<and> i \<le> length rss \<and> name = ckpt_file i \<and> checkpoint_ok lib (with_pending rss pend) i c'"
    if "map_of (AList.update (seg_file (length rss)) c files) name = Some c'" "is_ckpt_name name" for name c'
  proof -
    have "map_of files name = Some c'" and "is_ckpt_name name" using that by (auto split: if_splits)
    then obtain i where "1 \<le> i" "i \<le> length rss" "name = ckpt_file i" "checkpoint_ok lib rss i c'"
      using d unfolding disk_ok_def by blast
    then show ?thesis using checkpoint_ok_pending [OF _ _ _ r assms(4)] by blast
  qed
  have n: "\<exists>i. 1 \<le> i \<and> i \<le> length rss \<and> name = seg_file i"
    if "name \<in> set (keys (AList.update (seg_file (length rss)) c files))" "wal_name_id name \<noteq> None" for name
  proof (cases "name = seg_file (length rss)")
    case True
    then show ?thesis using r by (intro exI [of _ "length rss"]) (simp add: Suc_le_eq)
  next
    case False
    then have "name \<in> set (keys files)" using that(1) by (simp only: keys_update) blast
    then show ?thesis using d that(2) unfolding disk_ok_def by blast
  qed
  show ?thesis
    using d r f s k n unfolding disk_ok_def by (simp add: map_of_update)
qed

lemma index_ok_ops: "index_ok lib lss d m \<Longrightarrow> \<exists>ops. log_ops lib 1 lss = Some ops"
  by (auto simp: index_ok_def)

lemma flush_shape:
  assumes io: "io_fine io" and w: "wal_shape lib m rss pend w"
  shows "\<exists>w'. FlushWriteBufferLocked io w = (OK, w') \<and> wal_shape lib m (with_pending rss pend) [] w'"
proof (cases "pend = []")
  case True
  have "rss \<noteq> []" using w by (simp add: wal_shape_def disk_ok_def)
  then show ?thesis using w True by (simp add: FlushWriteBufferLocked_def wal_shape_def with_pending_simps)
next
  case False
  let ?n = "length rss" and ?b = "records_bytes pend"
  have d: "disk_ok lib (w_files w) rss" and fit: "records_fit (last rss @ pend)"
    and a: "seg_id (w_active w) = ?n" "seg_fd (w_active w)"
      "seg_end_offset (w_active w) = kHeaderSize + length (records_bytes (last rss))" "w_buf w = ?b"
    and ix: "index_ok lib (with_pending rss pend) (w_index w) m"
    using w by (simp_all add: wal_shape_def)
  have r: "rss \<noteq> []" using d by (simp add: disk_ok_def)
  have last: "rss ! (?n - 1) = last rss" using r by (simp add: last_conv_nth)
  have "1 \<le> ?n" using r by (cases rss) auto
  then obtain c where c: "map_of (w_files w) (seg_file ?n) = Some c" "segment_bytes ?n (rss ! (?n - 1)) c"
    using d unfolding disk_ok_def by blast
  define base where "base = segment_header ?n kFormatVersionProtobuf @ records_bytes (last rss)"
  have lb: "length base = seg_end_offset (w_active w)" by (simp add: base_def a)
  obtain t where t: "c = base @ t" "length t \<le> kTrailerSize"
    using c(2) last by (auto simp: segment_bytes_def base_def)
  let ?t = "trailer_bytes (kHeaderSize + length (records_bytes (last rss @ pend)))"
  have e: "seg_end_offset (w_active w) + length ?b = kHeaderSize + length (records_bytes (last rss @ pend))"
    by (simp add: a)
  have w1: "write_at (seg_end_offset (w_active w)) ?b c = base @ ?b"
    using write_at_end [of t ?b base] t record_bytes_long [OF False] by (simp add: lb)
  have w2: "write_at (seg_end_offset (w_active w) + length ?b) ?t (base @ ?b) = base @ ?b @ ?t"
    using write_at_end [of "[]" ?t "base @ ?b"] by (simp add: lb [symmetric])
  let ?w = "(put_file (seg_file ?n) (base @ ?b @ ?t) w)
      \<lparr>w_active := (w_active w)\<lparr>seg_end_offset := kHeaderSize + length (records_bytes (last rss @ pend))\<rparr>, w_buf := []\<rparr>"
  have "?b \<noteq> []" using record_bytes_long [OF False] by (auto simp: kTrailerSize_def)
  then have f: "FlushWriteBufferLocked io w = (OK, ?w)"
    using io a c w1 w2 e
    by (simp add: FlushWriteBufferLocked_def Let_def contents_def room_for_def io_fine_def put_file_def add.assoc)
  obtain ops where ops: "log_ops lib 1 (with_pending rss pend) = Some ops" using index_ok_ops [OF ix] by blast
  have sb: "segment_bytes ?n (last rss @ pend) (base @ ?b @ ?t)" by (simp add: segment_bytes_def base_def)
  have "wal_shape lib m (with_pending rss pend) [] ?w"
    using w disk_ok_flushed [OF d fit sb ops] r fit ix
    by (simp add: wal_shape_def put_file_def with_pending_simps)
  then show ?thesis using f by blast
qed

section \<open>New segments\<close>

lemma segments_stored_mono:
  assumes "stored lib rss pos e" and "length rss \<le> length rss'" and "\<And>k. k < length rss \<Longrightarrow> \<exists>qs. rss' ! k = rss ! k @ qs"
  shows "stored lib rss' pos e"
proof -
  obtain k rs1 r rs2 where s: "wie_segment_id pos = Suc k" "k < length rss" "rss ! k = rs1 @ r # rs2"
      "wie_file_offset pos = kHeaderSize + length (records_bytes rs1)" "wr_type r = kLogEntry"
      "wl_serialize lib (entry_proto e) = Some (wr_payload r)"
    using assms(1) unfolding stored_def by blast
  obtain qs where "rss' ! k = rs1 @ r # (rs2 @ qs)" using assms(3) [OF s(2)] s(3) by auto
  then show ?thesis using s assms(2) unfolding stored_def by (meson less_le_trans)
qed

lemma rel_stored_mono:
  assumes "rel_option (stored lib rss) p e" and "\<And>x y. stored lib rss x y \<Longrightarrow> stored lib rss' x y"
  shows "rel_option (stored lib rss') p e"
  using assms by (cases p; cases e) simp_all

lemma stored_new_segment: "stored lib rss pos e \<Longrightarrow> stored lib (rss @ [[]]) pos e"
  by (erule segments_stored_mono) (auto simp: nth_append)

lemma index_ok_new_segment:
  assumes "index_ok lib lss d m"
  shows "index_ok lib (lss @ [[]]) d m"
  using assms log_ops_new_segment rel_stored_mono [OF _ stored_new_segment]
  unfolding index_ok_def by blast

lemma checkpoint_ok_new_segment:
  assumes "checkpoint_ok lib rss i c" and "1 \<le> i" and "i \<le> length rss"
  shows "checkpoint_ok lib (rss @ [[]]) i c"
proof -
  have "i - 1 < length rss" using assms(2,3) by simp
  then have "take (i - 1) (rss @ [[]]) = take (i - 1) rss" "(rss @ [[]]) ! (i - 1) = rss ! (i - 1)"
    by (simp_all add: nth_append)
  then show ?thesis using assms(1) by (simp only: checkpoint_ok_def)
qed

lemma records_fit_Nil [simp]: "records_fit []"
  by (simp add: records_fit_def seg_limit_def kHeaderSize_def kMaxSegmentSize_def)

lemma disk_ok_new_segment:
  assumes d: "disk_ok lib files rss" and n: "Suc (length rss) < U64" and j: "wl_stream lib meta = Inr j"
  shows "disk_ok lib (AList.update ''meta.json'' meta
    (AList.update (seg_file (Suc (length rss))) (segment_header (Suc (length rss)) kFormatVersionProtobuf) files))
    (rss @ [[]])"
proof -
  let ?h = "segment_header (Suc (length rss)) kFormatVersionProtobuf"
  let ?f = "AList.update ''meta.json'' meta (AList.update (seg_file (Suc (length rss))) ?h files)"
  have s: "\<exists>c. map_of ?f (seg_file i) = Some c \<and> segment_bytes i ((rss @ [[]]) ! (i - 1)) c"
    if "1 \<le> i" "i \<le> Suc (length rss)" for i
  proof (cases "i = Suc (length rss)")
    case False
    then have "i - 1 < length rss" "i \<le> length rss" using that by auto
    then show ?thesis using d that(1) False by (auto simp: disk_ok_def nth_append)
  qed (simp add: segment_bytes_def)
  have k: "\<exists>i. 1 \<le> i \<and> i \<le> Suc (length rss) \<and> name = ckpt_file i \<and> checkpoint_ok lib (rss @ [[]]) i c"
    if "map_of ?f name = Some c" "is_ckpt_name name" for name c
  proof -
    have "map_of files name = Some c" and "is_ckpt_name name" using that by (auto split: if_splits)
    then obtain i where "1 \<le> i" "i \<le> length rss" "name = ckpt_file i" "checkpoint_ok lib rss i c"
      using d unfolding disk_ok_def by blast
    then show ?thesis using checkpoint_ok_new_segment by (intro exI [of _ i]) simp
  qed
  have w: "\<exists>i. 1 \<le> i \<and> i \<le> Suc (length rss) \<and> name = seg_file i"
    if "name \<in> set (keys ?f)" "wal_name_id name \<noteq> None" for name
  proof (cases "name = seg_file (Suc (length rss))")
    case False
    have "name \<noteq> ''meta.json''" using that(2) by auto
    then have "name \<in> set (keys files)" using that(1) False by (simp only: keys_update) blast
    then show ?thesis using d that(2) unfolding disk_ok_def by (meson le_SucI)
  qed auto
  have "list_all records_fit (rss @ [[]])" "distinct (keys ?f)" using d by (simp_all add: disk_ok_def)
  then show ?thesis using s k w n j unfolding disk_ok_def by simp
qed

lemma create_shape:
  assumes io: "io_fine io" and lib: "wal_lib_ok lib" and w: "wal_shape lib m rss [] w" and n: "Suc (length rss) < U64"
  shows "\<exists>w'. CreateSegment lib io (Suc (length rss)) (w\<lparr>w_active := (w_active w)\<lparr>seg_fd := False\<rparr>\<rparr>) = (OK, w') \<and>
    wal_shape lib m (rss @ [[]]) [] w'"
proof -
  have r: "rss \<noteq> []" using w by (simp add: wal_shape_def disk_ok_def)
  have ix: "index_ok lib (with_pending rss []) (w_index w) m" and d: "disk_ok lib (w_files w) rss"
    using w by (simp_all add: wal_shape_def)
  have ix': "index_ok lib (with_pending (rss @ [[]]) []) (w_index w) m"
    using index_ok_new_segment [OF ix] by (simp add: with_pending_simps r)
  let ?i = "Suc (length rss)"
  let ?a = "\<lparr>seg_id = ?i, seg_fd = True, seg_end_offset = kHeaderSize, seg_entry_count = 0,
      seg_format_version = kFormatVersionProtobuf\<rparr>"
  let ?w = "put_file (seg_file ?i) (segment_header ?i kFormatVersionProtobuf)
      (w\<lparr>w_active := ?a, w_formats := (w_formats w)(?i \<mapsto> kFormatVersionProtobuf)\<rparr>)"
  let ?meta = "wl_dump2 lib (meta_json ?w)"
  obtain j where j: "wl_stream lib ?meta = Inr j" using lib unfolding wal_lib_ok_def by blast
  have "CreateSegment lib io ?i (w\<lparr>w_active := (w_active w)\<lparr>seg_fd := False\<rparr>\<rparr>) = (OK, put_file ''meta.json'' ?meta ?w)"
    using io by (simp add: CreateSegment_def SaveMeta_def io_fine_def room_for_def put_file_def Let_def)
  moreover have "wal_shape lib m (rss @ [[]]) [] (put_file ''meta.json'' ?meta ?w)"
    using w ix' disk_ok_new_segment [OF d n j] by (simp add: wal_shape_def put_file_def)
  ultimately show ?thesis by blast
qed

lemma rotate_shape:
  assumes io: "io_fine io" and lib: "wal_lib_ok lib" and w: "wal_shape lib m rss pend w" and n: "Suc (length rss) < U64"
  shows "\<exists>w' rss' pend'. RotateSegmentIfNeeded lib io w = (OK, w') \<and> wal_shape lib m rss' pend' w' \<and>
    kHeaderSize + length (records_bytes (last rss' @ pend')) < kMaxSegmentSize"
proof (cases "kMaxSegmentEntries \<le> seg_entry_count (w_active w) \<or>
    kMaxSegmentSize \<le> seg_end_offset (w_active w) + length (w_buf w)")
  case True
  obtain w1 where w1: "FlushWriteBufferLocked io w = (OK, w1)" "wal_shape lib m (with_pending rss pend) [] w1"
    using flush_shape [OF io w] by blast
  have r: "rss \<noteq> []" using w by (simp add: wal_shape_def disk_ok_def)
  have l: "length (with_pending rss pend) = length rss" by (simp add: with_pending_simps r)
  obtain w2 where w2: "CreateSegment lib io (Suc (length rss)) (w1\<lparr>w_active := (w_active w1)\<lparr>seg_fd := False\<rparr>\<rparr>) = (OK, w2)"
      "wal_shape lib m (with_pending rss pend @ [[]]) [] w2"
    using create_shape [OF io lib w1(2)] n unfolding l by blast
  have "seg_id (w_active w1) = length rss" using w1(2) l by (simp add: wal_shape_def)
  then have "RotateSegmentIfNeeded lib io w = (OK, w2)"
    using True w1(1) w2(1) n by (simp add: RotateSegmentIfNeeded_def and_then_def u64_add_def)
  moreover have "kHeaderSize + length (records_bytes (last (with_pending rss pend @ [[]]) @ [])) < kMaxSegmentSize"
    by (simp add: kHeaderSize_def kMaxSegmentSize_def)
  ultimately show ?thesis using w2(2) by blast
next
  case False
  then have "RotateSegmentIfNeeded lib io w = (OK, w)" by (simp add: RotateSegmentIfNeeded_def)
  moreover have "kHeaderSize + length (records_bytes (last rss @ pend)) < kMaxSegmentSize"
    using False w by (simp add: wal_shape_def not_le)
  ultimately show ?thesis using w by blast
qed

section \<open>Appending\<close>

lemma slots_fit_Put:
  assumes "slots_fit d" and "wie_segment_id e < U64" "wie_file_offset e < U64" "wie_length e < U64"
  shows "slots_fit (di_Put i e d)"
proof -
  have z: "0 < U64" by (simp add: U64_def)
  have "slots_fit (di_reach i d)"
    using assms(1) z by (auto simp: slots_fit_def di_reach_def empty_slot_def list_all_iff)
  then have "slots_fit (di_Put i e d)" if "slots d \<noteq> []"
    using assms(2-4) that set_update_subset_insert [of "slots (di_reach i d)" "i - first_index (di_reach i d)" e]
    by (auto simp: di_Put_reach slots_fit_def list_all_iff)
  moreover have "slots_fit (di_Put i e d)" if "slots d = []" using assms(2-4) that by (simp add: di_Put_def slots_fit_def)
  ultimately show ?thesis by blast
qed

lemma slots_fit_cut: "slots_fit d \<Longrightarrow> slots_fit (di_TruncatePrefix b d)" "slots_fit d \<Longrightarrow> slots_fit (di_TruncateSuffix f d)"
  by (auto simp: slots_fit_def list_all_iff di_TruncatePrefix_def di_TruncateSuffix_def di_Clear_def Let_def
      dest: in_set_dropD in_set_takeD)

lemma index_ok_record:
  assumes ix: "index_ok lib (rss @ [rs]) d m"
    and op: "record_op lib kFormatVersionProtobuf (Suc (length rss)) (kHeaderSize + length (records_bytes rs)) r = Inr ops2"
    and v: "list_all di_valid ops2" and "slots_fit (foldl dense.op_step d ops2)"
    and "\<And>i. rel_option (stored lib (rss @ [rs @ [r]])) (di_Get (foldl dense.op_step d ops2) i) (m' i)"
  shows "index_ok lib (rss @ [rs @ [r]]) (foldl dense.op_step d ops2) m'"
proof -
  obtain ops where ok: "di_ok d" and ops: "log_ops lib 1 (rss @ [rs]) = Some ops" "list_all di_valid ops"
      and g: "di_Get d = di_Get (foldl dense.op_step di_Clear ops)"
    using ix unfolding index_ok_def by blast
  have "di_Get (foldl dense.op_step d ops2) = di_Get (foldl dense.op_step di_Clear (ops @ ops2))"
    using dense.lookup_run [OF ok v] dense.lookup_run [OF dense.inv_run [OF di_Clear_ok(1) ops(2)] v] g by simp
  moreover have "log_ops lib 1 (rss @ [rs @ [r]]) = Some (ops @ ops2)" by (rule log_ops_snoc [OF ops(1) op])
  moreover have "list_all di_valid (ops @ ops2)" using ops(2) v by simp
  ultimately show ?thesis
    using assms(4,5) dense.inv_run [OF ok v] unfolding index_ok_def by blast
qed

lemma stored_append: "stored lib (rss @ [rs]) pos e \<Longrightarrow> stored lib (rss @ [rs @ qs]) pos e"
  by (erule segments_stored_mono) (auto simp: nth_append less_Suc_eq)

text \<open>The three records and what they do to the log.\<close>

lemma index_ok_put:
  assumes ix: "index_ok lib (rss @ [rs]) d m" and lib: "wal_lib_ok lib"
    and s: "wl_serialize lib (entry_proto e) = Some pl" and i: "e_index e < U32" and n: "Suc (length rss) < U64"
    and o: "kHeaderSize + length (records_bytes rs) < U64" and l: "10 + length pl < U64"
  shows "index_ok lib (rss @ [rs @ [\<lparr>wr_type = kLogEntry, wr_payload = pl\<rparr>]])
    (di_Put (e_index e) \<lparr>wie_segment_id = Suc (length rss), wie_file_offset = kHeaderSize + length (records_bytes rs),
       wie_length = 10 + length pl\<rparr> d) (m(e_index e \<mapsto> e))"
proof -
  let ?pos = "\<lparr>wie_segment_id = Suc (length rss), wie_file_offset = kHeaderSize + length (records_bytes rs),
       wie_length = 10 + length pl\<rparr>"
  let ?r = "\<lparr>wr_type = kLogEntry, wr_payload = pl\<rparr>"
  have v: "di_valid (Put (e_index e) ?pos)" using i by (simp add: U32_def U64_def)
  have "wl_parse lib pl = Some (entry_proto e)" using lib s unfolding wal_lib_ok_def by blast
  then have op: "record_op lib kFormatVersionProtobuf (Suc (length rss)) (kHeaderSize + length (records_bytes rs)) ?r =
      Inr [Put (e_index e) ?pos]"
    by (simp add: record_op_def ExtractLogIndexFromPayload_def entry_proto_def)
  have st: "stored lib (rss @ [rs @ [?r]]) ?pos e"
    unfolding stored_def using s by (intro exI [of _ "length rss"] exI [of _ rs] exI [of _ ?r] exI [of _ "[]"]) simp
  have old: "rel_option (stored lib (rss @ [rs])) (di_Get d j) (m j)" for j using ix by (simp add: index_ok_def)
  have rel: "rel_option (stored lib (rss @ [rs @ [?r]])) (di_Get (di_Put (e_index e) ?pos d) j) ((m(e_index e \<mapsto> e)) j)" for j
    using st rel_stored_mono [OF old stored_append] by (simp add: di_Put_Get [OF v])
  have "slots_fit (di_Put (e_index e) ?pos d)" using ix n o l by (intro slots_fit_Put) (simp_all add: index_ok_def)
  with index_ok_record [OF ix op, of "m(e_index e \<mapsto> e)"] v rel show ?thesis by simp
qed

lemma json_u64_dump:
  assumes "wal_lib_ok lib" and "n < U64" and "k \<in> {''before_index'', ''from_index''}"
  shows "json_u64 (wl_json lib) (wl_dump lib (JObject [k \<mapsto> JInt (int n)])) k = Inr n"
proof -
  have "jl_parse (wl_json lib) (wl_dump lib (JObject [k \<mapsto> JInt (int n)])) = Inr (JObject [k \<mapsto> JInt (int n)])"
    using assms unfolding wal_lib_ok_def by blast
  moreover have "int n mod 2 ^ 64 = int n" using assms(2) by (simp add: U64_def)
  ultimately show ?thesis by (simp add: json_u64_def req_field_def get_u64.simps)
qed

lemma rel_restrict:
  "(\<And>i. rel_option R (f i) (g i)) \<Longrightarrow> rel_option R ((f |` A) i) ((g |` A) i)"
  by (simp add: restrict_map_def)

lemma index_ok_prefix:
  assumes ix: "index_ok lib (rss @ [rs]) d m" and lib: "wal_lib_ok lib" and b: "b < U64"
  shows "index_ok lib (rss @ [rs @ [\<lparr>wr_type = kTruncatePrefix,
      wr_payload = wl_dump lib (JObject [''before_index'' \<mapsto> JInt (int b)])\<rparr>]]) (di_TruncatePrefix b d) (m |` {b..})"
proof -
  let ?r = "\<lparr>wr_type = kTruncatePrefix, wr_payload = wl_dump lib (JObject [''before_index'' \<mapsto> JInt (int b)])\<rparr>"
  have op: "record_op lib kFormatVersionProtobuf (Suc (length rss)) (kHeaderSize + length (records_bytes rs)) ?r = Inr [Cut_prefix b]"
    using json_u64_dump [OF lib b, of "''before_index''"] by (simp add: record_op_def kTruncatePrefix_def kLogEntry_def)
  have ok: "di_ok d" and rel: "\<And>i. rel_option (stored lib (rss @ [rs])) (di_Get d i) (m i)"
    using ix by (simp_all add: index_ok_def)
  have "rel_option (stored lib (rss @ [rs @ [?r]])) (di_Get (di_TruncatePrefix b d) i) ((m |` {b..}) i)" for i
    unfolding di_TruncatePrefix_Get [OF ok] by (rule rel_restrict) (rule rel_stored_mono [OF rel stored_append])
  with index_ok_record [OF ix op, of "m |` {b..}"] slots_fit_cut(1) [of d b] ix show ?thesis by (simp add: index_ok_def)
qed

lemma index_ok_suffix:
  assumes ix: "index_ok lib (rss @ [rs]) d m" and lib: "wal_lib_ok lib" and b: "b < U64"
  shows "index_ok lib (rss @ [rs @ [\<lparr>wr_type = kTruncateSuffix,
      wr_payload = wl_dump lib (JObject [''from_index'' \<mapsto> JInt (int b)])\<rparr>]]) (di_TruncateSuffix b d) (m |` {..<b})"
proof -
  let ?r = "\<lparr>wr_type = kTruncateSuffix, wr_payload = wl_dump lib (JObject [''from_index'' \<mapsto> JInt (int b)])\<rparr>"
  have op: "record_op lib kFormatVersionProtobuf (Suc (length rss)) (kHeaderSize + length (records_bytes rs)) ?r = Inr [Cut_suffix b]"
    using json_u64_dump [OF lib b, of "''from_index''"] by (simp add: record_op_def kTruncatePrefix_def kTruncateSuffix_def kLogEntry_def)
  have ok: "di_ok d" and rel: "\<And>i. rel_option (stored lib (rss @ [rs])) (di_Get d i) (m i)"
    using ix by (simp_all add: index_ok_def)
  have "rel_option (stored lib (rss @ [rs @ [?r]])) (di_Get (di_TruncateSuffix b d) i) ((m |` {..<b}) i)" for i
    unfolding di_TruncateSuffix_Get [OF ok] by (rule rel_restrict) (rule rel_stored_mono [OF rel stored_append])
  with index_ok_record [OF ix op, of "m |` {..<b}"] slots_fit_cut(2) [of d b] ix show ?thesis by (simp add: index_ok_def)
qed

lemma flush_index:
  "FlushWriteBufferLocked io (w\<lparr>w_index := d\<rparr>) = apsnd (\<lambda>w. w\<lparr>w_index := d\<rparr>) (FlushWriteBufferLocked io w)"
  by (simp add: FlushWriteBufferLocked_def Let_def put_file_def contents_def)

lemma flush_keeps:
  "FlushWriteBufferLocked io w = (st, w') \<Longrightarrow> w_index w' = w_index w \<and> seg_id (w_active w') = seg_id (w_active w)"
  by (auto simp: FlushWriteBufferLocked_def Let_def put_file_def split: if_splits)

lemma append_shape:
  assumes io: "io_fine io" and w: "wal_shape lib m rss pend w" and r: "record_ok r"
    and room: "kHeaderSize + length (records_bytes (last rss @ pend)) < kMaxSegmentSize"
    and ix: "index_ok lib (with_pending rss (pend @ [r])) d m'"
  shows "\<exists>w' rss' pend'. AppendRecordToBufferLocked io r w =
      ((OK, w'), kHeaderSize + length (records_bytes (last rss @ pend)), length (record_bytes r)) \<and>
    w_index w' = w_index w \<and> seg_id (w_active w') = length rss \<and> wal_shape lib m' rss' pend' (w'\<lparr>w_index := d\<rparr>)"
proof -
  let ?w = "w\<lparr>w_buf := w_buf w @ record_bytes r\<rparr>"
  have "records_fit (last rss @ pend @ [r])"
    using w r room by (auto simp: wal_shape_def records_fit_def seg_limit_def record_ok_def)
  then have s: "wal_shape lib m' rss (pend @ [r]) (?w\<lparr>w_index := d\<rparr>)"
    using w ix by (simp add: wal_shape_def)
  have id: "seg_id (w_active w) = length rss" and off: "seg_end_offset (w_active w) + length (w_buf w) =
      kHeaderSize + length (records_bytes (last rss @ pend))"
    using w by (simp_all add: wal_shape_def)
  have small: "\<not> kMaxRecordSize < length (wr_payload r)" using r by (simp add: record_ok_def)
  show ?thesis
  proof (cases "kWriteBufferSize \<le> length (w_buf ?w)")
    case True
    obtain w2 where w2: "FlushWriteBufferLocked io (?w\<lparr>w_index := d\<rparr>) = (OK, w2)"
        "wal_shape lib m' (with_pending rss (pend @ [r])) [] w2"
      using flush_shape [OF io s] by blast
    obtain st w3 where w3: "FlushWriteBufferLocked io ?w = (st, w3)" by fastforce
    have "st = OK" "w2 = w3\<lparr>w_index := d\<rparr>" using w2(1) w3 flush_index [of io d ?w] by simp_all
    then have "wal_shape lib m' (with_pending rss (pend @ [r])) [] (w3\<lparr>w_index := d\<rparr>)"
      and "FlushWriteBufferLocked io ?w = (OK, w3)" using w2(2) w3 by simp_all
    then show ?thesis
      using True small off id flush_keeps [OF w3] by (simp add: AppendRecordToBufferLocked_def Let_def) blast
  next
    case False
    then show ?thesis using s small off id by (simp add: AppendRecordToBufferLocked_def Let_def) blast
  qed
qed

text \<open>The rotation, then the record: the common part of the three operations.\<close>

lemma shape_ready:
  assumes "wal_shape lib m rss pend w"
  shows "rss \<noteq> []" "index_ok lib (butlast rss @ [last rss @ pend]) (w_index w) m" "length (butlast rss) = length rss - 1"
    "Suc (length (butlast rss)) = length rss" "length rss < U64"
    "kHeaderSize + length (records_bytes (last rss @ pend)) < U64"
proof -
  show r: "rss \<noteq> []" using assms by (simp add: wal_shape_def disk_ok_def)
  show "index_ok lib (butlast rss @ [last rss @ pend]) (w_index w) m"
    using assms by (simp add: wal_shape_def with_pending_def)
  show "length (butlast rss) = length rss - 1" "Suc (length (butlast rss)) = length rss" using r by (simp_all add: Suc_leI)
  show "length rss < U64" using assms by (simp add: wal_shape_def disk_ok_def)
  have "seg_limit < U64" by (simp add: seg_limit_def kMaxSegmentSize_def kMaxRecordSize_def U64_def)
  then show "kHeaderSize + length (records_bytes (last rss @ pend)) < U64"
    using assms by (simp add: wal_shape_def records_fit_def)
qed

lemma append_entry_inv:
  assumes io: "io_fine io" and lib: "wal_lib_ok lib" and w: "wal_inv lib m w" and i: "e_index e < U32"
    and s: "wl_serialize lib (entry_proto e) = Some pl" and l: "length pl \<le> kMaxRecordSize"
    and n: "Suc (seg_id (w_active w)) < U64"
  shows "\<exists>w'. AppendLogEntry_wal lib io e w = (OK, w') \<and> wal_inv lib (m(e_index e \<mapsto> e)) w'"
proof -
  obtain rss0 pend0 where w0: "wal_shape lib m rss0 pend0 w" using w unfolding wal_inv_def by blast
  then have "Suc (length rss0) < U64" using n by (simp add: wal_shape_def)
  then obtain w1 rss pend where w1: "RotateSegmentIfNeeded lib io w = (OK, w1)" "wal_shape lib m rss pend w1"
      and room: "kHeaderSize + length (records_bytes (last rss @ pend)) < kMaxSegmentSize"
    using rotate_shape [OF io lib w0] by blast
  note ready = shape_ready [OF w1(2)]
  let ?r = "\<lparr>wr_type = kLogEntry, wr_payload = pl\<rparr>"
  let ?d = "di_Put (e_index e) \<lparr>wie_segment_id = length rss, wie_file_offset =
      kHeaderSize + length (records_bytes (last rss @ pend)), wie_length = 10 + length pl\<rparr> (w_index w1)"
  have "10 + length pl < U64" using l by (simp add: kMaxRecordSize_def U64_def)
  then have ix: "index_ok lib (with_pending rss (pend @ [?r])) ?d (m(e_index e \<mapsto> e))"
    using index_ok_put [OF ready(2) lib s i, unfolded ready(4)] ready(5,6) by (simp add: with_pending_def)
  have "record_ok ?r" using l by (simp add: record_ok_def kLogEntry_def)
  from append_shape [OF io w1(2) this room ix] obtain w2 rss' pend' where
    w2: "AppendRecordToBufferLocked io ?r w1 =
      ((OK, w2), kHeaderSize + length (records_bytes (last rss @ pend)), length (record_bytes ?r))"
      "w_index w2 = w_index w1" "seg_id (w_active w2) = length rss"
      and sh: "wal_shape lib (m(e_index e \<mapsto> e)) rss' pend' (w2\<lparr>w_index := ?d\<rparr>)" by blast
  let ?w = "w2\<lparr>w_index := ?d, w_active := (w_active w2)\<lparr>seg_entry_count := seg_entry_count (w_active w2) + 1\<rparr>\<rparr>"
  have "AppendLogEntry_wal lib io e w = (OK, ?w)"
    using s w1(1) w2 by (simp add: AppendLogEntry_wal_def and_then_def)
  moreover have "wal_shape lib (m(e_index e \<mapsto> e)) rss' pend' ?w" using sh by (simp add: wal_shape_def)
  ultimately show ?thesis unfolding wal_inv_def by blast
qed

lemma truncate_inv:
  assumes io: "io_fine io" and lib: "wal_lib_ok lib" and w: "wal_inv lib m w" and b: "b < U64"
    and n: "Suc (seg_id (w_active w)) < U64"
  shows "\<exists>w'. AppendTruncatePrefix lib io b w = (OK, w') \<and> wal_inv lib (m |` {b..}) w'"
    and "\<exists>w'. AppendTruncateSuffix lib io b w = (OK, w') \<and> wal_inv lib (m |` {..<b}) w'"
proof -
  obtain rss0 pend0 where w0: "wal_shape lib m rss0 pend0 w" using w unfolding wal_inv_def by blast
  then have "Suc (length rss0) < U64" using n by (simp add: wal_shape_def)
  then obtain w1 rss pend where w1: "RotateSegmentIfNeeded lib io w = (OK, w1)" "wal_shape lib m rss pend w1"
      and room: "kHeaderSize + length (records_bytes (last rss @ pend)) < kMaxSegmentSize"
    using rotate_shape [OF io lib w0] by blast
  note ready = shape_ready [OF w1(2)]
  let ?p = "\<lparr>wr_type = kTruncatePrefix, wr_payload = wl_dump lib (JObject [''before_index'' \<mapsto> JInt (int b)])\<rparr>"
  let ?s = "\<lparr>wr_type = kTruncateSuffix, wr_payload = wl_dump lib (JObject [''from_index'' \<mapsto> JInt (int b)])\<rparr>"
  have "length (wr_payload ?p) \<le> 64" "length (wr_payload ?s) \<le> 64" using lib b by (simp_all add: wal_lib_ok_def)
  then have rp: "record_ok ?p" and rs: "record_ok ?s"
    by (simp_all add: record_ok_def kTruncatePrefix_def kTruncateSuffix_def kMaxRecordSize_def)
  have ip: "index_ok lib (with_pending rss (pend @ [?p])) (di_TruncatePrefix b (w_index w1)) (m |` {b..})"
    using index_ok_prefix [OF ready(2) lib b] by (simp add: with_pending_def)
  have isx: "index_ok lib (with_pending rss (pend @ [?s])) (di_TruncateSuffix b (w_index w1)) (m |` {..<b})"
    using index_ok_suffix [OF ready(2) lib b] by (simp add: with_pending_def)
  show "\<exists>w'. AppendTruncatePrefix lib io b w = (OK, w') \<and> wal_inv lib (m |` {b..}) w'"
    using append_shape [OF io w1(2) rp room ip] w1(1) unfolding wal_inv_def
    by (elim exE conjE) (rule exI, rule conjI, simp add: AppendTruncatePrefix_def and_then_def, blast)
  show "\<exists>w'. AppendTruncateSuffix lib io b w = (OK, w') \<and> wal_inv lib (m |` {..<b}) w'"
    using append_shape [OF io w1(2) rs room isx] w1(1) unfolding wal_inv_def
    by (elim exE conjE) (rule exI, rule conjI, simp add: AppendTruncateSuffix_def and_then_def, blast)
qed

section \<open>Reading\<close>

lemma header_fields:
  assumes "i < U64"
  shows "le_read (take 4 (segment_header i kFormatVersionProtobuf @ rest)) = kMagic"
    "le_read (take 2 (drop 4 (segment_header i kFormatVersionProtobuf @ rest))) = kVersion"
    "le_read (take 2 (drop 6 (segment_header i kFormatVersionProtobuf @ rest))) = kFormatVersionProtobuf"
    "le_read (take 8 (drop 8 (segment_header i kFormatVersionProtobuf @ rest))) = i"
proof -
  have "i < 256 ^ 8" using assms by (simp add: U64_def)
  then show "le_read (take 8 (drop 8 (segment_header i kFormatVersionProtobuf @ rest))) = i"
    by (simp add: segment_header_def)
qed (simp_all add: segment_header_def kMagic_def kVersion_def kFormatVersionProtobuf_def)

lemma segment_bytes_header: "segment_bytes i rs c \<Longrightarrow> \<exists>t. c = segment_header i kFormatVersionProtobuf @ records_bytes rs @ t"
  by (auto simp: segment_bytes_def)

lemma disk_ok_segment:
  assumes "disk_ok lib files rss" and "1 \<le> i" and "i \<le> length rss"
  shows "\<exists>c t. map_of files (seg_file i) = Some c \<and>
    c = segment_header i kFormatVersionProtobuf @ records_bytes (rss ! (i - 1)) @ t \<and> segment_bytes i (rss ! (i - 1)) c"
proof -
  have "\<forall>i. 1 \<le> i \<longrightarrow> i \<le> length rss \<longrightarrow>
      (\<exists>c. map_of files (seg_file i) = Some c \<and> segment_bytes i (rss ! (i - 1)) c)"
    using assms(1) unfolding disk_ok_def by (elim conjE) assumption
  then obtain c where "map_of files (seg_file i) = Some c" "segment_bytes i (rss ! (i - 1)) c"
    using assms(2,3) by blast
  then show ?thesis using segment_bytes_header [of i "rss ! (i - 1)" c] by blast
qed

lemma open_segment_header:
  assumes io: "io_fine io" and n: "i < U64"
    and c: "map_of (w_files w) (seg_file i) = Some c" "c = segment_header i kFormatVersionProtobuf @ rest"
  shows "OpenSegment io i w = (OK, w\<lparr>w_formats := (w_formats w)(i \<mapsto> kFormatVersionProtobuf)\<rparr>)"
proof -
  note f = header_fields [OF n, of rest, folded c(2)]
  have l: "kHeaderSize \<le> length c" by (simp add: c(2))
  have "kFormatVersionProtobuf \<noteq> 0" by (simp add: kFormatVersionProtobuf_def)
  moreover have "io_open io (seg_file i)" using io by (simp add: io_fine_def)
  ultimately show ?thesis
    using l by (simp add: OpenSegment_def Let_def c(1) f)
qed

text \<open>A segment that is complete on disk.\<close>

definition seg_on_disk :: "(string \<times> string) list \<Rightarrow> WALRecord list list \<Rightarrow> nat \<Rightarrow> bool" where
  "seg_on_disk files rss i \<longleftrightarrow> 1 \<le> i \<and> i \<le> length rss \<and> i < U64 \<and> records_fit (rss ! (i - 1)) \<and>
     (\<exists>c. map_of files (seg_file i) = Some c \<and> segment_bytes i (rss ! (i - 1)) c)"

lemma disk_ok_on_disk:
  assumes "disk_ok lib files rss" and "1 \<le> i" and "i \<le> length rss"
  shows "seg_on_disk files rss i"
  using disk_ok_segment [OF assms] assms by (auto simp: seg_on_disk_def disk_ok_def list_all_length)

lemma open_segment_ok:
  assumes io: "io_fine io" and d: "seg_on_disk (w_files w) rss i"
  shows "OpenSegment io i w = (OK, w\<lparr>w_formats := (w_formats w)(i \<mapsto> kFormatVersionProtobuf)\<rparr>)"
proof -
  obtain c where c: "map_of (w_files w) (seg_file i) = Some c" "segment_bytes i (rss ! (i - 1)) c" and i: "i < U64"
    using d unfolding seg_on_disk_def by blast
  from segment_bytes_header [OF c(2)] open_segment_header [OF io i c(1)] show ?thesis by blast
qed

lemma cached_segment_ok:
  assumes io: "io_fine io" and w: "wal_shape lib m rss pend w" and i: "1 \<le> i" "i \<le> length rss"
  shows "\<exists>w'. GetCachedSegmentFd io i w = (OK, w') \<and> wal_shape lib m rss pend w' \<and> w_files w' = w_files w \<and>
    w_formats w' i = Some kFormatVersionProtobuf"
proof (cases "w_cached w = Some i")
  case True
  then show ?thesis using w by (auto simp: GetCachedSegmentFd_def wal_shape_def)
next
  case False
  have "seg_on_disk (w_files (w\<lparr>w_cached := None\<rparr>)) rss i"
    using w disk_ok_on_disk [OF _ i, of lib "w_files w"] by (simp add: wal_shape_def)
  from open_segment_ok [OF io this] False
  have "GetCachedSegmentFd io i w =
      (OK, w\<lparr>w_cached := Some i, w_formats := (w_formats w)(i \<mapsto> kFormatVersionProtobuf)\<rparr>)"
    by (simp add: GetCachedSegmentFd_def and_then_def)
  then show ?thesis using w by (auto simp: wal_shape_def)
qed

lemma read_entry_here:
  assumes lib: "wal_lib_ok lib" and r: "record_ok r" "wr_type r = kLogEntry"
    and s: "wl_serialize lib (entry_proto e) = Some (wr_payload r)" and e: "entry_fits e"
  shows "read_entry lib kFormatVersionProtobuf sid (record_bytes r @ post) =
    Inr (if e_checksum e = 0 then e\<lparr>e_checksum := unat (ComputeCRC32 (record_body r))\<rparr> else e)"
proof -
  define rest where "rest = record_bytes r @ post"
  have len: "length (wr_payload r) < 256 ^ 4" using r(1) by (simp add: record_ok_def kMaxRecordSize_def)
  have ty: "wr_type r < 256 ^ 2" using r by (simp add: record_ok_def)
  have "rest = le_bytes 4 (unat (ComputeCRC32 (record_body r))) @ le_bytes 4 (length (wr_payload r)) @
      le_bytes 2 (wr_type r) @ (wr_payload r @ post)"
    by (simp add: rest_def record_bytes_def record_body_def)
  then have f: "le_read (take 4 rest) = unat (ComputeCRC32 (record_body r))"
    "le_read (take 4 (drop 4 rest)) = length (wr_payload r)" "le_read (take 2 (drop 8 rest)) = wr_type r"
    "drop 10 rest = wr_payload r @ post"
    using len ty crc_fits [of "record_body r"] by (simp_all only: record_fields length_le_bytes le_read_bytes)
  have b: "le_bytes 4 (length (wr_payload r)) @ le_bytes 2 (wr_type r) @ wr_payload r = record_body r"
    by (simp add: record_body_def)
  have p: "wl_parse lib (wr_payload r) = Some (entry_proto e)" using lib s unfolding wal_lib_ok_def by blast
  have u: "u32 (e_index e) = e_index e" "u32 (e_term e) = e_term e" "u32 (e_checksum e) = e_checksum e"
    using e by (simp_all add: entry_fits_def fits_u32_def u32_def U32_def)
  have "ParseProtobufPayload lib (wr_payload r) k =
      Inr (if e_checksum e = 0 then e\<lparr>e_checksum := k\<rparr> else e)" for k
    by (simp add: ParseProtobufPayload_def p entry_proto_def u Let_def)
  moreover have "10 \<le> length rest" by (simp add: rest_def)
  ultimately have "read_entry lib kFormatVersionProtobuf sid rest =
      Inr (if e_checksum e = 0 then e\<lparr>e_checksum := unat (ComputeCRC32 (record_body r))\<rparr> else e)"
    using r b by (simp add: read_entry_def Let_def f record_ok_def not_less)
  then show ?thesis by (simp only: rest_def)
qed

lemma segment_drop:
  assumes "c = segment_header i kFormatVersionProtobuf @ records_bytes (rs1 @ r # rs2) @ t"
  shows "drop (kHeaderSize + length (records_bytes rs1)) c = record_bytes r @ records_bytes rs2 @ t"
  using assms by simp

lemma read_at_stored:
  assumes io: "io_fine io" and lib: "wal_lib_ok lib" and w: "wal_shape lib m rss [] w"
    and st: "stored lib rss pos e" and e: "entry_fits e"
  shows "\<exists>k w'. ReadLogEntryAt lib io (wie_segment_id pos) (wie_file_offset pos) w =
      (Inr (e\<lparr>e_checksum := k\<rparr>), w') \<and> (e_checksum e \<noteq> 0 \<longrightarrow> k = e_checksum e) \<and> wal_shape lib m rss [] w'"
proof -
  obtain k rs1 r rs2 where s: "wie_segment_id pos = Suc k" "k < length rss" "rss ! k = rs1 @ r # rs2"
      "wie_file_offset pos = kHeaderSize + length (records_bytes rs1)" "wr_type r = kLogEntry"
      "wl_serialize lib (entry_proto e) = Some (wr_payload r)"
    using st unfolding stored_def by blast
  have i: "1 \<le> Suc k" "Suc k \<le> length rss" using s(2) by auto
  obtain w1 where w1: "GetCachedSegmentFd io (Suc k) w = (OK, w1)" "wal_shape lib m rss [] w1"
      "w_files w1 = w_files w" "w_formats w1 (Suc k) = Some kFormatVersionProtobuf"
    using cached_segment_ok [OF io w i] by blast
  have d: "disk_ok lib (w_files w1) rss" using w1(2) by (simp add: wal_shape_def)
  obtain c t where c: "map_of (w_files w1) (seg_file (Suc k)) = Some c"
      "c = segment_header (Suc k) kFormatVersionProtobuf @ records_bytes (rss ! k) @ t"
    using disk_ok_segment [OF d i] by auto
  have r: "record_ok r"
  proof -
    have "list_all records_fit rss" using d by (simp add: disk_ok_def)
    then have "records_fit (rss ! k)" using s(2) by (simp add: list_all_length)
    then show ?thesis using s(3) by (simp add: records_fit_def)
  qed
  have "drop (wie_file_offset pos) (contents w1 (seg_file (Suc k))) = record_bytes r @ records_bytes rs2 @ t"
    using c s(3,4) segment_drop by (simp add: contents_def)
  then have "ReadLogEntryAt lib io (wie_segment_id pos) (wie_file_offset pos) w =
      (Inr (if e_checksum e = 0 then e\<lparr>e_checksum := unat (ComputeCRC32 (record_body r))\<rparr> else e), w1)"
    using w1 s read_entry_here [OF lib r s(5,6) e] by (simp add: ReadLogEntryAt_def)
  then show ?thesis
    using w1(2) by (intro exI [of _ "if e_checksum e = 0 then unat (ComputeCRC32 (record_body r)) else e_checksum e"]
      exI [of _ w1]) simp
qed

lemma get_entry_inv:
  assumes io: "io_fine io" and lib: "wal_lib_ok lib" and w: "wal_inv lib m w"
  shows "m i = Some e \<Longrightarrow> entry_fits e \<Longrightarrow> \<exists>k w'. GetEntry_wal lib io i w = (Inr (e\<lparr>e_checksum := k\<rparr>), w') \<and>
      (e_checksum e \<noteq> 0 \<longrightarrow> k = e_checksum e) \<and> wal_inv lib m w'"
    and "m i = None \<Longrightarrow> \<exists>w'. GetEntry_wal lib io i w = (Inl (Error ''Entry not found'' []), w') \<and> wal_inv lib m w'"
proof -
  obtain rss0 pend0 where w0: "wal_shape lib m rss0 pend0 w" using w unfolding wal_inv_def by blast
  obtain w1 where w1: "FlushWriteBufferLocked io w = (OK, w1)" "wal_shape lib m (with_pending rss0 pend0) [] w1"
    using flush_shape [OF io w0] by blast
  have r: "with_pending rss0 pend0 \<noteq> []" by (simp add: with_pending_def)
  then have rel: "rel_option (stored lib (with_pending rss0 pend0)) (di_Get (w_index w1) i) (m i)"
    using w1(2) by (simp add: wal_shape_def index_ok_def with_pending_simps)
  have inv: "wal_inv lib m w1" using w1(2) unfolding wal_inv_def by blast
  show "\<exists>w'. GetEntry_wal lib io i w = (Inl (Error ''Entry not found'' []), w') \<and> wal_inv lib m w'" if "m i = None"
    using that rel w1(1) inv by (simp add: GetEntry_wal_def)
  show "\<exists>k w'. GetEntry_wal lib io i w = (Inr (e\<lparr>e_checksum := k\<rparr>), w') \<and>
      (e_checksum e \<noteq> 0 \<longrightarrow> k = e_checksum e) \<and> wal_inv lib m w'" if mi: "m i = Some e" and ef: "entry_fits e"
  proof -
    obtain pos where p: "di_Get (w_index w1) i = Some pos" "stored lib (with_pending rss0 pend0) pos e"
      using mi rel by (auto simp: option_rel_Some2)
    have "GetEntry_wal lib io i w = ReadLogEntryAt lib io (wie_segment_id pos) (wie_file_offset pos) w1"
      using p(1) w1(1) by (simp add: GetEntry_wal_def)
    then show ?thesis using read_at_stored [OF io lib w1(2) p(2) ef] unfolding wal_inv_def by metis
  qed
qed

section \<open>Checkpoints\<close>

lemma length_slot_bytes [simp]: "length (slot_bytes e) = kCheckpointIndexEntrySize"
  by (simp add: slot_bytes_def kCheckpointIndexEntrySize_def)

lemma read_slot_bytes:
  assumes "wie_segment_id e < U64" "wie_file_offset e < U64" "wie_length e < U64"
  shows "read_slot (slot_bytes e @ rest) = e"
proof -
  have "wie_segment_id e < 256 ^ 8" "wie_file_offset e < 256 ^ 8" "wie_length e < 256 ^ 8"
    using assms by (simp_all add: U64_def)
  then show ?thesis by (simp add: read_slot_def slot_bytes_def)
qed

lemma length_slots_bytes: "length (concat (map slot_bytes es)) = length es * kCheckpointIndexEntrySize"
  by (induction es) simp_all

lemma drop_slots_bytes:
  assumes "i < length es"
  shows "drop (i * kCheckpointIndexEntrySize) (concat (map slot_bytes es)) =
    slot_bytes (es ! i) @ concat (map slot_bytes (drop (Suc i) es))"
proof -
  have "concat (map slot_bytes es) =
      concat (map slot_bytes (take i es)) @ slot_bytes (es ! i) @ concat (map slot_bytes (drop (Suc i) es))"
    using arg_cong [OF id_take_nth_drop [OF assms], of "\<lambda>es. concat (map slot_bytes es)"] by simp
  moreover have "length (concat (map slot_bytes (take i es))) = i * kCheckpointIndexEntrySize"
    using assms by (simp add: length_slots_bytes)
  ultimately show ?thesis by simp
qed

lemma di_Put_next:
  "es \<noteq> [] \<Longrightarrow> di_Put (f + length es) e \<lparr>first_index = f, slots = es\<rparr> = \<lparr>first_index = f, slots = es @ [e]\<rparr>"
  by (cases es) (simp_all add: di_Put_def LastIndex_def Let_def list_update_append)

lemma di_Put_all:
  assumes "es \<noteq> []" and "f + length es < U64"
  shows "foldl (\<lambda>d i. di_Put (u64_add f i) (es ! i) d) di_Clear [0..<length es] = \<lparr>first_index = f, slots = es\<rparr>"
proof -
  have "foldl (\<lambda>d i. di_Put (u64_add f i) (es ! i) d) di_Clear [0..<Suc n] = \<lparr>first_index = f, slots = take (Suc n) es\<rparr>"
    if "Suc n \<le> length es" for n
    using that
  proof (induction n)
    case 0
    then show ?case using assms by (cases es) (simp_all add: di_Put_def di_Clear_def u64_add_def)
  next
    case (Suc n)
    then have "u64_add f (Suc n) = f + Suc n" using assms(2) by (simp add: u64_add_eq)
    moreover have "length (take (Suc n) es) = Suc n" "take (Suc n) es \<noteq> []" using Suc.prems by auto
    ultimately have "di_Put (u64_add f (Suc n)) (es ! Suc n) \<lparr>first_index = f, slots = take (Suc n) es\<rparr> =
        \<lparr>first_index = f, slots = take (Suc n) es @ [es ! Suc n]\<rparr>"
      using di_Put_next [of "take (Suc n) es" f "es ! Suc n"] by simp
    then show ?case using Suc by (simp add: take_Suc_conv_app_nth)
  qed
  from this [of "length es - 1"] show ?thesis using assms(1) by (cases es) simp_all
qed

lemma length_checkpoint_data:
  "length (checkpoint_data d i) = kCheckpointHeaderSize + length (slots d) * kCheckpointIndexEntrySize"
  by (simp add: checkpoint_data_def length_slots_bytes kCheckpointHeaderSize_def)

lemma checkpoint_fields:
  assumes "first_index d < 256 ^ 8" "length (slots d) < 256 ^ 8" "i < 256 ^ 8" and "buf = checkpoint_data d i @ t"
  shows "le_read (take 4 buf) = kCheckpointMagic" "le_read (take 2 (drop 4 buf)) = kCheckpointVersion"
    "le_read (take 8 (drop 8 buf)) = first_index d" "le_read (take 8 (drop 24 buf)) = length (slots d)"
    "le_read (take 8 (drop 32 buf)) = i"
    "drop (kCheckpointHeaderSize + k) buf = drop k (concat (map slot_bytes (slots d)) @ t)"
proof -
  show "le_read (take 4 buf) = kCheckpointMagic" "le_read (take 2 (drop 4 buf)) = kCheckpointVersion"
    by (simp_all add: assms(4) checkpoint_data_def kCheckpointMagic_def kCheckpointVersion_def)
  show "le_read (take 8 (drop 8 buf)) = first_index d" "le_read (take 8 (drop 24 buf)) = length (slots d)"
    "le_read (take 8 (drop 32 buf)) = i"
    using assms(1-3) by (simp_all add: assms(4) checkpoint_data_def del: power_numeral)
  show "drop (kCheckpointHeaderSize + k) buf = drop k (concat (map slot_bytes (slots d)) @ t)"
    by (simp add: assms(4) checkpoint_data_def kCheckpointHeaderSize_def)
qed

lemma parse_checkpoint_bytes:
  assumes "slots d \<noteq> []" and fit: "slots_fit d" and ok: "di_ok d" and i: "i < U64"
  shows "parse_checkpoint (checkpoint_bytes d i) = Inr (d, i)"
proof -
  define crc where "crc = le_bytes 4 (unat (ComputeCRC32 (checkpoint_data d i)))"
  define buf where "buf = checkpoint_data d i @ crc"
  have n: "first_index d < 256 ^ 8" "length (slots d) < 256 ^ 8" "i < 256 ^ 8"
    using ok i by (simp_all add: di_ok_def U64_def)
  note f = checkpoint_fields [OF n buf_def]
  have l: "length buf = kCheckpointHeaderSize + length (slots d) * kCheckpointIndexEntrySize + kCheckpointFooterSize"
    by (simp add: buf_def length_checkpoint_data crc_def kCheckpointFooterSize_def)
  have nl: "\<not> length buf < kCheckpointHeaderSize + kCheckpointFooterSize" by (simp add: l)
  have c: "take (length buf - kCheckpointFooterSize) buf = checkpoint_data d i"
    "le_read (drop (length buf - kCheckpointFooterSize) buf) = unat (ComputeCRC32 (checkpoint_data d i))"
    using crc_fits [of "checkpoint_data d i"]
    by (simp_all add: buf_def crc_def kCheckpointFooterSize_def del: power_numeral)
  have s: "read_slot (drop (kCheckpointHeaderSize + k * kCheckpointIndexEntrySize) buf) = slots d ! k"
    if "k < length (slots d)" for k
  proof -
    have "drop (k * kCheckpointIndexEntrySize) (concat (map slot_bytes (slots d)) @ crc) =
        slot_bytes (slots d ! k) @ (concat (map slot_bytes (drop (Suc k) (slots d))) @ crc)"
      using that by (simp add: drop_slots_bytes length_slots_bytes)
    then show ?thesis using fit that by (simp add: f read_slot_bytes slots_fit_def list_all_length)
  qed
  have "foldl (\<lambda>d' k. di_Put (u64_add (first_index d) k)
        (read_slot (drop (kCheckpointHeaderSize + k * kCheckpointIndexEntrySize) buf)) d') di_Clear [0..<length (slots d)] =
      foldl (\<lambda>d' k. di_Put (u64_add (first_index d) k) (slots d ! k) d') di_Clear [0..<length (slots d)]"
    by (rule foldl_cong) (simp_all add: s)
  also have "\<dots> = d" using di_Put_all [OF assms(1), of "first_index d"] ok by (simp add: di_ok_def)
  finally have "parse_checkpoint buf = Inr (d, i)"
    by (simp add: parse_checkpoint_def Let_def f(1-5) c nl l [symmetric])
  then show ?thesis by (simp add: checkpoint_bytes_def Let_def buf_def crc_def)
qed

lemma disk_ok_delete_temp:
  assumes "disk_ok lib files rss"
  shows "disk_ok lib (AList.delete (ckpt_file i @ ''.tmp'') files) rss"
proof -
  have m: "map_of (AList.delete (ckpt_file i @ ''.tmp'') files) name = Some c \<longleftrightarrow>
      map_of files name = Some c \<and> name \<noteq> ckpt_file i @ ''.tmp''" for name c
    by (auto simp: map_of_delete)
  have s: "map_of (AList.delete (ckpt_file i @ ''.tmp'') files) (seg_file j) = map_of files (seg_file j)" for j
    by simp
  show ?thesis
    using assms unfolding disk_ok_def m s by (elim conjE, intro conjI) (simp_all only: keys_delete distinct_keys_delete, blast+)
qed

lemma disk_ok_checkpoint:
  assumes d: "disk_ok lib files rss" and c: "checkpoint_ok lib rss (length rss) c"
  shows "disk_ok lib (AList.update (ckpt_file (length rss)) c files) rss"
proof -
  let ?f = "AList.update (ckpt_file (length rss)) c files"
  have r: "1 \<le> length rss" using d by (cases rss) (simp_all add: disk_ok_def)
  have s: "map_of ?f (seg_file j) = map_of files (seg_file j)" "map_of ?f ''meta.json'' = map_of files ''meta.json''" for j
    by simp_all
  have k: "\<forall>name c'. map_of files name = Some c' \<longrightarrow> is_ckpt_name name \<longrightarrow>
      (\<exists>i. 1 \<le> i \<and> i \<le> length rss \<and> name = ckpt_file i \<and> checkpoint_ok lib rss i c')"
    using d unfolding disk_ok_def by (elim conjE) assumption
  have k': "\<exists>i. 1 \<le> i \<and> i \<le> length rss \<and> name = ckpt_file i \<and> checkpoint_ok lib rss i c'"
    if "map_of ?f name = Some c'" "is_ckpt_name name" for name c'
  proof (cases "name = ckpt_file (length rss)")
    case True
    then show ?thesis using that c r by (intro exI [of _ "length rss"]) (simp add: map_of_update)
  next
    case False
    then have "map_of files name = Some c'" using that(1) by (simp add: map_of_update)
    then show ?thesis using k that(2) by blast
  qed
  have n: "\<exists>i. 1 \<le> i \<and> i \<le> length rss \<and> name = seg_file i"
    if "name \<in> set (keys ?f)" "wal_name_id name \<noteq> None" for name
  proof -
    have "name \<noteq> ckpt_file (length rss)" using that(2) by auto
    then have "name \<in> set (keys files)" using that(1) by (simp only: keys_update) blast
    then show ?thesis using d that(2) unfolding disk_ok_def by (elim conjE) blast
  qed
  show ?thesis
    using d k' n unfolding disk_ok_def s by (elim conjE, intro conjI allI impI) (simp_all only: distinct_keys_update)
qed

lemma checkpoint_ok_now:
  assumes ix: "index_ok lib rss d m" and r: "rss \<noteq> []" and n: "length rss < U64" and s: "slots d \<noteq> []"
  shows "checkpoint_ok lib rss (length rss) (checkpoint_bytes d (length rss))"
proof -
  obtain ops where d: "di_ok d" "slots_fit d" and ops: "log_ops lib 1 rss = Some ops"
      and g: "di_Get d = di_Get (foldl dense.op_step di_Clear ops)"
    using ix unfolding index_ok_def by blast
  have "rss = butlast rss @ [last rss]" using r by simp
  then have "log_ops lib 1 (butlast rss @ [last rss]) = Some ops" using ops by simp
  then obtain before ops1 where b: "log_ops lib 1 (butlast rss) = Some before" "ops = before @ ops1"
      "records_ops lib kFormatVersionProtobuf (Suc (length (butlast rss))) kHeaderSize (last rss) = Some ops1"
    by (auto simp: log_ops_append split: option.splits)
  have "Suc (length (butlast rss)) = length rss" using r by (simp add: Suc_leI)
  then have o: "records_ops lib kFormatVersionProtobuf (length rss) kHeaderSize (rss ! (length rss - 1)) = Some ops1"
    using b(3) r by (simp add: last_conv_nth)
  have t: "take (length rss - 1) rss = butlast rss" by (simp add: butlast_conv_take)
  have "di_Get d = di_Get (foldl dense.op_step di_Clear (before @ take (length ops1) ops1))" using g b(2) by simp
  then show ?thesis
    using parse_checkpoint_bytes [OF s d(2,1) n] d o b(1) t unfolding checkpoint_ok_def by metis
qed

lemma save_checkpoint_shape:
  assumes w: "wal_shape lib m rss [] w"
  shows "wal_shape lib m rss [] (snd (SaveCheckpointLocked io w))"
proof -
  have d: "disk_ok lib (w_files w) rss" and a: "seg_id (w_active w) = length rss"
    using w by (simp_all add: wal_shape_def)
  have r: "rss \<noteq> []" "length rss < U64" using d by (simp_all add: disk_ok_def)
  have ix: "index_ok lib rss (w_index w) m" using w r(1) by (simp add: wal_shape_def with_pending_simps)
  note dt = disk_ok_delete_temp [OF d]
  have t: "wal_shape lib m rss [] (unlink (ckpt_file (length rss) @ ''.tmp'') w)"
    using w dt by (simp add: wal_shape_def unlink_def)
  have p: "wal_shape lib m rss [] (put_file (ckpt_file (length rss)) (checkpoint_bytes (w_index w) (length rss))
      (unlink (ckpt_file (length rss) @ ''.tmp'') w))" if "slots (w_index w) \<noteq> []"
    using w disk_ok_checkpoint [OF dt checkpoint_ok_now [OF ix r that]]
    by (simp add: wal_shape_def unlink_def put_file_def)
  show ?thesis using w t p by (simp add: SaveCheckpointLocked_def Let_def a)
qed

lemma sync_inv:
  assumes io: "io_fine io" and w: "wal_inv lib m w"
  shows "wal_inv lib m (snd (Sync_wal io w)) \<and> (io_sync io \<longrightarrow> fst (Sync_wal io w) = OK)"
proof -
  obtain rss pend where "wal_shape lib m rss pend w" using w unfolding wal_inv_def by blast
  then obtain w1 where w1: "FlushWriteBufferLocked io w = (OK, w1)" "wal_shape lib m (with_pending rss pend) [] w1"
    using flush_shape [OF io] by blast
  then have "wal_inv lib m w1" "wal_inv lib m (snd (SaveCheckpointLocked io w1))" "seg_fd (w_active w1)"
    using save_checkpoint_shape [OF w1(2)] unfolding wal_inv_def by (blast, blast, simp add: wal_shape_def)
  then show ?thesis using w1(1) by (simp add: Sync_wal_def SyncActiveSegmentLocked_def and_then_def)
qed

text \<open>After \<open>Close\<close> the records and the checkpoints are in the files.\<close>

lemma close_disk:
  assumes io: "io_fine io" and w: "wal_shape lib m rss pend w"
  shows "disk_ok lib (w_files (Close_wal io w)) (with_pending rss pend) \<and> Close_wal io w = new_wal (w_files (Close_wal io w))"
proof -
  obtain w1 where w1: "FlushWriteBufferLocked io w = (OK, w1)" "wal_shape lib m (with_pending rss pend) [] w1"
    using flush_shape [OF io w] by blast
  have "disk_ok lib (w_files w1) (with_pending rss pend)" using w1(2) by (simp add: wal_shape_def)
  moreover have "disk_ok lib (w_files (snd (SaveCheckpointLocked io w1))) (with_pending rss pend)"
    using save_checkpoint_shape [OF w1(2), of io] by (simp add: wal_shape_def)
  moreover have "seg_fd (w_active w)" using w by (simp add: wal_shape_def)
  ultimately show ?thesis using w1(1) by (simp add: Close_wal_def Let_def new_wal_def)
qed

end
