(* ===== verification/Wal_Recovery.thy ===== *)
theory Wal_Recovery
  imports Wal_Invariant
begin

text \<open>
  What the write-ahead log guarantees: appending and truncating refine the update and the restriction of the log the
  files represent, reading returns its entries, and closing and opening again, from a checkpoint or from the segments,
  represents the same log. The last section shows what recovery does after a crash in the middle of a write.
\<close>

section \<open>Opening\<close>

lemma set_map_filter: "set (List.map_filter f xs) = {y. \<exists>x \<in> set xs. f x = Some y}"
  by (induction xs) (auto simp: List.map_filter_simps split: option.splits)

lemma distinct_map_filter:
  assumes "distinct xs" and "\<And>x y z. x \<in> set xs \<Longrightarrow> y \<in> set xs \<Longrightarrow> f x = Some z \<Longrightarrow> f y = Some z \<Longrightarrow> x = y"
  shows "distinct (List.map_filter f xs)"
  using assms
proof (induction xs)
  case (Cons x xs)
  have "distinct xs" "x \<notin> set xs" using Cons.prems(1) by simp_all
  then have d: "distinct (List.map_filter f xs)"
    by (intro Cons.IH) (simp_all add: Cons.prems(2))
  have "z \<notin> set (List.map_filter f xs)" if "f x = Some z" for z
  proof
    assume "z \<in> set (List.map_filter f xs)"
    then obtain y where "y \<in> set xs" "f y = Some z" by (auto simp: set_map_filter)
    then have "x = y" using Cons.prems(2) [of x y z] \<open>f x = Some z\<close> by simp
    then show False using \<open>x \<notin> set xs\<close> \<open>y \<in> set xs\<close> by simp
  qed
  then show ?case using d by (simp add: List.map_filter_simps split: option.split)
qed (simp add: List.map_filter_simps)

lemma segment_ids_disk:
  assumes d: "disk_ok lib (w_files w) rss" and io: "io_fine io"
  shows "sort (segment_ids_on_disk io w) = [1..<Suc (length rss)]"
proof -
  let ?k = "keys (w_files w)" and ?ids = "List.map_filter wal_name_id (keys (w_files w))"
  have dist: "distinct ?k" and n: "length rss < U64" using d by (simp_all add: disk_ok_def)
  have names: "\<forall>name. name \<in> set ?k \<longrightarrow> wal_name_id name \<noteq> None \<longrightarrow>
      (\<exists>i. 1 \<le> i \<and> i \<le> length rss \<and> name = seg_file i)"
    using d unfolding disk_ok_def by (elim conjE) assumption
  have id: "1 \<le> i \<and> i \<le> length rss \<and> name = seg_file i" if k: "name \<in> set ?k" and nm: "wal_name_id name = Some i" for name i
  proof -
    have "wal_name_id name \<noteq> None" using nm by simp
    then obtain j where "1 \<le> j" "j \<le> length rss" "name = seg_file j" using names k by blast
    then show ?thesis using nm n by simp
  qed
  have "distinct ?ids" using dist by (rule distinct_map_filter) (use id in blast)
  moreover have "set ?ids = {1..<Suc (length rss)}"
  proof (intro equalityI subsetI)
    fix i assume "i \<in> set ?ids"
    then show "i \<in> {1..<Suc (length rss)}" using id by (force simp: set_map_filter)
  next
    fix i assume i: "i \<in> {1..<Suc (length rss)}"
    then obtain c where "map_of (w_files w) (seg_file i) = Some c" using disk_ok_segment [OF d, of i] by auto
    then have "seg_file i \<in> set ?k" using map_of_SomeD by force
    moreover have "wal_name_id (seg_file i) = Some i" using i n by simp
    ultimately show "i \<in> set ?ids" by (force simp: set_map_filter)
  qed
  ultimately have "sort ?ids = [1..<Suc (length rss)]"
    by (intro sorted_distinct_set_unique) (simp_all add: sorted_upt del: upt_Suc)
  then show ?thesis using io by (simp add: segment_ids_on_disk_def io_fine_def)
qed

definition formats_ok :: "WALPersister \<Rightarrow> bool" where
  "formats_ok w \<longleftrightarrow> (\<forall>i f. w_formats w i = Some f \<longrightarrow> f = kFormatVersionProtobuf) \<and>
     (\<forall>i. w_cached w = Some i \<longrightarrow> w_formats w i = Some kFormatVersionProtobuf)"

text \<open>The members that opening and scanning segments leave alone.\<close>

definition same_but_index :: "WALPersister \<Rightarrow> WALPersister \<Rightarrow> bool" where
  "same_but_index w w' \<longleftrightarrow> w_files w' = w_files w \<and> w_active w' = w_active w \<and> w_buf w' = w_buf w"

lemma read_trailer_ok:
  assumes "c = segment_header i kFormatVersionProtobuf @ records_bytes rs @ trailer_bytes (kHeaderSize + length (records_bytes rs))"
    and "kHeaderSize + length (records_bytes rs) < U64"
  shows "ReadTrailer c = Inr (kHeaderSize + length (records_bytes rs))"
proof -
  have "kHeaderSize + length (records_bytes rs) < 256 ^ 8" using assms(2) by (simp add: U64_def)
  then have "le_read (drop (length c - kTrailerSize) c) = kHeaderSize + length (records_bytes rs)"
    by (simp add: assms(1) trailer_bytes_def kTrailerSize_def)
  then show ?thesis by (simp add: ReadTrailer_def Let_def assms(1))
qed

lemma records_fit_U64: "records_fit rs \<Longrightarrow> kHeaderSize + length (records_bytes rs) < U64"
  by (simp add: records_fit_def seg_limit_def kMaxSegmentSize_def kMaxRecordSize_def U64_def)

lemma get_cached_formats:
  assumes io: "io_fine io" and d: "seg_on_disk (w_files w) rss i" and f: "formats_ok w"
  shows "\<exists>w'. GetCachedSegmentFd io i w = (OK, w') \<and> same_but_index w w' \<and> w_index w' = w_index w \<and> formats_ok w' \<and>
    w_formats w' i = Some kFormatVersionProtobuf"
proof (cases "w_cached w = Some i")
  case True
  then show ?thesis using f by (simp add: GetCachedSegmentFd_def formats_ok_def same_but_index_def)
next
  case False
  have "seg_on_disk (w_files (w\<lparr>w_cached := None\<rparr>)) rss i" using d by simp
  from open_segment_ok [OF io this] False show ?thesis
    using f by (simp add: GetCachedSegmentFd_def and_then_def formats_ok_def same_but_index_def)
qed

lemma scan_segment_ok:
  assumes io: "io_fine io" and d: "seg_on_disk (w_files w) rss i" and f: "formats_ok w"
    and ops: "records_ops lib kFormatVersionProtobuf i kHeaderSize (rss ! (i - 1)) = Some ops"
  shows "\<exists>w'. ScanSegment lib io None i [] w = ((OK, None, []), w') \<and> same_but_index w w' \<and>
    w_index w' = foldl dense.op_step (w_index w) ops \<and> formats_ok w'"
proof -
  obtain w1 where w1: "GetCachedSegmentFd io i w = (OK, w1)" "same_but_index w w1" "w_index w1 = w_index w" "formats_ok w1"
      "w_formats w1 i = Some kFormatVersionProtobuf"
    using get_cached_formats [OF io d f] by blast
  let ?rs = "rss ! (i - 1)"
  obtain c where c: "map_of (w_files w) (seg_file i) = Some c" "segment_bytes i ?rs c" and fit: "records_fit ?rs"
    using d unfolding seg_on_disk_def by blast
  have cont: "contents w1 (seg_file i) = c" using w1(2) c(1) by (simp add: contents_def same_but_index_def)
  show ?thesis
  proof (cases "c = segment_header i kFormatVersionProtobuf @ records_bytes ?rs @
      trailer_bytes (kHeaderSize + length (records_bytes ?rs))")
    case True
    have t: "ReadTrailer c = Inr (kHeaderSize + length (records_bytes ?rs))"
      by (rule read_trailer_ok [OF True records_fit_U64 [OF fit]])
    have dr: "drop kHeaderSize c = records_bytes ?rs @ trailer_bytes (kHeaderSize + length (records_bytes ?rs))"
      by (simp add: True)
    have "scan_records lib None kFormatVersionProtobuf i c (kHeaderSize + length (records_bytes ?rs)) kHeaderSize [] (w_index w) =
        \<lparr>sr_status = OK, sr_truncate = None, sr_index = foldl dense.op_step (w_index w) ops, sr_seen = []\<rparr>"
      using scan_records_run [OF _ dr order.refl index_records_ops [OF ops], of "[]" "w_index w"] fit
      by (simp add: records_fit_def scan_records_end)
    then show ?thesis
      using w1 t cont by (simp add: ScanSegment_def Let_def same_but_index_def formats_ok_def)
  next
    case False
    then have e: "?rs = []" "c = segment_header i kFormatVersionProtobuf" using c(2) by (auto simp: segment_bytes_def)
    then have "ReadTrailer c = Inl (Corruption ''Segment too small for trailer'' [])"
      by (simp add: ReadTrailer_def kTrailerSize_def)
    then show ?thesis using w1 cont e ops by (simp add: ScanSegment_def Let_def)
  qed
qed

text \<open>The operations of one segment of a list, and the list as the concatenation of its segments.\<close>

definition seg_ops :: "WalLib \<Rightarrow> WALRecord list list \<Rightarrow> nat \<Rightarrow> WALIndexEntry index_op list" where
  "seg_ops lib rss i = the (records_ops lib kFormatVersionProtobuf i kHeaderSize (rss ! (i - 1)))"

lemma log_ops_all:
  assumes "log_ops lib (Suc k) rss = Some ops"
  shows "ops = concat (map (\<lambda>i. the (records_ops lib kFormatVersionProtobuf i kHeaderSize (rss ! (i - Suc k))))
      [Suc k..<Suc k + length rss])"
    and "i < length rss \<Longrightarrow> records_ops lib kFormatVersionProtobuf (Suc k + i) kHeaderSize (rss ! i) \<noteq> None"
proof -
  have "ops = concat (map (\<lambda>i. the (records_ops lib kFormatVersionProtobuf i kHeaderSize (rss ! (i - Suc k))))
      [Suc k..<Suc k + length rss]) \<and>
    (\<forall>i < length rss. records_ops lib kFormatVersionProtobuf (Suc k + i) kHeaderSize (rss ! i) \<noteq> None)"
    using assms
  proof (induction rss arbitrary: k ops)
    case (Cons rs rss)
    obtain ops1 ops2 where o: "records_ops lib kFormatVersionProtobuf (Suc k) kHeaderSize rs = Some ops1"
        "log_ops lib (Suc (Suc k)) rss = Some ops2" "ops = ops1 @ ops2"
      using Cons.prems by (auto split: option.splits)
    note ih = Cons.IH [OF o(2)]
    have u: "[Suc k..<Suc k + length (rs # rss)] = Suc k # [Suc (Suc k)..<Suc (Suc k) + length rss]"
      by (simp add: upt_conv_Cons del: upt_Suc)
    have m: "map (\<lambda>i. the (records_ops lib kFormatVersionProtobuf i kHeaderSize ((rs # rss) ! (i - Suc k))))
          [Suc (Suc k)..<Suc (Suc k) + length rss] =
        map (\<lambda>i. the (records_ops lib kFormatVersionProtobuf i kHeaderSize (rss ! (i - Suc (Suc k)))))
          [Suc (Suc k)..<Suc (Suc k) + length rss]"
      by (intro map_cong refl) (auto simp: nth_Cons' Suc_diff_Suc)
    have all: "records_ops lib kFormatVersionProtobuf (Suc k + i) kHeaderSize ((rs # rss) ! i) \<noteq> None"
      if "i < length (rs # rss)" for i
      using that o(1) ih by (cases i) auto
    have "ops = concat (map (\<lambda>i. the (records_ops lib kFormatVersionProtobuf i kHeaderSize ((rs # rss) ! (i - Suc k))))
        [Suc k..<Suc k + length (rs # rss)])"
      unfolding u list.map(2) concat.simps m using o ih by (simp del: upt_Suc)
    then show ?case using all by blast
  qed simp
  then show "ops = concat (map (\<lambda>i. the (records_ops lib kFormatVersionProtobuf i kHeaderSize (rss ! (i - Suc k))))
      [Suc k..<Suc k + length rss])"
    and "i < length rss \<Longrightarrow> records_ops lib kFormatVersionProtobuf (Suc k + i) kHeaderSize (rss ! i) \<noteq> None"
    by blast+
qed

lemma log_ops_segments:
  assumes "log_ops lib 1 rss = Some ops"
  shows "ops = concat (map (seg_ops lib rss) [1..<Suc (length rss)])"
    and "1 \<le> i \<Longrightarrow> i \<le> length rss \<Longrightarrow>
      records_ops lib kFormatVersionProtobuf i kHeaderSize (rss ! (i - 1)) = Some (seg_ops lib rss i)"
  using log_ops_all [of lib 0 rss ops] log_ops_all(2) [of lib 0 rss ops "i - 1"] assms
  by (simp_all add: seg_ops_def [abs_def] del: upt_Suc)

lemma open_segments_ok:
  assumes io: "io_fine io" and ops: "log_ops lib 1 rss = Some ops"
    and "\<forall>i \<in> set ids. seg_on_disk (w_files w) rss i" and "formats_ok w"
  shows "\<exists>w'. open_segments lib io covered ids w = (OK, w') \<and> same_but_index w w' \<and> formats_ok w' \<and>
    w_index w' = foldl dense.op_step (w_index w) (concat (map (seg_ops lib rss) (filter (\<lambda>i. covered \<le> i) ids)))"
  using assms(3,4)
proof (induction ids arbitrary: w)
  case (Cons i ids)
  have d: "seg_on_disk (w_files w) rss i" and i: "1 \<le> i" "i \<le> length rss"
    using Cons.prems(1) by (auto simp: seg_on_disk_def)
  let ?w = "w\<lparr>w_formats := (w_formats w)(i \<mapsto> kFormatVersionProtobuf)\<rparr>"
  have o: "OpenSegment io i w = (OK, ?w)" by (rule open_segment_ok [OF io d])
  have f: "formats_ok ?w" "seg_on_disk (w_files ?w) rss i" using Cons.prems d by (auto simp: formats_ok_def)
  show ?case
  proof (cases "i < covered")
    case True
    have "\<exists>w'. open_segments lib io covered ids ?w = (OK, w') \<and> same_but_index ?w w' \<and> formats_ok w' \<and>
        w_index w' = foldl dense.op_step (w_index ?w) (concat (map (seg_ops lib rss) (filter (\<lambda>i. covered \<le> i) ids)))"
      using Cons.prems f by (intro Cons.IH) simp_all
    then show ?thesis using True o by (simp add: and_then_def same_but_index_def)
  next
    case False
    obtain w1 where w1: "ScanSegment lib io None i [] ?w = ((OK, None, []), w1)" "same_but_index ?w w1"
        "w_index w1 = foldl dense.op_step (w_index ?w) (seg_ops lib rss i)" "formats_ok w1"
      using scan_segment_ok [OF io f(2,1) log_ops_segments(2) [OF ops i]] by blast
    have "\<exists>w'. open_segments lib io covered ids w1 = (OK, w') \<and> same_but_index w1 w' \<and> formats_ok w' \<and>
        w_index w' = foldl dense.op_step (w_index w1) (concat (map (seg_ops lib rss) (filter (\<lambda>i. covered \<le> i) ids)))"
      using Cons.prems w1 by (intro Cons.IH) (simp_all add: same_but_index_def)
    then show ?thesis using False o w1 by (simp add: and_then_def same_but_index_def)
  qed
qed (simp add: same_but_index_def)

lemma best_checkpoint_ok:
  assumes d: "disk_ok lib (w_files w) rss"
  shows "best_checkpoint io w = (0, []) \<or>
    (\<exists>i c. best_checkpoint io w = (i, ckpt_file i) \<and> 1 \<le> i \<and> i \<le> length rss \<and>
       map_of (w_files w) (ckpt_file i) = Some c \<and> checkpoint_ok lib rss i c)"
proof -
  let ?good = "\<lambda>b. b = (0, []) \<or> (\<exists>i c. b = (i, ckpt_file i) \<and> 1 \<le> i \<and> i \<le> length rss \<and>
       map_of (w_files w) (ckpt_file i) = Some c \<and> checkpoint_ok lib rss i c)"
  let ?step = "\<lambda>best name. case ckpt_name_id name of
              None \<Rightarrow> best
            | Some i \<Rightarrow> if fst best < i \<and> map_of (w_files w) (seg_file i) \<noteq> None then (i, name) else best"
  have k: "\<forall>name c. map_of (w_files w) name = Some c \<longrightarrow> is_ckpt_name name \<longrightarrow>
      (\<exists>i. 1 \<le> i \<and> i \<le> length rss \<and> name = ckpt_file i \<and> checkpoint_ok lib rss i c)"
    using d unfolding disk_ok_def by (elim conjE) assumption
  have n: "length rss < U64" using d by (simp add: disk_ok_def)
  have step: "?good (?step b name)" if b: "?good b" and nm: "name \<in> set (keys (w_files w))" "is_ckpt_name name" for b name
  proof -
    have "map_of (w_files w) name \<noteq> None" using nm(1) by (simp add: map_of_eq_None_iff)
    then obtain c where c: "map_of (w_files w) name = Some c" by blast
    then obtain i where i: "1 \<le> i" "i \<le> length rss" "name = ckpt_file i" "checkpoint_ok lib rss i c"
      using k nm(2) by blast
    then have "ckpt_name_id name = Some i" using n by simp
    then have "?step b name = b \<or> ?step b name = (i, ckpt_file i)" using i(3) by simp
    then show ?thesis
    proof
      assume "?step b name = (i, ckpt_file i)"
      then show ?thesis using c i by (intro disjI2 exI [of _ i] exI [of _ c]) simp
    qed (use b in simp)
  qed
  have "?good (foldl ?step b names)" if "?good b" "\<forall>name \<in> set names. name \<in> set (keys (w_files w)) \<and> is_ckpt_name name"
    for b names
    using that
  proof (induction names arbitrary: b)
    case (Cons name names)
    have "?good (?step b name)" using Cons.prems by (intro step) simp_all
    then have "?good (foldl ?step (?step b name) names)" using Cons.prems(2) by (intro Cons.IH) simp_all
    then show ?case by (simp only: foldl_Cons)
  qed simp
  from this [of "(0, [])" "ListCheckpointFilesLocked io w"] show ?thesis
    unfolding best_checkpoint_def by (simp add: ListCheckpointFilesLocked_def)
qed

lemma parse_checkpoint_fails: "parse_checkpoint c = Inl st \<Longrightarrow> \<not> ok st"
  unfolding parse_checkpoint_def Let_def
  by (auto simp only: sum.inject sum.distinct status_not_ok not_False_eq_True split: if_split_asm)

lemma replay_from_checkpoint:
  assumes ops: "log_ops lib 1 rss = Some ops" "list_all di_valid ops" and d: "di_ok d" and i: "1 \<le> i" "i \<le> length rss"
    and before: "log_ops lib 1 (take (i - 1) rss) = Some before"
    and opsi: "records_ops lib kFormatVersionProtobuf i kHeaderSize (rss ! (i - 1)) = Some opsi"
    and g: "di_Get d = di_Get (foldl dense.op_step di_Clear (before @ take k opsi))"
  shows "di_Get (foldl dense.op_step d (concat (map (seg_ops lib rss) [i..<Suc (length rss)]))) =
      di_Get (foldl dense.op_step di_Clear ops)" (is ?get)
    and "list_all di_valid (concat (map (seg_ops lib rss) [i..<Suc (length rss)]))" (is ?valid)
proof -
  have u: "[1..<Suc (length rss)] = [1..<i] @ i # [Suc i..<Suc (length rss)]"
    using i upt_add_eq_append [of 1 i "Suc (length rss) - i"] by (simp add: upt_conv_Cons del: upt_Suc)
  have si: "seg_ops lib rss i = opsi" using opsi by (simp add: seg_ops_def)
  have "before = concat (map (seg_ops lib (take (i - 1) rss)) [1..<Suc (length (take (i - 1) rss))])"
    by (rule log_ops_segments(1) [OF before])
  also have "[1..<Suc (length (take (i - 1) rss))] = [1..<i]" using i by simp
  also have "map (seg_ops lib (take (i - 1) rss)) [1..<i] = map (seg_ops lib rss) [1..<i]"
    using i by (intro map_cong) (auto simp: seg_ops_def)
  finally have b: "before = concat (map (seg_ops lib rss) [1..<i])" .
  define later where "later = concat (map (seg_ops lib rss) [Suc i..<Suc (length rss)])"
  have o: "ops = before @ opsi @ later"
    using log_ops_segments(1) [OF ops(1)] unfolding u by (simp add: b si later_def del: upt_Suc)
  then have v: "list_all di_valid before" "list_all di_valid opsi" "list_all di_valid later" using ops(2) by simp_all
  have c: "concat (map (seg_ops lib rss) [i..<Suc (length rss)]) = opsi @ later"
    using i by (simp add: upt_conv_Cons si later_def del: upt_Suc)
  let ?d0 = "foldl dense.op_step di_Clear before"
  have ok: "di_ok ?d0" using dense.inv_run [OF di_Clear_ok(1) v(1)] .
  have "di_Get d = di_Get (foldl dense.op_step ?d0 (take k opsi))" using g by simp
  from dense.replay_after_part [OF ok d v(2) this]
  have "di_Get (foldl dense.op_step d opsi) = di_Get (foldl dense.op_step ?d0 opsi)" .
  then have "di_Get (foldl dense.op_step (foldl dense.op_step d opsi) later) =
      di_Get (foldl dense.op_step (foldl dense.op_step ?d0 opsi) later)"
    using dense.lookup_run [OF dense.inv_run [OF d v(2)] v(3)] dense.lookup_run [OF dense.inv_run [OF ok v(2)] v(3)] by simp
  then show ?get unfolding c o by simp
  show ?valid unfolding c using v by simp
qed

fun op_fits :: "WALIndexEntry index_op \<Rightarrow> bool" where
  "op_fits (Put i e) \<longleftrightarrow> wie_segment_id e < U64 \<and> wie_file_offset e < U64 \<and> wie_length e < U64"
| "op_fits (Cut_prefix b) \<longleftrightarrow> True"
| "op_fits (Cut_suffix f) \<longleftrightarrow> True"

lemma slots_fit_run: "slots_fit d \<Longrightarrow> list_all op_fits ops \<Longrightarrow> slots_fit (foldl dense.op_step d ops)"
proof (induction ops arbitrary: d)
  case (Cons op ops)
  then show ?case by (cases op) (simp_all add: slots_fit_Put slots_fit_cut)
qed simp

lemma records_ops_fit:
  assumes "records_ops lib fmt sid off rs = Some ops" and "off + length (records_bytes rs) < U64" and "sid < U64"
  shows "list_all op_fits ops"
  using assms
proof (induction rs arbitrary: off ops)
  case (Cons r rs)
  obtain ops1 ops2 where o: "record_op lib fmt sid off r = Inr ops1"
      "records_ops lib fmt sid (off + length (record_bytes r)) rs = Some ops2" "ops = ops1 @ ops2"
    using Cons.prems(1) by (auto split: sum.splits)
  have "list_all op_fits ops1"
    using o(1) Cons.prems by (auto simp: record_op_def split: if_splits sum.splits)
  moreover have "off + length (record_bytes r) + length (records_bytes rs) < U64"
    using Cons.prems(2) by (simp only: records_bytes_simps length_append add.assoc)
  then have "list_all op_fits ops2" using Cons.IH [OF o(2)] Cons.prems(3) by blast
  ultimately show ?case using o(3) by simp
qed simp

lemma slots_fit_Clear [simp]: "slots_fit di_Clear"
  by (simp add: slots_fit_def di_Clear_def)

text \<open>
  The index \<open>Open\<close> starts the scan with, that of a checkpoint or the empty one, and what the scan will make of it.
\<close>

definition loaded :: "Status \<times> nat \<Rightarrow> WALPersister \<Rightarrow> WALPersister \<times> nat" where
  "loaded p w1 = (if ok (fst p) then (w1, snd p) else (w1\<lparr>w_index := di_Clear\<rparr>, 0))"

lemma load_checkpoint_ok:
  assumes io: "io_fine io" and d: "disk_ok lib (w_files w) rss" and c: "w_index w = di_Clear"
    and ops: "log_ops lib 1 rss = Some ops" "list_all di_valid ops"
  obtains p w1 d2 c2 where "LoadLatestCheckpointLocked io w = (p, w1)" and "loaded p w1 = (w\<lparr>w_index := d2\<rparr>, c2)"
    and "c2 \<le> length rss" and "di_ok d2" and "slots_fit d2"
    and "di_Get (foldl dense.op_step d2 (concat (map (seg_ops lib rss) (filter (\<lambda>i. c2 \<le> i) [1..<Suc (length rss)])))) =
      di_Get (foldl dense.op_step di_Clear ops)"
proof -
  have w: "w\<lparr>w_index := di_Clear\<rparr> = w" using c by (metis (full_types) WALPersister.surjective WALPersister.update_convs(4))
  have all: "concat (map (seg_ops lib rss) (filter (\<lambda>i. 0 \<le> i) [1..<Suc (length rss)])) = ops"
    using log_ops_segments(1) [OF ops(1)] by (simp del: upt_Suc)
  consider (none) "best_checkpoint io w = (0, [])"
    | (bad) i c st where "best_checkpoint io w = (i, ckpt_file i)" "1 \<le> i" "map_of (w_files w) (ckpt_file i) = Some c"
        "parse_checkpoint c = Inl st"
    | (good) i c d' before opsi k where "best_checkpoint io w = (i, ckpt_file i)" "1 \<le> i" "i \<le> length rss"
        "map_of (w_files w) (ckpt_file i) = Some c" "parse_checkpoint c = Inr (d', i)" "di_ok d'" "slots_fit d'"
        "log_ops lib 1 (take (i - 1) rss) = Some before"
        "records_ops lib kFormatVersionProtobuf i kHeaderSize (rss ! (i - 1)) = Some opsi"
        "di_Get d' = di_Get (foldl dense.op_step di_Clear (before @ take k opsi))"
    using best_checkpoint_ok [OF d, of io] unfolding checkpoint_ok_def by blast
  then show ?thesis
  proof cases
    case none
    then have "LoadLatestCheckpointLocked io w = ((OK, 0), w)" by (simp add: LoadLatestCheckpointLocked_def)
    then show ?thesis using w all by (intro that [of "(OK, 0)" w di_Clear 0]) (simp_all add: loaded_def del: upt_Suc)
  next
    case bad
    then have "LoadLatestCheckpointLocked io w = ((st, 0), w)"
      using io by (simp add: LoadLatestCheckpointLocked_def io_fine_def contents_def)
    then show ?thesis
      using w all parse_checkpoint_fails [OF bad(4)]
      by (intro that [of "(st, 0)" w di_Clear 0]) (simp_all add: loaded_def del: upt_Suc)
  next
    case good
    have f: "filter (\<lambda>j. i \<le> j) [Suc 0..<Suc (length rss)] = [i..<Suc (length rss)]"
      using good(2,3) upt_add_eq_append [of "Suc 0" i "Suc (length rss) - i"] by (simp del: upt_Suc)
    have "LoadLatestCheckpointLocked io w = ((OK, i), w\<lparr>w_index := d'\<rparr>)"
      using io good by (simp add: LoadLatestCheckpointLocked_def io_fine_def contents_def)
    then show ?thesis
      using good replay_from_checkpoint(1) [OF ops good(6,2,3,8,9,10)]
      by (intro that [of "(OK, i)" "w\<lparr>w_index := d'\<rparr>" d' i]) (simp_all add: f loaded_def del: upt_Suc)
  qed
qed

lemma open_active_ok:
  assumes io: "io_fine io" and d: "disk_ok lib (w_files w) rss" and f: "formats_ok w" and b: "w_buf w = []"
    and ix: "index_ok lib rss (w_index w) m"
  shows "\<exists>w'. open_active io (length rss) w = (OK, w') \<and> wal_shape lib m rss [] w'"
proof -
  have r: "rss \<noteq> []" using d by (simp add: disk_ok_def)
  then have i: "1 \<le> length rss" "length rss \<le> length rss" by (cases rss; simp)+
  let ?i = "length rss"
  let ?w = "w\<lparr>w_formats := (w_formats w)(?i \<mapsto> kFormatVersionProtobuf)\<rparr>"
  have o: "OpenSegment io ?i w = (OK, ?w)" by (rule open_segment_ok [OF io disk_ok_on_disk [OF d i]])
  have l: "rss ! (?i - 1) = last rss" using r by (simp add: last_conv_nth)
  obtain c where c: "map_of (w_files w) (seg_file ?i) = Some c" "segment_bytes ?i (last rss) c"
    using disk_ok_segment [OF d i] l by auto
  have fit: "records_fit (last rss)" using d r by (simp add: disk_ok_def list_all_iff)
  have t: "ReadTrailer c = Inr (kHeaderSize + length (records_bytes (last rss))) \<or>
      last rss = [] \<and> length c = kHeaderSize \<and> ReadTrailer c = Inl (Corruption ''Segment too small for trailer'' [])"
    using c(2) read_trailer_ok [OF _ records_fit_U64 [OF fit], of c ?i]
    by (auto simp: segment_bytes_def ReadTrailer_def kTrailerSize_def)
  obtain w' where w': "open_active io ?i w = (OK, w')" "w_files w' = w_files w" "w_index w' = w_index w" "w_buf w' = []"
      "w_cached w' = w_cached w" "w_formats w' = w_formats ?w" "seg_id (w_active w') = ?i" "seg_fd (w_active w')"
      "seg_end_offset (w_active w') = kHeaderSize + length (records_bytes (last rss))"
    using o c(1) t b by (auto simp: open_active_def and_then_def contents_def Let_def)
  have "wal_shape lib m rss [] w'"
    using w' d f fit ix r by (auto simp: wal_shape_def formats_ok_def with_pending_simps)
  then show ?thesis using w'(1) by blast
qed

lemma index_ok_get:
  assumes "index_ok lib rss d m" and "di_ok d'" "slots_fit d'" "di_Get d' = di_Get d"
  shows "index_ok lib rss d' m"
  using assms by (simp add: index_ok_def)

lemma seg_ops_fit:
  assumes d: "disk_ok lib files rss" and ops: "log_ops lib 1 rss = Some ops" and "set ids \<subseteq> {1..length rss}"
  shows "list_all op_fits (concat (map (seg_ops lib rss) ids))"
proof -
  have "list_all op_fits (seg_ops lib rss i)" if "i \<in> set ids" for i
  proof -
    have i: "1 \<le> i" "i \<le> length rss" using that assms(3) by auto
    have "records_fit (rss ! (i - 1))" "i < U64" using d i by (simp_all add: disk_ok_def list_all_length)
    then show ?thesis using records_ops_fit [OF log_ops_segments(2) [OF ops i]] records_fit_U64 by blast
  qed
  then show ?thesis by (induction ids) auto
qed

text \<open>The index after the scan represents the same log.\<close>

lemma scanned_index_ok:
  assumes d: "disk_ok lib files rss" and ix: "index_ok lib rss d0 m" and ops: "log_ops lib 1 rss = Some ops"
    and "di_ok d2" "slots_fit d2" and d3: "d3 = foldl dense.op_step d2 (concat (map (seg_ops lib rss) ids))"
    and sub: "set ids \<subseteq> {1..length rss}" and g: "di_Get d3 = di_Get (foldl dense.op_step di_Clear ops)"
  shows "index_ok lib rss d3 m"
proof -
  have ops': "list_all di_valid ops" "di_Get d0 = di_Get (foldl dense.op_step di_Clear ops)"
    using ix ops unfolding index_ok_def by auto
  have "set ids \<subseteq> set [1..<Suc (length rss)]" using sub by auto
  then have "set (concat (map (seg_ops lib rss) ids)) \<subseteq> set ops"
    unfolding log_ops_segments(1) [OF ops] set_concat set_map by blast
  then have "list_all di_valid (concat (map (seg_ops lib rss) ids))" using ops'(1) by (auto simp: list_all_iff)
  then have "di_ok d3" "slots_fit d3"
    unfolding d3 using assms(4,5) dense.inv_run slots_fit_run seg_ops_fit [OF d ops sub] by blast+
  then show ?thesis using index_ok_get [OF ix] g ops'(2) by simp
qed

text \<open>How the steps of \<open>Open\<close> compose on a directory with segments.\<close>

lemma open_wal_steps:
  assumes "io_fine io" and "map_of files ''meta.json'' \<noteq> None \<Longrightarrow> LoadMeta lib io ((new_wal files)\<lparr>w_dir := dir\<rparr>) = OK"
    and "sort (segment_ids_on_disk io ((new_wal files)\<lparr>w_dir := dir\<rparr>)) = ids" "ids \<noteq> []"
    and "LoadLatestCheckpointLocked io ((new_wal files)\<lparr>w_dir := dir\<rparr>) = (p, w1)" "loaded p w1 = (w2, c2)"
  shows "Open_wal lib io dir (new_wal files) = and_then (open_segments lib io c2 ids w2) (open_active io (last ids))"
proof -
  have "w_files (new_wal files) = files" "io_kind io = Directory" using assms(1) by (simp_all add: new_wal_def io_fine_def)
  then show ?thesis
    using assms(2-) by (cases "map_of files ''meta.json''"; cases p)
      (auto simp: Open_wal_def Let_def and_then_def loaded_def split: if_splits)
qed

lemma load_meta_ok: "disk_ok lib files rss \<Longrightarrow> io_fine io \<Longrightarrow> w_files w = files \<Longrightarrow>
    map_of files ''meta.json'' \<noteq> None \<Longrightarrow> LoadMeta lib io w = OK"
  by (auto simp: LoadMeta_def contents_def disk_ok_def io_fine_def)

lemma open_disk:
  assumes io: "io_fine io" and d: "disk_ok lib files rss" and ix: "index_ok lib rss d0 m"
  shows "\<exists>w'. Open_wal lib io dir (new_wal files) = (OK, w') \<and> wal_shape lib m rss [] w'"
proof -
  let ?w = "(new_wal files)\<lparr>w_dir := dir\<rparr>" and ?ids = "[1..<Suc (length rss)]"
  obtain ops where ops: "log_ops lib 1 rss = Some ops" "list_all di_valid ops" using ix unfolding index_ok_def by blast
  have w: "w_files ?w = files" "w_index ?w = di_Clear" "w_buf ?w = []" "formats_ok ?w"
    by (simp_all add: new_wal_def formats_ok_def)
  have dw: "disk_ok lib (w_files ?w) rss" using d w(1) by simp
  obtain p w1 d2 c2 where l: "LoadLatestCheckpointLocked io ?w = (p, w1)" "loaded p w1 = (?w\<lparr>w_index := d2\<rparr>, c2)"
      "c2 \<le> length rss" "di_ok d2" "slots_fit d2"
      "di_Get (foldl dense.op_step d2 (concat (map (seg_ops lib rss) (filter (\<lambda>i. c2 \<le> i) ?ids)))) =
      di_Get (foldl dense.op_step di_Clear ops)"
    by (rule load_checkpoint_ok [OF io dw w(2) ops])
  have "\<forall>i \<in> set ?ids. seg_on_disk (w_files (?w\<lparr>w_index := d2\<rparr>)) rss i" "formats_ok (?w\<lparr>w_index := d2\<rparr>)"
    using disk_ok_on_disk [OF d] w by (auto simp: formats_ok_def)
  from open_segments_ok [OF io ops(1) this, of c2] obtain w3 where
    w3: "open_segments lib io c2 ?ids (?w\<lparr>w_index := d2\<rparr>) = (OK, w3)" "same_but_index (?w\<lparr>w_index := d2\<rparr>) w3"
      "formats_ok w3"
      "w_index w3 = foldl dense.op_step (w_index (?w\<lparr>w_index := d2\<rparr>))
        (concat (map (seg_ops lib rss) (filter (\<lambda>i. c2 \<le> i) ?ids)))" by blast
  have i3: "w_index w3 = foldl dense.op_step d2 (concat (map (seg_ops lib rss) (filter (\<lambda>i. c2 \<le> i) ?ids)))"
    unfolding w3(4) by simp
  have sub: "set (filter (\<lambda>i. c2 \<le> i) ?ids) \<subseteq> {1..length rss}" by auto
  have ix3: "index_ok lib rss (w_index w3) m"
    by (rule scanned_index_ok [OF d ix ops(1) l(4,5) i3 sub]) (simp only: i3 l(6))
  have "disk_ok lib (w_files w3) rss" "w_buf w3 = []" using w3(2) w d by (simp_all add: same_but_index_def)
  from open_active_ok [OF io this(1) w3(3) this(2) ix3] obtain w4 where
    w4: "open_active io (length rss) w3 = (OK, w4)" "wal_shape lib m rss [] w4" by blast
  have "rss \<noteq> []" using d by (simp add: disk_ok_def)
  then have ne: "?ids \<noteq> []" "last ?ids = length rss" by (simp_all add: Suc_le_eq)
  have "Open_wal lib io dir (new_wal files) = (OK, w4)"
    using open_wal_steps [OF io load_meta_ok [OF d io w(1)] segment_ids_disk [OF dw io] ne(1) l(1,2)] w3(1) w4(1) ne(2)
    by (simp add: and_then_def)
  then show ?thesis using w4(2) by blast
qed

section \<open>The log survives\<close>

lemma disk_ok_first:
  assumes "wl_stream lib meta = Inr j" and "records_fit rs" and "segment_bytes 1 rs c"
  shows "disk_ok lib [(seg_file 1, c), (''meta.json'', meta)] [rs]"
proof -
  have "i = 1" if "1 \<le> i" "i \<le> length [rs]" for i using that by simp
  then show ?thesis
    using assms unfolding disk_ok_def
    by (intro conjI allI impI) (auto simp: U64_def split: if_splits)
qed

lemma open_empty:
  assumes io: "io_fine io" and lib: "wal_lib_ok lib"
  shows "\<exists>w. Open_wal lib io dir (new_wal []) = (OK, w) \<and> wal_inv lib Map.empty w"
proof -
  let ?a = "\<lparr>seg_id = 1, seg_fd = True, seg_end_offset = kHeaderSize, seg_entry_count = 0,
      seg_format_version = kFormatVersionProtobuf\<rparr>"
  let ?w = "put_file (seg_file 1) (segment_header 1 kFormatVersionProtobuf)
      ((new_wal [])\<lparr>w_dir := dir, w_active := ?a, w_formats := (w_formats (new_wal []))(1 \<mapsto> kFormatVersionProtobuf)\<rparr>)"
  let ?meta = "wl_dump2 lib (meta_json ?w)"
  obtain j where j: "wl_stream lib ?meta = Inr j" using lib unfolding wal_lib_ok_def by blast
  have "Open_wal lib io dir (new_wal []) = (OK, put_file ''meta.json'' ?meta ?w)"
    using io by (simp add: Open_wal_def Let_def and_then_def segment_ids_on_disk_def CreateSegment_def SaveMeta_def
        io_fine_def room_for_def new_wal_def put_file_def List.map_filter_simps)
  moreover have "wal_shape lib Map.empty [[]] [] (put_file ''meta.json'' ?meta ?w)"
    using disk_ok_first [OF j, of "[]" "segment_header 1 kFormatVersionProtobuf"]
    by (simp add: wal_shape_def put_file_def new_wal_def with_pending_def index_ok_def segment_bytes_def)
  ultimately show ?thesis unfolding wal_inv_def by blast
qed

text \<open>
  C9: The write-ahead log refines a partial map from indexes to entries. Opened on an empty directory it represents the empty
  log; a successful append maps the entry's index to the entry; the truncations restrict the map; and a synchronisation
  keeps it.
\<close>

theorem wal_refines_log:
  assumes "io_fine io" and "wal_lib_ok lib"
  shows "(\<exists>w. Open_wal lib io dir (new_wal []) = (OK, w) \<and> wal_inv lib Map.empty w) \<and>
    (wal_inv lib m w \<and> Suc (seg_id (w_active w)) < U64 \<longrightarrow>
      (\<forall>e pl. e_index e < U32 \<and> wl_serialize lib (entry_proto e) = Some pl \<and> length pl \<le> kMaxRecordSize \<longrightarrow>
         (\<exists>w'. AppendLogEntry_wal lib io e w = (OK, w') \<and> wal_inv lib (m(e_index e \<mapsto> e)) w')) \<and>
      (\<forall>b < U64. (\<exists>w'. AppendTruncatePrefix lib io b w = (OK, w') \<and> wal_inv lib (m |` {b..}) w') \<and>
         (\<exists>w'. AppendTruncateSuffix lib io b w = (OK, w') \<and> wal_inv lib (m |` {..<b}) w')) \<and>
      wal_inv lib m (snd (Sync_wal io w)))"
  using open_empty [OF assms] append_entry_inv [OF assms] truncate_inv [OF assms] sync_inv [OF assms(1)] by blast

lemma wal_restart:
  assumes "io_fine io" and "io_fine io'" and "wal_inv lib m w"
  shows "\<exists>w'. Open_wal lib io' dir (Close_wal io w) = (OK, w') \<and> wal_inv lib m w'"
proof -
  obtain rss pend where w: "wal_shape lib m rss pend w" using assms(3) unfolding wal_inv_def by blast
  have d: "disk_ok lib (w_files (Close_wal io w)) (with_pending rss pend)"
    and c: "Close_wal io w = new_wal (w_files (Close_wal io w))"
    using close_disk [OF assms(1) w] by blast+
  have ix: "index_ok lib (with_pending rss pend) (w_index w) m" using w by (simp add: wal_shape_def)
  from open_disk [OF assms(2) d ix, of dir] c show ?thesis unfolding wal_inv_def by metis
qed

text \<open>
  The log survives a restart: after closing the write-ahead log and opening it again on the same files, from a checkpoint
  or from the segments alone, every entry of the log it represented is read back, up to a missing checksum, and no other.
\<close>

theorem wal_survives_restart:
  assumes "io_fine io" and "io_fine io'" and "wal_lib_ok lib" and "wal_inv lib m w"
  shows "\<exists>w'. Open_wal lib io' dir (Close_wal io w) = (OK, w') \<and> wal_inv lib m w' \<and>
    (\<forall>i. m i = None \<longrightarrow> fst (GetEntry_wal lib io' i w') = Inl (Error ''Entry not found'' [])) \<and>
    (\<forall>i e. m i = Some e \<and> entry_fits e \<and> e_checksum e \<noteq> 0 \<longrightarrow> fst (GetEntry_wal lib io' i w') = Inr e)"
proof -
  obtain w' where w': "Open_wal lib io' dir (Close_wal io w) = (OK, w')" "wal_inv lib m w'"
    using wal_restart [OF assms(1,2,4)] by blast
  have "fst (GetEntry_wal lib io' i w') = Inl (Error ''Entry not found'' [])" if "m i = None" for i
    using get_entry_inv(2) [OF assms(2,3) w'(2) that] by fastforce
  moreover have "fst (GetEntry_wal lib io' i w') = Inr e" if "m i = Some e" "entry_fits e" "e_checksum e \<noteq> 0" for i e
    using get_entry_inv(1) [OF assms(2,3) w'(2) that(1,2)] that(3) by fastforce
  ultimately show ?thesis using w' by blast
qed

section \<open>An example\<close>

text \<open>Libraries that know one entry and the two objects of the truncation records, and system calls that succeed.\<close>

definition ex_entry :: RaftLogEntry where
  "ex_entry = \<lparr>e_index = 3, e_term = 2, e_data = ''d'', e_command = ''put'', e_checksum = 7\<rparr>"

definition ex_dump :: "json \<Rightarrow> string" where
  "ex_dump j = (case j of
      JObject m \<Rightarrow> (case m ''before_index'' of Some (JInt n) \<Rightarrow> CHR ''b'' # le_bytes 8 (nat n)
                  | _ \<Rightarrow> (case m ''from_index'' of Some (JInt n) \<Rightarrow> CHR ''f'' # le_bytes 8 (nat n) | _ \<Rightarrow> ''?''))
    | _ \<Rightarrow> ''?'')"

definition ex_parse :: "string \<Rightarrow> string + json" where
  "ex_parse s = (case s of
      c # cs \<Rightarrow> if c = CHR ''b'' then Inr (JObject [''before_index'' \<mapsto> JInt (int (le_read cs))])
                else if c = CHR ''f'' then Inr (JObject [''from_index'' \<mapsto> JInt (int (le_read cs))]) else Inl ''parse_error''
    | [] \<Rightarrow> Inl ''parse_error'')"

definition ex_wal_lib :: WalLib where
  "ex_wal_lib = \<lparr>wl_serialize = (\<lambda>p. if p = entry_proto ex_entry then Some ''p'' else None),
     wl_parse = (\<lambda>s. if s = ''p'' then Some (entry_proto ex_entry) else None),
     wl_json = \<lparr>jl_parse = ex_parse, jl_dump = (\<lambda>j. Inr (ex_dump j)), jl_type_error = (\<lambda>_. ''type_error'')\<rparr>,
     wl_dump = ex_dump, wl_dump2 = (\<lambda>_. ''{}''), wl_stream = (\<lambda>_. Inr (JObject Map.empty))\<rparr>"

definition ex_io :: WalIO where
  "ex_io = \<lparr>io_kind = Directory, io_mkdir = True, io_opendir = True, io_open = (\<lambda>_. True), io_room = None,
     io_sync = True, io_rename = True\<rparr>"

lemma ex_dump_numbers:
  "ex_dump (JObject [''before_index'' \<mapsto> JInt (int n)]) = CHR ''b'' # le_bytes 8 n"
  "ex_dump (JObject [''from_index'' \<mapsto> JInt (int n)]) = CHR ''f'' # le_bytes 8 n"
  by (simp_all add: ex_dump_def)

lemma ex_wal_lib_ok: "wal_lib_ok ex_wal_lib"
proof -
  have "256 ^ 8 = U64" by (simp add: U64_def)
  then have "le_read (le_bytes 8 n) = n" if "n < U64" for n using that by (metis le_read_bytes)
  then show ?thesis
    by (auto simp: wal_lib_ok_def ex_wal_lib_def ex_dump_numbers ex_parse_def)
qed

lemma ex_io_fine: "io_fine ex_io"
  by (simp add: io_fine_def ex_io_def)

definition ex_opened :: WALPersister where
  "ex_opened = snd (Open_wal ex_wal_lib ex_io ''wal'' (new_wal []))"

definition ex_appended :: WALPersister where
  "ex_appended = snd (AppendLogEntry_wal ex_wal_lib ex_io ex_entry ex_opened)"

lemma ex_opened_inv: "wal_inv ex_wal_lib Map.empty ex_opened" "seg_id (w_active ex_opened) = 1"
proof -
  show "wal_inv ex_wal_lib Map.empty ex_opened"
    using open_empty [OF ex_io_fine ex_wal_lib_ok, of "''wal''"] by (auto simp: ex_opened_def)
  show "seg_id (w_active ex_opened) = 1"
    by (simp add: ex_opened_def Open_wal_def Let_def and_then_def segment_ids_on_disk_def CreateSegment_def SaveMeta_def
        ex_io_def room_for_def new_wal_def put_file_def List.map_filter_simps)
qed

lemma ex_fits: "e_index ex_entry < U32" "wl_serialize ex_wal_lib (entry_proto ex_entry) = Some ''p''"
    "length ''p'' \<le> kMaxRecordSize" "Suc (seg_id (w_active ex_opened)) < U64"
  by (simp_all add: ex_entry_def ex_wal_lib_def U32_def kMaxRecordSize_def ex_opened_inv(2) U64_def)

lemma ex_appended_inv: "wal_inv ex_wal_lib [3 \<mapsto> ex_entry] ex_appended"
proof -
  have "e_index ex_entry = 3" by (simp add: ex_entry_def)
  then show ?thesis
    using append_entry_inv [OF ex_io_fine ex_wal_lib_ok ex_opened_inv(1) ex_fits]
    by (auto simp: ex_appended_def)
qed

theorem wal_refines_log_witness:
  "\<exists>w. AppendLogEntry_wal ex_wal_lib ex_io ex_entry ex_opened = (OK, w) \<and> wal_inv ex_wal_lib [3 \<mapsto> ex_entry] w"
proof -
  have "\<exists>w. AppendLogEntry_wal ex_wal_lib ex_io ex_entry ex_opened = (OK, w) \<and>
      wal_inv ex_wal_lib (Map.empty(e_index ex_entry \<mapsto> ex_entry)) w"
    using wal_refines_log [OF ex_io_fine ex_wal_lib_ok, of "''wal''" Map.empty ex_opened] ex_opened_inv(1) ex_fits by blast
  then show ?thesis by (simp add: ex_entry_def)
qed

theorem wal_survives_restart_witness:
  "\<exists>w. Open_wal ex_wal_lib ex_io ''wal'' (Close_wal ex_io ex_appended) = (OK, w) \<and>
     fst (GetEntry_wal ex_wal_lib ex_io 3 w) = Inr ex_entry"
proof -
  have "entry_fits ex_entry" "e_checksum ex_entry \<noteq> 0" by (simp_all add: ex_entry_def entry_fits_def fits_u32_def)
  then show ?thesis
    using wal_survives_restart [OF ex_io_fine ex_io_fine ex_wal_lib_ok ex_appended_inv, of "''wal''"] by fastforce
qed

end
