(* ===== verification/Wal_Crash.thy ===== *)
theory Wal_Crash
  imports Wal_Recovery
begin

text \<open>
  Recovery of the write-ahead log after a crash in the middle of a flush: the segment in use lacks its trailer and ends
  in the middle of a record. \<open>Open\<close> cuts the record off and represents the log of the complete records. When the crash
  falls between two records there is nothing to cut off, and \<open>Open\<close> fails for good.
\<close>

section \<open>The other files\<close>

text \<open>The segment in use has other contents than those of the files \<open>files\<close>.\<close>

abbreviation damaged :: "WALRecord list list \<Rightarrow> string \<Rightarrow> (string \<times> string) list \<Rightarrow> (string \<times> string) list" where
  "damaged rss c files \<equiv> AList.update (seg_file (length rss)) c files"

lemma update_known_keys: "map_of files k \<noteq> None \<Longrightarrow> keys (AList.update k v files) = keys files"
  by (simp add: AList.update_keys map_of_eq_None_iff)

lemma disk_ok_active: "disk_ok lib files rss \<Longrightarrow> map_of files (seg_file (length rss)) \<noteq> None"
  using disk_ok_segment [of lib files rss "length rss"] by (cases rss) (auto simp: disk_ok_def)

text \<open>The directory listing and the checkpoint do not depend on the contents of a segment.\<close>

lemma segment_ids_damaged:
  assumes "map_of (w_files w) k \<noteq> None"
  shows "segment_ids_on_disk io (w\<lparr>w_files := AList.update k c (w_files w)\<rparr>) = segment_ids_on_disk io w"
  using update_known_keys [OF assms] by (simp add: segment_ids_on_disk_def)

lemma best_checkpoint_damaged:
  assumes "map_of (w_files w) k \<noteq> None"
  shows "best_checkpoint io (w\<lparr>w_files := AList.update k c (w_files w)\<rparr>) = best_checkpoint io w"
proof -
  have "ListCheckpointFilesLocked io (w\<lparr>w_files := AList.update k c (w_files w)\<rparr>) = ListCheckpointFilesLocked io w"
    using update_known_keys [OF assms] by (simp add: ListCheckpointFilesLocked_def)
  moreover have "(map_of (AList.update k c (w_files w)) (seg_file i) \<noteq> None) = (map_of (w_files w) (seg_file i) \<noteq> None)" for i
    using assms by (simp add: map_of_update)
  ultimately show ?thesis by (simp add: best_checkpoint_def cong: option.case_cong if_cong)
qed

lemma load_checkpoint_damaged:
  assumes d: "disk_ok lib (w_files w) rss" and l: "LoadLatestCheckpointLocked io w = (p, w1)"
  shows "LoadLatestCheckpointLocked io (w\<lparr>w_files := damaged rss c (w_files w)\<rparr>) =
    (p, w1\<lparr>w_files := damaged rss c (w_files w)\<rparr>)"
proof -
  let ?w = "w\<lparr>w_files := damaged rss c (w_files w)\<rparr>"
  have b: "best_checkpoint io ?w = best_checkpoint io w" by (rule best_checkpoint_damaged [OF disk_ok_active [OF d]])
  have "contents ?w (ckpt_file i) = contents w (ckpt_file i)" for i by (simp add: contents_def)
  then show ?thesis
    using best_checkpoint_ok [OF d, of io] l b by (auto simp: LoadLatestCheckpointLocked_def split: sum.splits)
qed

lemma loaded_files: "loaded p (w\<lparr>w_files := f\<rparr>) = map_prod (w_files_update (\<lambda>_. f)) id (loaded p w)"
  by (simp add: loaded_def)

lemma open_segments_append:
  "open_segments lib io covered (is @ js) w = and_then (open_segments lib io covered is w) (open_segments lib io covered js)"
  by (induction "is" arbitrary: w) (auto simp: and_then_def split: prod.split option.split)

section \<open>Up to the segment in use\<close>

lemma active_segment:
  assumes d: "disk_ok lib files rss"
  shows "1 \<le> length rss" and "length rss < U64" and "records_fit (last rss)"
    and "log_ops lib 1 rss = Some ops \<Longrightarrow>
      records_ops lib kFormatVersionProtobuf (length rss) kHeaderSize (last rss) = Some (seg_ops lib rss (length rss))"
proof -
  show n: "1 \<le> length rss" "length rss < U64" using d by (auto simp: disk_ok_def Suc_le_eq)
  then have l: "last rss = rss ! (length rss - 1)" by (cases rss) (simp_all add: last_conv_nth)
  then show "records_fit (last rss)" using d n by (simp add: disk_ok_def list_all_length)
  show "records_ops lib kFormatVersionProtobuf (length rss) kHeaderSize (last rss) = Some (seg_ops lib rss (length rss))"
    if "log_ops lib 1 rss = Some ops"
    using log_ops_segments(2) [OF that n(1) order.refl] l by simp
qed

lemma open_before_active:
  assumes io: "io_fine io" and d: "disk_ok lib files rss" and ix: "index_ok lib rss d0 m"
  obtains p w1 w2 c2 w3 where
    "LoadLatestCheckpointLocked io ((new_wal (damaged rss c files))\<lparr>w_dir := dir\<rparr>) = (p, w1)"
    and "loaded p w1 = (w2, c2)" and "c2 \<le> length rss"
    and "open_segments lib io c2 [1..<length rss] w2 = (OK, w3)"
    and "formats_ok w3" and "w_files w3 = damaged rss c files" and "w_buf w3 = []"
    and "index_ok lib rss (foldl dense.op_step (w_index w3) (seg_ops lib rss (length rss))) m"
proof -
  let ?w = "(new_wal files)\<lparr>w_dir := dir\<rparr>" and ?f = "damaged rss c files" and ?n = "length rss"
  have n: "1 \<le> ?n" using d by (cases rss) (simp_all add: disk_ok_def)
  obtain ops where ops: "log_ops lib 1 rss = Some ops" "list_all di_valid ops" using ix unfolding index_ok_def by blast
  have w: "disk_ok lib (w_files ?w) rss" "w_index ?w = di_Clear" using d by (simp_all add: new_wal_def)
  obtain p w1 d2 c2 where l: "LoadLatestCheckpointLocked io ?w = (p, w1)" "loaded p w1 = (?w\<lparr>w_index := d2\<rparr>, c2)"
      "c2 \<le> ?n" "di_ok d2" "slots_fit d2"
      "di_Get (foldl dense.op_step d2 (concat (map (seg_ops lib rss) (filter (\<lambda>i. c2 \<le> i) [1..<Suc ?n])))) =
      di_Get (foldl dense.op_step di_Clear ops)"
    by (rule load_checkpoint_ok [OF io w ops])
  let ?w2 = "?w\<lparr>w_index := d2, w_files := ?f\<rparr>"
  have new: "(new_wal ?f)\<lparr>w_dir := dir\<rparr> = ?w\<lparr>w_files := damaged rss c (w_files ?w)\<rparr>" by (simp add: new_wal_def)
  have l1: "LoadLatestCheckpointLocked io ((new_wal ?f)\<lparr>w_dir := dir\<rparr>) = (p, w1\<lparr>w_files := ?f\<rparr>)"
    using load_checkpoint_damaged [OF w(1) l(1), of c] new by (simp add: new_wal_def)
  have l2: "loaded p (w1\<lparr>w_files := ?f\<rparr>) = (?w2, c2)" using l(2) loaded_files [where p = p and w = w1 and f = ?f] by simp
  have on: "\<forall>i \<in> set [1..<?n]. seg_on_disk (w_files ?w2) rss i"
    using disk_ok_on_disk [OF d] by (auto simp: seg_on_disk_def map_of_update)
  have "formats_ok ?w2" by (simp add: new_wal_def formats_ok_def)
  from open_segments_ok [OF io ops(1) on this, of c2] obtain w3 where
    w3: "open_segments lib io c2 [1..<?n] ?w2 = (OK, w3)" "same_but_index ?w2 w3" "formats_ok w3"
      "w_index w3 = foldl dense.op_step (w_index ?w2) (concat (map (seg_ops lib rss) (filter (\<lambda>i. c2 \<le> i) [1..<?n])))"
    by blast
  have u: "filter (\<lambda>i. c2 \<le> i) [1..<Suc ?n] = filter (\<lambda>i. c2 \<le> i) [1..<?n] @ [?n]" using n l(3) by simp
  have i3: "foldl dense.op_step (w_index w3) (seg_ops lib rss ?n) =
      foldl dense.op_step d2 (concat (map (seg_ops lib rss) (filter (\<lambda>i. c2 \<le> i) [1..<Suc ?n])))"
    unfolding u w3(4) by simp
  have sub: "set (filter (\<lambda>i. c2 \<le> i) [1..<Suc ?n]) \<subseteq> {1..?n}" by auto
  have "index_ok lib rss (foldl dense.op_step (w_index w3) (seg_ops lib rss ?n)) m"
    by (rule scanned_index_ok [OF d ix ops(1) l(4,5) i3 sub]) (simp only: i3 l(6))
  then show thesis
    using that [OF l1 l2 l(3) w3(1,3)] w3(2) by (simp add: same_but_index_def new_wal_def)
qed

text \<open>A segment with a good header whose trailer is missing.\<close>

lemma get_cached_header:
  assumes io: "io_fine io" and n: "i < U64" and f: "formats_ok w"
    and c: "map_of (w_files w) (seg_file i) = Some c" "c = segment_header i kFormatVersionProtobuf @ rest"
  shows "\<exists>w'. GetCachedSegmentFd io i w = (OK, w') \<and> same_but_index w w' \<and> w_index w' = w_index w \<and> formats_ok w' \<and>
    w_formats w' i = Some kFormatVersionProtobuf"
proof (cases "w_cached w = Some i")
  case True
  then show ?thesis using f by (simp add: GetCachedSegmentFd_def formats_ok_def same_but_index_def)
next
  case False
  have "map_of (w_files (w\<lparr>w_cached := None\<rparr>)) (seg_file i) = Some c" using c(1) by simp
  from open_segment_header [OF io n this c(2)] False show ?thesis
    using f by (simp add: GetCachedSegmentFd_def and_then_def formats_ok_def same_but_index_def)
qed

lemma scan_segment_torn:
  assumes io: "io_fine io" and n: "i < U64" and f: "formats_ok w" and fit: "records_fit rs"
    and c: "map_of (w_files w) (seg_file i) = Some c"
      "c = segment_header i kFormatVersionProtobuf @ records_bytes rs @ take k (record_bytes r)"
    and r: "record_ok r" "k < length (record_bytes r)" and t: "ReadTrailer c = Inl st0"
    and big: "kHeaderSize < length c"
    and ops: "records_ops lib kFormatVersionProtobuf i kHeaderSize rs = Some ops"
  shows "\<exists>w' st. ScanSegment lib io None i [] w =
      ((st, if k = 0 then None else Some (kHeaderSize + length (records_bytes rs)), []), w') \<and> ok st = (k = 0) \<and>
    same_but_index w w' \<and> w_index w' = foldl dense.op_step (w_index w) ops \<and> formats_ok w'"
proof -
  obtain w1 where w1: "GetCachedSegmentFd io i w = (OK, w1)" "same_but_index w w1" "w_index w1 = w_index w" "formats_ok w1"
      "w_formats w1 i = Some kFormatVersionProtobuf"
    using get_cached_header [OF io n f c] by blast
  have cont: "contents w1 (seg_file i) = c" using w1(2) c(1) by (simp add: contents_def same_but_index_def)
  have dr: "drop kHeaderSize c = records_bytes rs @ take k (record_bytes r)" by (simp add: c(2))
  let ?off = "kHeaderSize + length (records_bytes rs)"
  have len: "length c = ?off + k" using r(2) by (simp add: c(2) min_def)
  have run: "scan_records lib None kFormatVersionProtobuf i c (length c) kHeaderSize [] (w_index w) =
      scan_records lib None kFormatVersionProtobuf i c (length c) ?off [] (foldl dense.op_step (w_index w) ops)"
    using scan_records_run [OF _ dr _ index_records_ops [OF ops], of "length c" "[]" "w_index w"] fit len
    by (simp add: records_fit_def)
  show ?thesis
  proof (cases "k = 0")
    case True
    then show ?thesis
      using w1 t cont run len big by (simp add: ScanSegment_def Let_def scan_records_end same_but_index_def formats_ok_def)
  next
    case False
    have "drop ?off c = take k (record_bytes r)" by (simp add: c(2))
    from scan_record_torn [OF r(1) this r(2) order.refl, of i] len obtain st where
      st: "scan_record i c (length c) ?off = Inl st" "\<not> ok st" by auto
    have "scan_records lib None kFormatVersionProtobuf i c (length c) ?off [] (foldl dense.op_step (w_index w) ops) =
        \<lparr>sr_status = st, sr_truncate = Some ?off, sr_index = foldl dense.op_step (w_index w) ops, sr_seen = []\<rparr>"
      using st False len by (subst scan_records.simps) simp
    then show ?thesis
      using w1 t cont run big st False by (simp add: ScanSegment_def Let_def same_but_index_def formats_ok_def)
  qed
qed

section \<open>Recovery\<close>

text \<open>The segment in use, cut off behind its complete records.\<close>

lemma truncate_torn:
  assumes io: "io_fine io" and c: "map_of (w_files w) (seg_file i) = Some c"
      "c = segment_header i kFormatVersionProtobuf @ records_bytes rs @ rest"
  shows "TruncateSegmentFile io i (kHeaderSize + length (records_bytes rs)) w =
    (OK, put_file (seg_file i) (segment_header i kFormatVersionProtobuf @ records_bytes rs @
        trailer_bytes (kHeaderSize + length (records_bytes rs))) w)"
  using io by (simp add: TruncateSegmentFile_def Let_def c room_for_def io_fine_def contents_def write_at_def)

lemma open_damaged:
  assumes io: "io_fine io" and d: "disk_ok lib files rss"
    and l: "LoadLatestCheckpointLocked io ((new_wal (damaged rss c files))\<lparr>w_dir := dir\<rparr>) = (p, w1)"
      "loaded p w1 = (w2, c2)" "open_segments lib io c2 [1..<length rss] w2 = (OK, w3)"
  shows "Open_wal lib io dir (new_wal (damaged rss c files)) =
    and_then (open_segments lib io c2 [length rss] w3) (open_active io (length rss))"
proof -
  let ?f = "damaged rss c files" and ?w = "(new_wal files)\<lparr>w_dir := dir\<rparr>"
  have a: "map_of (w_files ?w) (seg_file (length rss)) \<noteq> None" and w: "disk_ok lib (w_files ?w) rss"
    using disk_ok_active [OF d] d by (simp_all add: new_wal_def)
  have "(new_wal ?f)\<lparr>w_dir := dir\<rparr> = ?w\<lparr>w_files := damaged rss c (w_files ?w)\<rparr>" by (simp add: new_wal_def)
  then have ids: "sort (segment_ids_on_disk io ((new_wal ?f)\<lparr>w_dir := dir\<rparr>)) = [1..<Suc (length rss)]"
    using segment_ids_damaged [OF a] segment_ids_disk [OF w io] by metis
  have m: "LoadMeta lib io ((new_wal ?f)\<lparr>w_dir := dir\<rparr>) = OK" if "map_of ?f ''meta.json'' \<noteq> None"
  proof -
    have "contents ((new_wal ?f)\<lparr>w_dir := dir\<rparr>) ''meta.json'' = contents ?w ''meta.json''"
      by (simp add: contents_def new_wal_def)
    then have "LoadMeta lib io ((new_wal ?f)\<lparr>w_dir := dir\<rparr>) = LoadMeta lib io ?w" by (simp add: LoadMeta_def)
    then show ?thesis using load_meta_ok [OF d io, of ?w] that by (simp add: new_wal_def)
  qed
  have n: "1 \<le> length rss" using d by (cases rss) (simp_all add: disk_ok_def)
  have u: "[1..<Suc (length rss)] = [1..<length rss] @ [length rss]" using n by simp
  have "Open_wal lib io dir (new_wal ?f) =
      and_then (open_segments lib io c2 [1..<Suc (length rss)] w2) (open_active io (last [1..<Suc (length rss)]))"
    by (rule open_wal_steps [OF io m ids _ l(1,2)]) (assumption, use n in simp)
  then show ?thesis
    unfolding u open_segments_append using l(3) by (simp add: and_then_def)
qed

lemma open_torn_segment:
  assumes io: "io_fine io" and n: "n < U64" and f: "formats_ok w" and fit: "records_fit rs" and cov: "covered \<le> n"
    and c: "map_of (w_files w) (seg_file n) = Some c"
      "c = segment_header n kFormatVersionProtobuf @ records_bytes rs @ take k (record_bytes r)"
    and r: "record_ok r" "k < length (record_bytes r)" and t: "ReadTrailer c = Inl st0"
    and big: "kHeaderSize < length c"
    and ops: "records_ops lib kFormatVersionProtobuf n kHeaderSize rs = Some ops"
  shows "\<exists>w'. open_segments lib io covered [n] w = (OK, w') \<and> formats_ok w' \<and> w_buf w' = w_buf w \<and>
    w_index w' = foldl dense.op_step (w_index w) ops \<and>
    w_files w' = (if k = 0 then w_files w else AList.update (seg_file n) (segment_header n kFormatVersionProtobuf @
      records_bytes rs @ trailer_bytes (kHeaderSize + length (records_bytes rs))) (w_files w))"
proof -
  let ?w = "w\<lparr>w_formats := (w_formats w)(n \<mapsto> kFormatVersionProtobuf)\<rparr>"
  let ?off = "kHeaderSize + length (records_bytes rs)"
  have op: "OpenSegment io n w = (OK, ?w)" by (rule open_segment_header [OF io n c])
  have "formats_ok ?w" "map_of (w_files ?w) (seg_file n) = Some c" using f c(1) by (auto simp: formats_ok_def)
  from scan_segment_torn [OF io n this(1) fit this(2) c(2) r t big ops] obtain w4 st' where
    w4: "ScanSegment lib io None n [] ?w = ((st', if k = 0 then None else Some ?off, []), w4)" "ok st' = (k = 0)"
      "same_but_index ?w w4" "w_index w4 = foldl dense.op_step (w_index ?w) ops" "formats_ok w4" by blast
  show ?thesis
  proof (cases "k = 0")
    case True
    then show ?thesis using op w4 cov by (simp add: and_then_def same_but_index_def)
  next
    case False
    have "map_of (w_files w4) (seg_file n) = Some c" using w4(3) c(1) by (simp add: same_but_index_def)
    note tr = truncate_torn [OF io this c(2)]
    have "kHeaderSize \<noteq> 0" by (simp add: kHeaderSize_def)
    then show ?thesis
      using False op w4 cov tr by (simp add: and_then_def same_but_index_def put_file_def formats_ok_def)
  qed
qed


text \<open>One segment that holds a record of a kind recovery does not know, or nothing.\<close>

definition ex_record :: WALRecord where
  "ex_record = \<lparr>wr_type = 9, wr_payload = []\<rparr>"

definition ex_files :: "WALRecord list \<Rightarrow> (string \<times> string) list" where
  "ex_files rs = [(seg_file 1, segment_header 1 kFormatVersionProtobuf @ records_bytes rs @
     trailer_bytes (kHeaderSize + length (records_bytes rs))), (''meta.json'', ''{}'')]"

lemma ex_record_ok: "record_ok ex_record"
  by (simp add: ex_record_def record_ok_def)

lemma ex_files_ok:
  assumes "rs = [] \<or> rs = [ex_record]"
  shows "disk_ok ex_wal_lib (ex_files rs) [rs]" and "index_ok ex_wal_lib [rs] di_Clear Map.empty"
proof -
  have "wl_stream ex_wal_lib ''{}'' = Inr (JObject Map.empty)" by (simp add: ex_wal_lib_def)
  moreover have "records_fit rs" using assms
    by (auto simp: records_fit_def ex_record_def record_ok_def kHeaderSize_def seg_limit_def kMaxSegmentSize_def)
  ultimately show "disk_ok ex_wal_lib (ex_files rs) [rs]"
    unfolding ex_files_def by (rule disk_ok_first) (simp add: segment_bytes_def)
  show "index_ok ex_wal_lib [rs] di_Clear Map.empty"
    using assms by (auto simp: index_ok_def record_op_def ex_record_def kLogEntry_def kTruncatePrefix_def kTruncateSuffix_def)
qed


text \<open>
  A crash after the last byte of a record and before the trailer is written makes the directory unusable: the scan finds
  no torn record to cut off, and the missing trailer makes every later attempt to open the log fail.
\<close>

theorem missing_trailer_blocks_open:
  assumes io: "io_fine io" and d: "disk_ok lib files rss" and ix: "index_ok lib rss d0 m"
    and c: "c = segment_header (length rss) kFormatVersionProtobuf @ records_bytes (last rss)" "last rss \<noteq> []"
    and t: "ReadTrailer c = Inl st"
  shows "fst (Open_wal lib io dir (new_wal (AList.update (seg_file (length rss)) c files))) = st \<and> \<not> ok st"
proof -
  let ?n = "length rss" and ?r = "\<lparr>wr_type = 0, wr_payload = []\<rparr>"
  obtain p w1 w2 c2 w3 where l: "LoadLatestCheckpointLocked io ((new_wal (damaged rss c files))\<lparr>w_dir := dir\<rparr>) = (p, w1)"
      "loaded p w1 = (w2, c2)" "c2 \<le> ?n" "open_segments lib io c2 [1..<?n] w2 = (OK, w3)" "formats_ok w3"
      "w_files w3 = damaged rss c files"
    by (rule open_before_active [OF io d ix])
  note n = active_segment [OF d]
  obtain ops where ops: "log_ops lib 1 rss = Some ops" using ix unfolding index_ok_def by blast
  have m3: "map_of (w_files w3) (seg_file ?n) = Some c" using l(6) by simp
  have len: "kHeaderSize < length c" using c(2) by (cases "last rss") (simp_all add: c(1))
  have "c = segment_header ?n kFormatVersionProtobuf @ records_bytes (last rss) @ take 0 (record_bytes ?r)"
    and "record_ok ?r" "0 < length (record_bytes ?r)" by (simp_all add: c(1) record_ok_def)
  from open_torn_segment [OF io n(2) l(5) n(3) l(3) m3 this t len n(4) [OF ops]] obtain w5 where
    w5: "open_segments lib io c2 [?n] w3 = (OK, w5)" "w_files w5 = w_files w3" by auto
  have m5: "map_of (w_files w5) (seg_file ?n) = Some c" using w5(2) m3 by simp
  have o: "OpenSegment io ?n w5 = (OK, w5\<lparr>w_formats := (w_formats w5)(?n \<mapsto> kFormatVersionProtobuf)\<rparr>)"
    by (rule open_segment_header [OF io n(2) m5 c(1)])
  have "\<not> ok st" using t by (auto simp: ReadTrailer_def Let_def split: if_splits)
  then show ?thesis
    using open_damaged [OF io d l(1,2,4)] w5(1) o m5 t len
    by (auto simp: and_then_def open_active_def contents_def Let_def)
qed

lemma le_read_append: "le_read (xs @ ys) = le_read xs + 256 ^ length xs * le_read ys"
  by (induction xs) simp_all

theorem missing_trailer_blocks_open_witness:
  "fst (Open_wal ex_wal_lib ex_io ''wal'' (new_wal (AList.update (seg_file 1)
      (segment_header 1 kFormatVersionProtobuf @ record_bytes ex_record) (ex_files [ex_record])))) =
    Corruption ''Invalid trailer end_offset'' []"
proof -
  let ?c = "segment_header 1 kFormatVersionProtobuf @ record_bytes ex_record"
  have "drop (length ?c - kTrailerSize) ?c = drop 2 (record_bytes ex_record)"
    by (simp add: ex_record_def kTrailerSize_def)
  also have "\<dots> = drop 2 (le_bytes 4 (unat (ComputeCRC32 (record_body ex_record)))) @ le_bytes 4 0 @ le_bytes 2 9"
    by (simp add: record_bytes_def record_body_def ex_record_def)
  finally have "19 < le_read (drop (length ?c - kTrailerSize) ?c)"
    by (simp add: le_read_append)
  then have "ReadTrailer ?c = Inl (Corruption ''Invalid trailer end_offset'' [])"
    by (simp add: ReadTrailer_def Let_def ex_record_def kHeaderSize_def kTrailerSize_def)
  then show ?thesis
    using missing_trailer_blocks_open [OF ex_io_fine ex_files_ok, of "[ex_record]"] by simp
qed

section \<open>Failing system calls\<close>

text \<open>
  When the directory cannot be listed, it is taken for an empty one: the first segment is created anew, over the records
  it holds.
\<close>

lemma unlisted_directory_loses_log:
  assumes "io_kind io = Directory" and "\<not> io_opendir io" and "\<And>n. io_open io n" and "io_room io = None"
    and "map_of files ''meta.json'' = Some c" and "wl_stream lib c = Inr j"
  shows "\<exists>w. Open_wal lib io dir (new_wal files) = (OK, w) \<and>
    map_of (w_files w) (seg_file 1) = Some (segment_header 1 kFormatVersionProtobuf)"
  using assms
  by (simp add: Open_wal_def Let_def and_then_def LoadMeta_def contents_def segment_ids_on_disk_def CreateSegment_def
      SaveMeta_def room_for_def new_wal_def put_file_def)

text \<open>
  A record whose flush fails stays in the write buffer although the append reports an error, so a later flush makes it
  part of the log.
\<close>

lemma failed_append_stays_buffered:
  assumes "length (wr_payload r) \<le> kMaxRecordSize" and "kWriteBufferSize \<le> length (w_buf w @ record_bytes r)"
    and "seg_fd (w_active w)" and "io_room io = Some 0"
  shows "\<exists>w'. fst (AppendRecordToBufferLocked io r w) = (Error ''Failed to write WAL buffer'' [], w') \<and>
    w_buf w' = w_buf w @ record_bytes r"
proof -
  have "record_bytes r \<noteq> []" using length_record_bytes [of r] by (cases "record_bytes r") simp_all
  then show ?thesis
    using assms by (auto simp: AppendRecordToBufferLocked_def FlushWriteBufferLocked_def Let_def room_for_def put_file_def)
qed

section \<open>A checkpoint of unwritten records\<close>

definition ex_index :: DenseIndex where
  "ex_index = \<lparr>first_index = 3, slots = [\<lparr>wie_segment_id = 1, wie_file_offset = 16, wie_length = 11\<rparr>]\<rparr>"

definition ex_collected :: WALPersister where
  "ex_collected = snd (GarbageCollect ex_io 0 ex_appended)"

lemma ex_appended_state:
  "w_files ex_appended = [(seg_file 1, segment_header 1 kFormatVersionProtobuf), (''meta.json'', ''{}'')]"
  "w_index ex_appended = ex_index" "seg_id (w_active ex_appended) = 1"
  by (simp_all add: ex_appended_def ex_opened_def Open_wal_def Let_def and_then_def segment_ids_on_disk_def CreateSegment_def
      SaveMeta_def ex_io_def room_for_def new_wal_def put_file_def List.map_filter_simps AppendLogEntry_wal_def
      AppendRecordToBufferLocked_def RotateSegmentIfNeeded_def ex_wal_lib_def kMaxSegmentEntries_def kMaxSegmentSize_def
      kHeaderSize_def kMaxRecordSize_def kWriteBufferSize_def ex_index_def di_Put_def di_Clear_def ex_entry_def)

lemma ex_collected_files:
  "w_files ex_collected = [(seg_file 1, segment_header 1 kFormatVersionProtobuf), (''meta.json'', ''{}''),
     (ckpt_file 1, checkpoint_bytes ex_index 1)]"
proof -
  have i: "di_TruncatePrefix 3 ex_index = ex_index" "first_index ex_index = 3"
      "slots ex_index = [\<lparr>wie_segment_id = 1, wie_file_offset = 16, wie_length = 11\<rparr>]" and u: "[3..<Suc 3] = [3]"
    by (simp_all add: di_TruncatePrefix_def ex_index_def)
  have n: "U64 - 1 \<noteq> 1" "min (U64 - 1) 1 = 1" "1 < U64" by (simp_all add: U64_def)
  show ?thesis
    using i(1) n by (simp add: ex_collected_def GarbageCollect_def first_segment_to_keep_def collected_index_def Let_def ex_appended_state segment_ids_on_disk_def ex_io_def
        List.map_filter_simps RemoveOldCheckpointsLocked_def ListCheckpointFilesLocked_def SaveCheckpointLocked_def
        room_for_def put_file_def unlink_def i(2,3) u)
qed

text \<open>
  Garbage collection writes a checkpoint of the index without flushing the buffer. After a crash the log opens with an
  entry in its range that no segment holds, and reading that entry is an error, not \<open>Entry not found\<close>.
\<close>

theorem collected_log_has_phantom_entry:
  "\<exists>w. Open_wal ex_wal_lib ex_io ''wal'' (new_wal (w_files ex_collected)) = (OK, w) \<and> GetLogRange w = (3, 3) \<and>
     fst (GetEntry_wal ex_wal_lib ex_io 3 w) = Inl (Error ''Failed to read CRC'' [])"
proof -
  let ?w = "(new_wal (w_files ex_collected))\<lparr>w_dir := ''wal''\<rparr>"
  let ?w1 = "?w\<lparr>w_index := ex_index\<rparr>"
  let ?w2 = "?w1\<lparr>w_formats := (w_formats ?w1)(1 \<mapsto> kFormatVersionProtobuf)\<rparr>"
  have n: "1 < U64" by (simp add: U64_def)
  have p: "parse_checkpoint (checkpoint_bytes ex_index 1) = Inr (ex_index, 1)"
    by (rule parse_checkpoint_bytes) (simp_all add: ex_index_def slots_fit_def di_ok_def U64_def)
  have l: "LoadLatestCheckpointLocked ex_io ?w = ((OK, 1), ?w1)" "loaded (OK, 1) ?w1 = (?w1, 1)"
    using p n by (simp_all add: LoadLatestCheckpointLocked_def best_checkpoint_def ListCheckpointFilesLocked_def ex_io_def
        ex_collected_files new_wal_def contents_def loaded_def)
  have ids: "sort (segment_ids_on_disk ex_io ?w) = [1]"
    using n by (simp add: segment_ids_on_disk_def ex_io_def ex_collected_files new_wal_def List.map_filter_simps)
  have "Open_wal ex_wal_lib ex_io ''wal'' (new_wal (w_files ex_collected)) =
      and_then (open_segments ex_wal_lib ex_io 1 [1] ?w1) (open_active ex_io (last [1]))"
    by (rule open_wal_steps [OF ex_io_fine _ ids _ l]) (simp_all add: LoadMeta_def ex_io_def ex_wal_lib_def)
  moreover have o: "OpenSegment ex_io 1 w = (OK, w\<lparr>w_formats := (w_formats w)(1 \<mapsto> kFormatVersionProtobuf)\<rparr>)"
    if "w_files w = w_files ex_collected" for w
    by (rule open_segment_header [OF ex_io_fine n]) (simp_all add: that ex_collected_files)
  have t: "contents w (seg_file 1) = segment_header 1 kFormatVersionProtobuf" if "w_files w = w_files ex_collected" for w
    by (simp add: contents_def that ex_collected_files)
  have r: "ReadTrailer (segment_header 1 kFormatVersionProtobuf) = Inl (Corruption ''Segment too small for trailer'' [])"
    by (simp add: ReadTrailer_def kTrailerSize_def)
  moreover obtain w3 where w3: "open_segments ex_wal_lib ex_io 1 [1] ?w1 = (OK, w3)" "w_files w3 = w_files ex_collected"
      "w_index w3 = ex_index" "w_buf w3 = []" "w_cached w3 = Some 1"
    using o t r by (simp add: and_then_def ScanSegment_def GetCachedSegmentFd_def Let_def new_wal_def)
  moreover obtain w4 where w4: "open_active ex_io 1 w3 = (OK, w4)" "w_files w4 = w_files ex_collected"
      "w_index w4 = ex_index" "w_buf w4 = []" "w_cached w4 = Some 1"
    using o t r w3 by (simp add: and_then_def open_active_def Let_def)
  moreover have "di_Get ex_index 3 = Some \<lparr>wie_segment_id = 1, wie_file_offset = 16, wie_length = 11\<rparr>"
    by (simp add: di_Get_def ex_index_def LastIndex_def)
  moreover have "GetLogRange w4 = (3, 3)" using w4(3) by (simp add: GetLogRange_def ex_index_def LastIndex_def)
  ultimately show ?thesis
    using t [OF w4(2)] by (simp add: and_then_def GetEntry_wal_def FlushWriteBufferLocked_def ReadLogEntryAt_def
        GetCachedSegmentFd_def read_entry_def kHeaderSize_def)
qed

end
