(* ===== verification/Wal_Gc.thy ===== *)
theory Wal_Gc
  imports Wal_Crash
begin

text \<open>
  Garbage collection of segments: \<open>GarbageCollect\<close> deletes whole segment files, but none that holds an entry at or above
  the given index, and every such entry can still be read.
\<close>

section \<open>Reading a segment\<close>

lemma read_at_disk:
  assumes io: "io_fine io" and lib: "wal_lib_ok lib" and d: "seg_on_disk (w_files w) rss (wie_segment_id pos)"
    and f: "formats_ok w" and st: "stored lib rss pos e" and e: "entry_fits e" "e_checksum e \<noteq> 0"
  shows "fst (ReadLogEntryAt lib io (wie_segment_id pos) (wie_file_offset pos) w) = Inr e"
proof -
  obtain k rs1 r rs2 where s: "wie_segment_id pos = Suc k" "k < length rss" "rss ! k = rs1 @ r # rs2"
      "wie_file_offset pos = kHeaderSize + length (records_bytes rs1)" "wr_type r = kLogEntry"
      "wl_serialize lib (entry_proto e) = Some (wr_payload r)"
    using st unfolding stored_def by blast
  obtain w1 where w1: "GetCachedSegmentFd io (Suc k) w = (OK, w1)" "same_but_index w w1"
      "w_formats w1 (Suc k) = Some kFormatVersionProtobuf"
    using get_cached_formats [OF io d f] s(1) by auto
  obtain c where c: "map_of (w_files w1) (seg_file (Suc k)) = Some c" "segment_bytes (Suc k) (rss ! k) c"
      and fit: "records_fit (rss ! k)"
    using d s(1) w1(2) by (auto simp: seg_on_disk_def same_but_index_def)
  obtain t where t: "c = segment_header (Suc k) kFormatVersionProtobuf @ records_bytes (rss ! k) @ t"
    using c(2) by (auto simp: segment_bytes_def)
  have r: "record_ok r" using fit s(3) by (simp add: records_fit_def)
  have "drop (wie_file_offset pos) (contents w1 (seg_file (Suc k))) = record_bytes r @ records_bytes rs2 @ t"
    using c(1) t s(3,4) segment_drop by (simp add: contents_def)
  then show ?thesis
    using w1 s e(2) read_entry_here [OF lib r s(5,6) e(1)] by (simp add: ReadLogEntryAt_def)
qed

text \<open>Flushing writes the file of the segment in use and no other.\<close>

definition same_buffer :: "WALPersister \<Rightarrow> WALPersister \<Rightarrow> bool" where
  "same_buffer w w' \<longleftrightarrow> w_active w' = w_active w \<and> w_buf w' = w_buf w \<and>
     map_of (w_files w') (seg_file (seg_id (w_active w))) = map_of (w_files w) (seg_file (seg_id (w_active w)))"

lemma flush_elsewhere:
  assumes "same_buffer w w'" and "map_of (w_files w') (seg_file i) = map_of (w_files w) (seg_file i)"
    and "FlushWriteBufferLocked io w = (OK, w1)"
  shows "\<exists>w1'. FlushWriteBufferLocked io w' = (OK, w1') \<and>
    map_of (w_files w1') (seg_file i) = map_of (w_files w1) (seg_file i) \<and> w_index w1' = w_index w' \<and>
    w_formats w1' = w_formats w' \<and> w_cached w1' = w_cached w'"
  using assms
  by (auto simp: FlushWriteBufferLocked_def same_buffer_def Let_def contents_def put_file_def map_of_update
      split: if_splits)

section \<open>What is deleted\<close>

lemma unlink_other: "name \<noteq> n \<Longrightarrow> map_of (w_files (unlink name w)) n = map_of (w_files w) n"
  by (simp add: unlink_def map_of_delete)

lemma unlink_list:
  assumes "\<And>i. i \<in> set is \<Longrightarrow> nm i \<noteq> n"
  shows "map_of (w_files (foldl (\<lambda>w i. unlink (nm i) w) w is)) n = map_of (w_files w) n"
  using assms by (induction "is" arbitrary: w) (simp_all add: unlink_other)

lemma remove_old_segments:
  "map_of (w_files (RemoveOldCheckpointsLocked io k w)) (seg_file i) = map_of (w_files w) (seg_file i)"
proof -
  have "map_of (w_files (foldl (\<lambda>w name. case ckpt_name_id name of None \<Rightarrow> w
        | Some i \<Rightarrow> if i < k then unlink name w else w) w names)) (seg_file i) = map_of (w_files w) (seg_file i)"
    if "\<forall>name \<in> set names. is_ckpt_name name" for names w
    using that
  proof (induction names arbitrary: w)
    case (Cons name names)
    have "name \<noteq> seg_file i" using Cons.prems by auto
    then show ?case using Cons by (simp add: unlink_other split: option.split)
  qed simp
  then show ?thesis by (simp add: RemoveOldCheckpointsLocked_def ListCheckpointFilesLocked_def)
qed

lemma save_checkpoint_segments:
  "map_of (w_files (snd (SaveCheckpointLocked io w))) (seg_file i) = map_of (w_files w) (seg_file i)"
  by (simp add: SaveCheckpointLocked_def Let_def put_file_def unlink_def map_of_update map_of_delete)

definition same_rest :: "WALPersister \<Rightarrow> WALPersister \<Rightarrow> bool" where
  "same_rest w w' \<longleftrightarrow> w_active w' = w_active w \<and> w_index w' = w_index w \<and> w_buf w' = w_buf w \<and>
     w_formats w' = w_formats w \<and> w_cached w' = w_cached w"

lemma same_rest_refl: "same_rest w w"
  by (simp add: same_rest_def)

lemma save_checkpoint_rest: "same_rest w (snd (SaveCheckpointLocked io w))"
  by (simp add: SaveCheckpointLocked_def Let_def put_file_def unlink_def same_rest_def)

lemma remove_old_rest: "same_rest w (RemoveOldCheckpointsLocked io k w)"
proof -
  have "same_rest v (foldl (\<lambda>w name. case ckpt_name_id name of None \<Rightarrow> w
        | Some i \<Rightarrow> if i < k then unlink name w else w) v names)" for names v
  proof (induction names arbitrary: v)
    case (Cons name names)
    then show ?case
      by (simp only: foldl_Cons) (auto simp: same_rest_def unlink_def split: option.split if_split)
  qed (simp add: same_rest_refl)
  then show ?thesis by (simp add: RemoveOldCheckpointsLocked_def)
qed

section \<open>What is kept\<close>

lemma foldl_min_le: "foldl min a xs \<le> a" "x \<in> set xs \<Longrightarrow> foldl min a xs \<le> (x :: nat)"
proof -
  have m: "foldl min a xs \<le> a" for a
  proof (induction xs arbitrary: a)
    case (Cons y ys)
    then show ?case using Cons [of "min a y"] by simp
  qed simp
  then show "foldl min a xs \<le> a" .
  show "foldl min a xs \<le> x" if "x \<in> set xs"
    using that
  proof (induction xs arbitrary: a)
    case (Cons y ys)
    have "foldl min (min a y) ys \<le> min a y" for ys by (induction ys arbitrary: a y) (simp, metis foldl_Cons min.bounded_iff)
    then show ?case using Cons by auto
  qed simp
qed

text \<open>No segment that holds an entry at or above the index is among those to delete.\<close>

lemma kept_segment:
  assumes g: "di_Get (w_index w) i = Some pos" and b: "before \<le> i" and s: "seg_id (w_active w) < U64"
  shows "first_segment_to_keep before w \<le> wie_segment_id pos"
proof -
  let ?d = "w_index w"
  let ?z = "zip [first_index ?d..<first_index ?d + length (slots ?d)] (slots ?d)"
  have p: "first_index ?d \<le> i" "i < first_index ?d + length (slots ?d)" "pos = slots ?d ! (i - first_index ?d)"
      "wie_segment_id pos \<noteq> 0"
    using g by (auto simp: di_Get_slot split: if_splits)
  then have "?z ! (i - first_index ?d) = (i, pos)" "i - first_index ?d < length ?z" by simp_all
  then have "(i, pos) \<in> set ?z" by (metis nth_mem)
  then have "wie_segment_id pos \<in> set (map (\<lambda>(i, e). wie_segment_id e)
      (filter (\<lambda>(i, e). wie_segment_id e \<noteq> 0 \<and> before \<le> i) ?z))"
    using p(4) b by force
  from foldl_min_le(2) [OF this, of "U64 - 1"] show ?thesis
    using s by (auto simp: first_segment_to_keep_def Let_def)
qed

lemma kept_position:
  assumes ok: "di_ok d" and g: "di_Get d i = Some pos" and k: "keep \<le> wie_segment_id pos"
  shows "di_Get (collected_index keep d) i = Some pos"
proof -
  let ?b = "length (takeWhile (\<lambda>e. wie_segment_id e < keep) (slots d))"
  have p: "first_index d \<le> i" "i < first_index d + length (slots d)" "pos = slots d ! (i - first_index d)"
    using g by (auto simp: di_Get_slot split: if_splits)
  have b: "?b \<le> i - first_index d"
  proof (rule ccontr)
    assume "\<not> ?thesis"
    then have "i - first_index d < ?b" by simp
    then have "wie_segment_id (slots d ! (i - first_index d)) < keep" by (metis nth_mem set_takeWhileD takeWhile_nth)
    then show False using k p(3) by simp
  qed
  have "di_Get (di_TruncatePrefix (first_index d + ?b) d) = di_Get d |` {first_index d + ?b..}"
    by (rule dense.lookup_prefix [OF ok]) simp
  then show ?thesis using b p g by (simp add: collected_index_def Let_def)
qed

lemma unlink_list_rest: "same_rest w (foldl (\<lambda>w i. unlink (nm i) w) w is)"
  by (induction "is" arbitrary: w) (auto simp: same_rest_def unlink_def)

lemma collect_state:
  assumes "k = first_segment_to_keep before w" and "w' = snd (GarbageCollect io before w)"
  shows "w_active w' = w_active w" and "w_buf w' = w_buf w" and "w_formats w' = w_formats w"
    and "w_cached w' = w_cached w \<or> w_cached w' = None" and "w_index w' = collected_index k (w_index w)"
    and "k \<le> i \<Longrightarrow> map_of (w_files w') (seg_file i) = map_of (w_files w) (seg_file i)"
proof -
  define doomed where "doomed = filter (\<lambda>i. i < k) (segment_ids_on_disk io w)"
  define w0 where "w0 = (if doomed \<noteq> [] then w\<lparr>w_cached := None\<rparr> else w)"
  define w1 where "w1 = foldl (\<lambda>w i. unlink (seg_file i) w) w0 doomed"
  define w2 where "w2 = w1\<lparr>w_index := collected_index k (w_index w1)\<rparr>"
  have w': "w' = (if slots (w_index w2) \<noteq> []
      then RemoveOldCheckpointsLocked io (seg_id (w_active w2)) (snd (SaveCheckpointLocked io w2))
      else RemoveOldCheckpointsLocked io k w2)"
    unfolding assms(2) GarbageCollect_def Let_def snd_conv w2_def w1_def w0_def doomed_def assms(1) ..
  have "same_rest w2 w'"
    unfolding w' using remove_old_rest [of w2] remove_old_rest [of "snd (SaveCheckpointLocked io w2)"] save_checkpoint_rest [of w2 io]
    by (simp add: same_rest_def)
  moreover have "same_rest w0 w1" unfolding w1_def by (rule unlink_list_rest)
  ultimately show "w_active w' = w_active w" "w_buf w' = w_buf w" "w_formats w' = w_formats w"
      "w_cached w' = w_cached w \<or> w_cached w' = None" "w_index w' = collected_index k (w_index w)"
    by (auto simp: same_rest_def w2_def w0_def)
  have "map_of (w_files w') (seg_file i) = map_of (w_files w2) (seg_file i)"
    unfolding w' by (simp add: remove_old_segments save_checkpoint_segments)
  moreover have "map_of (w_files w1) (seg_file i) = map_of (w_files w0) (seg_file i)" if "k \<le> i"
    unfolding w1_def using that by (intro unlink_list) (auto simp: doomed_def)
  ultimately show "map_of (w_files w') (seg_file i) = map_of (w_files w) (seg_file i)" if "k \<le> i"
    using that by (simp add: w2_def w0_def)
qed

text \<open>
  C20: Garbage collection keeps what it must: every entry of the log at or above the given index is read back as before.
\<close>

theorem gc_keeps_entries:
  assumes io: "io_fine io" and lib: "wal_lib_ok lib" and w: "wal_inv lib m w"
    and i: "before \<le> i" "m i = Some e" and e: "entry_fits e" "e_checksum e \<noteq> 0"
  shows "fst (GetEntry_wal lib io i (snd (GarbageCollect io before w))) = Inr e"
proof -
  obtain rss pend where s: "wal_shape lib m rss pend w" using w unfolding wal_inv_def by blast
  let ?r = "with_pending rss pend" and ?k = "first_segment_to_keep before w" and ?w = "snd (GarbageCollect io before w)"
  obtain w1 where w1: "FlushWriteBufferLocked io w = (OK, w1)" "wal_shape lib m ?r [] w1" using flush_shape [OF io s] by blast
  have ix: "index_ok lib ?r (w_index w) m" and a: "seg_id (w_active w) = length rss" "length rss < U64" "rss \<noteq> []"
    using s by (simp_all add: wal_shape_def disk_ok_def)
  obtain pos where pos: "di_Get (w_index w) i = Some pos" "stored lib ?r pos e"
    using ix i(2) unfolding index_ok_def by (metis option_rel_Some2)
  have n: "1 \<le> wie_segment_id pos" "wie_segment_id pos \<le> length rss"
    using pos(2) a(3) by (auto simp: stored_def with_pending_simps)
  have k: "?k \<le> wie_segment_id pos" using kept_segment [OF pos(1) i(1)] a by simp
  note c = collect_state [where k = ?k and w' = ?w, OF refl refl]
  have "same_buffer w ?w" using c(1,2,6) k n(2) a(1) by (simp add: same_buffer_def)
  from flush_elsewhere [OF this c(6) [OF k] w1(1)] obtain w2 where
    w2: "FlushWriteBufferLocked io ?w = (OK, w2)"
      "map_of (w_files w2) (seg_file (wie_segment_id pos)) = map_of (w_files w1) (seg_file (wie_segment_id pos))"
      "w_index w2 = w_index ?w" "w_formats w2 = w_formats ?w" "w_cached w2 = w_cached ?w" by blast
  have "seg_on_disk (w_files w1) ?r (wie_segment_id pos)"
    using w1(2) n a(3) by (intro disk_ok_on_disk [of lib]) (simp_all add: wal_shape_def with_pending_simps)
  then have d: "seg_on_disk (w_files w2) ?r (wie_segment_id pos)" using w2(2) by (simp add: seg_on_disk_def)
  have f: "formats_ok w2" using s c(3,4) w2(4,5) by (auto simp: formats_ok_def wal_shape_def)
  have "di_Get (w_index w2) i = Some pos"
    using kept_position [OF _ pos(1) k] ix c(5) w2(3) by (simp add: index_ok_def)
  then show ?thesis
    using read_at_disk [OF io lib d f pos(2) e] w2(1) by (simp add: GetEntry_wal_def)
qed

theorem gc_keeps_entries_witness:
  "fst (GetEntry_wal ex_wal_lib ex_io 3 (snd (GarbageCollect ex_io 2 ex_appended))) = Inr ex_entry"
proof -
  have "entry_fits ex_entry" "e_checksum ex_entry \<noteq> 0" by (simp_all add: ex_entry_def entry_fits_def fits_u32_def)
  then show ?thesis using gc_keeps_entries [OF ex_io_fine ex_wal_lib_ok ex_appended_inv, of 2 3 ex_entry] by simp
qed

end
