(* ===== verification/Persister_Api.thy ===== *)
theory Persister_Api
  imports Raft_Log Status_Model
begin

text \<open>
  The log operations of the interface \<open>Persister\<close> of \<open>include/rollingraft/persister.h\<close>: a record of functions on the
  state of an implementation, and the contract its clients rely on, the locale \<open>durable_log\<close>.
\<close>

section \<open>The interface\<close>

text \<open>\<open>GetEntries\<close> returns the entries it appended to the output with the status.\<close>

record 'p Persister =
  p_append :: "RaftLogEntry list \<Rightarrow> 'p \<Rightarrow> Status \<times> 'p"
  p_sync :: "'p \<Rightarrow> Status \<times> 'p"
  p_get_entries :: "nat \<Rightarrow> nat \<Rightarrow> 'p \<Rightarrow> (Status \<times> RaftLogEntry list) \<times> 'p"
  p_truncate_suffix :: "nat \<Rightarrow> 'p \<Rightarrow> Status \<times> 'p"
  p_truncate_prefix :: "nat \<Rightarrow> 'p \<Rightarrow> Status \<times> 'p"
  p_last_log_info :: "'p \<Rightarrow> (nat \<times> nat) \<times> 'p"
  p_set_sync_on_write :: "bool \<Rightarrow> 'p \<Rightarrow> 'p"

section \<open>The contract\<close>

definition entries_between :: "(nat \<rightharpoonup> RaftLogEntry) \<Rightarrow> nat \<Rightarrow> nat \<Rightarrow> RaftLogEntry list" where
  "entries_between m a b = List.map_filter m [a..<b]"

definition put_entries :: "(nat \<rightharpoonup> RaftLogEntry) \<Rightarrow> RaftLogEntry list \<Rightarrow> (nat \<rightharpoonup> RaftLogEntry)" where
  "put_entries m es = foldl (\<lambda>m e. m(e_index e \<mapsto> e)) m es"

text \<open>
  \<open>rep n p m\<close>: the state \<open>p\<close> stands for the log \<open>m\<close> and has room for \<open>n\<close> more records.
\<close>

locale durable_log =
  fixes P :: "'p Persister"
    and storable :: "RaftLogEntry \<Rightarrow> bool"
    and rep :: "nat \<Rightarrow> 'p \<Rightarrow> (nat \<rightharpoonup> RaftLogEntry) \<Rightarrow> bool"
  assumes append_law: "rep (n + length es) p m \<Longrightarrow> list_all storable es \<Longrightarrow>
      \<exists>p'. p_append P es p = (OK, p') \<and> rep n p' (put_entries m es)"
    and sync_law: "rep n p m \<Longrightarrow> \<exists>st p'. p_sync P p = (st, p') \<and> rep n p' m"
    and get_law: "rep n p m \<Longrightarrow> a < U64 \<Longrightarrow> b < U64 \<Longrightarrow>
      \<exists>p'. p_get_entries P a b p = ((OK, entries_between m a b), p') \<and> rep n p' m"
    and last_law: "rep n p m \<Longrightarrow> \<exists>i t p'. p_last_log_info P p = ((i, t), p') \<and> rep n p' m \<and>
      (i = 0 \<and> t = 0 \<or> i < U32 \<and> map_option e_term (m i) = Some t \<and> (\<forall>j > i. m j = None))"
    and suffix_law: "rep (Suc n) p m \<Longrightarrow> f < U64 \<Longrightarrow>
      \<exists>p'. p_truncate_suffix P f p = (OK, p') \<and> rep n p' (m |` {..<f})"
    and prefix_law: "rep (Suc n) p m \<Longrightarrow> b < U64 \<Longrightarrow>
      \<exists>p'. p_truncate_prefix P b p = (OK, p') \<and> rep n p' (m |` {b..})"
    and mode_law: "rep n p m \<Longrightarrow> rep n (p_set_sync_on_write P sync p) m"

lemma entries_between_step: "a < b \<Longrightarrow> entries_between m a b =
    (case m a of None \<Rightarrow> entries_between m (Suc a) b | Some e \<Rightarrow> e # entries_between m (Suc a) b)"
  by (simp add: entries_between_def upt_conv_Cons List.map_filter_simps split: option.split)

lemma entries_between_split: "a \<le> b \<Longrightarrow> b \<le> c \<Longrightarrow> entries_between m a b @ entries_between m b c = entries_between m a c"
  using upt_add_eq_append [of a b "c - b"] by (simp add: entries_between_def List.map_filter_def)

lemma entries_between_empty [simp]: "b \<le> a \<Longrightarrow> entries_between m a b = []"
  by (simp add: entries_between_def List.map_filter_simps)

lemma put_entries_simps [simp]:
  "put_entries m [] = m" "put_entries m (e # es) = put_entries (m(e_index e \<mapsto> e)) es"
  "put_entries m (es @ fs) = put_entries (put_entries m es) fs"
  by (simp_all add: put_entries_def)

text \<open>Consecutive entries are what a range read returns.\<close>

lemma entries_between_consecutive:
  assumes "\<And>k. k < length es \<Longrightarrow> m (a + k) = Some (es ! k)"
  shows "entries_between m a (a + length es) = es"
  using assms
proof (induction es arbitrary: a)
  case (Cons e es)
  have "m a = Some e" using Cons.prems [of 0] by simp
  moreover have "m (Suc a + k) = Some (es ! k)" if "k < length es" for k using Cons.prems [of "Suc k"] that by simp
  ultimately show ?case using Cons.IH [of "Suc a"] by (simp add: entries_between_step)
qed simp

end
