(* ===== verification/Sha256.thy ===== *)
theory Sha256
  imports Wal_Codec
begin

text \<open>
  The SHA-256 of \<open>src/state_persister.cpp\<close>, which hashes a snapshot that arrives in chunks. The incremental form is
  proved to give the digest of the whole message, padded and cut into blocks as the standard says, however the message
  is cut into chunks.
\<close>

unbundle bit_operations_syntax

section \<open>The compression function\<close>

definition kSha256K :: "32 word list" where
  "kSha256K = concat [
    [0x428a2f98, 0x71374491, 0xb5c0fbcf, 0xe9b5dba5, 0x3956c25b, 0x59f111f1, 0x923f82a4, 0xab1c5ed5],
    [0xd807aa98, 0x12835b01, 0x243185be, 0x550c7dc3, 0x72be5d74, 0x80deb1fe, 0x9bdc06a7, 0xc19bf174],
    [0xe49b69c1, 0xefbe4786, 0x0fc19dc6, 0x240ca1cc, 0x2de92c6f, 0x4a7484aa, 0x5cb0a9dc, 0x76f988da],
    [0x983e5152, 0xa831c66d, 0xb00327c8, 0xbf597fc7, 0xc6e00bf3, 0xd5a79147, 0x06ca6351, 0x14292967],
    [0x27b70a85, 0x2e1b2138, 0x4d2c6dfc, 0x53380d13, 0x650a7354, 0x766a0abb, 0x81c2c92e, 0x92722c85],
    [0xa2bfe8a1, 0xa81a664b, 0xc24b8b70, 0xc76c51a3, 0xd192e819, 0xd6990624, 0xf40e3585, 0x106aa070],
    [0x19a4c116, 0x1e376c08, 0x2748774c, 0x34b0bcb5, 0x391c0cb3, 0x4ed8aa4a, 0x5b9cca4f, 0x682e6ff3],
    [0x748f82ee, 0x78a5636f, 0x84c87814, 0x8cc70208, 0x90befffa, 0xa4506ceb, 0xbef9a3f7, 0xc67178f2]]"

definition Sha256Ror :: "32 word \<Rightarrow> nat \<Rightarrow> 32 word" where
  "Sha256Ror x n = drop_bit n x OR push_bit (32 - n) x"

text \<open>The eight working variables \<open>a\<close> to \<open>h\<close>.\<close>

type_synonym sha_state = "32 word \<times> 32 word \<times> 32 word \<times> 32 word \<times> 32 word \<times> 32 word \<times> 32 word \<times> 32 word"

definition Sha256CompressRound :: "32 word \<Rightarrow> 32 word \<Rightarrow> sha_state \<Rightarrow> sha_state" where
  "Sha256CompressRound k w st =
     (case st of (a, b, c, d, e, f, g, h) \<Rightarrow>
        let s1 = Sha256Ror e 6 XOR Sha256Ror e 11 XOR Sha256Ror e 25;
            ch = (e AND f) XOR (NOT e AND g);
            temp1 = h + s1 + ch + k + w;
            s0 = Sha256Ror a 2 XOR Sha256Ror a 13 XOR Sha256Ror a 22;
            maj = (a AND b) XOR (a AND c) XOR (b AND c);
            temp2 = s0 + maj
        in (temp1 + temp2, a, b, c, d + temp1, e, f, g))"

text \<open>Four bytes of a block, the first one most significant.\<close>

definition be_word :: "string \<Rightarrow> 32 word" where
  "be_word bs =
     push_bit 24 (of_nat (of_char (bs ! 0))) OR push_bit 16 (of_nat (of_char (bs ! 1))) OR
     push_bit 8 (of_nat (of_char (bs ! 2))) OR of_nat (of_char (bs ! 3))"

definition schedule_next :: "32 word list \<Rightarrow> nat \<Rightarrow> 32 word list" where
  "schedule_next w j =
     (let s0 = Sha256Ror (w ! (j - 15)) 7 XOR Sha256Ror (w ! (j - 15)) 18 XOR drop_bit 3 (w ! (j - 15));
          s1 = Sha256Ror (w ! (j - 2)) 17 XOR Sha256Ror (w ! (j - 2)) 19 XOR drop_bit 10 (w ! (j - 2))
      in w @ [w ! (j - 16) + s0 + w ! (j - 7) + s1])"

definition schedule :: "string \<Rightarrow> 32 word list" where
  "schedule chunk = foldl schedule_next (map (\<lambda>j. be_word (take 4 (drop (j * 4) chunk))) [0..<16]) [16..<64]"

definition sha_rounds :: "string \<Rightarrow> sha_state \<Rightarrow> sha_state" where
  "sha_rounds chunk st = foldl (\<lambda>st j. Sha256CompressRound (kSha256K ! j) (schedule chunk ! j) st) st [0..<64]"

section \<open>Hashing in pieces\<close>

text \<open>\<open>buffer\<close> is the array of 64 bytes; its first \<open>buffer_len\<close> bytes are in use. The length of the message wraps at \<open>2^64\<close>.\<close>

record Sha256Context =
  sha_h :: sha_state
  sha_buffer :: string
  sha_buffer_len :: nat
  sha_total_len :: nat

definition Sha256Init :: Sha256Context where
  "Sha256Init = \<lparr>sha_h = (0x6a09e667, 0xbb67ae85, 0x3c6ef372, 0xa54ff53a, 0x510e527f, 0x9b05688c, 0x1f83d9ab, 0x5be0cd19),
     sha_buffer = replicate 64 (CHR 0x00), sha_buffer_len = 0, sha_total_len = 0\<rparr>"

definition Sha256ProcessChunk :: "string \<Rightarrow> Sha256Context \<Rightarrow> Sha256Context" where
  "Sha256ProcessChunk chunk ctx =
     (case (sha_h ctx, sha_rounds chunk (sha_h ctx)) of
        ((h0, h1, h2, h3, h4, h5, h6, h7), (a, b, c, d, e, f, g, hh)) \<Rightarrow>
          ctx\<lparr>sha_h := (h0 + a, h1 + b, h2 + c, h3 + d, h4 + e, h5 + f, h6 + g, h7 + hh)\<rparr>)"

definition memcpy_at :: "nat \<Rightarrow> string \<Rightarrow> string \<Rightarrow> string" where
  "memcpy_at off data buf = take off buf @ data @ drop (off + length data) buf"

text \<open>The loop over the full chunks that are still in the data; it leaves the rest.\<close>

function process_chunks :: "string \<Rightarrow> Sha256Context \<Rightarrow> string \<times> Sha256Context" where
  "process_chunks data ctx =
     (if 64 \<le> length data then process_chunks (drop 64 data) (Sha256ProcessChunk (take 64 data) ctx) else (data, ctx))"
  by pat_completeness auto
termination
  by (relation "measure (\<lambda>(data, ctx). length data)") auto

declare process_chunks.simps [simp del]

definition Sha256Update :: "string \<Rightarrow> Sha256Context \<Rightarrow> Sha256Context" where
  "Sha256Update data ctx =
     (let ctx = ctx\<lparr>sha_total_len := u64_add (sha_total_len ctx) (length data)\<rparr>;
          to_copy = (if 0 < sha_buffer_len ctx then min (length data) (64 - sha_buffer_len ctx) else 0);
          ctx1 = (if 0 < sha_buffer_len ctx
                  then let ctx = ctx\<lparr>sha_buffer := memcpy_at (sha_buffer_len ctx) (take to_copy data) (sha_buffer ctx),
                                     sha_buffer_len := sha_buffer_len ctx + to_copy\<rparr>
                       in if sha_buffer_len ctx = 64
                          then (Sha256ProcessChunk (sha_buffer ctx) ctx)\<lparr>sha_buffer_len := 0\<rparr> else ctx
                  else ctx)
      in case process_chunks (drop to_copy data) ctx1 of (rest, ctx2) \<Rightarrow>
           if rest \<noteq> []
           then ctx2\<lparr>sha_buffer := memcpy_at (sha_buffer_len ctx2) rest (sha_buffer ctx2),
                     sha_buffer_len := sha_buffer_len ctx2 + length rest\<rparr>
           else ctx2)"

text \<open>\<open>static_cast<uint8_t>(n >> s)\<close>\<close>

definition byte_of :: "nat \<Rightarrow> nat \<Rightarrow> char" where
  "byte_of n s = char_of (n div 2 ^ s mod 256)"

definition word_bytes :: "32 word \<Rightarrow> string" where
  "word_bytes x = map (byte_of (unat x)) [24, 16, 8, 0]"

definition Sha256Final :: "Sha256Context \<Rightarrow> string" where
  "Sha256Final ctx =
     (let zero = replicate 128 (CHR 0x00);
          final_chunk = (memcpy_at 0 (take (sha_buffer_len ctx) (sha_buffer ctx)) zero)[sha_buffer_len ctx := CHR 0x80];
          (ctx, final_chunk) =
            (if 56 < sha_buffer_len ctx + 1
             then (Sha256ProcessChunk (take 64 final_chunk) ctx, memcpy_at 0 (replicate 64 (CHR 0x00)) final_chunk)
             else (ctx, final_chunk));
          total_bits = sha_total_len ctx * 8 mod U64;
          final_chunk = foldl (\<lambda>c j. c[63 - j := byte_of total_bits (j * 8)]) final_chunk [0..<8];
          ctx = Sha256ProcessChunk (take 64 final_chunk) ctx
      in case sha_h ctx of (h0, h1, h2, h3, h4, h5, h6, h7) \<Rightarrow> concat (map word_bytes [h0, h1, h2, h3, h4, h5, h6, h7]))"

definition ComputeSha256 :: "string \<Rightarrow> string" where
  "ComputeSha256 data = Sha256Final (Sha256Update data Sha256Init)"

section \<open>The digest of a message\<close>

text \<open>The standard's definition: padding, blocks of 64 bytes, and the chaining of the compression function.\<close>

definition compress :: "sha_state \<Rightarrow> string \<Rightarrow> sha_state" where
  "compress h block =
     (case (h, sha_rounds block h) of
        ((h0, h1, h2, h3, h4, h5, h6, h7), (a, b, c, d, e, f, g, hh)) \<Rightarrow>
          (h0 + a, h1 + b, h2 + c, h3 + d, h4 + e, h5 + f, h6 + g, h7 + hh))"

definition blocks :: "string \<Rightarrow> string list" where
  "blocks m = map (\<lambda>i. take 64 (drop (64 * i) m)) [0..<length m div 64]"

definition sha_pad :: "string \<Rightarrow> string" where
  "sha_pad m = m @ [CHR 0x80] @ replicate ((119 - length m mod 64) mod 64) (CHR 0x00) @
     map (byte_of (8 * length m mod U64)) [56, 48, 40, 32, 24, 16, 8, 0]"

definition sha256 :: "string \<Rightarrow> string" where
  "sha256 m =
     (case foldl compress (sha_h Sha256Init) (blocks (sha_pad m)) of
        (h0, h1, h2, h3, h4, h5, h6, h7) \<Rightarrow> concat (map word_bytes [h0, h1, h2, h3, h4, h5, h6, h7]))"

lemma process_chunk: "Sha256ProcessChunk chunk ctx = ctx\<lparr>sha_h := compress (sha_h ctx) chunk\<rparr>"
  by (simp add: Sha256ProcessChunk_def compress_def split: prod.splits)

lemma blocks_short [simp]: "length m < 64 \<Longrightarrow> blocks m = []"
  by (simp add: blocks_def)

lemma blocks_step: "64 \<le> length m \<Longrightarrow> blocks m = take 64 m # blocks (drop 64 m)"
proof -
  assume "64 \<le> length m"
  then have "length m div 64 = Suc (length (drop 64 m) div 64)" by (simp add: le_div_geq)
  then have "[0..<length m div 64] = 0 # map Suc [0..<length (drop 64 m) div 64]"
    by (simp add: upt_conv_Cons map_Suc_upt del: upt_Suc)
  then show ?thesis by (simp add: blocks_def comp_def add.commute)
qed

lemma blocks_append: "64 dvd length a \<Longrightarrow> blocks (a @ b) = blocks a @ blocks b"
proof (induction "length a div 64" arbitrary: a)
  case (Suc n)
  then have "64 \<le> length a" by (metis Suc_neq_Zero div_less linorder_not_less)
  moreover have "blocks (drop 64 a @ b) = blocks (drop 64 a) @ blocks b"
    using Suc calculation by (intro Suc.hyps(1)) (auto simp: le_div_geq dvd_diff_nat)
  ultimately show ?case by (simp add: blocks_step)
qed auto

definition whole :: "string \<Rightarrow> nat" where
  "whole m = 64 * (length m div 64)"

lemma blocks_whole: "blocks (take (whole m) m) = blocks m"
proof -
  have "length (take (whole m) m) = whole m" by (simp add: whole_def times_div_less_eq_dividend)
  then have "64 dvd length (take (whole m) m)" by (simp only: whole_def dvd_triv_left)
  then have "blocks (take (whole m) m @ drop (whole m) m) = blocks (take (whole m) m) @ blocks (drop (whole m) m)"
    by (rule blocks_append)
  moreover have "length (drop (whole m) m) < 64" by (simp add: whole_def minus_mult_div_eq_mod)
  ultimately show ?thesis by simp
qed

lemma process_chunks_blocks:
  "process_chunks data ctx = (drop (whole data) data, ctx\<lparr>sha_h := foldl compress (sha_h ctx) (blocks data)\<rparr>)"
proof (induction data ctx rule: process_chunks.induct)
  case (1 data ctx)
  show ?case
  proof (cases "64 \<le> length data")
    case True
    have "whole data = 64 + whole (drop 64 data)" using True by (simp add: whole_def le_div_geq)
    then show ?thesis
      using 1 True by (subst process_chunks.simps) (simp add: process_chunk blocks_step add.commute)
  next
    case False
    then show ?thesis by (subst process_chunks.simps) (simp add: whole_def)
  qed
qed

section \<open>The incremental form\<close>

text \<open>The context after a message \<open>m\<close>: the full blocks are compressed and the rest is in the buffer.\<close>

definition absorbed :: "string \<Rightarrow> Sha256Context \<Rightarrow> bool" where
  "absorbed m ctx \<longleftrightarrow> length (sha_buffer ctx) = 64 \<and> sha_buffer_len ctx = length m mod 64 \<and>
     take (length m mod 64) (sha_buffer ctx) = drop (whole m) m \<and>
     sha_h ctx = foldl compress (sha_h Sha256Init) (blocks m)"

lemma length_memcpy: "off + length data \<le> length buf \<Longrightarrow> length (memcpy_at off data buf) = length buf"
  by (simp add: memcpy_at_def)

lemma take_memcpy: "off \<le> length buf \<Longrightarrow> take (off + length data) (memcpy_at off data buf) = take off buf @ data"
  by (simp add: memcpy_at_def)

lemma whole_rest: "whole m \<le> length m" "length m mod 64 = length m - whole m" "length (drop (whole m) m) < 64"
  by (simp_all add: whole_def minus_mult_div_eq_mod times_div_less_eq_dividend)

lemma whole_append: "64 dvd length a \<Longrightarrow> whole (a @ b) = length a + whole b"
  by (simp add: whole_def div_plus_div_distrib_dvd_left distrib_left)

lemma div_mod_step:
  fixes a k :: nat
  assumes "a mod 64 + k < 64"
  shows "(a + k) div 64 = a div 64" and "(a + k) mod 64 = a mod 64 + k"
proof -
  define q r where "q = a div 64" and "r = a mod 64"
  have "a = 64 * q + r" by (simp add: q_def r_def)
  then have e: "a + k = 64 * q + (r + k)" by simp
  show "(a + k) div 64 = a div 64" "(a + k) mod 64 = a mod 64 + k"
    using assms unfolding e by (simp_all flip: q_def r_def)
qed

lemma whole_same: "length m mod 64 + length data < 64 \<Longrightarrow> whole (m @ data) = whole m"
  by (simp add: whole_def div_mod_step)

lemma absorb_blocks:
  assumes "absorbed m ctx" and "sha_buffer_len ctx = 0"
  shows "absorbed (m @ data) (case process_chunks data ctx of (rest, ctx2) \<Rightarrow>
    if rest \<noteq> [] then ctx2\<lparr>sha_buffer := memcpy_at (sha_buffer_len ctx2) rest (sha_buffer ctx2),
      sha_buffer_len := sha_buffer_len ctx2 + length rest\<rparr> else ctx2)"
proof -
  have m: "64 dvd length m" using assms(1,2) by (auto simp: absorbed_def dvd_eq_mod_eq_0)
  define rest where "rest = drop (whole data) data"
  note w = whole_append [OF m, of data]
  have l: "length (m @ data) mod 64 = length rest"
    using whole_rest(1) [of "m @ data"] whole_rest(2) [of "m @ data"] by (simp add: rest_def w)
  have "length rest < 64" using whole_rest(3) [of data] by (simp add: rest_def)
  then show ?thesis
    using assms(1,2) w l blocks_append [OF m, of data] length_memcpy [of 0 rest "sha_buffer ctx"]
      take_memcpy [of 0 "sha_buffer ctx" rest]
    by (simp add: absorbed_def process_chunks_blocks flip: rest_def)
qed

lemma absorb_part:
  assumes a: "absorbed m ctx" and "sha_buffer_len ctx + length data < 64"
  shows "absorbed (m @ data) (ctx\<lparr>sha_buffer := memcpy_at (sha_buffer_len ctx) data (sha_buffer ctx),
    sha_buffer_len := sha_buffer_len ctx + length data\<rparr>)"
proof -
  have b: "length m mod 64 + length data < 64" using assms by (simp add: absorbed_def)
  have w: "whole (m @ data) = whole m" by (rule whole_same [OF b])
  then have "blocks (m @ data) = blocks m"
    using blocks_whole [of "m @ data"] blocks_whole [of m] whole_rest(1) [of m] by simp
  then show ?thesis
    using a assms(2) w div_mod_step(2) [OF b] whole_rest(1) [of m]
    by (simp add: absorbed_def length_memcpy take_memcpy)
qed

lemma blocks_one: "length b = 64 \<Longrightarrow> blocks b = [b]"
  by (simp add: blocks_step)

lemma absorb_full:
  assumes a: "absorbed m ctx" and l: "0 < sha_buffer_len ctx" "sha_buffer_len ctx + length data = 64"
  shows "absorbed (m @ data) ((Sha256ProcessChunk (memcpy_at (sha_buffer_len ctx) data (sha_buffer ctx))
    (ctx\<lparr>sha_buffer := memcpy_at (sha_buffer_len ctx) data (sha_buffer ctx)\<rparr>))\<lparr>sha_buffer_len := 0\<rparr>)"
proof -
  let ?b = "memcpy_at (sha_buffer_len ctx) data (sha_buffer ctx)" and ?r = "drop (whole m) m"
  have b: "length (sha_buffer ctx) = 64" "sha_buffer_len ctx = length m mod 64" "take (sha_buffer_len ctx) (sha_buffer ctx) = ?r"
    using a by (simp_all add: absorbed_def)
  have full: "?b = ?r @ data" using b l by (simp add: memcpy_at_def)
  have len: "length (?r @ data) = 64" using l b(2) whole_rest(2) [of m] by simp
  have t: "length (take (whole m) m) = whole m" using whole_rest(1) [of m] by simp
  then have d: "64 dvd length (take (whole m) m)" by (simp only: whole_def dvd_triv_left)
  have "blocks (take (whole m) m @ ?r @ data) = blocks (take (whole m) m) @ blocks (?r @ data)" by (rule blocks_append [OF d])
  moreover have "blocks (?r @ data) = [?r @ data]" by (rule blocks_one [OF len])
  ultimately have bl: "blocks (m @ data) = blocks m @ [?r @ data]"
    unfolding append_assoc [symmetric] append_take_drop_id blocks_whole by simp
  have "length (m @ data) = whole m + 64" using len whole_rest(1) [of m] by simp
  then have "length (m @ data) mod 64 = 0" "whole (m @ data) = length (m @ data)" by (simp_all add: whole_def)
  then show ?thesis
    using a bl full len by (simp add: absorbed_def process_chunk)
qed

lemma absorbed_total [simp]: "absorbed m (ctx\<lparr>sha_total_len := n\<rparr>) = absorbed m ctx"
  by (simp add: absorbed_def)

lemma absorbed_len: "absorbed m ctx \<Longrightarrow> sha_buffer_len ctx < 64"
  by (simp add: absorbed_def)

lemma process_chunks_nil: "process_chunks [] ctx = ([], ctx)"
  by (simp add: process_chunks.simps)

lemma Sha256Update_absorbed:
  assumes "absorbed m ctx0"
  shows "absorbed (m @ data) (Sha256Update data ctx0)"
proof -
  define ctx where "ctx = ctx0\<lparr>sha_total_len := u64_add (sha_total_len ctx0) (length data)\<rparr>"
  have a: "absorbed m ctx" using assms by (simp add: ctx_def)
  note u = Sha256Update_def [of data ctx0, folded ctx_def]
  let ?n = "sha_buffer_len ctx"
  consider (empty) "?n = 0" | (part) "0 < ?n" "?n + length data < 64" | (full) "0 < ?n" "64 \<le> ?n + length data" by linarith
  then show ?thesis
  proof cases
    case empty
    then show ?thesis using absorb_blocks [OF a empty, of data] by (simp add: u Let_def)
  next
    case part
    then have "min (length data) (64 - ?n) = length data" by simp
    then show ?thesis using absorb_part [OF a part(2)] part by (simp add: u Let_def process_chunks_nil)
  next
    case full
    define t where "t = 64 - ?n"
    have n: "?n < 64" by (rule absorbed_len [OF a])
    then have t: "min (length data) (64 - ?n) = t" "?n + length (take t data) = 64" using full by (simp_all add: t_def)
    define c where "c = (Sha256ProcessChunk (memcpy_at ?n (take t data) (sha_buffer ctx))
      (ctx\<lparr>sha_buffer := memcpy_at ?n (take t data) (sha_buffer ctx), sha_buffer_len := 64\<rparr>))\<lparr>sha_buffer_len := 0\<rparr>"
    have "absorbed (m @ take t data) c" using absorb_full [OF a full(1) t(2)] by (simp add: process_chunk c_def)
    moreover have "sha_buffer_len c = 0" by (simp add: c_def)
    ultimately have "absorbed ((m @ take t data) @ drop t data)
        (case process_chunks (drop t data) c of (rest, ctx2) \<Rightarrow>
           if rest \<noteq> [] then ctx2\<lparr>sha_buffer := memcpy_at (sha_buffer_len ctx2) rest (sha_buffer ctx2),
                     sha_buffer_len := sha_buffer_len ctx2 + length rest\<rparr> else ctx2)"
      by (rule absorb_blocks)
    moreover have "?n + t = 64" using n by (simp add: t_def)
    ultimately show ?thesis using full(1) t(1) by (simp add: u Let_def flip: c_def)
  qed
qed

lemma Sha256Update_total: "sha_total_len (Sha256Update data ctx) = u64_add (sha_total_len ctx) (length data)"
  by (simp add: Sha256Update_def Let_def process_chunks_blocks process_chunk split: prod.split)


section \<open>The end of the message\<close>

lemma put_length:
  assumes "length xs = 56" and "length ys = 8"
  shows "foldl (\<lambda>c j. c[63 - j := byte_of t (j * 8)]) (xs @ ys @ zs) [0..<8] =
    xs @ map (byte_of t) [56, 48, 40, 32, 24, 16, 8, 0] @ zs"
proof -
  obtain y0 y1 y2 y3 y4 y5 y6 y7 where "ys = [y0, y1, y2, y3, y4, y5, y6, y7]"
    using assms(2) by (auto simp: length_Suc_conv eval_nat_numeral)
  moreover have "[0..<8] = [0, 1, 2, 3, 4, 5, 6, 7 :: nat]" by (simp add: upt_rec)
  ultimately show ?thesis using assms(1) by (simp add: list_update_append)
qed

text \<open>The last bytes with the marker, in the array of 128 bytes.\<close>

lemma final_chunk:
  assumes "length r < 64"
  shows "(memcpy_at 0 r (replicate 128 z))[length r := x] = r @ x # replicate (127 - length r) z"
proof -
  have "replicate (128 - length r) z = z # replicate (127 - length r) z"
    using assms by (cases "128 - length r") (simp_all add: Suc_diff_le)
  then show ?thesis by (simp add: memcpy_at_def list_update_append)
qed

lemma pad_blocks:
  "blocks (sha_pad m) = blocks m @ blocks (drop (whole m) m @ CHR 0x80 #
     replicate ((119 - length m mod 64) mod 64) (CHR 0x00) @ map (byte_of (8 * length m mod U64)) [56, 48, 40, 32, 24, 16, 8, 0])"
proof -
  have "length (take (whole m) m) = whole m" using whole_rest(1) [of m] by simp
  then have d: "64 dvd length (take (whole m) m)" by (simp only: whole_def dvd_triv_left)
  have "sha_pad m = take (whole m) m @ drop (whole m) m @ CHR 0x80 #
     replicate ((119 - length m mod 64) mod 64) (CHR 0x00) @ map (byte_of (8 * length m mod U64)) [56, 48, 40, 32, 24, 16, 8, 0]"
    unfolding sha_pad_def append_assoc [symmetric] append_take_drop_id by simp
  then show ?thesis using blocks_append [OF d] by (simp add: blocks_whole)
qed

lemma Sha256Final_absorbed:
  assumes a: "absorbed m ctx" and t: "sha_total_len ctx = length m mod U64"
  shows "Sha256Final ctx = sha256 m"
proof -
  define r n b where "r = drop (whole m) m" and "n = length m mod 64"
    and "b = map (byte_of (8 * length m mod U64)) [56, 48, 40, 32, 24, 16, 8, 0]"
  have n: "length r = n" "n < 64" "take (sha_buffer_len ctx) (sha_buffer ctx) = r" "sha_buffer_len ctx = n"
    using a whole_rest(2) [of m] by (simp_all add: r_def n_def absorbed_def)
  have bits: "sha_total_len ctx * 8 mod U64 = 8 * length m mod U64" by (simp add: t mod_mult_left_eq mult.commute)
  have h: "sha_h ctx = foldl compress (sha_h Sha256Init) (blocks m)" using a by (simp add: absorbed_def)
  let ?z = "CHR 0x00"
  have f: "(memcpy_at 0 r (replicate 128 ?z))[n := CHR 0x80] = r @ CHR 0x80 # replicate (127 - n) ?z"
    using final_chunk [of r ?z "CHR 0x80"] n(1,2) by simp
  have len: "length b = 8" by (simp add: b_def)
  have p: "blocks (sha_pad m) = blocks m @ blocks (r @ CHR 0x80 # replicate ((119 - n) mod 64) ?z @ b)"
    using pad_blocks [of m] by (simp add: r_def n_def b_def)
  show ?thesis
  proof (cases "n < 56")
    case True
    define blk where "blk = r @ CHR 0x80 # replicate (55 - n) ?z @ b"
    have "replicate (127 - n) ?z = replicate (55 - n) ?z @ replicate 8 ?z @ replicate 64 ?z"
      using True by (simp flip: replicate_add)
    then have "foldl (\<lambda>c j. c[63 - j := byte_of (8 * length m mod U64) (j * 8)]) (r @ CHR 0x80 # replicate (127 - n) ?z) [0..<8] =
        blk @ replicate 64 ?z"
      using put_length [of "r @ CHR 0x80 # replicate (55 - n) ?z" "replicate 8 ?z"] True n(1) by (simp add: b_def blk_def)
    moreover have "(119 - n) mod 64 = 55 - n" using True by (simp add: mod_if)
    moreover have "length blk = 64" using True n len by (simp add: blk_def)
    ultimately show ?thesis
      using True n f p h bits blocks_one [of blk] by (simp add: Sha256Final_def sha256_def Let_def process_chunk flip: blk_def)
  next
    case False
    define blk1 blk2 where "blk1 = r @ CHR 0x80 # replicate (63 - n) ?z" and "blk2 = replicate 56 ?z @ b"
    have l: "length blk1 = 64" "length blk2 = 64" using n len by (simp_all add: blk1_def blk2_def)
    have "replicate (127 - n) ?z = replicate (63 - n) ?z @ replicate 64 ?z" using n(2) by (simp flip: replicate_add)
    then have fc: "r @ CHR 0x80 # replicate (127 - n) ?z = blk1 @ replicate 64 ?z" by (simp add: blk1_def)
    have "replicate 128 ?z = replicate 56 ?z @ replicate 8 ?z @ replicate 64 ?z" by (simp flip: replicate_add)
    then have up: "foldl (\<lambda>c j. c[63 - j := byte_of (8 * length m mod U64) (j * 8)]) (replicate 128 ?z) [0..<8] =
        blk2 @ replicate 64 ?z"
      using put_length [of "replicate 56 ?z" "replicate 8 ?z"] by (simp add: b_def blk2_def)
    have mc: "memcpy_at 0 (replicate 64 ?z) (blk1 @ replicate 64 ?z) = replicate 128 ?z"
      using l(1) by (simp add: memcpy_at_def flip: replicate_add)
    have "(119 - n) mod 64 = (63 - n) + 56" using False n(2) by (simp add: mod_if)
    then have "r @ CHR 0x80 # replicate ((119 - n) mod 64) ?z @ b = blk1 @ blk2"
      unfolding blk1_def blk2_def by (simp only: replicate_add append_assoc append_Cons)
    then have "blocks (sha_pad m) = blocks m @ [blk1, blk2]"
      using p l blocks_append [of blk1 blk2] blocks_one by simp
    then show ?thesis
      using False n f h bits fc up mc l by (simp add: Sha256Final_def sha256_def Let_def process_chunk)
  qed
qed

lemma absorb_run:
  assumes "absorbed m ctx" and "sha_total_len ctx = length m mod U64"
  shows "absorbed (m @ concat chunks) (foldl (\<lambda>ctx chunk. Sha256Update chunk ctx) ctx chunks) \<and>
    sha_total_len (foldl (\<lambda>ctx chunk. Sha256Update chunk ctx) ctx chunks) = length (m @ concat chunks) mod U64"
  using assms
proof (induction chunks arbitrary: m ctx)
  case (Cons c cs)
  have "absorbed (m @ c) (Sha256Update c ctx)" by (rule Sha256Update_absorbed [OF Cons.prems(1)])
  moreover have "sha_total_len (Sha256Update c ctx) = length (m @ c) mod U64"
    using Cons.prems(2) by (simp add: Sha256Update_total u64_add_def mod_add_left_eq)
  ultimately show ?case using Cons.IH [of "m @ c" "Sha256Update c ctx"] by simp
qed simp

lemma absorbed_init: "absorbed [] Sha256Init" "sha_total_len Sha256Init = length [] mod U64"
  by (simp_all add: absorbed_def Sha256Init_def whole_def)

text \<open>
  C30: The digest does not depend on how a message is cut into chunks: hashing the chunks one after the other gives the
  standard's digest of their concatenation, and so does hashing it in one piece.
\<close>

theorem sha256_chunks:
  "Sha256Final (foldl (\<lambda>ctx chunk. Sha256Update chunk ctx) Sha256Init chunks) = sha256 (concat chunks) \<and>
   ComputeSha256 (concat chunks) = sha256 (concat chunks)"
  using absorb_run [OF absorbed_init, of chunks] absorb_run [OF absorbed_init, of "[concat chunks]"] Sha256Final_absorbed
  by (simp add: ComputeSha256_def)

lemma sha256_stream: "Sha256Final (foldl (\<lambda>ctx chunk. Sha256Update chunk ctx) Sha256Init chunks) = sha256 (concat chunks)"
  using absorb_run [OF absorbed_init, of chunks] Sha256Final_absorbed by simp

lemma ComputeSha256_eq: "ComputeSha256 m = sha256 m"
  using sha256_stream [of "[m]"] by (simp add: ComputeSha256_def)

lemma length_sha256 [simp]: "length (sha256 m) = 32"
  by (simp add: sha256_def word_bytes_def split: prod.split)

end
