(* ===== verification/Level_Db.thy ===== *)
theory Level_Db
  imports Text_Model "HOL-Library.List_Lexorder" "HOL-Library.Char_ord"
begin

text \<open>
  What the persisters use of LevelDB, a library outside the repository: opening, reading a key, writing a batch, and an
  iterator positioned with \<open>Seek\<close>. The library is a parameter, a record of functions on the type of its files;
  \<open>leveldb_ok\<close> states the documented behaviour the proofs rely on, over the map from keys to values the files hold.
\<close>

section \<open>The library\<close>

text \<open>A value, or the text of the status that says there is none or that the read failed.\<close>

datatype ldb_result = Found string | NotFound string | Failed string

text \<open>
  A batch is a list of writes, \<open>None\<close> for a deletion; the result of opening or writing is \<open>None\<close> or the text of the
  error. \<open>ld_scan d k\<close> lists the keys an iterator visits from \<open>Seek(k)\<close> on.
\<close>

type_synonym batch = "(string \<times> string option) list"

record 'd LevelDB =
  ld_open :: "'d \<Rightarrow> string option"
  ld_get :: "'d \<Rightarrow> string \<Rightarrow> ldb_result"
  ld_write :: "batch \<Rightarrow> 'd \<Rightarrow> string option \<times> 'd"
  ld_scan :: "'d \<Rightarrow> string \<Rightarrow> string list"

text \<open>\<open>for (it->Seek(prefix); it->Valid() && it->key().starts_with(prefix); it->Next())\<close>\<close>

definition prefix_keys :: "'d LevelDB \<Rightarrow> string \<Rightarrow> 'd \<Rightarrow> string list" where
  "prefix_keys ld p d = takeWhile (starts_with p) (ld_scan ld d p)"

definition ldb_put :: "'d LevelDB \<Rightarrow> string \<Rightarrow> string \<Rightarrow> 'd \<Rightarrow> string option \<times> 'd" where
  "ldb_put ld k v d = ld_write ld [(k, Some v)] d"

text \<open>Deletes keys one by one; the results are not looked at.\<close>

definition delete_keys :: "'d LevelDB \<Rightarrow> string list \<Rightarrow> 'd \<Rightarrow> 'd" where
  "delete_keys ld ks d = foldl (\<lambda>d k. snd (ld_write ld [(k, None)] d)) d ks"

section \<open>Documented behaviour\<close>

definition apply_batch :: "batch \<Rightarrow> (string \<rightharpoonup> string) \<Rightarrow> (string \<rightharpoonup> string)" where
  "apply_batch b m = foldl (\<lambda>m (k, v). m(k := v)) m b"

text \<open>
  Reads return what the files hold; a batch is written as a whole or, with an error, not at all; and iterators visit
  the keys in the order of their bytes.
\<close>

definition leveldb_ok :: "'d LevelDB \<Rightarrow> ('d \<Rightarrow> string \<rightharpoonup> string) \<Rightarrow> bool" where
  "leveldb_ok ld content \<longleftrightarrow>
     (\<forall>d k v. content d k = Some v \<longrightarrow> ld_get ld d k = Found v) \<and>
     (\<forall>d k. content d k = None \<longrightarrow> (\<exists>e. ld_get ld d k = NotFound e)) \<and>
     (\<forall>b d d'. ld_write ld b d = (None, d') \<longrightarrow> content d' = apply_batch b (content d)) \<and>
     (\<forall>b d d' e. ld_write ld b d = (Some e, d') \<longrightarrow> content d' = content d) \<and>
     (\<forall>d p. sorted (ld_scan ld d p) \<and> set (ld_scan ld d p) = {k \<in> dom (content d). p \<le> k})"

lemma ldb_found: "leveldb_ok ld content \<Longrightarrow> content d k = Some v \<Longrightarrow> ld_get ld d k = Found v"
  unfolding leveldb_ok_def by (elim conjE) metis

lemma ldb_not_found:
  assumes "leveldb_ok ld content" and "content d k = None"
  obtains e where "ld_get ld d k = NotFound e"
  using assms unfolding leveldb_ok_def by (elim conjE) metis

lemma ldb_write: "leveldb_ok ld content \<Longrightarrow> ld_write ld b d = (None, d') \<Longrightarrow> content d' = apply_batch b (content d)"
  unfolding leveldb_ok_def by (elim conjE) metis

lemma ldb_write_fails: "leveldb_ok ld content \<Longrightarrow> ld_write ld b d = (Some e, d') \<Longrightarrow> content d' = content d"
  unfolding leveldb_ok_def by (elim conjE) metis

lemma ldb_scan:
  "leveldb_ok ld content \<Longrightarrow> sorted (ld_scan ld d p) \<and> set (ld_scan ld d p) = {k \<in> dom (content d). p \<le> k}"
  unfolding leveldb_ok_def by (elim conjE) (erule allE)+

lemma apply_batch_simps [simp]:
  "apply_batch [] m = m" "apply_batch ((k, v) # b) m = apply_batch b (m(k := v))"
  "apply_batch (b @ c) m = apply_batch c (apply_batch b m)"
  by (simp_all add: apply_batch_def)

lemma apply_batch_other: "k \<notin> fst ` set b \<Longrightarrow> apply_batch b m k = m k"
  by (induction b arbitrary: m) auto

lemma apply_batch_same: "m k = m' k \<Longrightarrow> apply_batch b m k = apply_batch b m' k"
proof (induction b arbitrary: m m')
  case (Cons w b)
  obtain j v where w: "w = (j, v)" by (cases w)
  have "(m(j := v)) k = (m'(j := v)) k" using Cons.prems by simp
  then have "apply_batch b (m(j := v)) k = apply_batch b (m'(j := v)) k" by (rule Cons.IH)
  then show ?case by (simp only: w apply_batch_simps)
qed simp

section \<open>Keys with a prefix\<close>

lemma starts_with_simps [simp]:
  "starts_with [] k" "\<not> starts_with (x # p) []" "starts_with (x # p) (y # k) \<longleftrightarrow> x = y \<and> starts_with p k"
  by (auto simp: starts_with_def)

lemma prefix_le: "starts_with p k \<Longrightarrow> p \<le> k"
proof (induction p arbitrary: k)
  case (Cons x p)
  then show ?case by (cases k) simp_all
qed simp

lemma behind_prefix: "p \<le> k \<Longrightarrow> \<not> starts_with p k \<Longrightarrow> k \<le> k' \<Longrightarrow> \<not> starts_with p k'"
proof (induction p arbitrary: k k')
  case (Cons x p)
  then obtain y l where k: "k = y # l" by (cases k) simp_all
  then obtain z l' where k': "k' = z # l'" using Cons.prems(3) by (cases k') simp_all
  show ?case using Cons.prems Cons.IH [of l l'] by (auto simp: k k')
qed simp

lemma prefix_keys_all:
  assumes "leveldb_ok ld content"
  shows "set (prefix_keys ld p d) = {k \<in> dom (content d). starts_with p k}"
proof -
  let ?ks = "ld_scan ld d p"
  have s: "sorted ?ks" "set ?ks = {k \<in> dom (content d). p \<le> k}" using ldb_scan [OF assms] by blast+
  have rest: "\<not> starts_with p k" if "k \<in> set (dropWhile (starts_with p) ?ks)" for k
  proof (cases "dropWhile (starts_with p) ?ks")
    case (Cons k0 ks)
    have "\<not> starts_with p k0" using Cons hd_dropWhile [of "starts_with p" ?ks] by auto
    moreover have "k0 \<in> set ?ks" using Cons set_dropWhileD [of k0 "starts_with p" ?ks] by simp
    moreover have "sorted (k0 # ks)" using sorted_dropWhile [OF s(1), of "starts_with p"] unfolding Cons .
    moreover have "k = k0 \<or> k \<in> set ks" using that unfolding Cons by simp
    ultimately show ?thesis using s(2) behind_prefix [of p k0 k] by (auto simp only: sorted_simps mem_Collect_eq)
  next
    case Nil
    show ?thesis using that unfolding Nil by simp
  qed
  have "set ?ks = set (takeWhile (starts_with p) ?ks) \<union> set (dropWhile (starts_with p) ?ks)"
    by (metis set_append takeWhile_dropWhile_id)
  moreover have "\<forall>k \<in> set (takeWhile (starts_with p) ?ks). starts_with p k" by (auto dest: set_takeWhileD)
  ultimately show ?thesis
    using s(2) rest prefix_le unfolding prefix_keys_def by blast
qed

text \<open>Deletions never touch other keys, whether they succeed or not.\<close>

lemma write_delete:
  assumes "leveldb_ok ld content"
  shows "content (snd (ld_write ld b d)) = apply_batch b (content d) \<or> content (snd (ld_write ld b d)) = content d"
proof (cases "ld_write ld b d")
  case (Pair e d')
  have "content d' = apply_batch b (content d) \<or> content d' = content d"
    using ldb_write [OF assms] ldb_write_fails [OF assms] Pair by (cases e) simp_all
  then show ?thesis by (simp add: Pair)
qed

lemma delete_keys_other:
  assumes "leveldb_ok ld content" and "k \<notin> set ks"
  shows "content (delete_keys ld ks d) k = content d k"
  using assms(2)
proof (induction ks arbitrary: d)
  case (Cons k' ks)
  have "content (snd (ld_write ld [(k', None)] d)) k = content d k"
    using write_delete [OF assms(1), of "[(k', None)]" d] Cons.prems by auto
  then show ?case using Cons by (simp add: delete_keys_def)
qed (simp add: delete_keys_def)

end
