(* ===== verification/State_Persister.thy ===== *)
theory State_Persister
  imports Sha256 Level_Db Json_Protocol Raft_Group
begin

text \<open>
  \<open>src/state_persister.cpp\<close>: term, vote, membership and snapshots in a LevelDB database. The database and the JSON
  library are parameters. Saving the state and opening the database again gives the state back; a snapshot written in
  chunks is read back with its index and term; and a save that fails, at whatever step, leaves the stored snapshot as
  it was.
\<close>

section \<open>Keys and values\<close>

definition kStateTermKey :: string where "kStateTermKey = ''state:term''"
definition kStateVotedForKey :: string where "kStateVotedForKey = ''state:voted_for''"
definition kStateClusterConfigKey :: string where "kStateClusterConfigKey = ''state:cluster_config''"
definition kSnapshotDataKey :: string where "kSnapshotDataKey = ''snapshot:data''"
definition kSnapshotMetaKey :: string where "kSnapshotMetaKey = ''snapshot:meta''"
definition kSnapshotHashKey :: string where "kSnapshotHashKey = ''snapshot:hash''"
definition kSnapshotChunkPrefix :: string where "kSnapshotChunkPrefix = ''snapshot:chunk:''"
definition kSnapshotTmpChunkPrefix :: string where "kSnapshotTmpChunkPrefix = ''snapshot:tmp:chunk:''"

definition chunk_key :: "nat \<Rightarrow> string" where
  "chunk_key i = kSnapshotChunkPrefix @ nat_to_string i"

definition tmp_chunk_key :: "nat \<Rightarrow> string" where
  "tmp_chunk_key i = kSnapshotTmpChunkPrefix @ nat_to_string i"

text \<open>\<open>json::parse\<close>, with the text of the exception, and \<open>dump\<close>, which does not throw on numbers and Booleans.\<close>

record StateLib =
  st_parse :: "string \<Rightarrow> string + json"
  st_dump :: "json \<Rightarrow> string"

record 'd StatePersister =
  sp_files :: 'd
  sp_db :: bool
  sp_cached_state :: PersistentState
  sp_snapshot_last_index :: nat
  sp_snapshot_last_term :: nat
  sp_sync_on_write :: bool
  sp_snappy :: bool

definition initial_state :: PersistentState where
  "initial_state = \<lparr>ps_current_term = 0, ps_voted_for = -1, ps_cluster_nodes = [], ps_cluster_old_nodes = [],
     ps_cluster_learners = [], ps_cluster_version = 0, ps_cluster_is_joint = False\<rparr>"

definition new_state_persister :: "'d \<Rightarrow> 'd StatePersister" where
  "new_state_persister files = \<lparr>sp_files = files, sp_db = False, sp_cached_state = initial_state,
     sp_snapshot_last_index = 0, sp_snapshot_last_term = 0, sp_sync_on_write = False, sp_snappy = True\<rparr>"

definition SetSyncOnWrite :: "bool \<Rightarrow> 'd StatePersister \<Rightarrow> 'd StatePersister" where
  "SetSyncOnWrite sync s = s\<lparr>sp_sync_on_write := sync\<rparr>"

definition SetCompressionType :: "bool \<Rightarrow> 'd StatePersister \<Rightarrow> 'd StatePersister" where
  "SetCompressionType snappy s = s\<lparr>sp_snappy := snappy\<rparr>"

text \<open>The bytes of a 32-bit \<open>int\<close> and back.\<close>

definition i32_bytes :: "int \<Rightarrow> string" where
  "i32_bytes n = le_bytes 4 (nat (n mod 2 ^ 32))"

definition i32_read :: "string \<Rightarrow> int" where
  "i32_read s = i32 (int (le_read s))"

definition nodes_json :: "NodeId list \<Rightarrow> json" where
  "nodes_json ns = JArray (map JInt ns)"

fun get_nodes :: "json \<Rightarrow> (NodeId list) option" where
  "get_nodes (JArray js) = those (map get_i32 js)"
| "get_nodes _ = None"

text \<open>\<open>j.value(k, d)\<close>: it throws on a value that is no object, and on a member of another type.\<close>

fun json_value :: "(json \<Rightarrow> 'a option) \<Rightarrow> 'a \<Rightarrow> json \<Rightarrow> string \<Rightarrow> 'a option" where
  "json_value get d (JObject m) k = (case m k of None \<Rightarrow> Some d | Some v \<Rightarrow> get v)"
| "json_value get d _ k = None"

definition cluster_json :: "PersistentState \<Rightarrow> json" where
  "cluster_json p = JObject [''nodes'' \<mapsto> nodes_json (ps_cluster_nodes p), ''old_nodes'' \<mapsto> nodes_json (ps_cluster_old_nodes p),
     ''learners'' \<mapsto> nodes_json (ps_cluster_learners p), ''version'' \<mapsto> JInt (int (ps_cluster_version p)),
     ''is_joint'' \<mapsto> JBool (ps_cluster_is_joint p)]"

text \<open>The members are assigned one after the other; an exception keeps those assigned before it.\<close>

definition read_cluster :: "json \<Rightarrow> PersistentState \<Rightarrow> PersistentState" where
  "read_cluster j p =
     (case json_value get_nodes [] j ''nodes'' of None \<Rightarrow> p | Some ns \<Rightarrow>
        let p = p\<lparr>ps_cluster_nodes := ns\<rparr> in
      case json_value get_nodes [] j ''old_nodes'' of None \<Rightarrow> p | Some ns \<Rightarrow>
        let p = p\<lparr>ps_cluster_old_nodes := ns\<rparr> in
      case json_value get_nodes [] j ''learners'' of None \<Rightarrow> p | Some ns \<Rightarrow>
        let p = p\<lparr>ps_cluster_learners := ns\<rparr> in
      case json_value get_u64 0 j ''version'' of None \<Rightarrow> p | Some v \<Rightarrow>
        let p = p\<lparr>ps_cluster_version := v\<rparr> in
      case json_value get_bool False j ''is_joint'' of None \<Rightarrow> p | Some b \<Rightarrow> p\<lparr>ps_cluster_is_joint := b\<rparr>)"

section \<open>State\<close>

definition LoadStateFromDB :: "'d LevelDB \<Rightarrow> StateLib \<Rightarrow> 'd StatePersister \<Rightarrow> 'd StatePersister" where
  "LoadStateFromDB ld lib s =
     (let d = sp_files s;
          p0 = initial_state;
          p1 = (case ld_get ld d kStateTermKey of
                  Found v \<Rightarrow> if length v = 4 then p0\<lparr>ps_current_term := le_read v\<rparr> else p0
                | _ \<Rightarrow> p0);
          p2 = (case ld_get ld d kStateVotedForKey of
                  Found v \<Rightarrow> if length v = 4 then p1\<lparr>ps_voted_for := i32_read v\<rparr> else p1
                | _ \<Rightarrow> p1);
          p3 = (case ld_get ld d kStateClusterConfigKey of
                  Found v \<Rightarrow> (case st_parse lib v of Inl _ \<Rightarrow> p2 | Inr j \<Rightarrow> read_cluster j p2)
                | _ \<Rightarrow> p2)
      in s\<lparr>sp_cached_state := p3\<rparr>)"

definition Open_sp :: "'d LevelDB \<Rightarrow> StateLib \<Rightarrow> 'd StatePersister \<Rightarrow> Status \<times> 'd StatePersister" where
  "Open_sp ld lib s =
     (if sp_db s then (Error ''StatePersister already open'' [], s)
      else case ld_open ld (sp_files s) of
             Some e \<Rightarrow> (Error (''Failed to open LevelDB: '' @ e) [], s)
           | None \<Rightarrow> (OK, LoadStateFromDB ld lib (s\<lparr>sp_db := True\<rparr>)))"

definition Close_sp :: "'d StatePersister \<Rightarrow> 'd StatePersister" where
  "Close_sp s = s\<lparr>sp_db := False\<rparr>"

definition SaveState_sp :: "'d LevelDB \<Rightarrow> StateLib \<Rightarrow> PersistentState \<Rightarrow> 'd StatePersister \<Rightarrow> Status \<times> 'd StatePersister" where
  "SaveState_sp ld lib p s =
     (if \<not> sp_db s then (Error ''StatePersister not open'' [], s)
      else case ld_write ld [(kStateTermKey, Some (le_bytes 4 (ps_current_term p))),
                             (kStateVotedForKey, Some (i32_bytes (ps_voted_for p))),
                             (kStateClusterConfigKey, Some (st_dump lib (cluster_json p)))] (sp_files s) of
             (Some e, d) \<Rightarrow> (Error (''Failed to save state: '' @ e) [], s\<lparr>sp_files := d\<rparr>)
           | (None, d) \<Rightarrow> (OK, s\<lparr>sp_files := d, sp_cached_state := p\<rparr>))"

definition LoadState_sp :: "'d StatePersister \<Rightarrow> Status + PersistentState" where
  "LoadState_sp s = (if \<not> sp_db s then Inl (Error ''StatePersister not open'' []) else Inr (sp_cached_state s))"

section \<open>Snapshots\<close>

definition SaveSnapshot_sp :: "'d LevelDB \<Rightarrow> string \<Rightarrow> nat \<Rightarrow> nat \<Rightarrow> 'd StatePersister \<Rightarrow> Status \<times> 'd StatePersister" where
  "SaveSnapshot_sp ld data last_index last_term s =
     (if \<not> sp_db s then (Error ''StatePersister not open'' [], s)
      else case ld_write ld [(kSnapshotDataKey, Some data),
                             (kSnapshotMetaKey, Some (le_bytes 8 last_index @ le_bytes 8 last_term)),
                             (kSnapshotHashKey, Some (ComputeSha256 data))] (sp_files s) of
             (Some e, d) \<Rightarrow> (Error (''Failed to save snapshot: '' @ e) [], s\<lparr>sp_files := d\<rparr>)
           | (None, d) \<Rightarrow> (OK, s\<lparr>sp_files := d, sp_snapshot_last_index := last_index, sp_snapshot_last_term := last_term\<rparr>))"

text \<open>The status, and the values of the output parameters, given the values they had.\<close>

definition LoadSnapshot_sp ::
  "'d LevelDB \<Rightarrow> 'd StatePersister \<Rightarrow> string \<times> nat \<times> nat \<Rightarrow> Status \<times> string \<times> nat \<times> nat" where
  "LoadSnapshot_sp ld s old =
     (case old of (data0, i0, t0) \<Rightarrow>
      if \<not> sp_db s then (Error ''StatePersister not open'' [], old)
      else case ld_get ld (sp_files s) kSnapshotDataKey of
             NotFound _ \<Rightarrow> (Error ''No snapshot available'' [], old)
           | Failed e \<Rightarrow> (Error (''Failed to load snapshot: '' @ e) [], old)
           | Found data \<Rightarrow>
             (case ld_get ld (sp_files s) kSnapshotMetaKey of
                Found meta \<Rightarrow>
                  if length meta \<noteq> 16 then (Error ''Failed to load snapshot metadata'' [], data, i0, t0)
                  else let i = le_read (take 8 meta); t = le_read (drop 8 meta) in
                       (case ld_get ld (sp_files s) kSnapshotHashKey of
                          Found h \<Rightarrow>
                            if length h = 32 \<and> h \<noteq> ComputeSha256 data
                            then (Error ''Snapshot integrity check failed: SHA-256 mismatch'' [], [], i, t)
                            else (OK, data, i, t)
                        | _ \<Rightarrow> (OK, data, i, t))
              | _ \<Rightarrow> (Error ''Failed to load snapshot metadata'' [], data, i0, t0)))"

definition DeleteSnapshotTempDataLocked :: "'d LevelDB \<Rightarrow> 'd \<Rightarrow> 'd" where
  "DeleteSnapshotTempDataLocked ld d = delete_keys ld (prefix_keys ld kSnapshotTmpChunkPrefix d) d"

text \<open>The deletions that go into a batch; the form that deletes at once is not called.\<close>

definition DeleteSnapshotDataLocked :: "'d LevelDB \<Rightarrow> 'd \<Rightarrow> batch" where
  "DeleteSnapshotDataLocked ld d =
     [(kSnapshotDataKey, None), (kSnapshotMetaKey, None), (kSnapshotHashKey, None)] @
     map (\<lambda>k. (k, None)) (prefix_keys ld kSnapshotChunkPrefix d)"

text \<open>
  The loop that stores the chunks the provider returns under temporary keys: the number stored, the context of the
  hash, and the error of a write.
\<close>

fun store_chunks ::
  "'d LevelDB \<Rightarrow> string list \<Rightarrow> nat \<Rightarrow> Sha256Context \<Rightarrow> 'd \<Rightarrow> (string + nat \<times> Sha256Context) \<times> 'd" where
  "store_chunks ld [] n ctx d = (Inr (n, ctx), d)"
| "store_chunks ld (c # cs) n ctx d =
     (if c = [] then store_chunks ld cs n ctx d
      else case ldb_put ld (tmp_chunk_key n) c d of
             (Some e, d1) \<Rightarrow> (Inl e, d1)
           | (None, d1) \<Rightarrow> store_chunks ld cs (u32_add n 1) (Sha256Update c ctx) d1)"

text \<open>The part of the batch that moves the chunks to their keys, or the error of a read.\<close>

fun move_chunks :: "'d LevelDB \<Rightarrow> 'd \<Rightarrow> nat list \<Rightarrow> string + batch" where
  "move_chunks ld d [] = Inr []"
| "move_chunks ld d (i # is) =
     (case ld_get ld d (tmp_chunk_key i) of
        Found c \<Rightarrow> map_sum id (\<lambda>b. [(chunk_key i, Some c), (tmp_chunk_key i, None)] @ b) (move_chunks ld d is)
      | NotFound e \<Rightarrow> Inl e
      | Failed e \<Rightarrow> Inl e)"

text \<open>
  The provider is what it returns: the chunks for which it returns true, and the exception it throws then, if it does
  not return false.
\<close>

definition SaveSnapshotStream_sp ::
  "'d LevelDB \<Rightarrow> string list \<times> string option \<Rightarrow> nat \<Rightarrow> nat \<Rightarrow> 'd StatePersister \<Rightarrow> Status \<times> 'd StatePersister" where
  "SaveSnapshotStream_sp ld provider last_index last_term s =
     (if \<not> sp_db s then (Error ''StatePersister not open'' [], s)
      else let d0 = DeleteSnapshotTempDataLocked ld (sp_files s);
               fail = (\<lambda>msg d. (Error msg [], s\<lparr>sp_files := DeleteSnapshotTempDataLocked ld d\<rparr>))
           in case store_chunks ld (fst provider) 0 Sha256Init d0 of
                (Inl e, d1) \<Rightarrow> fail (''Failed to save snapshot chunk: '' @ e) d1
              | (Inr (n, ctx), d1) \<Rightarrow>
                (case snd provider of
                   Some what \<Rightarrow> fail (''Snapshot chunk provider failed: '' @ what) d1
                 | None \<Rightarrow>
                   if n = 0
                   then (case ld_write ld (DeleteSnapshotDataLocked ld d1) d1 of
                           (Some e, d2) \<Rightarrow> (Error (''Failed to clear old snapshot: '' @ e) [], s\<lparr>sp_files := d2\<rparr>)
                         | (None, d2) \<Rightarrow> (OK, s\<lparr>sp_files := d2, sp_snapshot_last_index := 0, sp_snapshot_last_term := 0\<rparr>))
                   else case move_chunks ld d1 [0..<n] of
                          Inl e \<Rightarrow> fail (''Failed to read temp snapshot chunk: '' @ e) d1
                        | Inr moves \<Rightarrow>
                          (case ld_write ld (DeleteSnapshotDataLocked ld d1 @
                                  [(kSnapshotMetaKey, Some (le_bytes 8 last_index @ le_bytes 8 last_term @ le_bytes 4 n)),
                                   (kSnapshotHashKey, Some (Sha256Final ctx))] @ moves) d1 of
                             (Some e, d2) \<Rightarrow> fail (''Failed to commit snapshot: '' @ e) d2
                           | (None, d2) \<Rightarrow> (OK, s\<lparr>sp_files := d2, sp_snapshot_last_index := last_index,
                                                   sp_snapshot_last_term := last_term\<rparr>))))"

text \<open>
  The loop that reads the chunks: with a count in the metadata it stops there, and always at a missing chunk. The
  number of a chunk wraps at \<open>2^32\<close>; after more rounds than there are numbers it will not end (\<open>None\<close>). The result has
  the error of a read, the context and the chunks delivered.
\<close>

fun load_chunks ::
  "'d LevelDB \<Rightarrow> 'd \<Rightarrow> nat option \<Rightarrow> nat \<Rightarrow> nat \<Rightarrow> Sha256Context \<Rightarrow> string list \<Rightarrow>
   (string option \<times> Sha256Context \<times> string list) option" where
  "load_chunks ld d count 0 i ctx got = None"
| "load_chunks ld d count (Suc rounds) i ctx got =
     (if (case count of None \<Rightarrow> False | Some n \<Rightarrow> n \<le> i) then Some (None, ctx, got)
      else case ld_get ld d (chunk_key i) of
             NotFound _ \<Rightarrow> Some (None, ctx, got)
           | Failed e \<Rightarrow> Some (Some e, ctx, got)
           | Found c \<Rightarrow> load_chunks ld d count rounds (u32_add i 1) (Sha256Update c ctx) (got @ [c]))"

text \<open>The status, the chunks delivered, and the two output parameters, given the values they had.\<close>

definition LoadSnapshotStream_sp ::
  "'d LevelDB \<Rightarrow> 'd StatePersister \<Rightarrow> nat \<times> nat \<Rightarrow> (Status \<times> string list \<times> nat \<times> nat) option" where
  "LoadSnapshotStream_sp ld s old =
     (let d = sp_files s in
      if \<not> sp_db s then Some (Error ''StatePersister not open'' [], [], old)
      else case ld_get ld d kSnapshotDataKey of
             Found value \<Rightarrow>
               (case LoadSnapshot_sp ld s (value, old) of (st, data, i, t) \<Rightarrow>
                  Some (st, if ok st \<and> data \<noteq> [] then [data] else [], i, t))
           | _ \<Rightarrow>
             (case ld_get ld d kSnapshotMetaKey of
                NotFound _ \<Rightarrow> Some (Error ''No snapshot available'' [], [], old)
              | Failed e \<Rightarrow> Some (Error ''Failed to load snapshot metadata'' [], [], old)
              | Found meta \<Rightarrow>
                if length meta \<noteq> 16 \<and> length meta \<noteq> 20 then Some (Error ''Failed to load snapshot metadata'' [], [], old)
                else let i = le_read (take 8 meta); t = le_read (take 8 (drop 8 meta));
                         count = (if length meta = 20 then Some (le_read (drop 16 meta)) else None)
                     in case load_chunks ld d count (Suc U32) 0 Sha256Init [] of
                          None \<Rightarrow> None
                        | Some (Some e, _, got) \<Rightarrow> Some (Error (''Failed to load snapshot chunk: '' @ e) [], got, i, t)
                        | Some (None, ctx, got) \<Rightarrow>
                          (case ld_get ld d kSnapshotHashKey of
                             Found h \<Rightarrow>
                               if length h = 32 \<and> h \<noteq> Sha256Final ctx
                               then Some (Error ''Snapshot integrity check failed: SHA-256 mismatch'' [], got, i, t)
                               else Some (OK, got, i, t)
                           | _ \<Rightarrow> Some (OK, got, i, t))))"

definition HasSnapshot_sp :: "'d LevelDB \<Rightarrow> 'd StatePersister \<Rightarrow> bool" where
  "HasSnapshot_sp ld s =
     (if \<not> sp_db s then False
      else case ld_get ld (sp_files s) kSnapshotDataKey of
             Found _ \<Rightarrow> True
           | _ \<Rightarrow> (case ld_get ld (sp_files s) kSnapshotMetaKey of Found _ \<Rightarrow> True | _ \<Rightarrow> False))"

definition GetSnapshotLastIndex :: "'d StatePersister \<Rightarrow> nat" where
  "GetSnapshotLastIndex s = sp_snapshot_last_index s"

definition GetSnapshotLastTerm :: "'d StatePersister \<Rightarrow> nat" where
  "GetSnapshotLastTerm s = sp_snapshot_last_term s"

section \<open>Reading back the state\<close>

definition state_fits :: "PersistentState \<Rightarrow> bool" where
  "state_fits p \<longleftrightarrow> ps_current_term p < U32 \<and> is_i32 (ps_voted_for p) \<and> list_all is_i32 (ps_cluster_nodes p) \<and>
     list_all is_i32 (ps_cluster_old_nodes p) \<and> list_all is_i32 (ps_cluster_learners p) \<and> ps_cluster_version p < U64"

text \<open>Parsing inverts printing, here on one value.\<close>

definition parses_back :: "StateLib \<Rightarrow> json \<Rightarrow> bool" where
  "parses_back lib j \<longleftrightarrow> st_parse lib (st_dump lib j) = Inr j"

lemma i32_bytes_read: "is_i32 n \<Longrightarrow> i32_read (i32_bytes n) = n"
  by (simp add: i32_read_def i32_bytes_def le_read_bytes_mod is_i32_def i32_def mod_add_left_eq)

lemma get_nodes_json: "list_all is_i32 ns \<Longrightarrow> get_nodes (nodes_json ns) = Some ns"
  by (induction ns) (simp_all add: nodes_json_def get_i32_def comp_def)

lemma read_cluster_json:
  assumes "state_fits p"
  shows "read_cluster (cluster_json p) q = p\<lparr>ps_current_term := ps_current_term q, ps_voted_for := ps_voted_for q\<rparr>"
proof -
  have "get_u64 (JInt (int (ps_cluster_version p))) = Some (ps_cluster_version p)"
    using assms by (simp add: state_fits_def U64_def get_u64.simps(1))
  then show ?thesis
    using assms by (simp add: read_cluster_def cluster_json_def state_fits_def get_nodes_json Let_def)
qed

lemmas state_keys = kStateTermKey_def kStateVotedForKey_def kStateClusterConfigKey_def
lemmas snapshot_keys = kSnapshotDataKey_def kSnapshotMetaKey_def kSnapshotHashKey_def kSnapshotChunkPrefix_def
  kSnapshotTmpChunkPrefix_def

text \<open>The files hold the state \<open>p\<close>.\<close>

definition holds_state :: "StateLib \<Rightarrow> (string \<rightharpoonup> string) \<Rightarrow> PersistentState \<Rightarrow> bool" where
  "holds_state lib m p \<longleftrightarrow> m kStateTermKey = Some (le_bytes 4 (ps_current_term p)) \<and>
     m kStateVotedForKey = Some (i32_bytes (ps_voted_for p)) \<and>
     m kStateClusterConfigKey = Some (st_dump lib (cluster_json p))"

lemma save_state_holds:
  assumes "leveldb_ok ld content" and "SaveState_sp ld lib p s = (OK, s')"
  shows "holds_state lib (content (sp_files s')) p" and "sp_db s'" and "sp_cached_state s' = p"
    and "\<And>k. \<not> starts_with ''state:'' k \<Longrightarrow> content (sp_files s') k = content (sp_files s) k"
proof -
  let ?b = "[(kStateTermKey, Some (le_bytes 4 (ps_current_term p))), (kStateVotedForKey, Some (i32_bytes (ps_voted_for p))),
    (kStateClusterConfigKey, Some (st_dump lib (cluster_json p)))]"
  obtain d where d: "ld_write ld ?b (sp_files s) = (None, d)" and s': "s' = s\<lparr>sp_files := d, sp_cached_state := p\<rparr>" "sp_db s"
    using assms(2) by (auto simp: SaveState_sp_def split: if_splits prod.splits option.splits)
  have c: "content (sp_files s') = apply_batch ?b (content (sp_files s))" using ldb_write [OF assms(1) d] by (simp add: s')
  have n: "kStateTermKey \<noteq> kStateVotedForKey" "kStateTermKey \<noteq> kStateClusterConfigKey" "kStateVotedForKey \<noteq> kStateClusterConfigKey"
    by (simp_all add: state_keys)
  show "holds_state lib (content (sp_files s')) p" unfolding c holds_state_def using n by simp
  show "sp_db s'" "sp_cached_state s' = p" by (simp_all add: s')
  show "content (sp_files s') k = content (sp_files s) k" if "\<not> starts_with ''state:'' k" for k
  proof -
    have "k \<noteq> kStateTermKey" "k \<noteq> kStateVotedForKey" "k \<noteq> kStateClusterConfigKey"
      using that by (auto simp: state_keys)
    then show ?thesis unfolding c by simp
  qed
qed

lemma open_loads_state:
  assumes ld: "leveldb_ok ld content" and lib: "parses_back lib (cluster_json p)" and p: "state_fits p"
    and h: "holds_state lib (content (sp_files s)) p" and o: "ld_open ld (sp_files s) = None" "\<not> sp_db s"
  shows "\<exists>s'. Open_sp ld lib s = (OK, s') \<and> LoadState_sp s' = Inr p \<and> sp_files s' = sp_files s"
proof -
  have t: "le_read (le_bytes 4 (ps_current_term p)) = ps_current_term p"
    using p by (simp add: state_fits_def U32_def)
  have v: "i32_read (i32_bytes (ps_voted_for p)) = ps_voted_for p" "length (i32_bytes (ps_voted_for p)) = 4"
    using p i32_bytes_read by (simp add: state_fits_def, simp add: i32_bytes_def)
  have j: "st_parse lib (st_dump lib (cluster_json p)) = Inr (cluster_json p)" using lib by (simp add: parses_back_def)
  have "ld_get ld (sp_files s) kStateTermKey = Found (le_bytes 4 (ps_current_term p))"
    "ld_get ld (sp_files s) kStateVotedForKey = Found (i32_bytes (ps_voted_for p))"
    "ld_get ld (sp_files s) kStateClusterConfigKey = Found (st_dump lib (cluster_json p))"
    using h ldb_found [OF ld] by (simp_all add: holds_state_def)
  then show ?thesis
    using o t v j read_cluster_json [OF p] by (simp add: Open_sp_def LoadStateFromDB_def LoadState_sp_def Let_def)
qed

section \<open>Which keys an operation touches\<close>

lemma chunk_keys [simp]:
  "chunk_key i = chunk_key j \<longleftrightarrow> i = j" "tmp_chunk_key i = tmp_chunk_key j \<longleftrightarrow> i = j"
  "chunk_key i \<noteq> tmp_chunk_key j" "tmp_chunk_key j \<noteq> chunk_key i"
  "chunk_key i \<noteq> kSnapshotDataKey" "chunk_key i \<noteq> kSnapshotMetaKey" "chunk_key i \<noteq> kSnapshotHashKey"
  "kSnapshotDataKey \<noteq> chunk_key i" "kSnapshotMetaKey \<noteq> chunk_key i" "kSnapshotHashKey \<noteq> chunk_key i"
  "kSnapshotDataKey \<noteq> tmp_chunk_key i" "kSnapshotMetaKey \<noteq> tmp_chunk_key i" "kSnapshotHashKey \<noteq> tmp_chunk_key i"
  "tmp_chunk_key i \<noteq> kSnapshotDataKey" "tmp_chunk_key i \<noteq> kSnapshotMetaKey" "tmp_chunk_key i \<noteq> kSnapshotHashKey"
  "starts_with kSnapshotTmpChunkPrefix (tmp_chunk_key i)" "\<not> starts_with kSnapshotTmpChunkPrefix (chunk_key i)"
  "starts_with kSnapshotChunkPrefix (chunk_key i)" "\<not> starts_with kSnapshotChunkPrefix (tmp_chunk_key i)"
  by (simp_all add: chunk_key_def tmp_chunk_key_def snapshot_keys)

lemma fixed_keys [simp]:
  "kSnapshotDataKey \<noteq> kSnapshotMetaKey" "kSnapshotDataKey \<noteq> kSnapshotHashKey" "kSnapshotMetaKey \<noteq> kSnapshotHashKey"
  "kSnapshotMetaKey \<noteq> kSnapshotDataKey" "kSnapshotHashKey \<noteq> kSnapshotDataKey" "kSnapshotHashKey \<noteq> kSnapshotMetaKey"
  "\<not> starts_with kSnapshotTmpChunkPrefix kSnapshotDataKey" "\<not> starts_with kSnapshotTmpChunkPrefix kSnapshotMetaKey"
  "\<not> starts_with kSnapshotTmpChunkPrefix kSnapshotHashKey" "\<not> starts_with kSnapshotChunkPrefix kSnapshotDataKey"
  "\<not> starts_with kSnapshotChunkPrefix kSnapshotMetaKey" "\<not> starts_with kSnapshotChunkPrefix kSnapshotHashKey"
  by (simp_all add: snapshot_keys)

lemma put_cases:
  assumes "leveldb_ok ld content" and "ldb_put ld k v d = (e, d')"
  shows "content d' = (if e = None then (content d)(k \<mapsto> v) else content d)"
  using assms ldb_write [OF assms(1), of "[(k, Some v)]" d d'] ldb_write_fails [OF assms(1), of "[(k, Some v)]" d _ d']
  by (cases e) (simp_all add: ldb_put_def)

lemma delete_temp_other:
  assumes "leveldb_ok ld content" and "\<not> starts_with kSnapshotTmpChunkPrefix k"
  shows "content (DeleteSnapshotTempDataLocked ld d) k = content d k"
  unfolding DeleteSnapshotTempDataLocked_def
  by (rule delete_keys_other [OF assms(1)]) (use prefix_keys_all [OF assms(1)] assms(2) in auto)

lemma store_chunks_other:
  assumes ld: "leveldb_ok ld content" and k: "\<not> starts_with kSnapshotTmpChunkPrefix k"
  shows "content (snd (store_chunks ld cs n ctx d)) k = content d k"
proof (induction cs arbitrary: n ctx d)
  case (Cons c cs)
  have "k \<noteq> tmp_chunk_key n" using k by auto
  then show ?case
    using Cons put_cases [OF ld] by (auto split: prod.split option.split)
qed simp

text \<open>
  A failed save touches temporary keys only. What a key holds, and so what later reads see, is as before.
\<close>

lemma failed_stream_content:
  assumes ld: "leveldb_ok ld content" and f: "SaveSnapshotStream_sp ld pr i t s = (st, s')" "\<not> ok st"
    and k: "\<not> starts_with kSnapshotTmpChunkPrefix k"
  shows "content (sp_files s') k = content (sp_files s) k \<and> sp_db s' = sp_db s \<and> sp_cached_state s' = sp_cached_state s"
proof (cases "sp_db s")
  case True
  note del = delete_temp_other [OF ld k]
  define d0 where "d0 = DeleteSnapshotTempDataLocked ld (sp_files s)"
  obtain r d1 where r: "store_chunks ld (fst pr) 0 Sha256Init d0 = (r, d1)" by (cases "store_chunks ld (fst pr) 0 Sha256Init d0")
  have d1: "content d1 k = content (sp_files s) k"
    using store_chunks_other [OF ld k, of "fst pr" 0 Sha256Init d0] del [of "sp_files s"] by (simp add: r flip: d0_def)
  have w: "content d2 k = content d1 k" if "ld_write ld b d1 = (Some e, d2)" for b e d2
    using ldb_write_fails [OF ld that] by simp
  show ?thesis
    using f True r d1 w del
    by (auto simp: SaveSnapshotStream_sp_def Let_def simp flip: d0_def split: sum.splits prod.splits option.splits if_splits)
next
  case False
  then show ?thesis using f by (simp add: SaveSnapshotStream_sp_def)
qed

text \<open>Loading depends on the keys of the snapshot only.\<close>

definition snapshot_key :: "string \<Rightarrow> bool" where
  "snapshot_key k \<longleftrightarrow> k \<in> {kSnapshotDataKey, kSnapshotMetaKey, kSnapshotHashKey} \<or> starts_with kSnapshotChunkPrefix k"

lemma same_get:
  assumes "leveldb_ok ld content" and "content d k = content d' k"
  shows "(\<exists>v. ld_get ld d k = Found v \<and> ld_get ld d' k = Found v) \<or> (\<exists>e e'. ld_get ld d k = NotFound e \<and> ld_get ld d' k = NotFound e')"
proof (cases "content d k")
  case None
  then show ?thesis using assms(2) by (metis ldb_not_found [OF assms(1)])
next
  case (Some v)
  then show ?thesis using ldb_found [OF assms(1), of d k v] ldb_found [OF assms(1), of d' k v] assms(2) by simp
qed

declare load_chunks.simps [simp del]

lemma load_chunks_same:
  assumes "leveldb_ok ld content" and "\<And>i. content d (chunk_key i) = content d' (chunk_key i)"
  shows "load_chunks ld d count rounds i ctx got = load_chunks ld d' count rounds i ctx got"
proof (induction rounds arbitrary: i ctx got)
  case (Suc rounds)
  then show ?case using same_get [OF assms(1) assms(2) [of i]] by (auto simp: load_chunks.simps)
qed (simp add: load_chunks.simps)

lemma load_stream_same:
  assumes ld: "leveldb_ok ld content" and k: "\<And>k. snapshot_key k \<Longrightarrow> content (sp_files s') k = content (sp_files s) k"
    and "sp_db s' = sp_db s"
  shows "LoadSnapshotStream_sp ld s' old = LoadSnapshotStream_sp ld s old"
proof -
  let ?d = "sp_files s" and ?d' = "sp_files s'"
  have "content ?d' (chunk_key i) = content ?d (chunk_key i)" for i by (rule k) (simp add: snapshot_key_def)
  note c = load_chunks_same [OF ld this]
  have g: "(\<exists>v. ld_get ld ?d' x = Found v \<and> ld_get ld ?d x = Found v) \<or>
      (\<exists>e e'. ld_get ld ?d' x = NotFound e \<and> ld_get ld ?d x = NotFound e')"
    if "x \<in> {kSnapshotDataKey, kSnapshotMetaKey, kSnapshotHashKey}" for x
    using that by (intro same_get [OF ld] k) (simp add: snapshot_key_def)
  show ?thesis
    using g [of kSnapshotDataKey, simplified] g [of kSnapshotMetaKey, simplified] g [of kSnapshotHashKey, simplified]
    unfolding LoadSnapshotStream_sp_def LoadSnapshot_sp_def Let_def c assms(3)
    by (elim disjE exE conjE) (simp_all only: ldb_result.case)
qed

section \<open>A snapshot in chunks\<close>

abbreviation hash_chunks :: "Sha256Context \<Rightarrow> string list \<Rightarrow> Sha256Context" where
  "hash_chunks ctx cs \<equiv> foldl (\<lambda>ctx c. Sha256Update c ctx) ctx cs"

lemma store_chunks_ok:
  assumes ld: "leveldb_ok ld content"
  shows "store_chunks ld chunks n ctx d = (Inr (n', ctx'), d') \<Longrightarrow> cs = filter (\<lambda>c. c \<noteq> []) chunks \<Longrightarrow>
    n + length cs < U32 \<Longrightarrow>
    n' = n + length cs \<and> ctx' = hash_chunks ctx cs \<and> (\<forall>j < length cs. content d' (tmp_chunk_key (n + j)) = Some (cs ! j)) \<and>
    (\<forall>j < n. content d' (tmp_chunk_key j) = content d (tmp_chunk_key j))"
proof (induction chunks arbitrary: n ctx d cs)
  case (Cons c chunks)
  show ?case
  proof (cases "c = []")
    case False
    obtain e d1 where p: "ldb_put ld (tmp_chunk_key n) c d = (e, d1)" by (cases "ldb_put ld (tmp_chunk_key n) c d")
    with Cons.prems(1) False have e: "e = None" by (auto split: option.splits)
    have d1: "content d1 = (content d)(tmp_chunk_key n \<mapsto> c)" using put_cases [OF ld p] e by simp
    let ?cs = "filter (\<lambda>c. c \<noteq> []) chunks"
    have cs: "cs = c # ?cs" using Cons.prems(2) False by simp
    have n: "u32_add n 1 = Suc n" using Cons.prems(3) cs by (simp add: u32_add_eq)
    have "store_chunks ld chunks (Suc n) (Sha256Update c ctx) d1 = (Inr (n', ctx'), d')"
      using Cons.prems(1) False p e n by simp
    from Cons.IH [OF this refl] cs Cons.prems(3) have ih: "n' = Suc n + length ?cs" "ctx' = hash_chunks (Sha256Update c ctx) ?cs"
        "\<And>j. j < length ?cs \<Longrightarrow> content d' (tmp_chunk_key (Suc n + j)) = Some (?cs ! j)"
        "\<And>j. j < Suc n \<Longrightarrow> content d' (tmp_chunk_key j) = content d1 (tmp_chunk_key j)" by auto
    have "content d' (tmp_chunk_key (n + j)) = Some (cs ! j)" if "j < length cs" for j
      using that ih(3) [of "j - 1"] ih(4) [of n] d1 by (cases j) (simp_all add: cs)
    then show ?thesis using ih d1 by (simp add: cs)
  qed (use Cons in simp)
qed simp

lemma move_chunks_ok:
  assumes "leveldb_ok ld content" and "\<And>j. j \<in> set is \<Longrightarrow> content d (tmp_chunk_key j) = Some (f j)"
  shows "move_chunks ld d is = Inr (concat (map (\<lambda>j. [(chunk_key j, Some (f j)), (tmp_chunk_key j, None)]) is))"
  using assms(2)
proof (induction "is")
  case (Cons i "is")
  then show ?case using ldb_found [OF assms(1), of d "tmp_chunk_key i" "f i"] by simp
qed simp

lemma apply_moves:
  assumes "distinct is"
  shows "apply_batch (concat (map (\<lambda>j. [(chunk_key j, Some (f j)), (tmp_chunk_key j, None)]) is)) m (chunk_key i) =
    (if i \<in> set is then Some (f i) else m (chunk_key i))"
  using assms
proof (induction "is" arbitrary: m)
  case (Cons j "is")
  then show ?case by (cases "i = j") simp_all
qed simp

lemma apply_moves_fixed:
  assumes "k \<in> {kSnapshotDataKey, kSnapshotMetaKey, kSnapshotHashKey}"
  shows "apply_batch (concat (map (\<lambda>j. [(chunk_key j, Some (f j)), (tmp_chunk_key j, None)]) is)) m k = m k"
  by (rule apply_batch_other) (use assms in auto)

lemma apply_deletes: "apply_batch (map (\<lambda>k. (k, None)) ks) m k = (if k \<in> set ks then None else m k)"
  by (induction ks arbitrary: m) auto

text \<open>The files hold a snapshot in chunks.\<close>

definition holds_chunks :: "(string \<rightharpoonup> string) \<Rightarrow> string list \<Rightarrow> nat \<Rightarrow> nat \<Rightarrow> bool" where
  "holds_chunks m cs i t \<longleftrightarrow> m kSnapshotDataKey = None \<and>
     m kSnapshotMetaKey = Some (le_bytes 8 i @ le_bytes 8 t @ le_bytes 4 (length cs)) \<and>
     m kSnapshotHashKey = Some (Sha256Final (hash_chunks Sha256Init cs)) \<and>
     (\<forall>j < length cs. m (chunk_key j) = Some (cs ! j))"

lemma load_chunks_all:
  assumes ld: "leveldb_ok ld content" and c: "\<forall>j < n. content d (chunk_key j) = Some (cs ! j)" and n: "n = length cs" "n < U32"
  shows "i \<le> n \<Longrightarrow> n - i < rounds \<Longrightarrow>
    load_chunks ld d (Some n) rounds i ctx got = Some (None, hash_chunks ctx (drop i cs), got @ drop i cs)"
proof (induction rounds arbitrary: i ctx got)
  case (Suc rounds)
  show ?case
  proof (cases "i < n")
    case True
    have "ld_get ld d (chunk_key i) = Found (cs ! i)" using c True by (intro ldb_found [OF ld]) simp
    moreover have "u32_add i 1 = Suc i" using True n by (simp add: u32_add_eq)
    moreover have "drop i cs = cs ! i # drop (Suc i) cs" using True n by (simp add: Cons_nth_drop_Suc)
    ultimately show ?thesis using True Suc by (simp add: load_chunks.simps)
  next
    case False
    then show ?thesis using Suc.prems n by (simp add: load_chunks.simps)
  qed
qed simp

lemma load_stream_chunks:
  assumes ld: "leveldb_ok ld content" and h: "holds_chunks (content (sp_files s)) cs i t" and s: "sp_db s"
    and fits: "length cs < U32" "i < U64" "t < U64"
  shows "LoadSnapshotStream_sp ld s old = Some (OK, cs, i, t)" and "HasSnapshot_sp ld s"
proof -
  let ?d = "sp_files s" and ?meta = "le_bytes 8 i @ le_bytes 8 t @ le_bytes 4 (length cs)"
  obtain e where g: "ld_get ld ?d kSnapshotDataKey = NotFound e"
    using h unfolding holds_chunks_def by (metis ldb_not_found [OF ld])
  have g': "ld_get ld ?d kSnapshotMetaKey = Found ?meta"
    "ld_get ld ?d kSnapshotHashKey = Found (Sha256Final (hash_chunks Sha256Init cs))"
    using h unfolding holds_chunks_def by (simp_all add: ldb_found [OF ld])
  have m: "length ?meta = 20" "le_read (take 8 ?meta) = i" "le_read (take 8 (drop 8 ?meta)) = t" "le_read (drop 16 ?meta) = length cs"
    using fits by (simp_all add: U64_def U32_def)
  have l: "load_chunks ld ?d (Some (length cs)) (Suc U32) 0 Sha256Init [] = Some (None, hash_chunks Sha256Init cs, cs)"
    using load_chunks_all [OF ld, of "length cs" ?d cs 0 "Suc U32" Sha256Init "[]"] h fits by (simp add: holds_chunks_def)
  show "LoadSnapshotStream_sp ld s old = Some (OK, cs, i, t)"
    unfolding LoadSnapshotStream_sp_def Let_def g g' ldb_result.case m using s l by simp
  show "HasSnapshot_sp ld s" using s g g' by (simp add: HasSnapshot_sp_def)
qed

lemma non_empty_chunks:
  assumes "concat chunks \<noteq> []" and "length chunks < U32"
  shows "filter (\<lambda>c. c \<noteq> []) chunks \<noteq> [] \<and> length (filter (\<lambda>c. c \<noteq> []) chunks) < U32"
  using assms le_less_trans [OF length_filter_le [of "\<lambda>c. c \<noteq> []" chunks] assms(2)] by (auto simp: filter_empty_conv)

lemma starts_withE:
  assumes "starts_with p k"
  obtains r where "k = p @ r"
  using assms unfolding starts_with_def by (metis append_take_drop_id)

lemma state_key_apart:
  assumes "starts_with ''state:'' k"
  shows "\<not> starts_with kSnapshotTmpChunkPrefix k \<and> \<not> starts_with kSnapshotChunkPrefix k \<and>
    k \<noteq> kSnapshotDataKey \<and> k \<noteq> kSnapshotMetaKey \<and> k \<noteq> kSnapshotHashKey"
proof -
  obtain r where k: "k = ''state:'' @ r" using assms by (rule starts_withE)
  show ?thesis by (simp add: k snapshot_keys)
qed

lemma snapshot_key_apart:
  assumes "snapshot_key k"
  shows "\<not> starts_with kSnapshotTmpChunkPrefix k"
proof (cases "starts_with kSnapshotChunkPrefix k")
  case True
  then obtain r where k: "k = kSnapshotChunkPrefix @ r" by (rule starts_withE)
  show ?thesis by (simp add: k snapshot_keys)
next
  case False
  then show ?thesis using assms by (auto simp: snapshot_key_def)
qed

lemma save_stream_holds:
  assumes ld: "leveldb_ok ld content" and sv: "SaveSnapshotStream_sp ld (chunks, None) i t s = (OK, s')"
    and cs: "cs = filter (\<lambda>c. c \<noteq> []) chunks" "cs \<noteq> []" "length cs < U32"
  shows "holds_chunks (content (sp_files s')) cs i t" and "sp_db s'"
    and "\<And>k. starts_with ''state:'' k \<Longrightarrow> content (sp_files s') k = content (sp_files s) k"
proof -
  define d0 where "d0 = DeleteSnapshotTempDataLocked ld (sp_files s)"
  obtain r d1 where r: "store_chunks ld chunks 0 Sha256Init d0 = (r, d1)" by (cases "store_chunks ld chunks 0 Sha256Init d0")
  have s: "sp_db s" using sv by (auto simp: SaveSnapshotStream_sp_def split: if_splits)
  obtain n ctx where nc: "r = Inr (n, ctx)" using sv s r by (auto simp: SaveSnapshotStream_sp_def Let_def simp flip: d0_def split: sum.splits)
  have st: "n = length cs" "ctx = hash_chunks Sha256Init cs" "\<forall>j < length cs. content d1 (tmp_chunk_key j) = Some (cs ! j)"
    using store_chunks_ok [OF ld, of chunks 0 Sha256Init d0 n ctx d1 cs] r nc cs by simp_all
  define moves where "moves = concat (map (\<lambda>j. [(chunk_key j, Some (cs ! j)), (tmp_chunk_key j, None)]) [0..<n])"
  have mv: "move_chunks ld d1 [0..<n] = Inr moves"
    unfolding moves_def by (rule move_chunks_ok [OF ld]) (use st in auto)
  define b where "b = DeleteSnapshotDataLocked ld d1 @ (kSnapshotMetaKey, Some (le_bytes 8 i @ le_bytes 8 t @ le_bytes 4 n)) #
      (kSnapshotHashKey, Some (Sha256Final ctx)) # moves"
  have "n \<noteq> 0" using st(1) cs(2) by simp
  then obtain d2 where d2: "ld_write ld b d1 = (None, d2)"
      and s': "s' = s\<lparr>sp_files := d2, sp_snapshot_last_index := i, sp_snapshot_last_term := t\<rparr>"
    using sv s r nc mv unfolding SaveSnapshotStream_sp_def Let_def
    by (auto simp flip: d0_def b_def split: prod.splits option.splits)
  have c: "content (sp_files s') = apply_batch b (content d1)" using ldb_write [OF ld d2] by (simp add: s')
  show "sp_db s'" using s by (simp add: s')
  have fixed: "content (sp_files s') k = apply_batch [(kSnapshotMetaKey, Some (le_bytes 8 i @ le_bytes 8 t @ le_bytes 4 n)),
      (kSnapshotHashKey, Some (Sha256Final ctx))] (apply_batch (DeleteSnapshotDataLocked ld d1) (content d1)) k"
    if "k \<in> {kSnapshotDataKey, kSnapshotMetaKey, kSnapshotHashKey}" for k
    unfolding c b_def moves_def using apply_moves_fixed [OF that] by simp
  have "content (sp_files s') (chunk_key j) = Some (cs ! j)" if "j < length cs" for j
    unfolding c b_def moves_def using that st(1) by (simp add: apply_moves)
  then show "holds_chunks (content (sp_files s')) cs i t"
    using fixed [of kSnapshotDataKey] fixed [of kSnapshotMetaKey] fixed [of kSnapshotHashKey] st prefix_keys_all [OF ld, of kSnapshotChunkPrefix d1]
    by (simp add: holds_chunks_def DeleteSnapshotDataLocked_def apply_deletes)
  show "content (sp_files s') k = content (sp_files s) k" if "starts_with ''state:'' k" for k
  proof -
    have k: "\<not> starts_with kSnapshotTmpChunkPrefix k" "\<not> starts_with kSnapshotChunkPrefix k"
        "k \<noteq> kSnapshotDataKey" "k \<noteq> kSnapshotMetaKey" "k \<noteq> kSnapshotHashKey"
      using state_key_apart [OF that] by simp_all
    then have "k \<notin> fst ` set b"
      using prefix_keys_all [OF ld, of kSnapshotChunkPrefix d1] by (auto simp: b_def moves_def DeleteSnapshotDataLocked_def)
    then have "content (sp_files s') k = content d1 k" unfolding c by (rule apply_batch_other)
    then show ?thesis
      using store_chunks_other [OF ld k(1), of chunks 0 Sha256Init d0] delete_temp_other [OF ld k(1)] r by (simp add: d0_def)
  qed
qed

section \<open>What the persister guarantees\<close>

text \<open>
  The term, the vote and the membership survive a restart: after a successful \<open>SaveState_sp\<close>, and even when a snapshot is
  saved after it, closing the database and opening it again gives exactly the saved state.
\<close>

theorem saved_state_survives:
  assumes ld: "leveldb_ok ld content" and lib: "parses_back lib (cluster_json p)" and p: "state_fits p"
    and s: "SaveState_sp ld lib p s = (OK, s1)"
    and s2: "s2 = s1 \<or> SaveSnapshotStream_sp ld (chunks, None) i t s1 = (OK, s2) \<and> concat chunks \<noteq> [] \<and> length chunks < U32"
    and o: "ld_open ld (sp_files s2) = None"
  shows "\<exists>s3. Open_sp ld lib (Close_sp s2) = (OK, s3) \<and> LoadState_sp s3 = Inr p"
proof -
  let ?cs = "filter (\<lambda>c. c \<noteq> []) chunks"
  note h = save_state_holds [OF ld s]
  have "holds_state lib (content (sp_files s2)) p"
  proof (cases "s2 = s1")
    case False
    then have w: "SaveSnapshotStream_sp ld (chunks, None) i t s1 = (OK, s2)" "concat chunks \<noteq> []" "length chunks < U32"
      using s2 by auto
    then have "?cs \<noteq> []" "length ?cs < U32" using non_empty_chunks [of chunks] by simp_all
    from save_stream_holds(3) [OF ld w(1) refl this] h(1) show ?thesis by (simp add: holds_state_def state_keys)
  qed (use h(1) in simp)
  then have "holds_state lib (content (sp_files (Close_sp s2))) p" by (simp add: Close_sp_def)
  from open_loads_state [OF ld lib p this] o show ?thesis by (auto simp: Close_sp_def)
qed

text \<open>
  C21: A snapshot saved in chunks is there afterwards and is read back, also by a process that opens the database later: the
  non-empty chunks in their order, and the index and the term it was saved with.
\<close>

theorem snapshot_stream_roundtrip:
  assumes ld: "leveldb_ok ld content" and sv: "SaveSnapshotStream_sp ld (chunks, None) i t s = (OK, s')"
    and "concat chunks \<noteq> []" and "length chunks < U32" and "i < U64" and "t < U64"
    and o: "ld_open ld (sp_files s') = None"
  shows "LoadSnapshotStream_sp ld s' old = Some (OK, filter (\<lambda>c. c \<noteq> []) chunks, i, t) \<and> HasSnapshot_sp ld s' \<and>
    (\<exists>s2. Open_sp ld lib (Close_sp s') = (OK, s2) \<and>
       LoadSnapshotStream_sp ld s2 old = Some (OK, filter (\<lambda>c. c \<noteq> []) chunks, i, t) \<and> HasSnapshot_sp ld s2)"
proof -
  let ?cs = "filter (\<lambda>c. c \<noteq> []) chunks"
  have cs: "?cs \<noteq> []" "length ?cs < U32"
    using non_empty_chunks [OF assms(3,4)] by simp_all
  note h = save_stream_holds [OF ld sv refl cs]
  note now = load_stream_chunks [OF ld h(1,2) cs(2) assms(5,6)]
  obtain s2 where s2: "Open_sp ld lib (Close_sp s') = (OK, s2)" "sp_files s2 = sp_files s'" "sp_db s2"
    using o by (simp add: Open_sp_def Close_sp_def LoadStateFromDB_def Let_def)
  have "holds_chunks (content (sp_files s2)) ?cs i t" using h(1) s2(2) by simp
  from now load_stream_chunks [OF ld this s2(3) cs(2) assms(5,6)] s2(1) show ?thesis by blast
qed

text \<open>
  C22: Saving a snapshot is atomic: when \<open>SaveSnapshotStream_sp\<close> fails, because a write fails or the provider throws, the
  snapshot stored before is loaded as it was, and the state in memory is untouched.
\<close>

theorem failed_save_keeps_snapshot:
  assumes ld: "leveldb_ok ld content" and f: "SaveSnapshotStream_sp ld provider i t s = (st, s')" "\<not> ok st"
  shows "LoadSnapshotStream_sp ld s' old = LoadSnapshotStream_sp ld s old \<and> LoadState_sp s' = LoadState_sp s"
proof -
  note c = failed_stream_content [OF ld f]
  have k: "content (sp_files s') k = content (sp_files s) k" if "snapshot_key k" for k
    using c [OF snapshot_key_apart [OF that]] by blast
  have "\<not> starts_with kSnapshotTmpChunkPrefix []" by (simp add: snapshot_keys)
  then have m: "sp_db s' = sp_db s" "sp_cached_state s' = sp_cached_state s" using c by blast+
  have "LoadSnapshotStream_sp ld s' old = LoadSnapshotStream_sp ld s old" by (rule load_stream_same [OF ld k m(1)])
  moreover have "LoadState_sp s' = LoadState_sp s" using m by (simp add: LoadState_sp_def)
  ultimately show ?thesis ..
qed

text \<open>
  A snapshot saved in chunks cannot be loaded with \<open>LoadSnapshot_sp\<close>, which reports that there is none; and after
  opening the database again its index is reported as 0.
\<close>

lemma chunked_snapshot_not_loaded:
  assumes ld: "leveldb_ok ld content" and sv: "SaveSnapshotStream_sp ld (chunks, None) i t s = (OK, s')"
    and "concat chunks \<noteq> []" and "length chunks < U32"
  shows "LoadSnapshot_sp ld s' old = (Error ''No snapshot available'' [], old)"
    and "Open_sp ld lib (new_state_persister (sp_files s')) = (OK, s2) \<Longrightarrow> GetSnapshotLastIndex s2 = 0"
proof -
  let ?cs = "filter (\<lambda>c. c \<noteq> []) chunks"
  have cs: "?cs \<noteq> []" "length ?cs < U32"
    using non_empty_chunks [OF assms(3,4)] by simp_all
  note h = save_stream_holds [OF ld sv refl cs]
  obtain e where "ld_get ld (sp_files s') kSnapshotDataKey = NotFound e"
    using h(1) unfolding holds_chunks_def by (metis ldb_not_found [OF ld])
  then show "LoadSnapshot_sp ld s' old = (Error ''No snapshot available'' [], old)"
    using h(2) by (simp add: LoadSnapshot_sp_def split: prod.split)
  show "GetSnapshotLastIndex s2 = 0" if "Open_sp ld lib (new_state_persister (sp_files s')) = (OK, s2)"
    using that by (auto simp: Open_sp_def new_state_persister_def GetSnapshotLastIndex_def LoadStateFromDB_def Let_def split: option.splits)
qed

section \<open>An example\<close>

text \<open>A database whose files are an association list and whose writes succeed.\<close>

definition ex_write :: "batch \<Rightarrow> (string \<times> string) list \<Rightarrow> (string \<times> string) list" where
  "ex_write b d = foldl (\<lambda>d (k, v). case v of None \<Rightarrow> AList.delete k d | Some x \<Rightarrow> AList.update k x d) d b"

definition ex_ldb :: "(string \<times> string) list LevelDB" where
  "ex_ldb = \<lparr>ld_open = (\<lambda>_. None), ld_get = (\<lambda>d k. case map_of d k of None \<Rightarrow> NotFound ''NotFound'' | Some v \<Rightarrow> Found v),
     ld_write = (\<lambda>b d. (None, ex_write b d)), ld_scan = (\<lambda>d p. sort (filter (\<lambda>k. p \<le> k) (keys d)))\<rparr>"

definition ex_saved :: PersistentState where
  "ex_saved = \<lparr>ps_current_term = 2, ps_voted_for = 3, ps_cluster_nodes = [1, 2, 3], ps_cluster_old_nodes = [],
     ps_cluster_learners = [4], ps_cluster_version = 5, ps_cluster_is_joint = False\<rparr>"

definition ex_state_lib :: StateLib where
  "ex_state_lib = \<lparr>st_parse = (\<lambda>_. Inr (cluster_json ex_saved)), st_dump = (\<lambda>_. ''{...}'')\<rparr>"

definition ex_sp :: "(string \<times> string) list StatePersister" where
  "ex_sp = (new_state_persister [])\<lparr>sp_db := True\<rparr>"

lemma ex_write_content: "map_of (ex_write b d) = apply_batch b (map_of d)"
proof (induction b arbitrary: d)
  case (Cons w b)
  obtain k v where w: "w = (k, v)" by (cases w)
  have "ex_write (w # b) d = ex_write b (ex_write [w] d)" by (simp add: ex_write_def)
  moreover have "map_of (ex_write [w] d) = (map_of d)(k := v)"
    by (cases v) (auto simp: ex_write_def w map_of_update map_of_delete fun_eq_iff)
  ultimately show ?case by (simp only: Cons.IH w apply_batch_simps)
qed (simp add: ex_write_def)

lemma ex_ldb_ok: "leveldb_ok ex_ldb map_of"
  unfolding leveldb_ok_def
  by (simp add: ex_ldb_def ex_write_content sorted_sort dom_map_of_conv_image_fst)

lemma ex_fits_state: "state_fits ex_saved" "parses_back ex_state_lib (cluster_json ex_saved)"
  by (simp_all add: state_fits_def ex_saved_def U32_def U64_def is_i32_def parses_back_def ex_state_lib_def)

lemma ex_save_state: "\<exists>s1. SaveState_sp ex_ldb ex_state_lib ex_saved ex_sp = (OK, s1)"
  by (simp add: SaveState_sp_def ex_sp_def ex_ldb_def)

theorem saved_state_survives_witness:
  "\<exists>s1 s3. SaveState_sp ex_ldb ex_state_lib ex_saved ex_sp = (OK, s1) \<and>
     Open_sp ex_ldb ex_state_lib (Close_sp s1) = (OK, s3) \<and> LoadState_sp s3 = Inr ex_saved"
proof -
  obtain s1 where s1: "SaveState_sp ex_ldb ex_state_lib ex_saved ex_sp = (OK, s1)" using ex_save_state by blast
  have "ld_open ex_ldb (sp_files s1) = None" by (simp add: ex_ldb_def)
  then show ?thesis using saved_state_survives [OF ex_ldb_ok ex_fits_state(2,1) s1, of s1] s1 by blast
qed

lemma ex_save_stream: "\<exists>s1. SaveSnapshotStream_sp ex_ldb ([''ab'', [], ''c''], None) 7 2 ex_sp = (OK, s1)"
  by (simp add: SaveSnapshotStream_sp_def DeleteSnapshotTempDataLocked_def DeleteSnapshotDataLocked_def prefix_keys_def
      ex_sp_def new_state_persister_def delete_keys_def ldb_put_def u32_add_def U32_def ex_ldb_def ex_write_def Let_def)

theorem snapshot_stream_roundtrip_witness:
  "\<exists>s1. SaveSnapshotStream_sp ex_ldb ([''ab'', [], ''c''], None) 7 2 ex_sp = (OK, s1) \<and>
     LoadSnapshotStream_sp ex_ldb s1 (0, 0) = Some (OK, [''ab'', ''c''], 7, 2)"
proof -
  obtain s1 where s1: "SaveSnapshotStream_sp ex_ldb ([''ab'', [], ''c''], None) 7 2 ex_sp = (OK, s1)" using ex_save_stream by blast
  have "ld_open ex_ldb (sp_files s1) = None" by (simp add: ex_ldb_def)
  then show ?thesis
    using snapshot_stream_roundtrip [OF ex_ldb_ok s1, of "(0, 0)"] s1 by (simp add: U32_def U64_def)
qed

theorem failed_save_keeps_snapshot_witness:
  "\<exists>s1 s2. SaveSnapshotStream_sp ex_ldb ([''ab'', [], ''c''], None) 7 2 ex_sp = (OK, s1) \<and>
     fst (SaveSnapshotStream_sp ex_ldb ([''new''], Some ''boom'') 9 2 s1) =
       Error ''Snapshot chunk provider failed: boom'' [] \<and>
     snd (SaveSnapshotStream_sp ex_ldb ([''new''], Some ''boom'') 9 2 s1) = s2 \<and>
     LoadSnapshotStream_sp ex_ldb s2 (0, 0) = Some (OK, [''ab'', ''c''], 7, 2)"
proof -
  obtain s1 where s1: "SaveSnapshotStream_sp ex_ldb ([''ab'', [], ''c''], None) 7 2 ex_sp = (OK, s1)" using ex_save_stream by blast
  note h = save_stream_holds [OF ex_ldb_ok s1 refl]
  have l: "LoadSnapshotStream_sp ex_ldb s1 (0, 0) = Some (OK, [''ab'', ''c''], 7, 2)"
    using load_stream_chunks(1) [OF ex_ldb_ok h(1,2)] by (simp add: U32_def U64_def)
  define s2 where "s2 = snd (SaveSnapshotStream_sp ex_ldb ([''new''], Some ''boom'') 9 2 s1)"
  have f: "SaveSnapshotStream_sp ex_ldb ([''new''], Some ''boom'') 9 2 s1 =
      (Error ''Snapshot chunk provider failed: boom'' [], s2)"
    using h(2) by (simp add: s2_def SaveSnapshotStream_sp_def ldb_put_def ex_ldb_def Let_def U32_def)
  then show ?thesis
    using failed_save_keeps_snapshot [OF ex_ldb_ok f, of "(0, 0)"] l s1 by simp
qed

end
