(* ===== verification/Hybrid_Persister.thy ===== *)
theory Hybrid_Persister
  imports Persister_Api Wal_Recovery State_Persister
begin

text \<open>
  The default persister: \<open>HybridPersister\<close> of \<open>include/rollingraft/hybrid_persister.h\<close> and \<open>src/hybrid_persister.cpp\<close>,
  the write-ahead log for the entries and the state persister for the rest, behind the interface \<open>Persister\<close>. Its
  lock makes every operation atomic.
\<close>

section \<open>Operations\<close>

record 'd HybridPersister =
  hy_wal :: WALPersister
  hy_state :: "'d StatePersister"
  hy_opened :: bool
  hy_data_dir :: string

definition new_hybrid :: "(string \<times> string) list \<Rightarrow> 'd \<Rightarrow> 'd HybridPersister" where
  "new_hybrid files d = \<lparr>hy_wal = new_wal files, hy_state = new_state_persister d, hy_opened = False, hy_data_dir = []\<rparr>"

definition not_open :: Status where
  "not_open = Error ''HybridPersister not open'' []"

text \<open>The operations of one part, refused when the persister is not open.\<close>

definition on_wal :: "(WALPersister \<Rightarrow> Status \<times> WALPersister) \<Rightarrow> 'd HybridPersister \<Rightarrow> Status \<times> 'd HybridPersister" where
  "on_wal f h = (if \<not> hy_opened h then (not_open, h) else map_prod id (\<lambda>w. h\<lparr>hy_wal := w\<rparr>) (f (hy_wal h)))"

definition on_state ::
  "('d StatePersister \<Rightarrow> Status \<times> 'd StatePersister) \<Rightarrow> 'd HybridPersister \<Rightarrow> Status \<times> 'd HybridPersister" where
  "on_state f h = (if \<not> hy_opened h then (not_open, h) else map_prod id (\<lambda>s. h\<lparr>hy_state := s\<rparr>) (f (hy_state h)))"

definition SetSyncOnWrite_hy :: "bool \<Rightarrow> 'd HybridPersister \<Rightarrow> 'd HybridPersister" where
  "SetSyncOnWrite_hy sync h = h\<lparr>hy_state := SetSyncOnWrite sync (hy_state h)\<rparr>"

definition SetCompressionType_hy :: "bool \<Rightarrow> 'd HybridPersister \<Rightarrow> 'd HybridPersister" where
  "SetCompressionType_hy snappy h = h\<lparr>hy_state := SetCompressionType snappy (hy_state h)\<rparr>"

text \<open>
  \<open>mkdir\<close> is the error of \<open>create_directories\<close>, if it fails. The comparison of the log with the snapshot only logs.
\<close>

definition Open_hy ::
  "WalLib \<Rightarrow> WalIO \<Rightarrow> 'd LevelDB \<Rightarrow> StateLib \<Rightarrow> string option \<Rightarrow> string \<Rightarrow> 'd HybridPersister \<Rightarrow> Status \<times> 'd HybridPersister" where
  "Open_hy lib io ld slib mkdir dir h =
     (if hy_opened h then (Error ''HybridPersister already open'' [], h)
      else let h0 = h\<lparr>hy_data_dir := dir\<rparr> in
           case mkdir of
             Some msg \<Rightarrow> (Error (''Failed to create wal directory: '' @ msg) [], h0)
           | None \<Rightarrow>
             (case Open_wal lib io (dir @ ''/wal'') (hy_wal h0) of (st, w) \<Rightarrow>
                if \<not> ok st then (st, h0\<lparr>hy_wal := w\<rparr>)
                else case Open_sp ld slib (hy_state h0) of (st, s) \<Rightarrow>
                       if \<not> ok st then (st, h0\<lparr>hy_wal := Close_wal io w, hy_state := s\<rparr>)
                       else (OK, h0\<lparr>hy_wal := w, hy_state := s, hy_opened := True\<rparr>)))"

definition Close_hy :: "WalIO \<Rightarrow> 'd HybridPersister \<Rightarrow> 'd HybridPersister" where
  "Close_hy io h = h\<lparr>hy_wal := Close_wal io (hy_wal h), hy_state := Close_sp (hy_state h), hy_opened := False, hy_data_dir := []\<rparr>"

definition SaveState_hy :: "'d LevelDB \<Rightarrow> StateLib \<Rightarrow> PersistentState \<Rightarrow> 'd HybridPersister \<Rightarrow> Status \<times> 'd HybridPersister" where
  "SaveState_hy ld slib p = on_state (SaveState_sp ld slib p)"

definition LoadState_hy :: "'d HybridPersister \<Rightarrow> Status + PersistentState" where
  "LoadState_hy h = (if \<not> hy_opened h then Inl not_open else LoadState_sp (hy_state h))"

text \<open>The loop of \<open>AppendEntries\<close> stops at the first entry that cannot be appended.\<close>

fun append_all_wal :: "WalLib \<Rightarrow> WalIO \<Rightarrow> RaftLogEntry list \<Rightarrow> WALPersister \<Rightarrow> Status \<times> WALPersister" where
  "append_all_wal lib io [] w = (OK, w)"
| "append_all_wal lib io (e # es) w = and_then (AppendLogEntry_wal lib io e w) (append_all_wal lib io es)"

definition AppendEntries_hy :: "WalLib \<Rightarrow> WalIO \<Rightarrow> RaftLogEntry list \<Rightarrow> 'd HybridPersister \<Rightarrow> Status \<times> 'd HybridPersister" where
  "AppendEntries_hy lib io es = on_wal (append_all_wal lib io es)"

definition Sync_hy :: "WalIO \<Rightarrow> 'd HybridPersister \<Rightarrow> Status \<times> 'd HybridPersister" where
  "Sync_hy io = on_wal (Sync_wal io)"

definition GetEntries_hy ::
  "WalLib \<Rightarrow> WalIO \<Rightarrow> nat \<Rightarrow> nat \<Rightarrow> 'd HybridPersister \<Rightarrow> (Status \<times> RaftLogEntry list) \<times> 'd HybridPersister" where
  "GetEntries_hy lib io start stop h =
     (if \<not> hy_opened h then ((not_open, []), h)
      else map_prod id (\<lambda>w. h\<lparr>hy_wal := w\<rparr>) (GetEntries_wal lib io start stop (hy_wal h)))"

definition GetEntry_hy :: "WalLib \<Rightarrow> WalIO \<Rightarrow> nat \<Rightarrow> 'd HybridPersister \<Rightarrow> (Status + RaftLogEntry) \<times> 'd HybridPersister" where
  "GetEntry_hy lib io index h =
     (if \<not> hy_opened h then (Inl not_open, h)
      else map_prod id (\<lambda>w. h\<lparr>hy_wal := w\<rparr>) (GetEntry_wal lib io index (hy_wal h)))"

definition TruncateSuffix_hy :: "WalLib \<Rightarrow> WalIO \<Rightarrow> nat \<Rightarrow> 'd HybridPersister \<Rightarrow> Status \<times> 'd HybridPersister" where
  "TruncateSuffix_hy lib io from_index =
     on_wal (\<lambda>w. if snd (GetLogRange w) < from_index then (OK, w) else AppendTruncateSuffix lib io from_index w)"

definition TruncatePrefix_hy :: "WalLib \<Rightarrow> WalIO \<Rightarrow> nat \<Rightarrow> 'd HybridPersister \<Rightarrow> Status \<times> 'd HybridPersister" where
  "TruncatePrefix_hy lib io before_index =
     on_wal (\<lambda>w. if before_index \<le> 1 then (OK, w) else AppendTruncatePrefix lib io before_index w)"

definition GetLastLogInfo_hy :: "WalLib \<Rightarrow> WalIO \<Rightarrow> 'd HybridPersister \<Rightarrow> (nat \<times> nat) \<times> 'd HybridPersister" where
  "GetLastLogInfo_hy lib io h =
     (if \<not> hy_opened h then ((0, 0), h)
      else let last_index = snd (GetLogRange (hy_wal h)) in
           if last_index = 0 then ((0, 0), h)
           else case GetEntry_wal lib io last_index (hy_wal h) of
                  (Inl _, w) \<Rightarrow> ((0, 0), h\<lparr>hy_wal := w\<rparr>)
                | (Inr e, w) \<Rightarrow> ((last_index, e_term e), h\<lparr>hy_wal := w\<rparr>))"

definition SaveSnapshot_hy :: "'d LevelDB \<Rightarrow> string \<Rightarrow> nat \<Rightarrow> nat \<Rightarrow> 'd HybridPersister \<Rightarrow> Status \<times> 'd HybridPersister" where
  "SaveSnapshot_hy ld data last_index last_term = on_state (SaveSnapshot_sp ld data last_index last_term)"

definition LoadSnapshot_hy ::
  "'d LevelDB \<Rightarrow> 'd HybridPersister \<Rightarrow> string \<times> nat \<times> nat \<Rightarrow> Status \<times> string \<times> nat \<times> nat" where
  "LoadSnapshot_hy ld h old = (if \<not> hy_opened h then (not_open, old) else LoadSnapshot_sp ld (hy_state h) old)"

definition SaveSnapshotStream_hy ::
  "'d LevelDB \<Rightarrow> string list \<times> string option \<Rightarrow> nat \<Rightarrow> nat \<Rightarrow> 'd HybridPersister \<Rightarrow> Status \<times> 'd HybridPersister" where
  "SaveSnapshotStream_hy ld provider last_index last_term = on_state (SaveSnapshotStream_sp ld provider last_index last_term)"

definition LoadSnapshotStream_hy ::
  "'d LevelDB \<Rightarrow> 'd HybridPersister \<Rightarrow> nat \<times> nat \<Rightarrow> (Status \<times> string list \<times> nat \<times> nat) option" where
  "LoadSnapshotStream_hy ld h old =
     (if \<not> hy_opened h then Some (not_open, [], old) else LoadSnapshotStream_sp ld (hy_state h) old)"

definition HasSnapshot_hy :: "'d LevelDB \<Rightarrow> 'd HybridPersister \<Rightarrow> bool" where
  "HasSnapshot_hy ld h = (if \<not> hy_opened h then False else HasSnapshot_sp ld (hy_state h))"

text \<open>The log operations as an implementation of the interface.\<close>

definition hybrid_ops :: "WalLib \<Rightarrow> WalIO \<Rightarrow> 'd HybridPersister Persister" where
  "hybrid_ops lib io = \<lparr>p_append = AppendEntries_hy lib io, p_sync = Sync_hy io, p_get_entries = GetEntries_hy lib io,
     p_truncate_suffix = TruncateSuffix_hy lib io, p_truncate_prefix = TruncatePrefix_hy lib io,
     p_last_log_info = GetLastLogInfo_hy lib io, p_set_sync_on_write = SetSyncOnWrite_hy\<rparr>"

section \<open>How many segments an operation adds\<close>

lemma seg_ids:
  "FlushWriteBufferLocked io w = (st, w') \<Longrightarrow> seg_id (w_active w') = seg_id (w_active w)"
  "CreateSegment lib io i w = (st, w') \<Longrightarrow> seg_id (w_active w') = i \<or> w_active w' = w_active w"
  "GetCachedSegmentFd io i w = (st, w') \<Longrightarrow> w_active w' = w_active w"
  using flush_keeps
  by (blast, auto simp: CreateSegment_def SaveMeta_def put_file_def unlink_def GetCachedSegmentFd_def OpenSegment_def
      and_then_def Let_def split: if_splits prod.splits option.splits)

lemma rotate_seg:
  assumes "RotateSegmentIfNeeded lib io w = (st, w')" and "ok st" and "Suc (seg_id (w_active w)) < U64"
  shows "seg_id (w_active w') \<le> Suc (seg_id (w_active w))"
  using assms
  by (auto simp: RotateSegmentIfNeeded_def and_then_def u64_add_def dest!: seg_ids(1,2) split: if_splits prod.splits)

lemma append_record_seg:
  assumes "fst (AppendRecordToBufferLocked io r w) = (st, w')"
  shows "seg_id (w_active w') = seg_id (w_active w)"
  using assms seg_ids(1) [of io "w\<lparr>w_buf := w_buf w @ record_bytes r\<rparr>"]
  by (auto simp: AppendRecordToBufferLocked_def Let_def split: if_splits)

lemma append_seg:
  assumes "Suc (seg_id (w_active w)) < U64" and "ok st"
  shows "AppendLogEntry_wal lib io e w = (st, w') \<Longrightarrow> seg_id (w_active w') \<le> Suc (seg_id (w_active w))"
    and "AppendTruncatePrefix lib io b w = (st, w') \<Longrightarrow> seg_id (w_active w') \<le> Suc (seg_id (w_active w))"
    and "AppendTruncateSuffix lib io b w = (st, w') \<Longrightarrow> seg_id (w_active w') \<le> Suc (seg_id (w_active w))"
proof -
  have n: "seg_id (w_active w2) \<le> Suc (seg_id (w_active w))"
    if "RotateSegmentIfNeeded lib io w = (st1, w1)" "ok st1" "fst (AppendRecordToBufferLocked io r w1) = (st2, w2)"
    for r w1 w2 st1 st2
    using rotate_seg [OF that(1,2) assms(1)] append_record_seg [OF that(3)] by simp
  have n': "seg_id (w_active w2) \<le> Suc (seg_id (w_active w))"
    if "RotateSegmentIfNeeded lib io w = (st1, w1)" "ok st1" "AppendRecordToBufferLocked io r w1 = ((st2, w2), p)"
    for r w1 w2 p st1 st2
    by (rule n [OF that(1,2), of r st2]) (simp add: that(3))
  show "AppendLogEntry_wal lib io e w = (st, w') \<Longrightarrow> seg_id (w_active w') \<le> Suc (seg_id (w_active w))"
    using assms(2) by (auto simp: AppendLogEntry_wal_def and_then_def dest: n' split: if_splits prod.splits option.splits)
  show "AppendTruncatePrefix lib io b w = (st, w') \<Longrightarrow> seg_id (w_active w') \<le> Suc (seg_id (w_active w))"
    using assms(2) by (auto simp: AppendTruncatePrefix_def and_then_def dest: n split: if_splits prod.splits)
  show "AppendTruncateSuffix lib io b w = (st, w') \<Longrightarrow> seg_id (w_active w') \<le> Suc (seg_id (w_active w))"
    using assms(2) by (auto simp: AppendTruncateSuffix_def and_then_def dest: n split: if_splits prod.splits)
qed

lemma read_seg:
  "GetEntry_wal lib io i w = (x, w') \<Longrightarrow> seg_id (w_active w') = seg_id (w_active w)"
  "ReadLogEntryAt lib io s off w = (x, w') \<Longrightarrow> seg_id (w_active w') = seg_id (w_active w)"
  by (auto simp: GetEntry_wal_def ReadLogEntryAt_def dest!: seg_ids(1,3) split: if_splits prod.splits option.splits)

lemma read_slots_seg: "read_slots lib io es got w = (x, w') \<Longrightarrow> seg_id (w_active w') = seg_id (w_active w)"
  by (induction lib io es got w rule: read_slots.induct) (auto split: if_splits prod.splits sum.splits dest!: read_seg(2))

lemma get_entries_seg: "GetEntries_wal lib io a b w = (x, w') \<Longrightarrow> seg_id (w_active w') = seg_id (w_active w)"
  by (auto simp: GetEntries_wal_def Let_def dest!: seg_ids(1) read_slots_seg split: if_splits prod.splits)

lemma sync_seg: "Sync_wal io w = (st, w') \<Longrightarrow> seg_id (w_active w') = seg_id (w_active w)"
  by (auto simp: Sync_wal_def SyncActiveSegmentLocked_def SaveCheckpointLocked_def and_then_def Let_def put_file_def
      unlink_def dest!: seg_ids(1) split: if_splits prod.splits)

section \<open>Reading ranges\<close>

text \<open>Entries that the write-ahead log takes and gives back as they are.\<close>

definition storable :: "WalLib \<Rightarrow> RaftLogEntry \<Rightarrow> bool" where
  "storable lib e \<longleftrightarrow> entry_fits e \<and> e_checksum e \<noteq> 0 \<and> 1 \<le> e_index e \<and>
     (\<exists>pl. wl_serialize lib (entry_proto e) = Some pl \<and> length pl \<le> kMaxRecordSize)"

lemma read_stored:
  assumes io: "io_fine io" and lib: "wal_lib_ok lib" and w: "wal_shape lib m rss [] w"
    and st: "stored lib rss pos e" and e: "storable lib e"
  shows "\<exists>w'. ReadLogEntryAt lib io (wie_segment_id pos) (wie_file_offset pos) w = (Inr e, w') \<and> wal_shape lib m rss [] w'"
proof -
  have "entry_fits e" "e_checksum e \<noteq> 0" using e by (simp_all add: storable_def)
  with read_at_stored [OF io lib w st] show ?thesis by fastforce
qed

lemma read_slots_stored:
  assumes io: "io_fine io" and lib: "wal_lib_ok lib"
    and "list_all2 (\<lambda>s x. if wie_segment_id s = 0 then x = None else \<exists>e. x = Some e \<and> stored lib rss s e \<and> storable lib e) es xs"
    and "wal_shape lib m rss [] w"
  shows "\<exists>w'. read_slots lib io es got w = ((OK, got @ List.map_filter id xs), w') \<and> wal_shape lib m rss [] w'"
  using assms(3,4)
proof (induction es xs arbitrary: got w rule: list_all2_induct)
  case (Cons s es x xs)
  show ?case
  proof (cases "wie_segment_id s = 0")
    case False
    then obtain e where e: "x = Some e" "stored lib rss s e" "storable lib e" using Cons.hyps(1) by auto
    obtain w1 where "ReadLogEntryAt lib io (wie_segment_id s) (wie_file_offset s) w = (Inr e, w1)" "wal_shape lib m rss [] w1"
      using read_stored [OF io lib Cons.prems e(2,3)] by blast
    then show ?thesis using Cons.IH [of w1 "got @ [e]"] False e(1) by (simp add: List.map_filter_simps)
  qed (use Cons in \<open>simp add: List.map_filter_simps\<close>)
qed (simp add: List.map_filter_simps)

lemma entries_between_none: "(\<And>i. a \<le> i \<Longrightarrow> i < b \<Longrightarrow> m i = None) \<Longrightarrow> entries_between m a b = []"
  by (auto simp: entries_between_def List.map_filter_def filter_empty_conv)

lemma entries_between_slice:
  assumes i: "\<And>i. m i \<noteq> None \<Longrightarrow> a \<le> i \<Longrightarrow> i < b \<Longrightarrow> lo \<le> i \<and> i < hi" and "a \<le> lo" and "hi \<le> b"
  shows "entries_between m a b = entries_between m lo hi"
proof (cases "lo \<le> hi")
  case True
  have "entries_between m a lo = []" "entries_between m hi b = []"
    by (rule entries_between_none, use i assms(2,3) True in fastforce)+
  then show ?thesis
    using entries_between_split [of a lo hi m] entries_between_split [of a hi b m] assms(2,3) True by simp
next
  case False
  have "entries_between m a b = []" by (rule entries_between_none) (use i False in fastforce)
  then show ?thesis using False by simp
qed

lemma get_entries_inv:
  assumes io: "io_fine io" and lib: "wal_lib_ok lib" and w: "wal_inv lib m w"
    and m: "\<And>i e. m i = Some e \<Longrightarrow> storable lib e"
  shows "\<exists>w'. GetEntries_wal lib io a b w = ((OK, entries_between m a b), w') \<and> wal_inv lib m w'"
proof (cases "b \<le> a")
  case False
  obtain rss0 pend0 where w0: "wal_shape lib m rss0 pend0 w" using w unfolding wal_inv_def by blast
  define rss where "rss = with_pending rss0 pend0"
  obtain w1 where w1: "FlushWriteBufferLocked io w = (OK, w1)" "wal_shape lib m rss [] w1"
    using flush_shape [OF io w0] unfolding rss_def by blast
  have inv: "wal_inv lib m w1" using w1(2) unfolding wal_inv_def by blast
  let ?d = "w_index w1"
  have r: "rss \<noteq> []" by (simp add: rss_def with_pending_def)
  have rel: "rel_option (stored lib rss) (di_Get ?d i) (m i)" and ok: "di_ok ?d" for i
    using w1(2) r by (simp_all add: wal_shape_def index_ok_def with_pending_simps)
  have out: "first_index ?d \<le> i \<and> i < first_index ?d + length (slots ?d)" if "m i \<noteq> None" for i
    using rel [of i] that by (auto simp: di_Get_slot split: if_splits)
  show ?thesis
  proof (cases "slots ?d = [] \<or> LastIndex ?d < a \<or> b \<le> first_index ?d")
    case True
    have "entries_between m a b = []"
    proof (rule entries_between_none, rule ccontr)
      fix i assume i: "a \<le> i" "i < b" "m i \<noteq> None"
      then show False using out [OF i(3)] True by (auto simp: LastIndex_def split: if_splits)
    qed
    then show ?thesis using True False w1(1) inv by (simp add: GetEntries_wal_def Let_def)
  next
    case c: False
    define lo hi where "lo = max a (first_index ?d)" and "hi = min b (first_index ?d + length (slots ?d))"
    let ?es = "take (hi - lo) (drop (lo - first_index ?d) (slots ?d))"
    have l: "u64_add (LastIndex ?d) 1 = first_index ?d + length (slots ?d)" using last_plus_1 [OF ok] c by simp
    have "list_all2 (\<lambda>s x. if wie_segment_id s = 0 then x = None else \<exists>e. x = Some e \<and> stored lib rss s e \<and> storable lib e)
        ?es (map m [lo..<hi])"
    proof (rule list_all2_all_nthI)
      show len: "length ?es = length (map m [lo..<hi])" by (auto simp: lo_def hi_def)
      fix k assume "k < length ?es"
      then have k: "k < hi - lo" "lo - first_index ?d + k < length (slots ?d)" by auto
      then have s: "?es ! k = slots ?d ! (lo + k - first_index ?d)" by (simp add: lo_def)
      have "first_index ?d \<le> lo + k" "lo + k < first_index ?d + length (slots ?d)" using k by (auto simp: lo_def hi_def)
      then have "rel_option (stored lib rss) (if wie_segment_id (?es ! k) \<noteq> 0 then Some (?es ! k) else None) (m (lo + k))"
        using rel [of "lo + k"] by (simp add: di_Get_slot s split: if_splits)
      then show "if wie_segment_id (?es ! k) = 0 then map m [lo..<hi] ! k = None
          else \<exists>e. map m [lo..<hi] ! k = Some e \<and> stored lib rss (?es ! k) e \<and> storable lib e"
        using k(1) m by (auto simp: option_rel_Some1 split: if_splits)
    qed
    from read_slots_stored [OF io lib this w1(2), of "[]"] obtain w2 where
      w2: "read_slots lib io ?es [] w1 = ((OK, List.map_filter id (map m [lo..<hi])), w2)" "wal_shape lib m rss [] w2" by auto
    have "List.map_filter id (map m [lo..<hi]) = entries_between m lo hi"
      by (simp add: entries_between_def List.map_filter_def filter_map comp_def)
    moreover have "entries_between m a b = entries_between m lo hi"
      by (rule entries_between_slice) (use out in \<open>fastforce simp: lo_def hi_def\<close>)+
    ultimately show ?thesis
      using False c w1(1) w2 l unfolding wal_inv_def by (auto simp: GetEntries_wal_def Let_def lo_def hi_def)
  qed
qed (use w in \<open>simp add: GetEntries_wal_def\<close>)

section \<open>The contract of the interface\<close>

definition hy_rep :: "WalLib \<Rightarrow> WalIO \<Rightarrow> nat \<Rightarrow> 'd HybridPersister \<Rightarrow> (nat \<rightharpoonup> RaftLogEntry) \<Rightarrow> bool" where
  "hy_rep lib io n h m \<longleftrightarrow> io_fine io \<and> wal_lib_ok lib \<and> hy_opened h \<and> wal_inv lib m (hy_wal h) \<and>
     seg_id (w_active (hy_wal h)) + n < U64 \<and> (\<forall>i e. m i = Some e \<longrightarrow> e_index e = i \<and> storable lib e)"

lemma append_all_wal_inv:
  assumes io: "io_fine io" and lib: "wal_lib_ok lib" and "wal_inv lib m w" and "list_all (storable lib) es"
    and "seg_id (w_active w) + (n + length es) < U64"
  shows "\<exists>w'. append_all_wal lib io es w = (OK, w') \<and> wal_inv lib (put_entries m es) w' \<and> seg_id (w_active w') + n < U64"
  using assms(3-)
proof (induction es arbitrary: m w)
  case (Cons e es)
  obtain pl where pl: "wl_serialize lib (entry_proto e) = Some pl" "length pl \<le> kMaxRecordSize" and i: "e_index e < U32"
    using Cons.prems(2) by (auto simp: storable_def entry_fits_def fits_u32_def U32_def)
  have s: "Suc (seg_id (w_active w)) < U64" using Cons.prems(3) by simp
  obtain w1 where w1: "AppendLogEntry_wal lib io e w = (OK, w1)" "wal_inv lib (m(e_index e \<mapsto> e)) w1"
    using append_entry_inv [OF io lib Cons.prems(1) i pl s] by blast
  have "seg_id (w_active w1) + (n + length es) < U64" using append_seg(1) [OF s ok_OK w1(1)] Cons.prems(3) by simp
  from Cons.IH [OF w1(2) _ this] Cons.prems(2) w1(1) show ?case by (simp add: and_then_def del: fun_upd_apply)
qed simp

lemma put_entries_storable:
  assumes "\<And>i e. m i = Some e \<Longrightarrow> e_index e = i \<and> storable lib e" and "list_all (storable lib) es"
    and "put_entries m es i = Some e"
  shows "e_index e = i \<and> storable lib e"
  using assms
proof (induction es arbitrary: m)
  case (Cons x es)
  have "e_index e = i \<and> storable lib e" if "(m(e_index x \<mapsto> x)) i = Some e" for i e
    using that Cons.prems(1,2) by (auto split: if_splits)
  from Cons.IH [OF this] Cons.prems(2,3) show ?case by (simp del: fun_upd_apply)
qed simp

lemma last_index_bound:
  assumes "wal_inv lib m w" and "snd (GetLogRange w) < i"
  shows "m i = None"
proof -
  obtain rss pend where "wal_shape lib m rss pend w" using assms(1) unfolding wal_inv_def by blast
  then have "rel_option (stored lib (with_pending rss pend)) (di_Get (w_index w) i) (m i)"
    by (simp add: wal_shape_def index_ok_def)
  moreover have "di_Get (w_index w) i = None" using assms(2) by (simp add: GetLogRange_def di_Get_def Let_def)
  ultimately show ?thesis by simp
qed

lemma last_log_info_rep:
  assumes h: "hy_rep lib io n h m"
  shows "\<exists>i t h'. GetLastLogInfo_hy lib io h = ((i, t), h') \<and> hy_rep lib io n h' m \<and>
      (i = 0 \<and> t = 0 \<or> i < U32 \<and> map_option e_term (m i) = Some t \<and> (\<forall>j > i. m j = None))"
proof -
  let ?i = "snd (GetLogRange (hy_wal h))"
  note d = h [unfolded hy_rep_def]
  show ?thesis
  proof (cases "?i = 0")
    case False
    show ?thesis
    proof (cases "m ?i")
      case None
      then obtain w' where w': "GetEntry_wal lib io ?i (hy_wal h) = (Inl (Error ''Entry not found'' []), w')" "wal_inv lib m w'"
        using get_entry_inv(2) [of io lib m "hy_wal h" ?i] d by blast
      then show ?thesis using False d read_seg(1) [OF w'(1)] by (simp add: GetLastLogInfo_hy_def Let_def hy_rep_def)
    next
      case (Some e)
      then have e: "entry_fits e" "e_checksum e \<noteq> 0" "e_index e = ?i" using d by (auto simp: storable_def)
      then obtain w' where w': "GetEntry_wal lib io ?i (hy_wal h) = (Inr e, w')" "wal_inv lib m w'"
        using get_entry_inv(1) [of io lib m "hy_wal h" ?i, OF _ _ _ Some e(1)] d by fastforce
      have "?i < U32" using e(1,3) by (simp add: entry_fits_def fits_u32_def U32_def)
      then show ?thesis
        using False d read_seg(1) [OF w'(1)] w' Some last_index_bound [of lib m "hy_wal h"]
        by (auto simp: GetLastLogInfo_hy_def Let_def hy_rep_def)
    qed
  qed (use d in \<open>simp add: GetLastLogInfo_hy_def hy_rep_def\<close>)
qed

interpretation hybrid: durable_log "hybrid_ops lib io" "storable lib" "hy_rep lib io" for lib io
proof
  fix n :: nat and p :: "'a HybridPersister" and m es a b f sync
  show "\<exists>p'. p_append (hybrid_ops lib io) es p = (OK, p') \<and> hy_rep lib io n p' (put_entries m es)"
    if h: "hy_rep lib io (n + length es) p m" and es: "list_all (storable lib) es"
  proof -
    note d = h [unfolded hy_rep_def]
    obtain w where "append_all_wal lib io es (hy_wal p) = (OK, w)" "wal_inv lib (put_entries m es) w" "seg_id (w_active w) + n < U64"
      using append_all_wal_inv [of io lib m "hy_wal p" es n] d es by auto
    moreover have "put_entries m es i = Some e \<longrightarrow> e_index e = i \<and> storable lib e" for i e
      using put_entries_storable [OF _ es] d by blast
    ultimately show ?thesis using d by (simp add: hybrid_ops_def AppendEntries_hy_def on_wal_def hy_rep_def)
  qed
  show "\<exists>st p'. p_sync (hybrid_ops lib io) p = (st, p') \<and> hy_rep lib io n p' m" if h: "hy_rep lib io n p m"
  proof -
    obtain st w where w: "Sync_wal io (hy_wal p) = (st, w)" by fastforce
    then have "wal_inv lib m w" "seg_id (w_active w) = seg_id (w_active (hy_wal p))"
      using sync_inv [of io lib m "hy_wal p"] sync_seg h by (auto simp: hy_rep_def)
    then show ?thesis using h w by (simp add: hybrid_ops_def Sync_hy_def on_wal_def hy_rep_def)
  qed
  show "\<exists>p'. p_get_entries (hybrid_ops lib io) a b p = ((OK, entries_between m a b), p') \<and> hy_rep lib io n p' m"
    if h: "hy_rep lib io n p m"
  proof -
    obtain w where w: "GetEntries_wal lib io a b (hy_wal p) = ((OK, entries_between m a b), w)" "wal_inv lib m w"
      using get_entries_inv [of io lib m "hy_wal p" a b] h unfolding hy_rep_def by blast
    then show ?thesis using h get_entries_seg [OF w(1)] by (simp add: hybrid_ops_def GetEntries_hy_def hy_rep_def)
  qed
  show "\<exists>i t p'. p_last_log_info (hybrid_ops lib io) p = ((i, t), p') \<and> hy_rep lib io n p' m \<and>
      (i = 0 \<and> t = 0 \<or> i < U32 \<and> map_option e_term (m i) = Some t \<and> (\<forall>j > i. m j = None))" if "hy_rep lib io n p m"
    using last_log_info_rep [OF that] by (simp add: hybrid_ops_def)
  show "\<exists>p'. p_truncate_suffix (hybrid_ops lib io) f p = (OK, p') \<and> hy_rep lib io n p' (m |` {..<f})"
    if h: "hy_rep lib io (Suc n) p m" and f: "f < U64"
  proof (cases "snd (GetLogRange (hy_wal p)) < f")
    case True
    have "m |` {..<f} = m"
      using last_index_bound [of lib m "hy_wal p"] h True by (fastforce simp: hy_rep_def restrict_map_def)
    then show ?thesis using h True by (simp add: hybrid_ops_def TruncateSuffix_hy_def on_wal_def hy_rep_def)
  next
    case False
    have s: "Suc (seg_id (w_active (hy_wal p))) < U64" using h by (simp add: hy_rep_def)
    obtain w where w: "AppendTruncateSuffix lib io f (hy_wal p) = (OK, w)" "wal_inv lib (m |` {..<f}) w"
      using truncate_inv(2) [of io lib m "hy_wal p" f] h f s by (auto simp: hy_rep_def)
    then show ?thesis
      using h False append_seg(3) [OF s ok_OK w(1)]
      by (auto simp: hybrid_ops_def TruncateSuffix_hy_def on_wal_def hy_rep_def restrict_map_def split: if_splits)
  qed
  show "\<exists>p'. p_truncate_prefix (hybrid_ops lib io) b p = (OK, p') \<and> hy_rep lib io n p' (m |` {b..})"
    if h: "hy_rep lib io (Suc n) p m" and b: "b < U64"
  proof (cases "b \<le> 1")
    case True
    have "m |` {b..} = m"
    proof
      fix i show "(m |` {b..}) i = m i" using h True by (cases "m i") (fastforce simp: restrict_map_def hy_rep_def storable_def)+
    qed
    then show ?thesis using h True by (simp add: hybrid_ops_def TruncatePrefix_hy_def on_wal_def hy_rep_def)
  next
    case False
    have s: "Suc (seg_id (w_active (hy_wal p))) < U64" using h by (simp add: hy_rep_def)
    obtain w where w: "AppendTruncatePrefix lib io b (hy_wal p) = (OK, w)" "wal_inv lib (m |` {b..}) w"
      using truncate_inv(1) [of io lib m "hy_wal p" b] h b s by (auto simp: hy_rep_def)
    then show ?thesis
      using h False append_seg(2) [OF s ok_OK w(1)]
      by (auto simp: hybrid_ops_def TruncatePrefix_hy_def on_wal_def hy_rep_def restrict_map_def split: if_splits)
  qed
  show "hy_rep lib io n (p_set_sync_on_write (hybrid_ops lib io) sync p) m" if "hy_rep lib io n p m"
    using that by (simp add: hybrid_ops_def SetSyncOnWrite_hy_def hy_rep_def)
qed

section \<open>Restarts\<close>

text \<open>
  C7: A restart keeps everything: after saving a state and appending entries, closing the persister and opening it again
  gives back exactly the saved state, and range reads return exactly the entries of the log with the new ones.
\<close>

theorem persister_survives_restart:
  assumes h: "hy_rep lib io (length es) h m" and es: "list_all (storable lib) es" and io': "io_fine io'"
    and ld: "leveldb_ok ld content" and slib: "parses_back slib (cluster_json p)" and p: "state_fits p"
    and s: "SaveState_hy ld slib p h = (OK, h1)" and o: "ld_open ld (sp_files (hy_state h1)) = None"
  shows "\<exists>h2 h3. AppendEntries_hy lib io es h1 = (OK, h2) \<and> Open_hy lib io' ld slib None dir (Close_hy io h2) = (OK, h3) \<and>
    LoadState_hy h3 = Inr p \<and> fst (GetEntries_hy lib io' a b h3) = (OK, entries_between (put_entries m es) a b)"
proof -
  have hd: "hy_opened h" "io_fine io" "wal_lib_ok lib" using h by (simp_all add: hy_rep_def)
  obtain s1 where s1: "SaveState_sp ld slib p (hy_state h) = (OK, s1)" and h1: "h1 = h\<lparr>hy_state := s1\<rparr>"
    using s hd(1) by (cases "SaveState_sp ld slib p (hy_state h)") (simp add: SaveState_hy_def on_state_def)
  have "hy_rep lib io (0 + length es) h1 m" using h by (simp add: h1 hy_rep_def)
  from hybrid.append_law [OF this es] obtain h2 where
    h2: "AppendEntries_hy lib io es h1 = (OK, h2)" "hy_rep lib io 0 h2 (put_entries m es)"
    by (auto simp: hybrid_ops_def)
  have st: "hy_state h2 = s1" using h2(1) hd(1)
    by (cases "append_all_wal lib io es (hy_wal h)") (auto simp: AppendEntries_hy_def on_wal_def h1)
  have "wal_inv lib (put_entries m es) (hy_wal h2)" using h2(2) by (simp add: hy_rep_def)
  from wal_restart [OF hd(2) io' this] obtain w where
    w: "Open_wal lib io' (dir @ ''/wal'') (Close_wal io (hy_wal h2)) = (OK, w)" "wal_inv lib (put_entries m es) w" by blast
  have "holds_state slib (content (sp_files (Close_sp s1))) p"
    using save_state_holds(1) [OF ld s1] by (simp add: Close_sp_def)
  from open_loads_state [OF ld slib p this] o obtain s2 where s2: "Open_sp ld slib (Close_sp s1) = (OK, s2)" "LoadState_sp s2 = Inr p"
    by (auto simp: Close_sp_def h1)
  let ?h3 = "(Close_hy io h2)\<lparr>hy_data_dir := dir, hy_wal := w, hy_state := s2, hy_opened := True\<rparr>"
  have o3: "Open_hy lib io' ld slib None dir (Close_hy io h2) = (OK, ?h3)"
    using w(1) s2(1) by (simp add: Open_hy_def Close_hy_def st)
  have e: "storable lib e" if "put_entries m es i = Some e" for i e using h2(2) that by (simp add: hy_rep_def)
  obtain w' where "GetEntries_wal lib io' a b w = ((OK, entries_between (put_entries m es) a b), w')"
    using get_entries_inv [OF io' hd(3) w(2)] e by blast
  then have "fst (GetEntries_hy lib io' a b ?h3) = (OK, entries_between (put_entries m es) a b)" by (simp add: GetEntries_hy_def)
  then show ?thesis using h2(1) o3 s2(2) by (auto simp: LoadState_hy_def)
qed

section \<open>An example\<close>

definition ex_hybrid :: "(string \<times> string) list HybridPersister" where
  "ex_hybrid = \<lparr>hy_wal = ex_opened, hy_state = ex_sp, hy_opened = True, hy_data_dir = ''data''\<rparr>"

lemma ex_storable: "storable ex_wal_lib ex_entry"
  using ex_fits by (auto simp: storable_def ex_entry_def entry_fits_def fits_u32_def)

lemma ex_hybrid_rep: "hy_rep ex_wal_lib ex_io 1 ex_hybrid Map.empty"
  using ex_io_fine ex_wal_lib_ok ex_opened_inv by (simp add: hy_rep_def ex_hybrid_def U64_def)

theorem persister_survives_restart_witness:
  "\<exists>h1 h2 h3. SaveState_hy ex_ldb ex_state_lib ex_saved ex_hybrid = (OK, h1) \<and>
     AppendEntries_hy ex_wal_lib ex_io [ex_entry] h1 = (OK, h2) \<and>
     Open_hy ex_wal_lib ex_io ex_ldb ex_state_lib None ''data'' (Close_hy ex_io h2) = (OK, h3) \<and>
     LoadState_hy h3 = Inr ex_saved \<and> fst (GetEntries_hy ex_wal_lib ex_io 3 4 h3) = (OK, [ex_entry])"
proof -
  obtain s1 where "SaveState_sp ex_ldb ex_state_lib ex_saved ex_sp = (OK, s1)" using ex_save_state by blast
  then have s: "SaveState_hy ex_ldb ex_state_lib ex_saved ex_hybrid = (OK, ex_hybrid\<lparr>hy_state := s1\<rparr>)"
    by (simp add: SaveState_hy_def on_state_def ex_hybrid_def)
  have o: "ld_open ex_ldb (sp_files (hy_state (ex_hybrid\<lparr>hy_state := s1\<rparr>))) = None" by (simp add: ex_ldb_def)
  have "hy_rep ex_wal_lib ex_io (length [ex_entry]) ex_hybrid Map.empty" using ex_hybrid_rep by simp
  moreover have "list_all (storable ex_wal_lib) [ex_entry]" using ex_storable by simp
  moreover have "entries_between (put_entries Map.empty [ex_entry]) 3 4 = [ex_entry]"
    using entries_between_consecutive [of "[ex_entry]" "put_entries Map.empty [ex_entry]" 3] by (simp add: ex_entry_def)
  ultimately show ?thesis
    using persister_survives_restart [of ex_wal_lib ex_io "[ex_entry]" ex_hybrid Map.empty, OF _ _ ex_io_fine ex_ldb_ok
        ex_fits_state(2,1) s o, of "''data''" 3 4] s by auto
qed

end
