(* ===== verification/Group_Commit.thy ===== *)
theory Group_Commit
  imports Status_Model
begin

text \<open>
  The coordinator of flushes and syncs, \<open>GroupCommitController\<close> of \<open>src/group_commit_controller.cpp\<close>: flushed batches
  get consecutive epochs and wait with their callbacks until a sync covers them. The lock makes every operation
  atomic. A callback is a value of the type \<open>'c\<close>, \<open>None\<close> for an empty \<open>std::function\<close>; an operation that runs
  callbacks returns them with the status they get, in order. Metrics are not modelled.
\<close>

section \<open>Configuration\<close>

datatype SyncPolicy = kSyncEveryWrite | kSyncByInterval | kSyncByBatchSize | kSyncAdaptive

record LogPersistenceConfig =
  lc_batch_size :: nat
  lc_batch_interval_ms :: nat
  lc_sync_policy :: SyncPolicy
  lc_group_commit_interval_ms :: nat
  lc_group_commit_max_entries :: nat
  lc_group_commit_max_bytes :: nat
  lc_min_disk_space_bytes :: nat
  lc_data_dir :: string
  lc_executor :: bool

definition default_config :: LogPersistenceConfig where
  "default_config = \<lparr>lc_batch_size = 100, lc_batch_interval_ms = 10, lc_sync_policy = kSyncAdaptive,
     lc_group_commit_interval_ms = 50, lc_group_commit_max_entries = 1000, lc_group_commit_max_bytes = 4 * 1024 * 1024,
     lc_min_disk_space_bytes = 100 * 1024 * 1024, lc_data_dir = [], lc_executor = False\<rparr>"

section \<open>The controller\<close>

record 'c PendingEpoch =
  pe_epoch :: nat
  pe_entry_count :: nat
  pe_byte_size :: nat
  pe_flush_time :: time
  pe_callbacks :: "'c option list"

record 'c GroupCommitController =
  gc_config :: LogPersistenceConfig
  gc_next_epoch :: nat
  gc_durable_epoch :: nat
  gc_sync_in_progress_end :: nat
  gc_pending :: "'c PendingEpoch list"
  gc_healthy :: bool
  gc_sync_requested :: bool
  gc_last_error :: Status
  gc_last_sync_time :: time

definition new_controller :: "LogPersistenceConfig \<Rightarrow> time \<Rightarrow> 'c GroupCommitController" where
  "new_controller config now = \<lparr>gc_config = config, gc_next_epoch = 1, gc_durable_epoch = 0, gc_sync_in_progress_end = 0,
     gc_pending = [], gc_healthy = True, gc_sync_requested = False, gc_last_error = OK, gc_last_sync_time = now\<rparr>"

text \<open>\<open>for (auto& cb : callbacks) if (cb) cb(status);\<close>\<close>

definition fire :: "Status \<Rightarrow> 'c option list \<Rightarrow> ('c \<times> Status) list" where
  "fire st cbs = map (\<lambda>c. (c, st)) (List.map_filter id cbs)"

text \<open>The epoch, 0 for an error, the error, and the callbacks that stay with the caller.\<close>

definition RegisterFlushedBatch ::
  "nat \<Rightarrow> nat \<Rightarrow> 'c option list \<Rightarrow> time \<Rightarrow> 'c GroupCommitController \<Rightarrow> (nat \<times> Status \<times> 'c option list) \<times> 'c GroupCommitController" where
  "RegisterFlushedBatch entry_count byte_size cbs now c =
     (if \<not> gc_healthy c
      then ((0, if ok (gc_last_error c) then Error ''Group commit controller is unhealthy'' [] else gc_last_error c, cbs), c)
      else let epoch = gc_next_epoch c in
           ((epoch, OK, []), c\<lparr>gc_next_epoch := u64_add epoch 1,
              gc_pending := gc_pending c @ [\<lparr>pe_epoch = epoch, pe_entry_count = entry_count, pe_byte_size = byte_size,
                                              pe_flush_time = now, pe_callbacks = cbs\<rparr>]\<rparr>))"

definition AcquireSyncRange :: "'c GroupCommitController \<Rightarrow> (nat \<times> nat) option \<times> 'c GroupCommitController" where
  "AcquireSyncRange c =
     (if \<not> gc_healthy c \<or> gc_sync_in_progress_end c \<noteq> 0 \<or> gc_pending c = [] then (None, c)
      else let end_epoch = pe_epoch (last (gc_pending c)) in
           (Some (u64_add (gc_durable_epoch c) 1, end_epoch), c\<lparr>gc_sync_in_progress_end := end_epoch\<rparr>))"

text \<open>The loop over the epochs that a sync made durable: the callback lists, the new durable epoch and the rest.\<close>

fun pop_synced :: "nat \<Rightarrow> nat \<Rightarrow> 'c PendingEpoch list \<Rightarrow> 'c option list list \<times> nat \<times> 'c PendingEpoch list" where
  "pop_synced end_epoch d [] = ([], d, [])"
| "pop_synced end_epoch d (p # ps) =
     (if pe_epoch p \<le> end_epoch
      then (case pop_synced end_epoch (pe_epoch p) ps of (cbs, r) \<Rightarrow> (pe_callbacks p # cbs, r))
      else ([], d, p # ps))"

definition OnSyncSuccess ::
  "nat \<Rightarrow> time \<Rightarrow> 'c GroupCommitController \<Rightarrow> ('c \<times> Status) list \<times> 'c GroupCommitController" where
  "OnSyncSuccess end_epoch now c =
     (if gc_sync_in_progress_end c = 0 \<or> end_epoch \<noteq> gc_sync_in_progress_end c then ([], c)
      else case pop_synced end_epoch (gc_durable_epoch c) (gc_pending c) of
             (cbs, d, rest) \<Rightarrow>
               (concat (map (fire OK) cbs),
                c\<lparr>gc_last_sync_time := now, gc_sync_in_progress_end := 0, gc_sync_requested := False,
                  gc_durable_epoch := d, gc_pending := rest\<rparr>))"

definition OnSyncFailure ::
  "nat \<Rightarrow> Status \<Rightarrow> 'c GroupCommitController \<Rightarrow> ('c \<times> Status) list \<times> 'c GroupCommitController" where
  "OnSyncFailure end_epoch err c =
     (if gc_sync_in_progress_end c = 0 \<or> end_epoch \<noteq> gc_sync_in_progress_end c then ([], c)
      else (concat (map (\<lambda>p. fire err (pe_callbacks p)) (gc_pending c)),
            c\<lparr>gc_healthy := False, gc_last_error := err, gc_sync_in_progress_end := 0, gc_sync_requested := False,
              gc_pending := []\<rparr>))"

definition IsSyncPolicyEnabled :: "'c GroupCommitController \<Rightarrow> bool" where
  "IsSyncPolicyEnabled c \<longleftrightarrow> lc_sync_policy (gc_config c) \<noteq> kSyncEveryWrite"

definition UnsyncedEntryCountLocked :: "'c GroupCommitController \<Rightarrow> nat" where
  "UnsyncedEntryCountLocked c = foldl (\<lambda>n p. u64_add n (pe_entry_count p)) 0 (gc_pending c)"

definition UnsyncedByteCountLocked :: "'c GroupCommitController \<Rightarrow> nat" where
  "UnsyncedByteCountLocked c = foldl (\<lambda>n p. u64_add n (pe_byte_size p)) 0 (gc_pending c)"

definition ShouldSyncNow :: "time \<Rightarrow> 'c GroupCommitController \<Rightarrow> bool" where
  "ShouldSyncNow now c =
     (let config = gc_config c; policy = lc_sync_policy config in
      if \<not> gc_healthy c \<or> gc_pending c = [] \<or> gc_sync_in_progress_end c \<noteq> 0 then False
      else if \<not> IsSyncPolicyEnabled c then False
      else if gc_sync_requested c then True
      else if (policy = kSyncByInterval \<or> policy = kSyncAdaptive) \<and>
              int (lc_group_commit_interval_ms config) \<le> elapsed_ms now (gc_last_sync_time c) then True
      else (policy = kSyncByBatchSize \<or> policy = kSyncAdaptive) \<and>
           (lc_group_commit_max_entries config \<le> UnsyncedEntryCountLocked c \<or>
            lc_group_commit_max_bytes config \<le> UnsyncedByteCountLocked c))"

definition NextSyncDelay :: "time \<Rightarrow> 'c GroupCommitController \<Rightarrow> int" where
  "NextSyncDelay now c =
     (let interval = int (lc_group_commit_interval_ms (gc_config c)) in
      if \<not> IsSyncPolicyEnabled c \<or> gc_pending c = [] then interval
      else if lc_sync_policy (gc_config c) = kSyncByBatchSize then 1
      else max 0 (interval - elapsed_ms now (gc_last_sync_time c)))"

record Stats =
  st_pending_epochs :: nat
  st_unsynced_entries :: nat
  st_unsynced_bytes :: nat
  st_durable_epoch :: nat
  st_next_epoch :: nat
  st_sync_in_progress_end :: nat
  st_healthy :: bool

definition GetStats :: "'c GroupCommitController \<Rightarrow> Stats" where
  "GetStats c = \<lparr>st_pending_epochs = length (gc_pending c), st_unsynced_entries = UnsyncedEntryCountLocked c,
     st_unsynced_bytes = UnsyncedByteCountLocked c, st_durable_epoch = gc_durable_epoch c, st_next_epoch = gc_next_epoch c,
     st_sync_in_progress_end = gc_sync_in_progress_end c, st_healthy = gc_healthy c\<rparr>"

definition RequestSync :: "'c GroupCommitController \<Rightarrow> 'c GroupCommitController" where
  "RequestSync c = c\<lparr>gc_sync_requested := True\<rparr>"

section \<open>Epochs are contiguous\<close>

text \<open>The pending epochs are the ones behind the durable one, and a sync in flight ends at one of them.\<close>

definition gc_ok :: "'c GroupCommitController \<Rightarrow> bool" where
  "gc_ok c \<longleftrightarrow> gc_durable_epoch c < gc_next_epoch c \<and> gc_next_epoch c < U64 \<and>
     (gc_healthy c \<longrightarrow> map pe_epoch (gc_pending c) = [Suc (gc_durable_epoch c)..<gc_next_epoch c]) \<and>
     (\<not> gc_healthy c \<longrightarrow> gc_pending c = [] \<and> gc_sync_in_progress_end c = 0) \<and>
     (gc_sync_in_progress_end c \<noteq> 0 \<longrightarrow>
        gc_durable_epoch c < gc_sync_in_progress_end c \<and> gc_sync_in_progress_end c < gc_next_epoch c)"

lemma gc_ok_new [simp]: "gc_ok (new_controller config now)"
  by (simp add: gc_ok_def new_controller_def U64_def)

lemma gc_ok_register:
  assumes "gc_ok c" and "Suc (gc_next_epoch c) < U64"
  shows "gc_ok (snd (RegisterFlushedBatch n b cbs now c))"
  using assms by (auto simp: gc_ok_def RegisterFlushedBatch_def Let_def u64_add_def)

lemma acquire_range:
  assumes "gc_ok c" and "AcquireSyncRange c = (Some (a, e), c')"
  shows "a = Suc (gc_durable_epoch c) \<and> Suc e = gc_next_epoch c \<and> gc_durable_epoch c < e"
proof -
  have h: "gc_healthy c" "gc_pending c \<noteq> []" and ae: "a = u64_add (gc_durable_epoch c) 1" "e = pe_epoch (last (gc_pending c))"
    using assms(2) by (auto simp: AcquireSyncRange_def Let_def split: if_splits)
  have p: "map pe_epoch (gc_pending c) = [Suc (gc_durable_epoch c)..<gc_next_epoch c]" using assms(1) h(1) by (simp add: gc_ok_def)
  then have n: "Suc (gc_durable_epoch c) < gc_next_epoch c" using h(2) by (metis Nil_is_map_conv upt_eq_Nil_conv not_less)
  have "e = last [Suc (gc_durable_epoch c)..<gc_next_epoch c]" using ae(2) h(2) p by (metis last_map)
  then have "e = gc_next_epoch c - 1" using n by simp
  moreover have "a = Suc (gc_durable_epoch c)" using assms(1) ae(1) by (simp add: gc_ok_def u64_add_def)
  ultimately show ?thesis using n by simp
qed

lemma gc_ok_acquire:
  assumes "gc_ok c"
  shows "gc_ok (snd (AcquireSyncRange c))"
proof (cases "AcquireSyncRange c")
  case (Pair r c')
  show ?thesis
  proof (cases r)
    case None
    then show ?thesis using Pair assms by (auto simp: AcquireSyncRange_def Let_def split: if_splits)
  next
    case (Some ae)
    obtain a e where ae: "ae = (a, e)" by (cases ae)
    note r = acquire_range [OF assms Pair [unfolded Some ae]]
    have "c' = c\<lparr>gc_sync_in_progress_end := e\<rparr>" "gc_healthy c"
      using Pair Some ae by (auto simp: AcquireSyncRange_def Let_def split: if_splits)
    then show ?thesis using Pair assms r by (auto simp: gc_ok_def)
  qed
qed

lemma pop_synced_upt:
  assumes "map pe_epoch ps = [Suc d..<n]" and "d \<le> e" and "e < n"
  shows "pop_synced e d ps = (map pe_callbacks (take (e - d) ps), e, drop (e - d) ps)"
  using assms
proof (induction ps arbitrary: d)
  case Nil
  then have "d = e" using upt_eq_Nil_conv [of "Suc d" n] by auto
  then show ?case by simp
next
  case (Cons p ps)
  have n: "Suc d < n" using Cons.prems(1) by (cases "Suc d < n") auto
  have u: "[Suc d..<n] = Suc d # [Suc (Suc d)..<n]" using n by (rule upt_conv_Cons)
  have p: "pe_epoch p = Suc d" "map pe_epoch ps = [Suc (Suc d)..<n]" using Cons.prems(1) unfolding u by simp_all
  show ?case
  proof (cases "d = e")
    case False
    then have e: "Suc d \<le> e" "e - d = Suc (e - Suc d)" using Cons.prems(2) by simp_all
    from Cons.IH [OF p(2) e(1) Cons.prems(3)] show ?thesis using e p(1) by simp
  qed (simp add: p)
qed

lemma gc_ok_success:
  assumes "gc_ok c"
  shows "gc_ok (snd (OnSyncSuccess e now c))"
proof (cases "gc_sync_in_progress_end c = 0 \<or> e \<noteq> gc_sync_in_progress_end c")
  case False
  then have e: "gc_durable_epoch c < e" "e < gc_next_epoch c" "gc_healthy c" using assms by (auto simp: gc_ok_def)
  have p: "map pe_epoch (gc_pending c) = [Suc (gc_durable_epoch c)..<gc_next_epoch c]" using assms e(3) by (simp add: gc_ok_def)
  have "map pe_epoch (drop (e - gc_durable_epoch c) (gc_pending c)) = [Suc e..<gc_next_epoch c]"
    using e(1) by (simp add: drop_map [symmetric] p)
  then show ?thesis
    using False assms e pop_synced_upt [OF p _ e(2)] by (simp add: OnSyncSuccess_def gc_ok_def)
qed (use assms in \<open>simp add: OnSyncSuccess_def\<close>)

lemma gc_ok_failure: "gc_ok c \<Longrightarrow> gc_ok (snd (OnSyncFailure e err c))"
  by (auto simp: OnSyncFailure_def gc_ok_def)

lemma gc_ok_request [simp]: "gc_ok (RequestSync c) = gc_ok c"
  by (simp add: gc_ok_def RequestSync_def)

section \<open>Runs of the controller\<close>

text \<open>Any sequence of its operations, in any order; there is no run of \<open>2^64\<close> registrations.\<close>

inductive gc_run :: "'c GroupCommitController \<Rightarrow> bool" where
  start: "gc_run (new_controller config now)"
| register: "gc_run c \<Longrightarrow> Suc (gc_next_epoch c) < U64 \<Longrightarrow> gc_run (snd (RegisterFlushedBatch n b cbs now c))"
| acquire: "gc_run c \<Longrightarrow> gc_run (snd (AcquireSyncRange c))"
| success: "gc_run c \<Longrightarrow> gc_run (snd (OnSyncSuccess e now c))"
| failure: "gc_run c \<Longrightarrow> gc_run (snd (OnSyncFailure e err c))"
| request: "gc_run c \<Longrightarrow> gc_run (RequestSync c)"

lemma gc_run_ok: "gc_run c \<Longrightarrow> gc_ok c"
  by (induction rule: gc_run.induct) (simp_all add: gc_ok_register gc_ok_acquire gc_ok_success gc_ok_failure)


text \<open>When the sync thread is told not to wait, there is something to sync.\<close>

lemma no_idle_spin:
  assumes "NextSyncDelay now c = 0" and "gc_pending c \<noteq> []" and "gc_healthy c" and "gc_sync_in_progress_end c = 0"
    and "IsSyncPolicyEnabled c"
  shows "ShouldSyncNow now c"
  using assms by (cases "lc_sync_policy (gc_config c)") (auto simp: NextSyncDelay_def ShouldSyncNow_def IsSyncPolicyEnabled_def Let_def max_def split: if_splits)

section \<open>An example\<close>

definition ex_controller :: "nat GroupCommitController" where
  "ex_controller = snd (RegisterFlushedBatch 2 100 [Some 7, None] 0 (new_controller default_config 0))"


end
