(* ===== verification/Log_Persister.thy ===== *)
theory Log_Persister
  imports Hybrid_Persister Group_Commit
begin

text \<open>
  The batched log persister: \<open>LogPersister\<close> of \<open>include/rollingraft/log_persister.h\<close> and \<open>src/log_persister.cpp\<close>, over
  any implementation of the interface \<open>Persister\<close>. A critical section is one function on the state; an operation that
  waits on a condition variable is its part after the wait, on the state it wakes up in. The two background threads
  are the steps \<open>flush_take\<close>, \<open>flush_store\<close>, \<open>flush_settle\<close> and \<open>sync_begin\<close>, \<open>sync_finish\<close>, which other operations can
  come between. Operations that run callbacks return them with the status they get; an executor runs them later with
  the same status.
\<close>

section \<open>State\<close>

record 'c PendingEntry =
  pd_entry :: RaftLogEntry
  pd_callback :: "'c option"

record ('p, 'c) LogPersister =
  lp_persister :: "'p option"
  lp_config :: LogPersistenceConfig
  lp_buffer :: "'c PendingEntry list"
  lp_running :: bool
  lp_flush_in_progress :: bool
  lp_controller :: "'c GroupCommitController option"
  lp_healthy :: bool
  lp_last_error :: string
  lp_total_flushed :: nat
  lp_total_flush_ops :: nat
  lp_shutdown :: bool
  lp_pending_count :: nat

definition new_log_persister :: "'p option \<Rightarrow> LogPersistenceConfig \<Rightarrow> time \<Rightarrow> ('p, 'c) LogPersister" where
  "new_log_persister p conf now = \<lparr>lp_persister = p, lp_config = conf, lp_buffer = [], lp_running = False,
     lp_flush_in_progress = False,
     lp_controller = (if lc_sync_policy conf \<noteq> kSyncEveryWrite then Some (new_controller conf now) else None),
     lp_healthy = True, lp_last_error = [], lp_total_flushed = 0, lp_total_flush_ops = 0, lp_shutdown = False,
     lp_pending_count = 0\<rparr>"

definition status_text :: "Status \<Rightarrow> string" where
  "status_text = ToString (\<lambda>n. ''Unknown code('' @ nat_to_string n @ ''): '')"

text \<open>\<open>disk\<close> is the space \<open>statvfs\<close> reports as available, \<open>None\<close> when it fails.\<close>

definition CheckDiskSpace :: "LogPersistenceConfig \<Rightarrow> nat option \<Rightarrow> Status" where
  "CheckDiskSpace conf disk =
     (if lc_data_dir conf = [] then OK
      else case disk of
             None \<Rightarrow> Error (''Cannot check disk space for '' @ lc_data_dir conf) []
           | Some available \<Rightarrow>
             if available < lc_min_disk_space_bytes conf
             then Error (''Insufficient disk space: available='' @ nat_to_string available @ '' required='' @
                         nat_to_string (lc_min_disk_space_bytes conf)) []
             else OK)"

definition recovered :: "('p, 'c) LogPersister \<Rightarrow> ('p, 'c) LogPersister" where
  "recovered l = l\<lparr>lp_healthy := True, lp_last_error := []\<rparr>"

definition failed :: "string \<Rightarrow> ('p, 'c) LogPersister \<Rightarrow> ('p, 'c) LogPersister" where
  "failed msg l = l\<lparr>lp_healthy := False, lp_last_error := msg\<rparr>"

section \<open>Appending\<close>

definition push_back :: "RaftLogEntry \<Rightarrow> 'c option \<Rightarrow> ('p, 'c) LogPersister \<Rightarrow> ('p, 'c) LogPersister" where
  "push_back e cb l = l\<lparr>lp_buffer := lp_buffer l @ [\<lparr>pd_entry = e, pd_callback = cb\<rparr>]\<rparr>"

definition Append_lp ::
  "RaftLogEntry \<Rightarrow> 'c option \<Rightarrow> nat option \<Rightarrow> ('p, 'c) LogPersister \<Rightarrow> ('c \<times> Status) list \<times> ('p, 'c) LogPersister" where
  "Append_lp e cb disk l =
     (if lp_healthy l then ([], push_back e cb l)
      else if ok (CheckDiskSpace (lp_config l) disk) then ([], push_back e cb (recovered l))
      else (fire (Error (''Persister is unhealthy: '' @ lp_last_error l) []) [cb], l))"

text \<open>The result of \<open>AppendSync\<close>: the status its callback got before the timeout, if any.\<close>

definition AppendSync_result :: "Status option \<Rightarrow> Status" where
  "AppendSync_result got = (case got of None \<Rightarrow> Error ''AppendSync timeout'' [] | Some st \<Rightarrow> st)"

section \<open>Flushing\<close>

definition WriteBatch ::
  "'p Persister \<Rightarrow> RaftLogEntry list \<Rightarrow> ('p, 'c) LogPersister \<Rightarrow> Status \<times> ('p, 'c) LogPersister" where
  "WriteBatch P es l =
     (case lp_persister l of
        None \<Rightarrow> (Error ''Persister is null'' [], l)
      | Some p \<Rightarrow> if es = [] then (OK, l)
                  else case p_append P es p of (st, p') \<Rightarrow> (st, l\<lparr>lp_persister := Some p'\<rparr>))"

definition put_back :: "'c PendingEntry list \<Rightarrow> ('p, 'c) LogPersister \<Rightarrow> ('p, 'c) LogPersister" where
  "put_back batch l = l\<lparr>lp_buffer := lp_buffer l @ batch, lp_flush_in_progress := False\<rparr>"

definition flush_take :: "('p, 'c) LogPersister \<Rightarrow> 'c PendingEntry list \<times> ('p, 'c) LogPersister" where
  "flush_take l = (lp_buffer l, l\<lparr>lp_buffer := [], lp_flush_in_progress := True\<rparr>)"

text \<open>The check of the disk and the write; whether the batch was written, and the callbacks of a failed write.\<close>

definition flush_store ::
  "'p Persister \<Rightarrow> nat option \<Rightarrow> 'c PendingEntry list \<Rightarrow> ('p, 'c) LogPersister \<Rightarrow>
   (bool \<times> ('c \<times> Status) list) \<times> ('p, 'c) LogPersister" where
  "flush_store P disk batch l =
     (let space = CheckDiskSpace (lp_config l) disk;
          l1 = (if ok space \<and> \<not> lp_healthy l then recovered l else l)
      in if \<not> ok space then ((False, []), put_back batch (failed (status_text space) l1))
         else case WriteBatch P (map pd_entry batch) l1 of (st, l2) \<Rightarrow>
           if \<not> ok st
           then ((False, fire (Error (''Flush failed: '' @ status_text st) []) (map pd_callback batch)),
                 put_back (map (\<lambda>b. b\<lparr>pd_callback := None\<rparr>) batch) (failed (status_text st) l2))
           else ((True, []), l2\<lparr>lp_total_flushed := u64_add (lp_total_flushed l2) (length batch),
                                lp_total_flush_ops := u64_add (lp_total_flush_ops l2) 1\<rparr>))"

definition batch_bytes :: "'c PendingEntry list \<Rightarrow> nat" where
  "batch_bytes batch = foldl u64_add 0
     (map (\<lambda>b. length (e_data (pd_entry b)) + length (e_command (pd_entry b)) + 4 + 4) batch)"

text \<open>After the write: the batch waits for the next sync, or is synced here.\<close>

definition flush_settle ::
  "'p Persister \<Rightarrow> time \<Rightarrow> 'c PendingEntry list \<Rightarrow> ('p, 'c) LogPersister \<Rightarrow>
   (bool \<times> ('c \<times> Status) list) \<times> ('p, 'c) LogPersister" where
  "flush_settle P now batch l =
     (let cbs = map pd_callback batch; finish = (\<lambda>l. l\<lparr>lp_flush_in_progress := False\<rparr>) in
      case lp_controller l of
        Some c \<Rightarrow>
          (case RegisterFlushedBatch (length batch) (batch_bytes batch) cbs now c of
             ((epoch, err, rest), c') \<Rightarrow>
               let l1 = l\<lparr>lp_controller := Some c'\<rparr> in
               if epoch = 0 then ((True, fire err rest), finish (failed (status_text err) l1))
               else ((True, []), finish l1))
      | None \<Rightarrow>
          (case lp_persister l of
             None \<Rightarrow> ((True, fire OK cbs), finish l)
           | Some p \<Rightarrow>
             (case p_sync P p of (st, p') \<Rightarrow>
                let l1 = l\<lparr>lp_persister := Some p'\<rparr> in
                if \<not> ok st then ((False, fire st cbs), finish (failed (status_text st) l1))
                else ((True, fire OK cbs), finish l1))))"

definition DoFlush ::
  "'p Persister \<Rightarrow> nat option \<Rightarrow> time \<Rightarrow> ('p, 'c) LogPersister \<Rightarrow> (bool \<times> ('c \<times> Status) list) \<times> ('p, 'c) LogPersister" where
  "DoFlush P disk now l =
     (if lp_buffer l = [] then ((True, []), l)
      else case flush_take l of (batch, l1) \<Rightarrow>
        (case flush_store P disk batch l1 of
           ((False, fired), l2) \<Rightarrow> ((False, fired), l2)
         | ((True, fired), l2) \<Rightarrow> flush_settle P now batch l2))"

text \<open>The wait of the flush thread ends by timeout, at shutdown, or with a full batch; then it flushes.\<close>

definition flush_wait_over :: "bool \<Rightarrow> ('p, 'c) LogPersister \<Rightarrow> bool" where
  "flush_wait_over timeout l \<longleftrightarrow> timeout \<or> \<not> lp_running l \<or> lc_batch_size (lp_config l) \<le> length (lp_buffer l)"

definition BackgroundFlushLoop_round ::
  "'p Persister \<Rightarrow> nat option \<Rightarrow> time \<Rightarrow> ('p, 'c) LogPersister \<Rightarrow> ('c \<times> Status) list \<times> ('p, 'c) LogPersister" where
  "BackgroundFlushLoop_round P disk now l =
     (if lp_buffer l \<noteq> [] then (case DoFlush P disk now l of ((_, fired), l') \<Rightarrow> (fired, l')) else ([], l))"

section \<open>Syncing\<close>

definition sync_begin :: "('p, 'c) LogPersister \<Rightarrow> (nat \<times> nat) option \<times> ('p, 'c) LogPersister" where
  "sync_begin l =
     (case lp_controller l of
        None \<Rightarrow> (None, l)
      | Some c \<Rightarrow> (case AcquireSyncRange c of (r, c') \<Rightarrow> (r, l\<lparr>lp_controller := Some c'\<rparr>)))"

text \<open>The sync and its report to the controller; in the background thread a failure makes the persister unhealthy.\<close>

definition sync_finish ::
  "bool \<Rightarrow> 'p Persister \<Rightarrow> nat \<Rightarrow> time \<Rightarrow> ('p, 'c) LogPersister \<Rightarrow> ('c \<times> Status) list \<times> ('p, 'c) LogPersister" where
  "sync_finish background P end_epoch now l =
     (case lp_controller l of
        None \<Rightarrow> ([], l)
      | Some c \<Rightarrow>
        (case (case lp_persister l of
                 None \<Rightarrow> (OK, l)
               | Some p \<Rightarrow> (case p_sync P p of (st, p') \<Rightarrow> (st, l\<lparr>lp_persister := Some p'\<rparr>))) of
           (st, l1) \<Rightarrow>
             if ok st
             then (case OnSyncSuccess end_epoch now c of (fired, c') \<Rightarrow> (fired, l1\<lparr>lp_controller := Some c'\<rparr>))
             else (case OnSyncFailure end_epoch st c of (fired, c') \<Rightarrow>
                     (fired, (if background then failed (status_text st) else id) (l1\<lparr>lp_controller := Some c'\<rparr>)))))"

text \<open>
  A round of the sync thread. The wait ends by timeout, at shutdown, or when the controller asks for a sync; which of
  them it was is not looked at.
\<close>

definition sync_wait_over :: "bool \<Rightarrow> time \<Rightarrow> ('p, 'c) LogPersister \<Rightarrow> bool" where
  "sync_wait_over timeout now l \<longleftrightarrow>
     timeout \<or> \<not> lp_running l \<or> (case lp_controller l of None \<Rightarrow> False | Some c \<Rightarrow> ShouldSyncNow now c)"

definition BackgroundSyncLoop_round ::
  "'p Persister \<Rightarrow> time \<Rightarrow> ('p, 'c) LogPersister \<Rightarrow> ('c \<times> Status) list \<times> ('p, 'c) LogPersister" where
  "BackgroundSyncLoop_round P now l =
     (if \<not> lp_running l then ([], l)
      else case sync_begin l of
             (None, l1) \<Rightarrow> ([], l1)
           | (Some (_, end_epoch), l1) \<Rightarrow> sync_finish True P end_epoch now l1)"

text \<open>\<open>Sync\<close> before and after its wait.\<close>

definition Sync_request :: "('p, 'c) LogPersister \<Rightarrow> ('p, 'c) LogPersister" where
  "Sync_request l = l\<lparr>lp_controller := map_option RequestSync (lp_controller l)\<rparr>"

definition Sync_lp :: "'p Persister \<Rightarrow> ('p, 'c) LogPersister \<Rightarrow> Status \<times> ('p, 'c) LogPersister" where
  "Sync_lp P l =
     (case lp_persister l of
        None \<Rightarrow> (OK, l)
      | Some p \<Rightarrow>
        (case lp_controller l of
           None \<Rightarrow> (case p_sync P p of (st, p') \<Rightarrow> (st, l\<lparr>lp_persister := Some p'\<rparr>))
         | Some c \<Rightarrow>
             if \<not> (\<not> lp_running l \<or> \<not> gc_healthy c \<or> st_pending_epochs (GetStats c) = 0) then (Error ''Sync timeout'' [], l)
             else if \<not> gc_healthy c then (Error (''Sync failed: '' @ lp_last_error l) [], l)
             else (OK, l)))"

section \<open>Start, stop, and waiting for a flush\<close>

definition Start_lp :: "'p Persister \<Rightarrow> ('p, 'c) LogPersister \<Rightarrow> ('p, 'c) LogPersister" where
  "Start_lp P l =
     (if lp_running l then l
      else l\<lparr>lp_running := True, lp_healthy := True,
             lp_persister := map_option (p_set_sync_on_write P (lc_sync_policy (lp_config l) = kSyncEveryWrite)) (lp_persister l)\<rparr>)"

text \<open>\<open>Stop\<close> after the threads have been joined.\<close>

definition Stop_lp ::
  "'p Persister \<Rightarrow> nat option \<Rightarrow> time \<Rightarrow> ('p, 'c) LogPersister \<Rightarrow> ('c \<times> Status) list \<times> ('p, 'c) LogPersister" where
  "Stop_lp P disk now l =
     (if \<not> lp_running l then ([], l)
      else case DoFlush P disk now (l\<lparr>lp_running := False\<rparr>) of ((_, fired), l1) \<Rightarrow>
        if lp_controller l1 = None \<or> lp_persister l1 = None then (fired, l1)
        else case sync_begin l1 of
               (None, l2) \<Rightarrow> (fired, l2)
             | (Some (_, end_epoch), l2) \<Rightarrow>
                 (case sync_finish False P end_epoch now l2 of (fired', l3) \<Rightarrow> (fired @ fired', l3)))"

definition FlushSync :: "('p, 'c) LogPersister \<Rightarrow> Status" where
  "FlushSync l =
     (if \<not> (lp_buffer l = [] \<and> \<not> lp_flush_in_progress l \<or> \<not> lp_healthy l) then Error ''Flush timeout'' []
      else if \<not> lp_healthy l then Error (''Flush failed: '' @ lp_last_error l) []
      else OK)"

section \<open>Truncating\<close>

definition on_persister ::
  "('p \<Rightarrow> Status \<times> 'p) \<Rightarrow> ('p, 'c) LogPersister \<Rightarrow> Status \<times> ('p, 'c) LogPersister" where
  "on_persister f l =
     (case lp_persister l of
        None \<Rightarrow> (Error ''Persister is null'' [], l)
      | Some p \<Rightarrow> (case f p of (st, p') \<Rightarrow> (st, l\<lparr>lp_persister := Some p'\<rparr>)))"

definition TruncatePrefix_lp :: "'p Persister \<Rightarrow> nat \<Rightarrow> ('p, 'c) LogPersister \<Rightarrow> Status \<times> ('p, 'c) LogPersister" where
  "TruncatePrefix_lp P before_index l =
     (if \<not> ok (FlushSync l) then (FlushSync l, l) else on_persister (p_truncate_prefix P before_index) l)"

definition TruncateSuffix_lp :: "'p Persister \<Rightarrow> nat \<Rightarrow> ('p, 'c) LogPersister \<Rightarrow> Status \<times> ('p, 'c) LogPersister" where
  "TruncateSuffix_lp P from_index l =
     (if \<not> ok (FlushSync l) then (FlushSync l, l) else on_persister (p_truncate_suffix P from_index) l)"

text \<open>The task \<open>TruncatePrefixAsync\<close> hands to the executor: the status for the callback.\<close>

definition do_truncate :: "'p Persister \<Rightarrow> nat \<Rightarrow> ('p, 'c) LogPersister \<Rightarrow> Status \<times> ('p, 'c) LogPersister" where
  "do_truncate P before_index l =
     (let leave = (\<lambda>l. l\<lparr>lp_pending_count := lp_pending_count l - 1\<rparr>) in
      if lp_shutdown l then (Error ''Truncation cancelled: LogPersister shut down'' [], leave l)
      else case on_persister (p_truncate_prefix P before_index) l of (st, l1) \<Rightarrow> (st, leave l1))"

text \<open>The status for the callback, or \<open>None\<close> when the task is left to the executor.\<close>

definition TruncatePrefixAsync ::
  "'p Persister \<Rightarrow> nat \<Rightarrow> ('p, 'c) LogPersister \<Rightarrow> Status option \<times> ('p, 'c) LogPersister" where
  "TruncatePrefixAsync P before_index l =
     (let l1 = l\<lparr>lp_pending_count := lp_pending_count l + 1\<rparr> in
      if lp_shutdown l then (Some (Error ''LogPersister is shut down'' []), l)
      else if \<not> ok (FlushSync l) then (Some (FlushSync l), l)
      else if lp_persister l = None then (Some (Error ''Persister is null'' []), l)
      else if lc_executor (lp_config l) then (None, l1)
      else map_prod Some id (do_truncate P before_index l1))"

section \<open>Restoring\<close>

definition kBatchSize_lp :: nat where "kBatchSize_lp = 1000"

partial_function (option) restore_loop ::
  "'p Persister \<Rightarrow> nat \<Rightarrow> nat \<Rightarrow> RaftLogEntry list \<Rightarrow> 'p \<Rightarrow> (RaftLogEntry list \<times> 'p) option" where
  "restore_loop P last_index batch_start got p =
     (if last_index < batch_start then Some (got, p)
      else case p_get_entries P batch_start (min (u64_add batch_start kBatchSize_lp) (u64_add last_index 1)) p of
             ((st, batch), p') \<Rightarrow>
               if \<not> ok st then Some (got, p')
               else restore_loop P last_index (u64_add batch_start kBatchSize_lp) (got @ batch) p')"

definition Restore ::
  "'p Persister \<Rightarrow> nat \<Rightarrow> ('p, 'c) LogPersister \<Rightarrow> (RaftLogEntry list \<times> ('p, 'c) LogPersister) option" where
  "Restore P start l =
     (case lp_persister l of
        None \<Rightarrow> Some ([], l)
      | Some p \<Rightarrow>
        (case p_last_log_info P p of
           ((last_index, _), p1) \<Rightarrow>
             if last_index < start then Some ([], l\<lparr>lp_persister := Some p1\<rparr>)
             else map_option (map_prod id (\<lambda>p'. l\<lparr>lp_persister := Some p'\<rparr>)) (restore_loop P last_index start [] p1)))"

definition GetPendingCount :: "('p, 'c) LogPersister \<Rightarrow> nat" where
  "GetPendingCount l = length (lp_buffer l)"

section \<open>Over a persister that keeps its contract\<close>

context durable_log
begin

text \<open>The loop of \<open>Restore\<close> ends and returns every entry of the range.\<close>

lemma restore_loop_law:
  assumes "rep n p m" and "k < U32"
  shows "\<exists>p'. restore_loop P k start got p = Some (got @ entries_between m start (Suc k), p') \<and> rep n p' m"
  using assms(1)
proof (induction "Suc k - start" arbitrary: start got p rule: less_induct)
  case less
  show ?case
  proof (cases "k < start")
    case True
    then show ?thesis using less.prems by (simp add: restore_loop.simps)
  next
    case False
    let ?next = "start + kBatchSize_lp" and ?stop = "min (start + kBatchSize_lp) (Suc k)"
    have u: "u64_add start kBatchSize_lp = ?next" "u64_add k 1 = Suc k"
      using False assms(2) by (simp_all add: u64_add_def kBatchSize_lp_def U32_def U64_def)
    have b: "start < U64" "?stop < U64" using False assms(2) by (simp_all add: U32_def U64_def)
    obtain p1 where p1: "p_get_entries P start ?stop p = ((OK, entries_between m start ?stop), p1)" "rep n p1 m"
      using get_law [OF less.prems b] by blast
    have "restore_loop P k start got p = restore_loop P k ?next (got @ entries_between m start ?stop) p1"
      using False p1(1) u by (subst restore_loop.simps) simp
    moreover have "entries_between m start ?stop @ entries_between m ?next (Suc k) = entries_between m start (Suc k)"
      using False entries_between_split [of start ?stop "Suc k" m] by (cases "?next \<le> Suc k") (simp_all add: min_def)
    ultimately show ?thesis
      using less.hyps [of ?next p1 "got @ entries_between m start ?stop"] False p1(2) by (simp add: kBatchSize_lp_def)
  qed
qed

lemma Restore_law:
  assumes "lp_persister l = Some p" and "rep n p m" and "0 < start"
  shows "\<exists>es p'. Restore P start l = Some (es, l\<lparr>lp_persister := Some p'\<rparr>) \<and> rep n p' m \<and>
    (fst (fst (p_last_log_info P p)) = 0 \<and> es = [] \<or>
     (\<exists>k. (\<forall>j > k. m j = None) \<and> es = entries_between m start (Suc k)))"
proof -
  obtain i t p1 where p1: "p_last_log_info P p = ((i, t), p1)" "rep n p1 m"
      and i: "i = 0 \<and> t = 0 \<or> i < U32 \<and> map_option e_term (m i) = Some t \<and> (\<forall>j > i. m j = None)"
    using last_law [OF assms(2)] by blast
  have u: "i < U32" using i by auto
  show ?thesis
  proof (cases "i < start")
    case True
    then have "Restore P start l = Some ([], l\<lparr>lp_persister := Some p1\<rparr>)" "entries_between m start (Suc i) = []"
      using assms(1) p1(1) by (simp_all add: Restore_def)
    then show ?thesis using p1 i by (intro exI [of _ "[]"] exI [of _ p1]) fastforce
  next
    case False
    obtain p2 where p2: "restore_loop P i start [] p1 = Some (entries_between m start (Suc i), p2)" "rep n p2 m"
      using restore_loop_law [OF p1(2) u, of start "[]"] by auto
    then show ?thesis using False assms(1,3) p1 i by (auto simp: Restore_def)
  qed
qed

lemma DoFlush_law:
  assumes "lp_persister l = Some p" and "rep (n + length (lp_buffer l)) p m"
    and "list_all storable (map pd_entry (lp_buffer l))" and "ok (CheckDiskSpace (lp_config l) disk)"
  shows "\<exists>b fired l' p'. DoFlush P disk now l = ((b, fired), l') \<and> lp_buffer l' = [] \<and>
    lp_persister l' = Some p' \<and> rep n p' (put_entries m (map pd_entry (lp_buffer l)))"
proof (cases "lp_buffer l = []")
  case False
  have "rep (n + length (map pd_entry (lp_buffer l))) p m" using assms(2) by simp
  from append_law [OF this assms(3)] obtain p1 where
    p1: "p_append P (map pd_entry (lp_buffer l)) p = (OK, p1)" "rep n p1 (put_entries m (map pd_entry (lp_buffer l)))" by blast
  let ?l = "(if lp_healthy l then l else recovered l)\<lparr>lp_buffer := [], lp_flush_in_progress := True, lp_persister := Some p1,
      lp_total_flushed := u64_add (lp_total_flushed l) (length (lp_buffer l)),
      lp_total_flush_ops := u64_add (lp_total_flush_ops l) 1\<rparr>"
  have "flush_store P disk (lp_buffer l) (l\<lparr>lp_buffer := [], lp_flush_in_progress := True\<rparr>) = ((True, []), ?l)"
    using assms(1,4) p1(1) False by (simp add: flush_store_def WriteBatch_def recovered_def Let_def)
  then have "DoFlush P disk now l = flush_settle P now (lp_buffer l) ?l" using False by (simp add: DoFlush_def flush_take_def)
  moreover obtain st p2 where "p_sync P p1 = (st, p2)" "rep n p2 (put_entries m (map pd_entry (lp_buffer l)))"
    using sync_law [OF p1(2)] by blast
  moreover obtain e err rest c' where
    "RegisterFlushedBatch (length (lp_buffer l)) (batch_bytes (lp_buffer l)) (map pd_callback (lp_buffer l)) now
      (the (lp_controller l)) = ((e, err, rest), c')" by (metis surj_pair)
  ultimately show ?thesis
    using p1(2) by (cases "lp_controller l") (auto simp: flush_settle_def recovered_def failed_def Let_def)
qed (use assms in \<open>auto simp: DoFlush_def\<close>)

lemma TruncateSuffix_law:
  assumes "lp_persister l = Some p" and "rep (Suc n) p m" and "f < U64" and "ok (FlushSync l)"
  shows "\<exists>p'. TruncateSuffix_lp P f l = (OK, l\<lparr>lp_persister := Some p'\<rparr>) \<and> rep n p' (m |` {..<f})"
proof -
  obtain p' where "p_truncate_suffix P f p = (OK, p')" "rep n p' (m |` {..<f})" using suffix_law [OF assms(2,3)] by blast
  then show ?thesis using assms(1,4) by (intro exI [of _ p']) (simp add: TruncateSuffix_lp_def on_persister_def)
qed

end

section \<open>Over the hybrid persister\<close>

lemma flush_keeps_state:
  assumes "lp_persister l = Some h" and "DoFlush (hybrid_ops lib io) disk now l = ((b, fired), l1)"
    and "lp_persister l1 = Some h1"
  shows "hy_state h1 = hy_state h"
proof -
  have a: "hy_state h' = hy_state h" if "AppendEntries_hy lib io es h = (st, h')" for es st and h' h :: "'a HybridPersister"
    using that by (cases "append_all_wal lib io es (hy_wal h)") (auto simp: AppendEntries_hy_def on_wal_def split: if_splits)
  have s: "hy_state h' = hy_state h" if "Sync_hy io h = (st, h')" for st and h' h :: "'a HybridPersister"
    using that by (cases "Sync_wal io (hy_wal h)") (auto simp: Sync_hy_def on_wal_def split: if_splits)
  show ?thesis
    using assms
    by (auto simp: DoFlush_def flush_take_def flush_store_def flush_settle_def WriteBatch_def hybrid_ops_def put_back_def
        failed_def recovered_def Let_def dest!: a s split: if_splits prod.splits option.splits bool.splits)
qed


end
