(* ===== verification/Log_Persister_Runs.thy ===== *)
theory Log_Persister_Runs
  imports Log_Persister "HOL-Library.Multiset"
begin

text \<open>
  The batched log persister with its background threads: the runs of all operations in any order (\<open>lp_run\<close>), with what
  can be observed of them, and what holds in every run about the callbacks of the entries. The last part has the
  behaviours that fall short of what the interface documents.
\<close>

section \<open>The threads together\<close>

text \<open>What can be observed: entries submitted with a callback, successful writes and syncs, and callbacks that run.\<close>

datatype 'c event = Submitted 'c RaftLogEntry | Wrote "RaftLogEntry list" | Synced | Fired 'c Status

text \<open>Where the flush thread is, and the end of the range the sync thread is syncing.\<close>

datatype 'c flusher = Idle | Taken "'c PendingEntry list" | Written "'c PendingEntry list"

record ('p, 'c) lp_system =
  sys_lp :: "('p, 'c) LogPersister"
  sys_flush :: "'c flusher"
  sys_sync :: "nat option"

definition submitted :: "'c option \<Rightarrow> RaftLogEntry \<Rightarrow> 'c event list" where
  "submitted cb e = (case cb of None \<Rightarrow> [] | Some c \<Rightarrow> [Submitted c e])"

definition fired_events :: "('c \<times> Status) list \<Rightarrow> 'c event list" where
  "fired_events fs = map (\<lambda>(c, st). Fired c st) fs"

definition synced :: "'p Persister \<Rightarrow> ('p, 'c) LogPersister \<Rightarrow> 'c event list" where
  "synced P l = (case lp_persister l of None \<Rightarrow> [] | Some p \<Rightarrow> if ok (fst (p_sync P p)) then [Synced] else [])"

text \<open>
  The runs: the operations of any thread and the steps of the two background threads, in any order. What the persister
  and the disk answer may change from step to step.
\<close>

inductive lp_run :: "('p, 'c) lp_system \<Rightarrow> 'c event list \<Rightarrow> bool" where
  new: "lp_run \<lparr>sys_lp = new_log_persister p conf now, sys_flush = Idle, sys_sync = None\<rparr> []"
| append: "lp_run s tr \<Longrightarrow> Append_lp e cb disk (sys_lp s) = (fired, l) \<Longrightarrow>
    lp_run (s\<lparr>sys_lp := l\<rparr>) (tr @ submitted cb e @ fired_events fired)"
| taken: "lp_run s tr \<Longrightarrow> sys_flush s = Idle \<Longrightarrow> flush_take (sys_lp s) = (batch, l) \<Longrightarrow>
    lp_run (s\<lparr>sys_lp := l, sys_flush := Taken batch\<rparr>) tr"
| store: "lp_run s tr \<Longrightarrow> sys_flush s = Taken batch \<Longrightarrow> flush_store P disk batch (sys_lp s) = ((written, fired), l) \<Longrightarrow>
    lp_run (s\<lparr>sys_lp := l, sys_flush := (if written then Written batch else Idle)\<rparr>)
      (tr @ (if written then [Wrote (map pd_entry batch)] else []) @ fired_events fired)"
| settle: "lp_run s tr \<Longrightarrow> sys_flush s = Written batch \<Longrightarrow> flush_settle P now batch (sys_lp s) = ((b, fired), l) \<Longrightarrow>
    lp_run (s\<lparr>sys_lp := l, sys_flush := Idle\<rparr>)
      (tr @ (if lp_controller (sys_lp s) = None then synced P (sys_lp s) else []) @ fired_events fired)"
| sync_start: "lp_run s tr \<Longrightarrow> sys_sync s = None \<Longrightarrow> sync_begin (sys_lp s) = (Some (a, e), l) \<Longrightarrow>
    lp_run (s\<lparr>sys_lp := l, sys_sync := Some e\<rparr>) tr"
| sync_end: "lp_run s tr \<Longrightarrow> sys_sync s = Some e \<Longrightarrow> sync_finish background P e now (sys_lp s) = (fired, l) \<Longrightarrow>
    lp_run (s\<lparr>sys_lp := l, sys_sync := None\<rparr>) (tr @ synced P (sys_lp s) @ fired_events fired)"
| request: "lp_run s tr \<Longrightarrow> lp_run (s\<lparr>sys_lp := Sync_request (sys_lp s)\<rparr>) tr"
| suffix: "lp_run s tr \<Longrightarrow> lp_run (s\<lparr>sys_lp := snd (TruncateSuffix_lp P f (sys_lp s))\<rparr>) tr"
| prefix: "lp_run s tr \<Longrightarrow> lp_run (s\<lparr>sys_lp := snd (TruncatePrefix_lp P f (sys_lp s))\<rparr>) tr"
| started: "lp_run s tr \<Longrightarrow> lp_run (s\<lparr>sys_lp := Start_lp P (sys_lp s)\<rparr>) tr"
| stopped: "lp_run s tr \<Longrightarrow> lp_run (s\<lparr>sys_lp := (sys_lp s)\<lparr>lp_running := False\<rparr>\<rparr>) tr"

subsection \<open>Acknowledged entries\<close>

text \<open>The entry submitted with the callback was written; and a sync came after that.\<close>

definition was_written :: "'c event list \<Rightarrow> 'c \<Rightarrow> bool" where
  "was_written tr c \<longleftrightarrow> (\<exists>e es. Submitted c e \<in> set tr \<and> Wrote es \<in> set tr \<and> e \<in> set es)"

definition was_durable :: "'c event list \<Rightarrow> 'c \<Rightarrow> bool" where
  "was_durable tr c \<longleftrightarrow> (\<exists>tr1 tr2. tr = tr1 @ Synced # tr2 \<and> was_written tr1 c)"

definition acked :: "'c event list \<Rightarrow> bool" where
  "acked tr \<longleftrightarrow> (\<forall>tr1 c tr2. tr = tr1 @ Fired c OK # tr2 \<longrightarrow> was_durable tr1 c)"

lemma written_mono: "was_written tr c \<Longrightarrow> was_written (tr @ tr') c"
  unfolding was_written_def by auto

lemma durable_mono:
  assumes "was_durable tr c"
  shows "was_durable (tr @ tr') c"
proof -
  obtain tr1 tr2 where "tr = tr1 @ Synced # tr2" "was_written tr1 c" using assms unfolding was_durable_def by blast
  then have "tr @ tr' = tr1 @ Synced # (tr2 @ tr')" "was_written tr1 c" by simp_all
  then show ?thesis unfolding was_durable_def by blast
qed

lemma durable_synced: "was_written tr c \<Longrightarrow> was_durable (tr @ Synced # tr') c"
  unfolding was_durable_def by (intro exI [of _ tr] exI [of _ tr']) simp

lemma acked_Nil [simp]: "acked []"
  by (simp add: acked_def)

lemma acked_snoc: "acked (tr @ [ev]) \<longleftrightarrow> acked tr \<and> (\<forall>c. ev = Fired c OK \<longrightarrow> was_durable tr c)"
proof
  assume a: "acked (tr @ [ev])"
  have "acked tr" unfolding acked_def
  proof (intro allI impI)
    fix tr1 c tr2 assume "tr = tr1 @ Fired c OK # tr2"
    then have "tr @ [ev] = tr1 @ Fired c OK # (tr2 @ [ev])" by simp
    then show "was_durable tr1 c" using a unfolding acked_def by blast
  qed
  then show "acked tr \<and> (\<forall>c. ev = Fired c OK \<longrightarrow> was_durable tr c)" using a unfolding acked_def by blast
next
  assume "acked tr \<and> (\<forall>c. ev = Fired c OK \<longrightarrow> was_durable tr c)"
  then show "acked (tr @ [ev])" unfolding acked_def by (auto simp: append_eq_append_conv2 append_eq_Cons_conv Cons_eq_append_conv)
qed

lemma acked_append:
  assumes "acked tr" and "\<And>c. Fired c OK \<in> set evs \<Longrightarrow> was_durable tr c"
  shows "acked (tr @ evs)"
  using assms
proof (induction evs rule: rev_induct)
  case (snoc ev evs)
  then have "acked (tr @ evs)" by simp
  moreover have "was_durable (tr @ evs) c" if "ev = Fired c OK" for c
    by (rule durable_mono, rule snoc.prems(2)) (simp add: that)
  ultimately show ?case using acked_snoc [of "tr @ evs" ev] by simp
qed simp

lemma fired_events_fire:
  "Fired c st \<in> set (fired_events (fire st' cbs)) \<longleftrightarrow> st = st' \<and> Some c \<in> set cbs"
  by (force simp: fired_events_def fire_def List.map_filter_def)


subsection \<open>What the steps of the controller do with callbacks\<close>

lemma pop_synced_callbacks:
  "pop_synced e d ps = (cbs, d', rest) \<Longrightarrow> map pe_callbacks ps = cbs @ map pe_callbacks rest"
proof (induction ps arbitrary: d cbs)
  case (Cons p ps)
  show ?case
  proof (cases "pe_epoch p \<le> e")
    case True
    then obtain cbs1 where "pop_synced e (pe_epoch p) ps = (cbs1, d', rest)" "cbs = pe_callbacks p # cbs1"
      using Cons.prems by (auto split: prod.splits)
    then show ?thesis using Cons.IH by simp
  qed (use Cons.prems in auto)
qed simp

definition batch_of :: "'c flusher \<Rightarrow> 'c PendingEntry list" where
  "batch_of f = (case f of Idle \<Rightarrow> [] | Taken b \<Rightarrow> b | Written b \<Rightarrow> b)"

definition pending_callbacks :: "('p, 'c) LogPersister \<Rightarrow> 'c option list" where
  "pending_callbacks l = (case lp_controller l of None \<Rightarrow> [] | Some g \<Rightarrow> concat (map pe_callbacks (gc_pending g)))"

definition lp_inv :: "('p, 'c) lp_system \<Rightarrow> 'c event list \<Rightarrow> bool" where
  "lp_inv s tr \<longleftrightarrow> acked tr \<and>
     (\<forall>b \<in> set (lp_buffer (sys_lp s) @ batch_of (sys_flush s)). \<forall>c. pd_callback b = Some c \<longrightarrow> Submitted c (pd_entry b) \<in> set tr) \<and>
     (\<forall>batch. sys_flush s = Written batch \<longrightarrow> Wrote (map pd_entry batch) \<in> set tr) \<and>
     (\<forall>es. Wrote es \<in> set tr \<longrightarrow> lp_persister (sys_lp s) \<noteq> None) \<and>
     (\<forall>c. Some c \<in> set (pending_callbacks (sys_lp s)) \<longrightarrow> was_written tr c)"

lemma success_callbacks:
  assumes "OnSyncSuccess e now g = (fired, g')"
  shows "\<exists>cbs. fired = fire OK cbs \<and> concat (map pe_callbacks (gc_pending g)) = cbs @ concat (map pe_callbacks (gc_pending g'))"
proof (cases "gc_sync_in_progress_end g = 0 \<or> e \<noteq> gc_sync_in_progress_end g")
  case True
  then show ?thesis using assms by (intro exI [of _ "[]"]) (auto simp: OnSyncSuccess_def fire_def List.map_filter_simps)
next
  case False
  obtain cbs d rest where p: "pop_synced e (gc_durable_epoch g) (gc_pending g) = (cbs, d, rest)" by (metis surj_pair)
  have "concat (map (fire OK) cbs) = fire OK (concat cbs)"
    by (induction cbs) (simp_all add: fire_def List.map_filter_def)
  then show ?thesis
    using assms False p pop_synced_callbacks [OF p] by (intro exI [of _ "concat cbs"]) (auto simp: OnSyncSuccess_def)
qed

lemma failure_callbacks:
  assumes "OnSyncFailure e st g = (fired, g')"
  shows "\<exists>cbs. fired = fire st cbs \<and> concat (map pe_callbacks (gc_pending g)) = cbs @ concat (map pe_callbacks (gc_pending g'))"
proof (cases "gc_sync_in_progress_end g = 0 \<or> e \<noteq> gc_sync_in_progress_end g")
  case True
  then show ?thesis using assms by (intro exI [of _ "[]"]) (auto simp: OnSyncFailure_def fire_def List.map_filter_simps)
next
  case False
  have "concat (map (\<lambda>p. fire st (pe_callbacks p)) ps) = fire st (concat (map pe_callbacks ps))" for ps :: "'a PendingEpoch list"
    by (induction ps) (simp_all add: fire_def List.map_filter_def)
  then show ?thesis using assms False
    by (intro exI [of _ "concat (map pe_callbacks (gc_pending g))"]) (auto simp: OnSyncFailure_def)
qed

text \<open>A sync runs a part of the pending callbacks, all with its status.\<close>

lemma sync_finish_callbacks:
  assumes "sync_finish background P e now l = (fired, l')"
  shows "\<exists>cbs. fired = fire (case lp_persister l of None \<Rightarrow> OK | Some p \<Rightarrow> fst (p_sync P p)) cbs \<and>
    pending_callbacks l = cbs @ pending_callbacks l'" "lp_buffer l' = lp_buffer l"
    "(lp_persister l' = None) = (lp_persister l = None)"
proof -
  let ?st = "case lp_persister l of None \<Rightarrow> OK | Some p \<Rightarrow> fst (p_sync P p)"
  show "lp_buffer l' = lp_buffer l" "(lp_persister l' = None) = (lp_persister l = None)"
    using assms by (auto simp: sync_finish_def failed_def split: option.splits prod.splits if_splits)
  show "\<exists>cbs. fired = fire ?st cbs \<and> pending_callbacks l = cbs @ pending_callbacks l'"
  proof (cases "lp_controller l")
    case None
    then show ?thesis
      using assms by (intro exI [of _ "[]"]) (auto simp: sync_finish_def fire_def List.map_filter_simps)
  next
    case (Some g)
    show ?thesis
    proof (cases "ok ?st")
      case True
      obtain fs g' where g': "OnSyncSuccess e now g = (fs, g')" by fastforce
      have "fired = fs" "lp_controller l' = Some g'" "?st = OK"
        using assms Some True g' by (auto simp: sync_finish_def ok_eq_OK split: option.splits prod.splits)
      then show ?thesis using success_callbacks [OF g'] Some by (simp add: pending_callbacks_def)
    next
      case False
      obtain fs g' where g': "OnSyncFailure e ?st g = (fs, g')" by fastforce
      have "fired = fs" "lp_controller l' = Some g'"
        using assms Some False g' by (auto simp: sync_finish_def failed_def split: option.splits prod.splits if_splits)
      then show ?thesis using failure_callbacks [OF g'] Some by (simp add: pending_callbacks_def)
    qed
  qed
qed

text \<open>Settling a batch hands its callbacks to the controller or runs them.\<close>

lemma flush_settle_callbacks:
  assumes "flush_settle P now batch l = ((b, fired), l')"
  shows "lp_buffer l' = lp_buffer l" "(lp_persister l' = None) = (lp_persister l = None)"
    "lp_controller l \<noteq> None \<Longrightarrow> (\<exists>st. \<not> ok st \<and> fired = fire st (map pd_callback batch) \<and> pending_callbacks l' = pending_callbacks l) \<or>
       fired = [] \<and> pending_callbacks l' = pending_callbacks l @ map pd_callback batch"
    "lp_controller l = None \<Longrightarrow> fired = fire (case lp_persister l of None \<Rightarrow> OK | Some p \<Rightarrow> fst (p_sync P p)) (map pd_callback batch) \<and>
       lp_controller l' = None"
proof -
  show "lp_buffer l' = lp_buffer l" "(lp_persister l' = None) = (lp_persister l = None)"
    using assms by (auto simp: flush_settle_def Let_def failed_def split: option.splits prod.splits if_splits)
  show "fired = fire (case lp_persister l of None \<Rightarrow> OK | Some p \<Rightarrow> fst (p_sync P p)) (map pd_callback batch) \<and> lp_controller l' = None"
    if "lp_controller l = None"
    using assms that by (auto simp: flush_settle_def Let_def failed_def ok_eq_OK split: option.splits prod.splits if_splits)
  assume "lp_controller l \<noteq> None"
  then obtain g where g: "lp_controller l = Some g" by blast
  show "(\<exists>st. \<not> ok st \<and> fired = fire st (map pd_callback batch) \<and> pending_callbacks l' = pending_callbacks l) \<or>
       fired = [] \<and> pending_callbacks l' = pending_callbacks l @ map pd_callback batch"
  proof (cases "gc_healthy g")
    case True
    then show ?thesis using assms g
      by (auto simp: flush_settle_def Let_def RegisterFlushedBatch_def failed_def pending_callbacks_def fire_def
          List.map_filter_simps split: if_splits)
  next
    case False
    define err where "err = (if ok (gc_last_error g) then Error ''Group commit controller is unhealthy'' [] else gc_last_error g)"
    have "\<not> ok err" by (simp add: err_def)
    moreover have "fired = fire err (map pd_callback batch)" "lp_controller l' = Some g"
      using assms g False by (auto simp: flush_settle_def Let_def RegisterFlushedBatch_def failed_def err_def)
    ultimately show ?thesis using g by (auto simp: pending_callbacks_def)
  qed
qed

subsection \<open>The invariant\<close>

lemma inv_I:
  assumes "acked tr"
    and "\<And>b c. b \<in> set (lp_buffer (sys_lp s)) \<or> b \<in> set (batch_of (sys_flush s)) \<Longrightarrow> pd_callback b = Some c \<Longrightarrow>
      Submitted c (pd_entry b) \<in> set tr"
    and "\<And>batch. sys_flush s = Written batch \<Longrightarrow> Wrote (map pd_entry batch) \<in> set tr"
    and "\<And>es. Wrote es \<in> set tr \<Longrightarrow> lp_persister (sys_lp s) \<noteq> None"
    and "\<And>c. Some c \<in> set (pending_callbacks (sys_lp s)) \<Longrightarrow> was_written tr c"
  shows "lp_inv s tr"
  using assms unfolding lp_inv_def by auto

lemma inv_D:
  assumes "lp_inv s tr"
  shows "acked tr"
    and "b \<in> set (lp_buffer (sys_lp s)) \<Longrightarrow> pd_callback b = Some c \<Longrightarrow> Submitted c (pd_entry b) \<in> set tr"
    and "b \<in> set (batch_of (sys_flush s)) \<Longrightarrow> pd_callback b = Some c \<Longrightarrow> Submitted c (pd_entry b) \<in> set tr"
    and "sys_flush s = Written batch \<Longrightarrow> Wrote (map pd_entry batch) \<in> set tr"
    and "Wrote es \<in> set tr \<Longrightarrow> lp_persister (sys_lp s) \<noteq> None"
    and "Some c \<in> set (pending_callbacks (sys_lp s)) \<Longrightarrow> was_written tr c"
  using assms unfolding lp_inv_def by auto

text \<open>A step that runs no callback and leaves the callbacks where they are.\<close>

lemma inv_keep:
  assumes "lp_inv s tr" and "lp_buffer l = lp_buffer (sys_lp s)" and "pending_callbacks l = pending_callbacks (sys_lp s)"
    and "(lp_persister l = None) = (lp_persister (sys_lp s) = None)"
  shows "lp_inv (s\<lparr>sys_lp := l\<rparr>) tr" "lp_inv (s\<lparr>sys_lp := l, sys_sync := x\<rparr>) tr"
  using assms unfolding lp_inv_def by simp_all

lemma Fired_not_OK: "\<not> ok st \<Longrightarrow> Fired c OK \<notin> set (fired_events (fire st cbs))"
  by (auto simp: fired_events_fire)

lemma append_outcome:
  assumes "Append_lp e cb disk l = (fired, l')"
  shows "fired = [] \<and> lp_buffer l' = lp_buffer l @ [\<lparr>pd_entry = e, pd_callback = cb\<rparr>] \<or>
      (\<exists>st. \<not> ok st \<and> fired = fire st [cb]) \<and> lp_buffer l' = lp_buffer l"
    and "lp_persister l' = lp_persister l" and "lp_controller l' = lp_controller l"
proof -
  show "fired = [] \<and> lp_buffer l' = lp_buffer l @ [\<lparr>pd_entry = e, pd_callback = cb\<rparr>] \<or>
      (\<exists>st. \<not> ok st \<and> fired = fire st [cb]) \<and> lp_buffer l' = lp_buffer l"
  proof (cases "lp_healthy l \<or> ok (CheckDiskSpace (lp_config l) disk)")
    case True
    then show ?thesis using assms by (auto simp: Append_lp_def push_back_def recovered_def split: if_splits)
  next
    case False
    define err where "err = Error (''Persister is unhealthy: '' @ lp_last_error l) []"
    have "Append_lp e cb disk l = (fire err [cb], l)" using False by (simp add: Append_lp_def err_def)
    then have "fired = fire err [cb]" "l' = l" using assms by simp_all
    moreover have "\<not> ok err" by (simp add: err_def)
    ultimately show ?thesis by blast
  qed
  show "lp_persister l' = lp_persister l" "lp_controller l' = lp_controller l"
    using assms by (auto simp: Append_lp_def push_back_def recovered_def split: if_splits)
qed

lemma inv_append:
  assumes i: "lp_inv s tr" and a: "Append_lp e cb disk (sys_lp s) = (fired, l)"
  shows "lp_inv (s\<lparr>sys_lp := l\<rparr>) (tr @ submitted cb e @ fired_events fired)"
proof -
  let ?tr = "tr @ submitted cb e @ fired_events fired"
  have f: "fired = [] \<and> lp_buffer l = lp_buffer (sys_lp s) @ [\<lparr>pd_entry = e, pd_callback = cb\<rparr>] \<or>
      (\<exists>st. \<not> ok st \<and> fired = fire st [cb]) \<and> lp_buffer l = lp_buffer (sys_lp s)"
    and k: "lp_persister l = lp_persister (sys_lp s)" "lp_controller l = lp_controller (sys_lp s)"
    using append_outcome [OF a] by blast+
  have n: "Fired c OK \<notin> set (submitted cb e @ fired_events fired)" for c
  proof -
    have "Fired c OK \<notin> set (fired_events fired)"
      using f by (elim disjE conjE exE) (simp_all add: Fired_not_OK, simp add: fired_events_def)
    then show ?thesis by (simp add: submitted_def split: option.splits)
  qed
  have w: "Wrote es \<notin> set (submitted cb e @ fired_events fired)" for es
    by (auto simp: submitted_def fired_events_def split: option.splits)
  show ?thesis
  proof (rule inv_I)
    show "acked ?tr" using acked_append [OF inv_D(1) [OF i]] n by blast
    show "Submitted c (pd_entry b) \<in> set ?tr"
      if "b \<in> set (lp_buffer (sys_lp (s\<lparr>sys_lp := l\<rparr>))) \<or> b \<in> set (batch_of (sys_flush (s\<lparr>sys_lp := l\<rparr>)))"
        and "pd_callback b = Some c" for b c
      using that f inv_D(2,3) [OF i] by (auto simp: submitted_def)
    show "was_written ?tr c" if "Some c \<in> set (pending_callbacks (sys_lp (s\<lparr>sys_lp := l\<rparr>)))" for c
      using that inv_D(6) [OF i] k(2) by (intro written_mono) (simp add: pending_callbacks_def)
  qed (use inv_D(4,5) [OF i] k(1) w in auto)
qed

lemma inv_take:
  assumes i: "lp_inv s tr" and f: "sys_flush s = Idle" and t: "flush_take (sys_lp s) = (batch, l)"
  shows "lp_inv (s\<lparr>sys_lp := l, sys_flush := Taken batch\<rparr>) tr"
proof -
  have l: "batch = lp_buffer (sys_lp s)" "l = (sys_lp s)\<lparr>lp_buffer := [], lp_flush_in_progress := True\<rparr>"
    using t by (simp_all add: flush_take_def)
  show ?thesis by (rule inv_I) (use inv_D [OF i] l in \<open>auto simp: batch_of_def pending_callbacks_def\<close>)
qed

lemma store_outcome:
  assumes "flush_store P disk batch l = ((w, fired), l')"
  shows "lp_controller l' = lp_controller l" "(lp_persister l' = None) = (lp_persister l = None)"
    "w \<Longrightarrow> fired = [] \<and> lp_buffer l' = lp_buffer l \<and> lp_persister l \<noteq> None"
    "\<not> w \<Longrightarrow> fired = [] \<and> lp_buffer l' = lp_buffer l @ batch \<or>
       (\<exists>st. \<not> ok st \<and> fired = fire st (map pd_callback batch)) \<and>
       lp_buffer l' = lp_buffer l @ map (\<lambda>b. b\<lparr>pd_callback := None\<rparr>) batch"
proof -
  show "lp_controller l' = lp_controller l" "(lp_persister l' = None) = (lp_persister l = None)"
    "w \<Longrightarrow> fired = [] \<and> lp_buffer l' = lp_buffer l \<and> lp_persister l \<noteq> None"
    using assms
    by (auto simp: flush_store_def WriteBatch_def put_back_def failed_def recovered_def Let_def
        split: if_splits prod.splits option.splits)
  assume w: "\<not> w"
  obtain st l2 where wb: "WriteBatch P (map pd_entry batch) (if lp_healthy l then l else recovered l) = (st, l2)" by fastforce
  have b: "lp_buffer l2 = lp_buffer l"
    using wb by (auto simp: WriteBatch_def recovered_def split: if_splits prod.splits option.splits)
  define err where "err = Error (''Flush failed: '' @ status_text st) []"
  have e: "\<not> ok err" by (simp add: err_def)
  show "fired = [] \<and> lp_buffer l' = lp_buffer l @ batch \<or>
       (\<exists>st. \<not> ok st \<and> fired = fire st (map pd_callback batch)) \<and>
       lp_buffer l' = lp_buffer l @ map (\<lambda>b. b\<lparr>pd_callback := None\<rparr>) batch"
  proof (cases "ok (CheckDiskSpace (lp_config l) disk)")
    case True
    then have f: "flush_store P disk batch l =
        (if \<not> ok st then ((False, fire err (map pd_callback batch)),
            put_back (map (\<lambda>b. b\<lparr>pd_callback := None\<rparr>) batch) (failed (status_text st) l2))
         else ((True, []), l2\<lparr>lp_total_flushed := u64_add (lp_total_flushed l2) (length batch),
            lp_total_flush_ops := u64_add (lp_total_flush_ops l2) 1\<rparr>))"
      using wb by (auto simp: flush_store_def Let_def err_def)
    have "fired = fire err (map pd_callback batch)" "lp_buffer l' = lp_buffer l @ map (\<lambda>b. b\<lparr>pd_callback := None\<rparr>) batch"
      using assms w b unfolding f by (auto simp: put_back_def failed_def split: if_splits)
    then show ?thesis using e by blast
  next
    case False
    then show ?thesis using assms by (auto simp: flush_store_def Let_def put_back_def failed_def)
  qed
qed

lemma inv_store:
  assumes i: "lp_inv s tr" and f: "sys_flush s = Taken batch" and t: "flush_store P disk batch (sys_lp s) = ((w, fired), l)"
  shows "lp_inv (s\<lparr>sys_lp := l, sys_flush := (if w then Written batch else Idle)\<rparr>)
      (tr @ (if w then [Wrote (map pd_entry batch)] else []) @ fired_events fired)"
proof -
  let ?tr = "tr @ (if w then [Wrote (map pd_entry batch)] else []) @ fired_events fired"
  note o = store_outcome [OF t]
  have n: "Fired c OK \<notin> set (fired_events fired)" for c
  proof (cases w)
    case True
    then show ?thesis using o(3) by (simp add: fired_events_def)
  next
    case False
    from o(4) [OF this] show ?thesis by (elim disjE conjE exE) (simp add: fired_events_def, simp add: Fired_not_OK)
  qed
  have w: "Wrote es \<notin> set (fired_events fired)" for es by (auto simp: fired_events_def)
  have sub: "Submitted c (pd_entry b) \<in> set tr" if "b \<in> set (lp_buffer (sys_lp s)) \<or> b \<in> set batch" "pd_callback b = Some c" for b c
    using that inv_D(2,3) [OF i] f by (auto simp: batch_of_def)
  show ?thesis
  proof (rule inv_I)
    show "acked ?tr" using acked_append [OF inv_D(1) [OF i], of "(if w then [Wrote (map pd_entry batch)] else []) @ fired_events fired"] n
      by (cases w) auto
    show "Submitted c (pd_entry b) \<in> set ?tr"
      if "b \<in> set (lp_buffer (sys_lp (s\<lparr>sys_lp := l, sys_flush := (if w then Written batch else Idle)\<rparr>))) \<or>
          b \<in> set (batch_of (sys_flush (s\<lparr>sys_lp := l, sys_flush := (if w then Written batch else Idle)\<rparr>)))"
        and "pd_callback b = Some c" for b c
      using that o(3,4) sub by (cases w) (auto simp: batch_of_def)
    show "was_written ?tr c" if "Some c \<in> set (pending_callbacks (sys_lp (s\<lparr>sys_lp := l, sys_flush := (if w then Written batch else Idle)\<rparr>)))" for c
      using that inv_D(6) [OF i] o(1) by (intro written_mono) (simp add: pending_callbacks_def)
  qed (use inv_D(5) [OF i] o w in \<open>auto split: if_splits\<close>)
qed

lemma inv_settle:
  assumes i: "lp_inv s tr" and f: "sys_flush s = Written batch" and t: "flush_settle P now batch (sys_lp s) = ((b, fired), l)"
  shows "lp_inv (s\<lparr>sys_lp := l, sys_flush := Idle\<rparr>)
      (tr @ (if lp_controller (sys_lp s) = None then synced P (sys_lp s) else []) @ fired_events fired)"
proof -
  let ?evs = "(if lp_controller (sys_lp s) = None then synced P (sys_lp s) else []) @ fired_events fired"
  note o = flush_settle_callbacks [OF t]
  have wr: "was_written tr c" if c: "Some c \<in> set (map pd_callback batch)" for c
  proof -
    obtain d where d: "d \<in> set batch" "pd_callback d = Some c" using c by auto
    then have "Submitted c (pd_entry d) \<in> set tr" using inv_D(3) [OF i] f by (simp add: batch_of_def)
    moreover have "pd_entry d \<in> set (map pd_entry batch)" using d(1) by simp
    ultimately show ?thesis using inv_D(4) [OF i f] unfolding was_written_def by blast
  qed
  obtain p where p: "lp_persister (sys_lp s) = Some p" using inv_D(5) [OF i inv_D(4) [OF i f]] by blast
  have ev: "Wrote es \<notin> set ?evs" for es by (auto simp: fired_events_def synced_def split: option.splits)
  have ack: "acked (tr @ ?evs)"
  proof (cases "lp_controller (sys_lp s) = None")
    case True
    then have fi: "fired = fire (fst (p_sync P p)) (map pd_callback batch)" using o(4) p by simp
    show ?thesis
    proof (cases "ok (fst (p_sync P p))")
      case True
      then have "acked ((tr @ [Synced]) @ fired_events fired)"
        using inv_D(1) [OF i] durable_synced [OF wr, of _ "[]"] unfolding fi
        by (intro acked_append) (auto simp: acked_snoc fired_events_fire)
      then show ?thesis using True p \<open>lp_controller (sys_lp s) = None\<close> by (simp add: synced_def)
    next
      case False
      then have "Fired c OK \<notin> set ?evs" for c using p Fired_not_OK by (simp add: synced_def fi)
      then show ?thesis using acked_append [OF inv_D(1) [OF i]] by blast
    qed
  next
    case False
    from o(3) [OF this] have "Fired c OK \<notin> set (fired_events fired)" for c
      by (elim disjE conjE exE) (simp add: Fired_not_OK, simp add: fired_events_def)
    then have "Fired c OK \<notin> set ?evs" for c using False by simp
    then show ?thesis using acked_append [OF inv_D(1) [OF i]] by blast
  qed
  have pend: "was_written tr c" if "Some c \<in> set (pending_callbacks l)" for c
  proof (cases "lp_controller (sys_lp s) = None")
    case True
    then show ?thesis using that o(4) by (simp add: pending_callbacks_def)
  next
    case False
    from o(3) [OF this] that have "Some c \<in> set (pending_callbacks (sys_lp s)) \<or> Some c \<in> set (map pd_callback batch)"
      by (elim disjE conjE exE) simp_all
    then show ?thesis using wr inv_D(6) [OF i] by blast
  qed
  show ?thesis
  proof (rule inv_I)
    show "acked (tr @ ?evs)" by (rule ack)
    show "was_written (tr @ ?evs) c" if "Some c \<in> set (pending_callbacks (sys_lp (s\<lparr>sys_lp := l, sys_flush := Idle\<rparr>)))" for c
      using that pend by (intro written_mono) simp
  qed (use inv_D(2,5) [OF i] o(1,2) ev in \<open>auto simp: batch_of_def\<close>)
qed

lemma inv_sync_end:
  assumes i: "lp_inv s tr" and t: "sync_finish background P e now (sys_lp s) = (fired, l)"
  shows "lp_inv (s\<lparr>sys_lp := l, sys_sync := None\<rparr>) (tr @ synced P (sys_lp s) @ fired_events fired)"
proof -
  let ?evs = "synced P (sys_lp s) @ fired_events fired"
  let ?st = "case lp_persister (sys_lp s) of None \<Rightarrow> OK | Some p \<Rightarrow> fst (p_sync P p)"
  note o = sync_finish_callbacks [OF t]
  obtain cbs where cbs: "fired = fire ?st cbs" "pending_callbacks (sys_lp s) = cbs @ pending_callbacks l" using o(1) by blast
  have ev: "Wrote es \<notin> set ?evs" for es by (auto simp: fired_events_def synced_def split: option.splits)
  have wr: "was_written tr c" if "Some c \<in> set cbs" for c using that cbs(2) inv_D(6) [OF i] by simp
  have "acked (tr @ ?evs)"
  proof (cases "synced P (sys_lp s) = [Synced]")
    case True
    have "acked ((tr @ [Synced]) @ fired_events fired)"
      using inv_D(1) [OF i] durable_synced [OF wr, of _ "[]"] unfolding cbs(1)
      by (intro acked_append) (auto simp: acked_snoc fired_events_fire)
    then show ?thesis using True by simp
  next
    case False
    have "Fired c OK \<notin> set (fired_events fired)" for c
    proof (cases "lp_persister (sys_lp s)")
      case None
      then show ?thesis using inv_D(5) [OF i] wr by (auto simp: cbs(1) fired_events_fire was_written_def)
    next
      case (Some p)
      then have "\<not> ok ?st" using False by (simp add: synced_def split: if_splits)
      then show ?thesis unfolding cbs(1) by (rule Fired_not_OK)
    qed
    then show ?thesis using inv_D(1) [OF i] by (intro acked_append) (auto simp: synced_def split: option.splits)
  qed
  then show ?thesis
  proof (rule inv_I)
    show "was_written (tr @ ?evs) c" if "Some c \<in> set (pending_callbacks (sys_lp (s\<lparr>sys_lp := l, sys_sync := None\<rparr>)))" for c
      using that inv_D(6) [OF i] cbs(2) by (intro written_mono) simp
  qed (use inv_D(2-5) [OF i] o(2,3) ev in auto)
qed


lemma run_inv: "lp_run s tr \<Longrightarrow> lp_inv s tr"
proof (induction rule: lp_run.induct)
  case (new p conf now)
  show ?case by (rule inv_I) (auto simp: new_log_persister_def batch_of_def pending_callbacks_def new_controller_def split: if_splits)
next
  case (append s tr e cb disk fired l)
  then show ?case by (intro inv_append)
next
  case (taken s tr batch l)
  then show ?case by (intro inv_take)
next
  case (store s tr batch P disk w fired l)
  then show ?case by (intro inv_store)
next
  case (settle s tr batch P now b fired l)
  show ?case by (rule inv_settle [OF settle.IH settle.hyps(2,3)])
next
  case (sync_start s tr a e l)
  have "lp_buffer l = lp_buffer (sys_lp s)" "pending_callbacks l = pending_callbacks (sys_lp s)" "lp_persister l = lp_persister (sys_lp s)"
    using sync_start.hyps(3)
    by (auto simp: sync_begin_def pending_callbacks_def AcquireSyncRange_def Let_def split: option.splits prod.splits if_splits)
  then show ?case by (intro inv_keep(2) [OF sync_start.IH]) simp_all
next
  case (sync_end s tr e background P now fired l)
  then show ?case by (intro inv_sync_end)
next
  case (request s tr)
  then show ?case
    by (intro inv_keep(1)) (auto simp: Sync_request_def pending_callbacks_def RequestSync_def split: option.splits)
next
  case (suffix s tr P f)
  then show ?case
    by (intro inv_keep(1)) (auto simp: TruncateSuffix_lp_def on_persister_def pending_callbacks_def split: option.splits prod.splits)
next
  case (prefix s tr P f)
  then show ?case
    by (intro inv_keep(1)) (auto simp: TruncatePrefix_lp_def on_persister_def pending_callbacks_def split: option.splits prod.splits)
next
  case (started s tr P)
  then show ?case by (intro inv_keep(1)) (auto simp: Start_lp_def pending_callbacks_def)
next
  case (stopped s tr)
  then show ?case by (intro inv_keep(1)) (auto simp: pending_callbacks_def)
qed


subsection \<open>Every callback runs once\<close>

definition callbacks :: "'c option list \<Rightarrow> 'c multiset" where
  "callbacks cbs = mset (List.map_filter id cbs)"

definition submitted_callbacks :: "'c event list \<Rightarrow> 'c multiset" where
  "submitted_callbacks tr = callbacks (map (\<lambda>ev. case ev of Submitted c e \<Rightarrow> Some c | _ \<Rightarrow> None) tr)"

definition fired_callbacks :: "'c event list \<Rightarrow> 'c multiset" where
  "fired_callbacks tr = callbacks (map (\<lambda>ev. case ev of Fired c st \<Rightarrow> Some c | _ \<Rightarrow> None) tr)"

definition waiting_callbacks :: "('p, 'c) lp_system \<Rightarrow> 'c multiset" where
  "waiting_callbacks s = callbacks (map pd_callback (lp_buffer (sys_lp s))) + callbacks (map pd_callback (batch_of (sys_flush s))) +
     callbacks (pending_callbacks (sys_lp s))"

lemma callbacks_simps [simp]:
  "callbacks [] = {#}" "callbacks (xs @ ys) = callbacks xs + callbacks ys"
  "callbacks (Some c # xs) = add_mset c (callbacks xs)" "callbacks (None # xs) = callbacks xs"
  by (simp_all add: callbacks_def List.map_filter_def)

lemma callbacks_None: "(\<And>x. x \<in> set xs \<Longrightarrow> f x = None) \<Longrightarrow> callbacks (map f xs) = {#}"
  by (induction xs) simp_all

lemma event_callbacks [simp]:
  "submitted_callbacks [] = {#}" "submitted_callbacks (tr @ tr') = submitted_callbacks tr + submitted_callbacks tr'"
  "fired_callbacks [] = {#}" "fired_callbacks (tr @ tr') = fired_callbacks tr + fired_callbacks tr'"
  "submitted_callbacks (submitted cb e) = callbacks [cb]" "fired_callbacks (submitted cb e) = {#}"
  "submitted_callbacks (synced P l) = {#}" "fired_callbacks (synced P l) = {#}"
  "submitted_callbacks (Wrote es # tr) = submitted_callbacks tr" "fired_callbacks (Wrote es # tr) = fired_callbacks tr"
  by (simp_all add: submitted_callbacks_def fired_callbacks_def submitted_def synced_def split: option.split)

lemma fired_fire [simp]:
  "fired_callbacks (fired_events (fire st cbs)) = callbacks cbs" "submitted_callbacks (fired_events fs) = {#}"
  "fired_callbacks (fired_events []) = {#}"
proof -
  show "submitted_callbacks (fired_events fs) = {#}"
    unfolding submitted_callbacks_def fired_events_def by (auto intro!: callbacks_None simp: comp_def)
  show "fired_callbacks (fired_events (fire st cbs)) = callbacks cbs"
    by (induction cbs) (auto simp: fired_callbacks_def fired_events_def fire_def callbacks_def List.map_filter_def)
qed (simp add: fired_events_def)

text \<open>
  C17: No callback is lost and none runs twice: in every run the callbacks submitted are the callbacks that have run and the
  ones waiting in the buffer, with the batch in flight, or for a sync, counted with their multiplicity.
\<close>

theorem callbacks_run_once:
  assumes "lp_run s tr"
  shows "submitted_callbacks tr = fired_callbacks tr + waiting_callbacks s"
  using assms
proof (induction rule: lp_run.induct)
  case (new p conf now)
  show ?case by (simp add: waiting_callbacks_def new_log_persister_def pending_callbacks_def new_controller_def batch_of_def)
next
  case (append s tr e cb disk fired l)
  note o = append_outcome [OF append.hyps(2)]
  have "pending_callbacks l = pending_callbacks (sys_lp s)" using o(3) by (simp add: pending_callbacks_def)
  then show ?case using o(1) append.IH by (elim disjE conjE exE) (simp_all add: waiting_callbacks_def)
next
  case (taken s tr batch l)
  then show ?case by (auto simp: waiting_callbacks_def flush_take_def batch_of_def pending_callbacks_def)
next
  case (store s tr batch P disk w fired l)
  note o = store_outcome [OF store.hyps(3)]
  have p: "pending_callbacks l = pending_callbacks (sys_lp s)" using o(1) by (simp add: pending_callbacks_def)
  have n: "callbacks (map pd_callback (map (\<lambda>b. b\<lparr>pd_callback := None\<rparr>) batch)) = {#}"
    unfolding map_map by (rule callbacks_None) simp
  show ?case
  proof (cases w)
    case True
    then show ?thesis using o(3) p store.IH store.hyps(2) by (simp add: waiting_callbacks_def batch_of_def)
  next
    case False
    from o(4) [OF this] show ?thesis
      using False p n store.IH store.hyps(2) by (elim disjE conjE exE) (simp_all add: waiting_callbacks_def batch_of_def)
  qed
next
  case (settle s tr batch P now b fired l)
  note o = flush_settle_callbacks [OF settle.hyps(3)]
  show ?case
  proof (cases "lp_controller (sys_lp s) = None")
    case True
    then show ?thesis
      using o(1,4) settle.IH settle.hyps(2) by (simp add: waiting_callbacks_def batch_of_def pending_callbacks_def)
  next
    case False
    from o(3) [OF this] show ?thesis
      using False o(1) settle.IH settle.hyps(2) by (elim disjE conjE exE) (simp_all add: waiting_callbacks_def batch_of_def)
  qed
next
  case (sync_start s tr a e l)
  then show ?case
    by (auto simp: waiting_callbacks_def sync_begin_def pending_callbacks_def AcquireSyncRange_def Let_def
        split: option.splits prod.splits if_splits)
next
  case (sync_end s tr e background P now fired l)
  obtain cbs where "fired = fire (case lp_persister (sys_lp s) of None \<Rightarrow> OK | Some p \<Rightarrow> fst (p_sync P p)) cbs"
      "pending_callbacks (sys_lp s) = cbs @ pending_callbacks l" "lp_buffer l = lp_buffer (sys_lp s)"
    using sync_finish_callbacks [OF sync_end.hyps(3)] by blast
  then show ?case using sync_end.IH by (simp add: waiting_callbacks_def)
next
  case (request s tr)
  then show ?case by (auto simp: waiting_callbacks_def Sync_request_def pending_callbacks_def RequestSync_def split: option.splits)
next
  case (suffix s tr P f)
  then show ?case
    by (auto simp: waiting_callbacks_def TruncateSuffix_lp_def on_persister_def pending_callbacks_def split: option.splits prod.splits)
next
  case (prefix s tr P f)
  then show ?case
    by (auto simp: waiting_callbacks_def TruncatePrefix_lp_def on_persister_def pending_callbacks_def split: option.splits prod.splits)
next
  case (started s tr P)
  then show ?case by (auto simp: waiting_callbacks_def Start_lp_def pending_callbacks_def)
next
  case (stopped s tr)
  then show ?case by (simp add: waiting_callbacks_def pending_callbacks_def)
qed


section \<open>Where the code falls short\<close>

text \<open>
  A batch that could not be written goes behind the entries appended meanwhile, and without its callbacks: the next
  batch has the newer entry first.
\<close>

lemma failed_batch_goes_behind:
  assumes "flush_take l = (batch, l1)" and "lp_healthy l" and "Append_lp e cb disk l1 = (fired, l2)"
    and "flush_store P disk' batch l2 = ((False, fired'), l3)" and "ok (CheckDiskSpace (lp_config l) disk')"
  shows "lp_buffer l3 = \<lparr>pd_entry = e, pd_callback = cb\<rparr> # map (\<lambda>b. b\<lparr>pd_callback := None\<rparr>) batch"
proof -
  have l1: "lp_buffer l1 = []" "lp_healthy l1" "lp_config l1 = lp_config l" using assms(1,2) by (auto simp: flush_take_def)
  then have l2: "lp_buffer l2 = [\<lparr>pd_entry = e, pd_callback = cb\<rparr>]" "lp_config l2 = lp_config l"
    using assms(3) by (auto simp: Append_lp_def push_back_def)
  obtain st l4 where w: "WriteBatch P (map pd_entry batch) (if lp_healthy l2 then l2 else recovered l2) = (st, l4)" by fastforce
  then have "lp_buffer l4 = lp_buffer l2"
    by (auto simp: WriteBatch_def recovered_def split: if_splits prod.splits option.splits)
  moreover have "l3 = put_back (map (\<lambda>b. b\<lparr>pd_callback := None\<rparr>) batch) (failed (status_text st) l4)"
    using assms(4,5) w l2(2) by (auto simp: flush_store_def Let_def split: if_splits)
  ultimately show ?thesis using l2(1) by (simp add: put_back_def failed_def)
qed

text \<open>
  With the policy of syncing at thresholds, a timeout of the wait, which is one millisecond, syncs whatever there is.
\<close>

lemma batch_size_policy_syncs_below_thresholds:
  assumes "lp_controller l = Some c" and "lp_running l" and "lc_sync_policy (gc_config c) = kSyncByBatchSize"
    and "gc_healthy c" and "gc_pending c \<noteq> []" and "gc_sync_in_progress_end c = 0" and "\<not> gc_sync_requested c"
    and "UnsyncedEntryCountLocked c < lc_group_commit_max_entries (gc_config c)"
    and "UnsyncedByteCountLocked c < lc_group_commit_max_bytes (gc_config c)"
  shows "\<not> ShouldSyncNow now c" and "NextSyncDelay now c = 1"
    and "BackgroundSyncLoop_round P now l =
      sync_finish True P (pe_epoch (last (gc_pending c))) now (snd (sync_begin l))"
  using assms
  by (simp_all add: ShouldSyncNow_def NextSyncDelay_def IsSyncPolicyEnabled_def BackgroundSyncLoop_round_def sync_begin_def
      AcquireSyncRange_def Let_def)

text \<open>
  A failed sync is final: the controller never gets healthy again, and every later batch is written but reported as
  failed, even after \<open>Append\<close> has declared the persister recovered.
\<close>

lemma controller_never_recovers:
  assumes "lp_controller l = Some c" and "\<not> gc_healthy c"
  shows "\<exists>st l'. flush_settle P now batch l = ((True, fire st (map pd_callback batch)), l') \<and> \<not> ok st \<and>
    lp_controller l' = Some c"
proof -
  define err where "err = (if ok (gc_last_error c) then Error ''Group commit controller is unhealthy'' [] else gc_last_error c)"
  have "\<not> ok err" by (simp add: err_def)
  moreover have "RegisterFlushedBatch n b cbs now c = ((0, err, cbs), c)" for n b cbs
    using assms(2) by (simp add: RegisterFlushedBatch_def err_def)
  ultimately show ?thesis using assms(1) by (intro exI [of _ err]) (simp add: flush_settle_def Let_def failed_def)
qed

text \<open>When the disk is full at the end, \<open>Stop\<close> runs none of the callbacks that wait in the buffer.\<close>

lemma stop_leaves_callbacks:
  assumes "lp_running l" and "lp_buffer l \<noteq> []" and "\<not> ok (CheckDiskSpace (lp_config l) disk)" and "lp_controller l = None"
  shows "\<exists>l'. Stop_lp P disk now l = ([], l') \<and> lp_buffer l' = lp_buffer l"
  using assms by (auto simp: Stop_lp_def DoFlush_def flush_take_def flush_store_def put_back_def failed_def Let_def)

text \<open>
  When the last entry cannot be read, for whatever reason, the whole log is treated as empty.
\<close>

lemma unreadable_last_entry_hides_log:
  assumes "lp_persister l = Some h" and "hy_opened h" and "fst (GetEntry_wal lib io (snd (GetLogRange (hy_wal h))) (hy_wal h)) = Inl st"
    and "0 < start"
  shows "\<exists>l'. Restore (hybrid_ops lib io) start l = Some ([], l')"
proof -
  obtain w where "GetEntry_wal lib io (snd (GetLogRange (hy_wal h))) (hy_wal h) = (Inl st, w)"
    using assms(3) by (metis prod.collapse)
  then obtain h' where "GetLastLogInfo_hy lib io h = ((0, 0), h')"
    using assms(2) by (cases "snd (GetLogRange (hy_wal h)) = 0") (simp_all add: GetLastLogInfo_hy_def)
  then show ?thesis using assms(1,4) by (simp add: Restore_def hybrid_ops_def)
qed

section \<open>An example\<close>

text \<open>A persister whose state is the list of what was written.\<close>

definition ex_persister :: "RaftLogEntry list Persister" where
  "ex_persister = \<lparr>p_append = (\<lambda>es p. (OK, p @ es)), p_sync = (\<lambda>p. (OK, p)), p_get_entries = (\<lambda>a b p. ((OK, p), p)),
     p_truncate_suffix = (\<lambda>f p. (OK, p)), p_truncate_prefix = (\<lambda>b p. (OK, p)), p_last_log_info = (\<lambda>p. ((0, 0), p)),
     p_set_sync_on_write = (\<lambda>sync p. p)\<rparr>"

lemma ex_run: "\<exists>s :: (RaftLogEntry list, nat) lp_system.
    lp_run s ([Submitted 7 ex_entry, Wrote [ex_entry], Synced] @ Fired 7 OK # []) \<and> waiting_callbacks s = {#}"
proof -
  define l0 :: "(RaftLogEntry list, nat) LogPersister" where "l0 = new_log_persister (Some []) default_config 0"
  define b where "b = [\<lparr>pd_entry = ex_entry, pd_callback = Some (7 :: nat)\<rparr>]"
  define l1 where "l1 = push_back ex_entry (Some 7) l0"
  define l2 where "l2 = snd (flush_take l1)"
  define l3 where "l3 = snd (flush_store ex_persister None b l2)"
  define l4 where "l4 = snd (flush_settle ex_persister 0 b l3)"
  define l5 where "l5 = snd (sync_begin l4)"
  define l6 where "l6 = snd (sync_finish True ex_persister 1 0 l5)"
  note d = l0_def l1_def l2_def l3_def l4_def l5_def b_def new_log_persister_def push_back_def flush_take_def flush_store_def
    flush_settle_def sync_begin_def CheckDiskSpace_def default_config_def WriteBatch_def ex_persister_def Let_def
    RegisterFlushedBatch_def new_controller_def AcquireSyncRange_def u64_add_def U64_def
  let ?s = "\<lambda>l f y. \<lparr>sys_lp = l, sys_flush = f, sys_sync = y\<rparr>"
  have r0: "lp_run (?s l0 Idle None) []" unfolding l0_def by (rule lp_run.new)
  have "Append_lp ex_entry (Some 7) None l0 = ([], l1)" by (simp add: Append_lp_def l1_def l0_def new_log_persister_def)
  from lp_run.append [OF r0, simplified, OF this] have r1: "lp_run (?s l1 Idle None) [Submitted 7 ex_entry]"
    by (simp add: submitted_def fired_events_def)
  have "flush_take l1 = (b, l2)" by (simp add: l2_def flush_take_def l1_def push_back_def l0_def new_log_persister_def b_def)
  from lp_run.taken [OF r1, simplified, OF this] have r2: "lp_run (?s l2 (Taken b) None) [Submitted 7 ex_entry]" .
  have "flush_store ex_persister None b l2 = ((True, []), l3)" by (simp add: d)
  from lp_run.store [OF r2, simplified, OF refl this] have
    r3: "lp_run (?s l3 (Written b) None) [Submitted 7 ex_entry, Wrote [ex_entry]]" by (simp add: fired_events_def b_def)
  have "flush_settle ex_persister 0 b l3 = ((True, []), l4)" "lp_controller l3 \<noteq> None" by (simp_all add: d)
  from lp_run.settle [OF r3, simplified, OF refl this(1)] this(2) have
    r4: "lp_run (?s l4 Idle None) [Submitted 7 ex_entry, Wrote [ex_entry]]" by (simp add: fired_events_def)
  have "sync_begin l4 = (Some (1, 1), l5)" by (simp add: d)
  from lp_run.sync_start [OF r4, simplified, OF this] have
    r5: "lp_run (?s l5 Idle (Some 1)) [Submitted 7 ex_entry, Wrote [ex_entry]]" .
  have f: "sync_finish True ex_persister 1 0 l5 = ([(7, OK)], l6)" "synced ex_persister l5 = [Synced]" "pending_callbacks l6 = []"
    "lp_buffer l6 = []"
    by (simp_all add: l6_def sync_finish_def OnSyncSuccess_def fire_def List.map_filter_simps synced_def pending_callbacks_def d)
  then have "lp_run (?s l6 Idle None) ([Submitted 7 ex_entry, Wrote [ex_entry], Synced] @ Fired 7 OK # [])"
    using lp_run.sync_end [OF r5, of 1 True ex_persister 0 "[(7, OK)]" l6] by (simp add: fired_events_def)
  moreover have "waiting_callbacks (?s l6 Idle None) = {#}" by (simp add: waiting_callbacks_def f(3,4) batch_of_def)
  ultimately show ?thesis by blast
qed


theorem callbacks_run_once_witness:
  "\<exists>(s :: (RaftLogEntry list, nat) lp_system) tr. lp_run s tr \<and> waiting_callbacks s = {#} \<and>
     fired_callbacks tr = {#7#} \<and> submitted_callbacks tr = {#7#}"
proof -
  let ?tr = "[Submitted (7 :: nat) ex_entry, Wrote [ex_entry], Synced] @ Fired 7 OK # []"
  obtain s :: "(RaftLogEntry list, nat) lp_system" where s: "lp_run s ?tr" "waiting_callbacks s = {#}" using ex_run by blast
  have "submitted_callbacks ?tr = {#7#}" by (simp add: submitted_callbacks_def)
  then show ?thesis using s callbacks_run_once [OF s(1)] by (intro exI [of _ s] exI [of _ ?tr]) simp
qed

text \<open>The example of the hybrid persister, with one entry in the buffer.\<close>

definition ex_lp :: "((string \<times> string) list HybridPersister, nat) LogPersister" where
  "ex_lp = push_back ex_entry None (new_log_persister (Some ex_hybrid) default_config 0)"


end
