(* ===== verification/Spec2Isabelle.thy ===== *)
theory Spec2Isabelle
  imports Client Wal_Crash Wal_Gc Log_Persister_Runs
begin

text \<open>
  A verification development for rollingraft, a Raft consensus library in C++. File names are relative to the
  repository: \<open>src/raft_log.cpp\<close> is \<open>src/src/raft_log.cpp\<close> here, and the public headers are in
  \<open>include/rollingraft\<close>.

  \<^bold>\<open>The program.\<close> A node runs one Raft group. \<open>RaftNodeImpl\<close> holds the state of the group and its handlers: timers
  and elections, replication, commit and apply, snapshots, membership changes, proposals and linearizable reads. Messages
  arrive through \<open>HandleIncomingRpc\<close>, which checks who is calling, reads the JSON text and calls the handler. The log is
  an in-memory deque; its entries go to \<open>LogPersister\<close>, which batches them, writes them through the interface
  \<open>Persister\<close> and syncs them under the direction of \<open>GroupCommitController\<close>. The default implementation of the interface
  is \<open>HybridPersister\<close>: entries in the write-ahead log \<open>WALPersister\<close>, term, vote, membership and snapshots in a LevelDB
  database, \<open>StatePersister\<close>. A client program uses the class \<open>Client\<close>, which finds the leader and retries.

  \<^bold>\<open>How the code is represented.\<close>
  \<^item> A class is a record, a method a function on it that has the method's branches and early returns; a method that
    waits is one function up to the wait and one after it. The state of a node is one record, \<open>RaftNode\<close>, for
    \<open>RaftGroup\<close> and \<open>RaftNodeImpl\<close> together. The names of the code are kept, with a suffix where two classes use
    the same one (\<open>_wal\<close>, \<open>_sp\<close>, \<open>_hy\<close>, \<open>_lp\<close>).
  \<^item> What a node asks of its surroundings (messages, timers, log writes, callbacks) is appended to the field \<open>out\<close>; what the
    surroundings answer during a call is the argument \<open>Env\<close>, and \<open>Boot\<close> during \<open>Start\<close>.
  \<^item> \<open>None\<close> as the result of a handler is an abort, an exception that leaves a thread, a thread that locks a mutex it
    holds, or undefined behaviour. Errors that the code returns are values of \<open>Status\<close>, at the level of its bytes.
  \<^item> Terms and indexes are natural numbers with the wrap-around of \<open>uint32_t\<close> and \<open>uint64_t\<close> written out
    (\<open>u32_add\<close>, \<open>u64_add\<close>); the checksums use machine words; times are integers in nanoseconds.
  \<^item> Libraries outside the repository are parameters with their documented behaviour as named hypotheses: LevelDB
    (\<open>leveldb_ok\<close>), the JSON library and protobuf (\<open>wal_lib_ok\<close>, \<open>parses_back\<close> and the laws in \<open>Json_Protocol\<close>),
    OpenSSL, the file system's failures (\<open>WalIO\<close>, \<open>io_fine\<close>), clocks and random numbers. The witnesses instantiate them.

  \<^bold>\<open>The theories of the node.\<close>
  \<^item> \<open>Prelude\<close>, \<open>Status_Model\<close> (\<open>status.h\<close>, \<open>status.cpp\<close>), \<open>Text_Model\<close> (the parts of the C++ library for numbers and
    strings): shared vocabulary, the arithmetic and the association lists, with the simplification rules the others use.
  \<^item> \<open>Raft_Log\<close> (\<open>raft_log.cpp\<close>): every method keeps the class invariant and refines a partial map; the locale
    \<open>log_store\<close> is what replication relies on.
  \<^item> \<open>Cluster_Config\<close> (\<open>ClusterConfig\<close>, \<open>QuorumSatisfied\<close>): quorums meet (locale \<open>quorum\<close>), also across a joint change.
  \<^item> \<open>Runtime_Config\<close>, \<open>Client_Sessions\<close> (\<open>runtime_config.cpp\<close>, \<open>client_session_manager.cpp\<close>): updates are all or
    nothing; the session table and its LRU list stay consistent.
  \<^item> \<open>Rpc_Messages\<close>, \<open>Raft_Group\<close>, \<open>Node_State\<close>, \<open>Example_Node\<close> (\<open>rpc.h\<close>, \<open>raft_group.h\<close>, \<open>raft_node_impl.h\<close>,
    \<open>quiesced_mode.cpp\<close>): messages, state, construction, timers, and the example nodes of the witnesses.
  \<^item> \<open>Replication_Send\<close>, \<open>Replication_Responses\<close>, \<open>Append_Entries\<close> (\<open>log_replicator.cpp\<close> and \<open>HandleAppendEntries\<close>):
    what is sent, that a broadcast ends with full pipelines, when a request is accepted, that the follower's log then holds the
    leader's entries, that repetitions do no harm, and the retry and CheckQuorum logic.
  \<^item> \<open>Applier\<close> (\<open>TryCommitLocked\<close>, \<open>ApplyCommittedLocked\<close>, configuration commands): commits need a quorum and an entry
    of the current term; committed entries are handed on once and in order.
  \<^item> \<open>Ballot_Frame\<close>, \<open>Election\<close>, \<open>Votes\<close>, \<open>Election_Safety\<close> (\<open>election_manager.cpp\<close> and the vote handlers): a granted vote is
    durable and the only one of its term; and for a cluster of nodes with an unreliable network and restarts
    (\<open>cluster_step\<close>, \<open>reachable\<close>), at most one node leads a term.
  \<^item> \<open>Snapshots\<close> (\<open>snapshot_manager.cpp\<close>, \<open>HandleInstallSnapshot\<close>), \<open>Membership\<close>, \<open>Proposals\<close>, \<open>Reads\<close>, \<open>Lifecycle\<close>
    (\<open>raft_node_core.cpp\<close>, \<open>state_machine_applier.cpp\<close>, \<open>HandleClientRequest\<close>): a transfer in chunks installs the snapshot;
    the outcome of proposals and membership operations on every branch; reads ask a majority; the apply thread runs tasks
    once and in order; a restart gives back ballot and log; a stop answers every caller.
  \<^item> \<open>Json_Protocol\<close>, \<open>Rpc_Dispatch\<close>, \<open>Tls_Identity\<close> (\<open>json_protocol.cpp\<close>, \<open>client_authorization.cpp\<close>,
    \<open>HandleIncomingRpc\<close>, \<open>tls_identity.cpp\<close>): messages survive serialization; only permitted callers change a node; a
    certificate is accepted exactly when it has one valid identity.
  \<^item> \<open>Client\<close> (\<open>client.cpp\<close>, \<open>client/leader_tracker.cpp\<close>, \<open>client/retry_policy.cpp\<close>): a success is a server's answer to this
    very request, the number of exchanges is bounded, asynchronous callbacks run once; and, together with
    \<open>HandleClientRequest\<close>, that the first command of a new client is not executed.

  \<^bold>\<open>The theories of the storage.\<close>
  \<^item> \<open>Crc32\<close>, \<open>Sha256\<close>, \<open>Wal_Codec\<close>: the checksums equal their reference definitions; Base64 round trip.
  \<^item> \<open>Wal_Index\<close>, \<open>Wal_Records\<close>, \<open>Wal_Persister\<close>, \<open>Wal_Invariant\<close>, \<open>Wal_Recovery\<close>, \<open>Wal_Crash\<close>, \<open>Wal_Gc\<close>
    (\<open>wal_persister.cpp\<close>): the state is the bytes of the files together with the members of the class. The invariant
    \<open>wal_inv\<close> relates it to a partial map from indexes to entries; every operation refines the operation on the map;
    reopening, from a checkpoint or by scanning, gives the same map; a torn record is dropped; collection keeps entries.
  \<^item> \<open>Level_Db\<close>, \<open>State_Persister\<close> (\<open>state_persister.cpp\<close>): saved state and streamed snapshots are read back, and a
    failed save leaves the old snapshot.
  \<^item> \<open>Persister_Api\<close>, \<open>Hybrid_Persister\<close> (\<open>persister.h\<close>, \<open>hybrid_persister.cpp\<close>): the contract of a persister (locale
    \<open>durable_log\<close>), and that the hybrid persister keeps it.
  \<^item> \<open>Group_Commit\<close>, \<open>Log_Persister\<close>, \<open>Log_Persister_Runs\<close> (\<open>group_commit_controller.cpp\<close>, \<open>log_persister.cpp\<close>): the
    critical sections of the threads as steps, in any order (\<open>lp_run\<close>): a success is reported only after a write and a
    later sync, callbacks are neither lost nor repeated, and flushed entries are restored after a restart.

  \<^bold>\<open>Bounds and termination.\<close> Every function is total except \<open>restore_loop\<close>, a \<open>partial_function\<close> whose result is shown
  to exist where it is used. \<open>ApplyCommittedLocked\<close> bounds its loop by the distance from the last handed-on entry to the commit index,
  which is how often the code's loop can run as each round advances by one; \<open>load_chunks\<close> by \<open>2^32\<close> rounds, after
  which the code's counter repeats and the loop cannot end. The loops \<open>pop_back_to\<close>, \<open>fill_pipeline\<close>,
  \<open>process_chunks\<close> and \<open>read_snapshot\<close> have termination proofs. Hypotheses such as \<open>n < U32\<close> exclude the overflow of
  indexes, which the code does not handle.

  \<^bold>\<open>Behaviours that fall short.\<close> Lemmas whose names state a failure (\<open>stale_response_commits\<close>,
  \<open>commit_passes_verified_entries\<close>, \<open>missing_trailer_blocks_open\<close>, \<open>failed_batch_goes_behind\<close>, \<open>first_command_is_lost\<close> and
  others) exhibit states in which the code does not do what its documentation, or Raft, asks for. Because of them log matching and
  state machine safety of the whole cluster do not hold of this code and are not stated; what holds of the log is stated per handler.

  \<^bold>\<open>Not modelled.\<close> Sockets, TLS contexts and timers (\<open>asio_network_transport.cpp\<close>, \<open>asio_ssl_context_factory.cpp\<close>,
  \<open>asio_timer_service.cpp\<close>, \<open>rpc_client.cpp\<close>, \<open>client/connection_pool.cpp\<close>): they are calls of ASIO and OpenSSL; the
  models assume nothing of the network but that an answer belongs to a request. \<open>leveldb_persister.cpp\<close>, the
  alternative to the hybrid persister, is calls of LevelDB throughout. \<open>raft_store.cpp\<close>, \<open>shared_node_infra.h\<close> and
  \<open>multi_raft_persister.cpp\<close> run several groups that share no Raft state beside each other. \<open>raft_node.cpp\<close> only forwards.
  Metrics, events and logging are written and never read back by the code. Of the modelled classes, the interleaving of
  handlers between two critical sections of one handler is left out where its theory says so; numbers with a fraction
  in JSON, and exceptions for lack of memory, are left out everywhere.
\<close>

end
